(* ===== verification/Prelude.thy ===== *)
theory Prelude
  imports Complex_Main "HOL-Library.Char_ord" "HOL-Library.List_Lexorder"
    "HOL-Library.Product_Lexorder" "HOL-Library.Sublist" "HOL-Library.Multiset" "HOL-Library.AList"
begin

section \<open>Shared definitions: Python values, strings, slices, sorting\<close>

text \<open>
  What every component of the model shares: the values a dynamically typed argument can
  hold (\<open>pyval\<close>), the exceptions the code raises (\<open>py_error\<close>), the string, slice and
  sort operations of Python with the edge cases the sources run into, and generic facts
  about them.

  Conventions of the whole development.
  \<^item> A \<open>datetime\<close> is an \<open>int\<close> of microseconds since the epoch in UTC, the resolution
    Python gives it; a reading of the monotonic clock or of \<open>time.time()\<close> is a
    \<open>rat\<close> of seconds. Every reading the code takes is an argument of the operation, one
    argument per call of the clock.
  \<^item> A \<open>Decimal\<close> or \<open>float\<close> amount is a \<open>rat\<close>: arithmetic is exact, rounding to
    28 digits or to binary64 is not modelled, and neither are the values NaN and infinity.
  \<^item> An identifier drawn by \<open>uuid4\<close> is an argument of the operation that draws it.
  \<^item> An exception is the left value of a sum.
  \<^item> A string is a list of code points below 256.
\<close>

named_theorems strip_simps \<open>rewriting of the string normalisations\<close>
named_theorems frame_simps \<open>fields an operation leaves alone\<close>

type_synonym micros = int
type_synonym seconds = rat
type_synonym money = rat
type_synonym uuid = string

text \<open>Microseconds in \<open>n\<close> seconds: \<open>timedelta(seconds=n)\<close>.\<close>

definition secs :: "int \<Rightarrow> micros" where
  "secs n = n * 1000000"

subsection \<open>Dates\<close>

text \<open>
  A \<open>date\<close> is its year, month and day; \<open>days_of\<close> is the proleptic Gregorian day number that
  \<open>datetime\<close> uses, counted from 1970-01-01, a Thursday. \<open>day_start\<close> and \<open>day_end\<close> are
  \<open>datetime.combine(d, time.min)\<close> and \<open>datetime.combine(d, time.max)\<close> in UTC.
\<close>

type_synonym date = "int \<times> int \<times> int"

definition days_of :: "date \<Rightarrow> int" where
  "days_of d = (case d of (y, m, dd) \<Rightarrow>
     let y' = (if m \<le> 2 then y - 1 else y);
         era = y' div 400;
         yoe = y' - era * 400;
         doy = (153 * (if m > 2 then m - 3 else m + 9) + 2) div 5 + dd - 1;
         doe = yoe * 365 + yoe div 4 - yoe div 100 + doy
     in era * 146097 + doe - 719468)"

definition day_micros :: micros where
  "day_micros = 86400000000"

definition day_start :: "date \<Rightarrow> micros" where
  "day_start d = days_of d * day_micros"

definition day_end :: "date \<Rightarrow> micros" where
  "day_end d = days_of d * day_micros + day_micros - 1"

definition first_of_month :: "date \<Rightarrow> date" where
  "first_of_month d = (case d of (y, m, _) \<Rightarrow> (y, m, 1))"

subsection \<open>Errors and dynamically typed values\<close>

datatype py_error =
    ValueError string
  | TypeError string
  | KeyError string
  | IndexError string
  | AttributeError string
  | ArithmeticError string
  | RuntimeError string

datatype pyval =
    PNone
  | PBool bool
  | PInt int
  | PFloat rat
  | PStr string
  | PList "pyval list"
  | PTuple "pyval list"
  | PSet "pyval list"
  | PDict "(pyval \<times> pyval) list"
  | PObject string

text \<open>Run \<open>f\<close> on the value of a call that did not raise.\<close>

definition and_then :: "'e + 'a \<Rightarrow> ('a \<Rightarrow> 'e + 'b) \<Rightarrow> 'e + 'b" where
  "and_then m f = (case m of Inl e \<Rightarrow> Inl e | Inr v \<Rightarrow> f v)"

lemma and_then_simps [simp]: "and_then (Inl e) f = Inl e" "and_then (Inr v) f = f v"
  by (simp_all add: and_then_def)

lemma and_then_Inr_iff: "and_then m f = Inr y \<longleftrightarrow> (\<exists>v. m = Inr v \<and> f v = Inr y)"
  by (cases m) simp_all

text \<open>\<open>bool(v)\<close>; an instance of another class is true.\<close>

fun truthy :: "pyval \<Rightarrow> bool" where
  "truthy PNone = False"
| "truthy (PBool b) = b"
| "truthy (PInt i) = (i \<noteq> 0)"
| "truthy (PFloat r) = (r \<noteq> 0)"
| "truthy (PStr s) = (s \<noteq> [])"
| "truthy (PList xs) = (xs \<noteq> [])"
| "truthy (PTuple xs) = (xs \<noteq> [])"
| "truthy (PSet xs) = (xs \<noteq> [])"
| "truthy (PDict kvs) = (kvs \<noteq> [])"
| "truthy (PObject t) = True"

fun is_dict :: "pyval \<Rightarrow> bool" where
  "is_dict (PDict kvs) = True"
| "is_dict v = False"

text \<open>
  \<open>d.get(k)\<close> with a string key; the entries of a dict are kept in insertion order. A
  value that is not a dict has no entries.
\<close>

fun dict_entries :: "pyval \<Rightarrow> (pyval \<times> pyval) list" where
  "dict_entries (PDict kvs) = kvs"
| "dict_entries v = []"

definition dict_get :: "pyval \<Rightarrow> string \<Rightarrow> pyval option" where
  "dict_get d k = map_of (dict_entries d) (PStr k)"

definition dict_get_or :: "pyval \<Rightarrow> string \<Rightarrow> pyval \<Rightarrow> pyval" where
  "dict_get_or d k v = (case dict_get d k of None \<Rightarrow> v | Some w \<Rightarrow> w)"

text \<open>The same call on a value of any type: only a dict has the method.\<close>

fun py_get :: "pyval \<Rightarrow> string \<Rightarrow> py_error + pyval option" where
  "py_get (PDict kvs) k = Inr (map_of kvs (PStr k))"
| "py_get v k = Inl (AttributeError ''get'')"

definition py_get_or :: "pyval \<Rightarrow> string \<Rightarrow> pyval \<Rightarrow> py_error + pyval" where
  "py_get_or d k v = (case py_get d k of Inl e \<Rightarrow> Inl e | Inr None \<Rightarrow> Inr v | Inr (Some w) \<Rightarrow> Inr w)"

lemma py_get_or_dict [simp]: "py_get_or (PDict kvs) k v = Inr (case map_of kvs (PStr k) of None \<Rightarrow> v | Some w \<Rightarrow> w)"
  by (simp add: py_get_or_def split: option.split)

text \<open>\<open>d or {}\<close>, for an argument that may be \<open>None\<close>.\<close>

definition or_empty_dict :: "pyval \<Rightarrow> pyval" where
  "or_empty_dict v = (if truthy v then v else PDict [])"

lemma dict_get_empty [simp]: "dict_get (PDict []) k = None"
  by (simp add: dict_get_def)

lemma dict_get_PNone [simp]: "dict_get PNone k = None"
  by (simp add: dict_get_def)

subsection \<open>Strings\<close>

text \<open>\<open>str.isspace\<close>, \<open>str.strip\<close>, \<open>str.lower\<close>, \<open>str.upper\<close> below code point 256.\<close>

definition py_space :: "char \<Rightarrow> bool" where
  "py_space c = (let n = of_char c :: nat in
     (9 \<le> n \<and> n \<le> 13) \<or> (28 \<le> n \<and> n \<le> 32) \<or> n = 133 \<or> n = 160)"

definition py_strip :: "string \<Rightarrow> string" where
  "py_strip s = rev (dropWhile py_space (rev (dropWhile py_space s)))"

definition lower_char :: "char \<Rightarrow> char" where
  "lower_char c = (let n = of_char c :: nat in
     if (65 \<le> n \<and> n \<le> 90) \<or> (192 \<le> n \<and> n \<le> 222 \<and> n \<noteq> 215) then char_of (n + 32) else c)"

definition upper_char :: "char \<Rightarrow> char" where
  "upper_char c = (let n = of_char c :: nat in
     if (97 \<le> n \<and> n \<le> 122) \<or> (224 \<le> n \<and> n \<le> 254 \<and> n \<noteq> 247) then char_of (n - 32) else c)"

definition py_lower :: "string \<Rightarrow> string" where
  "py_lower = map lower_char"

definition py_upper :: "string \<Rightarrow> string" where
  "py_upper = map upper_char"

definition strip_lower :: "string \<Rightarrow> string" where
  "strip_lower s = py_lower (py_strip s)"

text \<open>\<open>needle in haystack\<close> for strings.\<close>

fun py_in :: "string \<Rightarrow> string \<Rightarrow> bool" where
  "py_in w [] = (w = [])"
| "py_in w (c # s) = (prefix w (c # s) \<or> py_in w s)"

text \<open>\<open>s.split(c)\<close>.\<close>

fun py_split :: "char \<Rightarrow> string \<Rightarrow> string list" where
  "py_split c [] = [[]]"
| "py_split c (x # s) =
     (if x = c then [] # py_split c s
      else (case py_split c s of [] \<Rightarrow> [[x]] | w # ws \<Rightarrow> (x # w) # ws))"

text \<open>\<open>sep.join(parts)\<close>.\<close>

fun py_join :: "string \<Rightarrow> string list \<Rightarrow> string" where
  "py_join sep [] = []"
| "py_join sep [s] = s"
| "py_join sep (s # ss) = s @ sep @ py_join sep ss"

lemma py_in_appendI: "py_in w (s @ w)"
proof (induction s)
  case Nil
  show ?case by (cases w) auto
next
  case (Cons c s)
  then show ?case by simp
qed

lemma dropWhile_idem [simp]: "dropWhile P (dropWhile P xs) = dropWhile P xs"
  by (induction xs) auto

lemma dropWhile_rev_dropWhile:
  "dropWhile P (rev (dropWhile P (rev (dropWhile P xs)))) = rev (dropWhile P (rev (dropWhile P xs)))"
proof (cases "dropWhile P xs")
  case (Cons y ys)
  then have "\<not> P y" by (metis hd_dropWhile list.distinct(1) list.sel(1))
  then have "dropWhile P (rev ys @ [y]) = dropWhile P (rev ys) @ [y]"
    by (induction "rev ys" arbitrary: ys) (auto simp: dropWhile_append3)
  with \<open>\<not> P y\<close> Cons show ?thesis by simp
next
  case Nil
  show ?thesis by (simp only: Nil rev.simps dropWhile.simps)
qed

lemma py_strip_idem [simp, strip_simps]: "py_strip (py_strip s) = py_strip s"
  by (simp add: py_strip_def dropWhile_rev_dropWhile)

lemma py_strip_Nil [simp]: "py_strip [] = []"
  by (simp add: py_strip_def)

lemma py_space_lower_char: "py_space (lower_char c) = py_space c"
proof -
  have "of_char c < (256 :: nat)" by (rule nat_of_char_less_256)
  then show ?thesis by (auto simp: py_space_def lower_char_def Let_def)
qed

lemma py_strip_strip_lower: "py_strip (strip_lower s) = strip_lower s"
proof -
  have "py_space \<circ> lower_char = py_space" by (rule ext) (simp add: py_space_lower_char)
  then have "py_strip (py_lower t) = py_lower (py_strip t)" for t
    by (simp add: py_strip_def py_lower_def dropWhile_map rev_map)
  then show ?thesis by (simp add: strip_lower_def)
qed

lemma py_strip_nonempty_iff: "(py_strip s = []) = list_all py_space s"
proof -
  have "(py_strip s = []) = list_all py_space (dropWhile py_space s)"
    by (simp add: py_strip_def list_all_iff dropWhile_eq_Nil_conv)
  also have "\<dots> = list_all py_space s" by (induction s) simp_all
  finally show ?thesis .
qed

lemma py_strip_Cons_nonempty: "\<not> py_space c \<Longrightarrow> py_strip (c # s) \<noteq> []"
  by (simp add: py_strip_nonempty_iff)

subsection \<open>Numbers from values\<close>

text \<open>
  \<open>int(v)\<close>: an \<open>int\<close> or \<open>bool\<close> as it is, a \<open>float\<close> truncated towards zero, a string of
  decimal digits after stripping, with an optional sign and single underscores between
  digits.
\<close>

definition digit_of :: "char \<Rightarrow> int option" where
  "digit_of c = (let n = of_char c :: int in if 48 \<le> n \<and> n \<le> 57 then Some (n - 48) else None)"

fun int_digits :: "int \<Rightarrow> bool \<Rightarrow> string \<Rightarrow> int option" where
  "int_digits acc after_digit [] = (if after_digit then Some acc else None)"
| "int_digits acc after_digit (c # cs) =
     (case digit_of c of
        Some d \<Rightarrow> int_digits (10 * acc + d) True cs
      | None \<Rightarrow> if c = CHR ''_'' \<and> after_digit then int_digits acc False cs else None)"

definition int_of_str :: "string \<Rightarrow> int option" where
  "int_of_str s =
     (case py_strip s of
        [] \<Rightarrow> None
      | c # cs \<Rightarrow>
          if c = CHR ''-'' then map_option uminus (int_digits 0 False cs)
          else if c = CHR ''+'' then int_digits 0 False cs
          else int_digits 0 False (c # cs))"

definition trunc_rat :: "rat \<Rightarrow> int" where
  "trunc_rat r = (if 0 \<le> r then \<lfloor>r\<rfloor> else - \<lfloor>- r\<rfloor>)"

fun py_int :: "pyval \<Rightarrow> py_error + int" where
  "py_int (PBool b) = Inr (if b then 1 else 0)"
| "py_int (PInt i) = Inr i"
| "py_int (PFloat r) = Inr (trunc_rat r)"
| "py_int (PStr s) = (case int_of_str s of Some i \<Rightarrow> Inr i
      | None \<Rightarrow> Inl (ValueError ''invalid literal for int() with base 10''))"
| "py_int v = Inl (TypeError ''int() argument must be a string, a bytes-like object or a real number'')"

text \<open>
  The decimal numerals \<open>float(s)\<close> and \<open>Decimal(s)\<close> read: an optional sign, digits with an
  optional point (a digit on at least one side), an optional exponent. \<open>float\<close> takes an
  underscore only between two digits; \<open>Decimal\<close> drops every underscore.
\<close>

definition is_digit :: "char \<Rightarrow> bool" where
  "is_digit c = (digit_of c \<noteq> None)"

fun digits_value :: "int \<Rightarrow> string \<Rightarrow> int" where
  "digits_value acc [] = acc"
| "digits_value acc (c # cs) =
     digits_value (10 * acc + (case digit_of c of Some d \<Rightarrow> d | None \<Rightarrow> 0)) cs"

definition scale10 :: "rat \<Rightarrow> int \<Rightarrow> rat" where
  "scale10 r e = (if 0 \<le> e then r * 10 ^ nat e else r / 10 ^ nat (- e))"

definition exponent_of :: "string \<Rightarrow> int option" where
  "exponent_of s =
     (case s of
        [] \<Rightarrow> Some 0
      | c # cs \<Rightarrow>
          if c = CHR ''e'' \<or> c = CHR ''E'' then
            (let neg = (take 1 cs = ''-'');
                 ds = (if take 1 cs = ''-'' \<or> take 1 cs = ''+'' then drop 1 cs else cs)
             in if ds \<noteq> [] \<and> list_all is_digit ds
                then Some (if neg then - digits_value 0 ds else digits_value 0 ds) else None)
          else None)"

definition unsigned_numeral :: "string \<Rightarrow> rat option" where
  "unsigned_numeral s =
     (let ip = takeWhile is_digit s; r = dropWhile is_digit s;
          fp = (if take 1 r = ''.'' then takeWhile is_digit (drop 1 r) else []);
          rest = (if take 1 r = ''.'' then dropWhile is_digit (drop 1 r) else r)
      in if ip = [] \<and> fp = [] then None
         else map_option (\<lambda>e. scale10 (rat_of_int (digits_value 0 (ip @ fp))) (e - int (length fp)))
                (exponent_of rest))"

definition numeral_of :: "string \<Rightarrow> rat option" where
  "numeral_of s =
     (if take 1 s = ''-'' then map_option uminus (unsigned_numeral (drop 1 s))
      else if take 1 s = ''+'' then unsigned_numeral (drop 1 s)
      else unsigned_numeral s)"

fun underscores_ok :: "bool \<Rightarrow> string \<Rightarrow> bool" where
  "underscores_ok after_digit [] = True"
| "underscores_ok after_digit (c # cs) =
     (if c = CHR ''_'' then after_digit \<and> (case cs of [] \<Rightarrow> False | d # _ \<Rightarrow> is_digit d) \<and> underscores_ok False cs
      else underscores_ok (is_digit c) cs)"

definition float_of_str :: "string \<Rightarrow> rat option" where
  "float_of_str s = (let t = py_strip s in
     if underscores_ok False t then numeral_of (filter (\<lambda>c. c \<noteq> CHR ''_'') t) else None)"

definition decimal_of_str :: "string \<Rightarrow> rat option" where
  "decimal_of_str s = numeral_of (filter (\<lambda>c. c \<noteq> CHR ''_'') (py_strip s))"

fun py_float :: "pyval \<Rightarrow> py_error + rat" where
  "py_float (PBool b) = Inr (if b then 1 else 0)"
| "py_float (PInt i) = Inr (rat_of_int i)"
| "py_float (PFloat r) = Inr r"
| "py_float (PStr s) = (case float_of_str s of Some r \<Rightarrow> Inr r
      | None \<Rightarrow> Inl (ValueError ''could not convert string to float''))"
| "py_float v = Inl (TypeError ''float() argument must be a string or a real number'')"

text \<open>\<open>Decimal(str(v))\<close>; only a number or a numeral string has a value.\<close>

fun decimal_of :: "pyval \<Rightarrow> rat option" where
  "decimal_of (PInt i) = Some (rat_of_int i)"
| "decimal_of (PFloat r) = Some r"
| "decimal_of (PStr s) = decimal_of_str s"
| "decimal_of v = None"

subsection \<open>Printing numbers\<close>

fun show_nat :: "nat \<Rightarrow> string" where
  "show_nat n = (if n < 10 then [char_of (n + 48)] else show_nat (n div 10) @ [char_of (n mod 10 + 48)])"

declare show_nat.simps [simp del]

definition show_int :: "int \<Rightarrow> string" where
  "show_int i = (if i < 0 then ''-'' @ show_nat (nat (- i)) else show_nat (nat i))"

text \<open>\<open>f"{r:.3f}"\<close>: the exact value rounded half to even at the third decimal.\<close>

definition round_half_even :: "rat \<Rightarrow> int" where
  "round_half_even r =
     (let f = \<lfloor>r\<rfloor>; d = r - rat_of_int f
      in if d < 1 / 2 then f else if d > 1 / 2 then f + 1 else if even f then f else f + 1)"

definition fmt3 :: "rat \<Rightarrow> string" where
  "fmt3 r = (let n = nat (round_half_even (\<bar>r\<bar> * 1000)); frac = n mod 1000
     in (if r < 0 then ''-'' else []) @ show_nat (n div 1000) @ ''.''
        @ show_nat (frac div 100) @ show_nat (frac div 10 mod 10) @ show_nat (frac mod 10))"

subsection \<open>Reading back what was printed\<close>

lemma digit_of_char [simp]: "n < 10 \<Longrightarrow> digit_of (char_of (n + 48 :: nat)) = Some (int n)"
proof -
  assume n: "n < 10"
  then have "(of_char (char_of (n + 48)) :: nat) = n + 48" by (simp add: of_char_of take_bit_eq_mod)
  then have "(of_char (char_of (n + 48) :: char) :: int) = int n + 48"
    by (metis of_nat_add of_nat_numeral of_nat_of_char)
  with n show ?thesis by (simp add: digit_of_def)
qed

lemma is_digit_facts: "is_digit c \<Longrightarrow> \<not> py_space c \<and> c \<noteq> CHR ''-'' \<and> c \<noteq> CHR ''+'' \<and> c \<noteq> CHR '':''"
proof -
  assume "is_digit c"
  then have "48 \<le> (of_char c :: int)" "(of_char c :: int) \<le> 57"
    by (auto simp: is_digit_def digit_of_def Let_def split: if_splits)
  then have "48 \<le> (of_char c :: nat)" "(of_char c :: nat) \<le> 57"
    by (metis of_nat_le_iff of_nat_numeral of_nat_of_char)+
  then show ?thesis by (auto simp: py_space_def Let_def)
qed

lemma show_nat_digits: "list_all is_digit (show_nat n)"
proof (induction n rule: show_nat.induct)
  case (1 n)
  have "digit_of (char_of (n mod 10 + 48)) = Some (int (n mod 10))" by (rule digit_of_char) simp
  then have d: "is_digit (char_of (n mod 10 + 48))" by (simp add: is_digit_def)
  show ?case
  proof (cases "n < 10")
    case True
    with d show ?thesis by (subst show_nat.simps) simp
  next
    case False
    with d 1 show ?thesis by (subst show_nat.simps) simp
  qed
qed

lemma show_nat_nonempty [simp]: "show_nat n \<noteq> []"
  by (subst show_nat.simps) simp

lemma int_digits_show_nat:
  "int_digits acc b (show_nat n @ s) = int_digits (acc * 10 ^ length (show_nat n) + int n) True s"
proof (induction n arbitrary: s rule: show_nat.induct)
  case (1 n)
  show ?case
  proof (cases "n < 10")
    case True
    then have e: "show_nat n = [char_of (n + 48)]" by (subst show_nat.simps) simp
    show ?thesis using True by (simp add: e mult.commute)
  next
    case False
    have e: "show_nat n = show_nat (n div 10) @ [char_of (n mod 10 + 48)]"
      using False by (subst show_nat.simps) simp
    have d: "digit_of (char_of (n mod 10 + 48)) = Some (int (n mod 10))" by (rule digit_of_char) simp
    have split: "int n = 10 * int (n div 10) + int (n mod 10)"
      by (metis mult_div_mod_eq of_nat_add of_nat_mult of_nat_numeral)
    have step: "int_digits a True (char_of (n mod 10 + 48) # s) = int_digits (10 * a + int (n mod 10)) True s" for a
      by (simp add: d)
    have "int_digits acc b (show_nat n @ s) =
        int_digits (10 * (acc * 10 ^ length (show_nat (n div 10)) + int (n div 10)) + int (n mod 10)) True s"
      using 1 [OF False, of "char_of (n mod 10 + 48) # s"] step by (simp only: e append.assoc append_Cons append_Nil)
    also have "10 * (acc * 10 ^ length (show_nat (n div 10)) + int (n div 10)) + int (n mod 10)
        = acc * 10 ^ length (show_nat n) + int n"
      by (simp add: e split [symmetric] algebra_simps del: of_nat_mod of_nat_div) (simp add: split)
    finally show ?thesis .
  qed
qed

lemma dropWhile_none: "list_all (\<lambda>c. \<not> P c) s \<Longrightarrow> dropWhile P s = s"
  by (cases s) simp_all

lemma py_strip_plain: "list_all (\<lambda>c. \<not> py_space c) s \<Longrightarrow> py_strip s = s"
  unfolding py_strip_def by (simp add: dropWhile_none list_all_rev)

lemma int_of_str_show_nat [simp]: "int_of_str (show_nat n) = Some (int n)"
proof -
  have d: "list_all is_digit (show_nat n)" by (rule show_nat_digits)
  then have "list_all (\<lambda>c. \<not> py_space c) (show_nat n)"
    using is_digit_facts by (auto simp: list_all_iff)
  then have st: "py_strip (show_nat n) = show_nat n" by (rule py_strip_plain)
  obtain c cs where c: "show_nat n = c # cs" by (cases "show_nat n") simp_all
  with d is_digit_facts have "c \<noteq> CHR ''-''" "c \<noteq> CHR ''+''" by auto
  moreover have "int_digits 0 False (c # cs) = Some (int n)"
    using int_digits_show_nat [of 0 False n "[]"] by (simp add: c)
  ultimately show ?thesis by (simp add: int_of_str_def st [unfolded c] c del: int_digits.simps)
qed

lemma py_split_nonempty [simp]: "py_split c s \<noteq> []"
  by (induction s) (auto split: list.split)

lemma py_split_none: "c \<notin> set s \<Longrightarrow> py_split c s = [s]"
  by (induction s) auto

lemma py_split_append: "c \<notin> set s \<Longrightarrow> py_split c (s @ c # t) = s # py_split c t"
  by (induction s) auto

subsection \<open>Slices and sorting\<close>

text \<open>\<open>xs[:n]\<close> and \<open>xs[n:]\<close>, where a negative bound counts from the end.\<close>

definition py_upto :: "int \<Rightarrow> 'a list \<Rightarrow> 'a list" where
  "py_upto n xs = (if 0 \<le> n then take (nat n) xs else take (length xs - nat (- n)) xs)"

definition py_from :: "int \<Rightarrow> 'a list \<Rightarrow> 'a list" where
  "py_from n xs = (if 0 \<le> n then drop (nat n) xs else drop (length xs - nat (- n)) xs)"

text \<open>\<open>xs.sort(key=k)\<close> and \<open>xs.sort(key=k, reverse=True)\<close>; both are stable.\<close>

definition sort_asc :: "('a \<Rightarrow> 'k::linorder) \<Rightarrow> 'a list \<Rightarrow> 'a list" where
  "sort_asc k xs = sort_key k xs"

definition sort_desc :: "('a \<Rightarrow> 'k::linorder) \<Rightarrow> 'a list \<Rightarrow> 'a list" where
  "sort_desc k xs = rev (sort_key k (rev xs))"

lemma set_py_upto: "set (py_upto n xs) \<subseteq> set xs"
  by (auto simp: py_upto_def dest: in_set_takeD)

lemma set_py_from: "set (py_from n xs) \<subseteq> set xs"
  by (auto simp: py_from_def dest: in_set_dropD)

lemma length_py_upto_le: "0 \<le> n \<Longrightarrow> length (py_upto n xs) \<le> nat n"
  by (simp add: py_upto_def)

lemma set_sort_asc [simp]: "set (sort_asc k xs) = set xs"
  by (simp add: sort_asc_def)

lemma set_sort_desc [simp]: "set (sort_desc k xs) = set xs"
  by (simp add: sort_desc_def)

lemma length_sort_asc [simp]: "length (sort_asc k xs) = length xs"
  by (simp add: sort_asc_def)

lemma length_sort_desc [simp]: "length (sort_desc k xs) = length xs"
  by (simp add: sort_desc_def)

lemma mset_sort_asc [simp]: "mset (sort_asc k xs) = mset xs"
  by (simp add: sort_asc_def)

lemma mset_sort_desc [simp]: "mset (sort_desc k xs) = mset xs"
  by (simp add: sort_desc_def)

lemma sorted_sort_asc: "sorted (map k (sort_asc k xs))"
  by (simp add: sort_asc_def)

lemma sorted_sort_desc: "sorted (rev (map k (sort_desc k xs)))"
  by (simp add: sort_desc_def rev_map)

lemma sort_desc_hd_max:
  assumes "sort_desc k xs = y # ys" and "x \<in> set xs"
  shows "k x \<le> k y"
proof -
  have "sorted (rev (map k (y # ys)))" using sorted_sort_desc [of k xs] assms(1) by simp
  moreover have "x \<in> set (y # ys)" using assms set_sort_desc [of k xs] by simp
  ultimately show ?thesis by (auto simp: sorted_append)
qed

lemma sort_desc_Nil_iff [simp]: "sort_desc k xs = [] \<longleftrightarrow> xs = []"
  by (metis length_0_conv length_sort_desc)

subsection \<open>Ordered dictionaries\<close>

text \<open>
  A \<open>dict\<close> whose order shows is an association list with distinct keys: \<open>AList.update\<close> is
  \<open>d[k] = v\<close> (in place when the key is there, at the end when it is not), \<open>AList.delete\<close>
  is \<open>d.pop(k, None)\<close>, \<open>map_of\<close> is \<open>d.get\<close>.
\<close>

lemmas dict_specs = update_conv' delete_conv'

abbreviation dict_keys :: "('k \<times> 'v) list \<Rightarrow> 'k list" where
  "dict_keys d \<equiv> map fst d"

lemma distinct_keys_update: "distinct (dict_keys d) \<Longrightarrow> distinct (dict_keys (AList.update k v d))"
  by (rule distinct_update)

lemma distinct_keys_delete: "distinct (dict_keys d) \<Longrightarrow> distinct (dict_keys (AList.delete k d))"
  by (rule distinct_delete)

lemma dict_update_mem:
  assumes "distinct (dict_keys d)"
  shows "(k', v') \<in> set (AList.update k v d) \<longleftrightarrow> (if k' = k then v' = v else (k', v') \<in> set d)"
proof -
  have "distinct (dict_keys (AList.update k v d))" using assms by (rule distinct_keys_update)
  then have "(k', v') \<in> set (AList.update k v d) \<longleftrightarrow> map_of (AList.update k v d) k' = Some v'"
    by simp
  also have "\<dots> \<longleftrightarrow> (if k' = k then v' = v else map_of d k' = Some v')"
    by (auto simp: update_conv')
  finally show ?thesis using assms by simp
qed

lemma filter_unselected_keys:
  assumes "distinct (dict_keys d)"
  shows "filter (\<lambda>p. fst p \<notin> fst ` {q \<in> set d. D q}) d = filter (\<lambda>p. \<not> D p) d"
proof (rule filter_cong [OF refl])
  fix p assume p: "p \<in> set d"
  have "q = p" if "q \<in> set d" and "fst q = fst p" for q
    using assms p that by (metis eq_key_imp_eq_value prod.collapse)
  then show "(fst p \<notin> fst ` {q \<in> set d. D q}) = (\<not> D p)" using p by (metis (no_types, lifting) image_iff mem_Collect_eq)
qed

lemma length_update_notin: "k \<notin> fst ` set d \<Longrightarrow> length (AList.update k v d) = Suc (length d)"
  by (induction d) auto

lemma length_update_in: "k \<in> fst ` set d \<Longrightarrow> length (AList.update k v d) = length d"
  by (induction d) auto

end
