(* ===== verification/Security.thy ===== *)
theory Security
  imports Prelude
begin

section \<open>Security: audit log and risk gate\<close>

text \<open>
  \<open>owlclaw/security/audit.py\<close> and \<open>owlclaw/security/risk_gate.py\<close>: the append-only audit
  sink, and the gate that lets an operation run, parks it until an operator confirms it, or
  refuses it. The gate's state is its table of parked operations; the library lemmas give
  what each operation does to the table, and the reachability argument at the end shows
  that a parked operation is settled at most once and never after its timeout.
\<close>

subsection \<open>Audit log\<close>

text \<open>
  An event without its timestamp; the optional backend is the file of lines written, one
  per event.
\<close>

record audit_event =
  ae_type :: string
  ae_source :: string
  ae_details :: "(string \<times> pyval) list"

record audit_log =
  al_events :: "audit_event list"
  al_backend :: "audit_event list option"

definition audit_log_new :: "audit_event list option \<Rightarrow> audit_log" where
  "audit_log_new backend = \<lparr>al_events = [], al_backend = backend\<rparr>"

definition backend_write :: "audit_event \<Rightarrow> audit_event list \<Rightarrow> audit_event list" where
  "backend_write ev file = file @ [ev]"

definition audit_record :: "string \<Rightarrow> string \<Rightarrow> (string \<times> pyval) list \<Rightarrow> audit_log \<Rightarrow> audit_log" where
  "audit_record event_type source details lg =
     (let ev = \<lparr>ae_type = event_type, ae_source = source, ae_details = details\<rparr>;
          lg' = lg\<lparr>al_events := al_events lg @ [ev]\<rparr>
      in (case al_backend lg of
            None \<Rightarrow> lg'
          | Some file \<Rightarrow> lg'\<lparr>al_backend := Some (backend_write ev file)\<rparr>))"

definition list_events :: "audit_log \<Rightarrow> audit_event list" where
  "list_events lg = al_events lg"

subsection \<open>Risk gate: state and operations\<close>

datatype risk_decision = EXECUTE | PAUSE | REJECT

record pending_op =
  po_id :: uuid
  po_created :: micros
  po_capability :: string
  po_risk :: string
  po_reason :: string

record risk_gate =
  rg_timeout :: int
  rg_pending :: "(uuid \<times> pending_op) list"
  rg_log :: "audit_log option"
  rg_source :: string

definition risk_gate_new :: "int \<Rightarrow> audit_log option \<Rightarrow> string \<Rightarrow> risk_gate" where
  "risk_gate_new timeout lg source =
     \<lparr>rg_timeout = max 1 timeout, rg_pending = [], rg_log = lg, rg_source = source\<rparr>"

definition rg_audit :: "string \<Rightarrow> (string \<times> pyval) list \<Rightarrow> risk_gate \<Rightarrow> risk_gate" where
  "rg_audit event_type details g =
     (case rg_log g of
        None \<Rightarrow> g
      | Some lg \<Rightarrow> g\<lparr>rg_log := Some (audit_record event_type (rg_source g) details lg)\<rparr>)"

definition rg_pause ::
  "uuid \<Rightarrow> micros \<Rightarrow> string \<Rightarrow> string \<Rightarrow> string \<Rightarrow> risk_gate \<Rightarrow> (risk_decision \<times> uuid option) \<times> risk_gate" where
  "rg_pause op_id now capability_name risk_level reason g =
     (let op = \<lparr>po_id = op_id, po_created = now, po_capability = capability_name,
                po_risk = risk_level, po_reason = reason\<rparr>;
          g1 = g\<lparr>rg_pending := AList.update op_id op (rg_pending g)\<rparr>
      in ((PAUSE, Some op_id),
          rg_audit ''risk_paused''
            [(''operation_id'', PStr op_id), (''capability_name'', PStr capability_name),
             (''risk_level'', PStr risk_level), (''reason'', PStr reason)] g1))"

definition known_risk_levels :: "string list" where
  "known_risk_levels = [''low'', ''medium'', ''high'', ''critical'']"

definition norm_risk :: "string \<Rightarrow> string" where
  "norm_risk risk_level = strip_lower (if risk_level = [] then ''low'' else risk_level)"

definition rg_evaluate ::
  "uuid \<Rightarrow> micros \<Rightarrow> string \<Rightarrow> string \<Rightarrow> bool \<Rightarrow> rat \<Rightarrow> risk_gate
     \<Rightarrow> (risk_decision \<times> uuid option) \<times> risk_gate" where
  "rg_evaluate op_id now capability_name risk_level requires_confirmation budget_ratio g =
     (let normalized = norm_risk risk_level in
      if normalized = ''critical'' then
        rg_pause op_id now capability_name normalized ''critical capability'' g
      else if requires_confirmation then
        rg_pause op_id now capability_name normalized ''manual confirmation required'' g
      else if normalized = ''high'' \<and> budget_ratio \<ge> 8 / 10 then
        rg_pause op_id now capability_name normalized ''budget ratio exceeds threshold'' g
      else if normalized \<notin> set known_risk_levels then
        ((REJECT, None),
         rg_audit ''risk_rejected''
           [(''capability_name'', PStr capability_name), (''risk_level'', PStr normalized),
            (''reason'', PStr ''unsupported_risk_level'')] g)
      else
        ((EXECUTE, None),
         rg_audit ''risk_executed''
           [(''capability_name'', PStr capability_name), (''risk_level'', PStr normalized),
            (''requires_confirmation'', PBool requires_confirmation),
            (''budget_ratio'', PFloat budget_ratio)] g))"

fun rg_drop_expired :: "uuid list \<Rightarrow> risk_gate \<Rightarrow> risk_gate" where
  "rg_drop_expired [] g = g"
| "rg_drop_expired (i # is) g =
     rg_drop_expired is
       (rg_audit ''risk_timeout'' [(''operation_id'', PStr i)]
          (g\<lparr>rg_pending := AList.delete i (rg_pending g)\<rparr>))"

definition rg_expire :: "micros \<Rightarrow> risk_gate \<Rightarrow> nat \<times> risk_gate" where
  "rg_expire now g =
     (let cutoff = now - secs (rg_timeout g);
          expired = map fst (filter (\<lambda>(i, op). po_created op < cutoff) (rg_pending g))
      in (length expired, rg_drop_expired expired g))"

definition rg_confirm :: "micros \<Rightarrow> uuid \<Rightarrow> risk_gate \<Rightarrow> bool \<times> risk_gate" where
  "rg_confirm now op_id g =
     (let g1 = snd (rg_expire now g);
          success = (map_of (rg_pending g1) op_id \<noteq> None);
          g2 = g1\<lparr>rg_pending := AList.delete op_id (rg_pending g1)\<rparr>
      in (success, rg_audit (if success then ''risk_confirmed'' else ''risk_confirm_missing'')
                     [(''operation_id'', PStr op_id)] g2))"

definition rg_reject :: "micros \<Rightarrow> uuid \<Rightarrow> risk_gate \<Rightarrow> bool \<times> risk_gate" where
  "rg_reject now op_id g =
     (let g1 = snd (rg_expire now g);
          success = (map_of (rg_pending g1) op_id \<noteq> None);
          g2 = g1\<lparr>rg_pending := AList.delete op_id (rg_pending g1)\<rparr>
      in (success, rg_audit (if success then ''risk_rejected_manual'' else ''risk_reject_missing'')
                     [(''operation_id'', PStr op_id)] g2))"

definition rg_pending_count :: "micros \<Rightarrow> risk_gate \<Rightarrow> nat \<times> risk_gate" where
  "rg_pending_count now g = (let g1 = snd (rg_expire now g) in (length (rg_pending g1), g1))"

subsection \<open>What the operations do to the table\<close>

lemma rg_audit_frame [simp, frame_simps]:
  "rg_pending (rg_audit e d g) = rg_pending g"
  "rg_timeout (rg_audit e d g) = rg_timeout g"
  "rg_source (rg_audit e d g) = rg_source g"
  by (simp_all add: rg_audit_def split: option.split)

lemma rg_drop_expired_frame [simp, frame_simps]:
  "rg_pending (rg_drop_expired is g) = filter (\<lambda>p. fst p \<notin> set is) (rg_pending g)"
  "rg_timeout (rg_drop_expired is g) = rg_timeout g"
  by (induction "is" arbitrary: g) (auto simp: AList.delete_eq case_prod_beta intro!: filter_cong)

lemma rg_pause_simps [simp]:
  "fst (rg_pause i t c r s g) = (PAUSE, Some i)"
  "rg_pending (snd (rg_pause i t c r s g)) =
     AList.update i \<lparr>po_id = i, po_created = t, po_capability = c, po_risk = r, po_reason = s\<rparr> (rg_pending g)"
  "rg_timeout (snd (rg_pause i t c r s g)) = rg_timeout g"
  by (simp_all add: rg_pause_def Let_def)

definition rg_live :: "micros \<Rightarrow> risk_gate \<Rightarrow> uuid \<times> pending_op \<Rightarrow> bool" where
  "rg_live now g p \<longleftrightarrow> now - secs (rg_timeout g) \<le> po_created (snd p)"

text \<open>The invariant of the table: one entry per identifier, filed under its own identifier.\<close>

definition rg_wf :: "risk_gate \<Rightarrow> bool" where
  "rg_wf g \<longleftrightarrow> distinct (dict_keys (rg_pending g)) \<and> (\<forall>(i, op) \<in> set (rg_pending g). po_id op = i)"

lemma rg_expire_pending:
  assumes "distinct (dict_keys (rg_pending g))"
  shows "rg_pending (snd (rg_expire now g)) = filter (rg_live now g) (rg_pending g)"
  using filter_unselected_keys [OF assms, of "\<lambda>p. \<not> rg_live now g p"]
  by (simp add: rg_expire_def rg_live_def [abs_def] Let_def case_prod_beta not_le not_less)

lemma rg_expire_timeout [simp]: "rg_timeout (snd (rg_expire now g)) = rg_timeout g"
  by (simp add: rg_expire_def Let_def)

lemma rg_wf_new: "rg_wf (risk_gate_new tmo lg src)"
  by (simp add: rg_wf_def risk_gate_new_def)

lemma rg_wf_pending_filter:
  "rg_wf g \<Longrightarrow> rg_pending g' = filter P (rg_pending g) \<Longrightarrow> rg_wf g'"
  by (auto simp: rg_wf_def distinct_map_filter)

definition pause_reason :: "string \<Rightarrow> bool \<Rightarrow> string" where
  "pause_reason n rc = (if n = ''critical'' then ''critical capability''
     else if rc then ''manual confirmation required'' else ''budget ratio exceeds threshold'')"

lemma rg_evaluate_cases:
  obtains (pause) "norm_risk rl = ''critical'' \<or> rc \<or> norm_risk rl = ''high'' \<and> br \<ge> 8 / 10"
      "rg_evaluate i t c rl rc br g = rg_pause i t c (norm_risk rl) (pause_reason (norm_risk rl) rc) g"
  | (settle) d e x where
      "\<not> (norm_risk rl = ''critical'' \<or> rc \<or> norm_risk rl = ''high'' \<and> br \<ge> 8 / 10)"
      "d = (if norm_risk rl \<in> set known_risk_levels then EXECUTE else REJECT)"
      "rg_evaluate i t c rl rc br g = ((d, None), rg_audit e x g)"
proof (cases "norm_risk rl = ''critical'' \<or> rc \<or> norm_risk rl = ''high'' \<and> br \<ge> 8 / 10")
  case True
  then have "rg_evaluate i t c rl rc br g = rg_pause i t c (norm_risk rl) (pause_reason (norm_risk rl) rc) g"
    unfolding rg_evaluate_def Let_def pause_reason_def by presburger
  with True show ?thesis by (rule pause)
next
  case False
  then have "\<exists>e x. rg_evaluate i t c rl rc br g =
      ((if norm_risk rl \<in> set known_risk_levels then EXECUTE else REJECT, None), rg_audit e x g)"
    unfolding rg_evaluate_def Let_def by (cases "norm_risk rl \<in> set known_risk_levels") auto
  with False show ?thesis by (auto intro: settle)
qed

lemma rg_evaluate_pending:
  "rg_pending (snd (rg_evaluate i t c rl rc br g)) =
     (case snd (fst (rg_evaluate i t c rl rc br g)) of
        None \<Rightarrow> rg_pending g
      | Some j \<Rightarrow> AList.update i
          \<lparr>po_id = i, po_created = t, po_capability = c, po_risk = norm_risk rl,
           po_reason = pause_reason (norm_risk rl) rc\<rparr> (rg_pending g))"
  by (rule rg_evaluate_cases [of rl rc br i t c g]) simp_all

lemma rg_evaluate_id: "snd (fst (rg_evaluate i t c rl rc br g)) \<in> {None, Some i}"
  by (rule rg_evaluate_cases [of rl rc br i t c g]) simp_all

lemma rg_evaluate_timeout [simp]: "rg_timeout (snd (rg_evaluate i t c rl rc br g)) = rg_timeout g"
  by (rule rg_evaluate_cases [of rl rc br i t c g]) simp_all

lemma rg_evaluate_wf:
  assumes "rg_wf g"
  shows "rg_wf (snd (rg_evaluate i t c rl rc br g))"
proof (cases "snd (fst (rg_evaluate i t c rl rc br g))")
  case None
  with assms show ?thesis by (simp add: rg_wf_def rg_evaluate_pending)
next
  case (Some j)
  with assms show ?thesis
    by (auto simp: rg_wf_def rg_evaluate_pending distinct_update dict_update_mem split: if_splits)
qed

lemma settle_pending:
  assumes "rg_wf g"
  shows "rg_pending (snd (rg_confirm now i g)) = filter (\<lambda>p. rg_live now g p \<and> fst p \<noteq> i) (rg_pending g)"
    and "rg_pending (snd (rg_reject now i g)) = filter (\<lambda>p. rg_live now g p \<and> fst p \<noteq> i) (rg_pending g)"
    and "fst (rg_confirm now i g) = (\<exists>op. (i, op) \<in> set (rg_pending g) \<and> rg_live now g (i, op))"
    and "fst (rg_reject now i g) = (\<exists>op. (i, op) \<in> set (rg_pending g) \<and> rg_live now g (i, op))"
    and "rg_timeout (snd (rg_confirm now i g)) = rg_timeout g"
    and "rg_timeout (snd (rg_reject now i g)) = rg_timeout g"
proof -
  have d: "distinct (dict_keys (rg_pending g))" using assms by (simp add: rg_wf_def)
  note e = rg_expire_pending [OF d, of now]
  have d': "distinct (dict_keys (filter (rg_live now g) (rg_pending g)))"
    using d by (simp add: distinct_map_filter)
  have del: "AList.delete i (filter (rg_live now g) (rg_pending g)) =
      filter (\<lambda>p. rg_live now g p \<and> fst p \<noteq> i) (rg_pending g)"
    by (auto simp: AList.delete_eq filter_filter case_prod_beta intro!: filter_cong)
  have mem: "(map_of (filter (rg_live now g) (rg_pending g)) i \<noteq> None) =
      (\<exists>op. (i, op) \<in> set (rg_pending g) \<and> rg_live now g (i, op))"
    using map_of_eq_Some_iff [OF d'] by auto
  show "rg_pending (snd (rg_confirm now i g)) = filter (\<lambda>p. rg_live now g p \<and> fst p \<noteq> i) (rg_pending g)"
    and "rg_pending (snd (rg_reject now i g)) = filter (\<lambda>p. rg_live now g p \<and> fst p \<noteq> i) (rg_pending g)"
    by (simp_all add: rg_confirm_def rg_reject_def Let_def e del)
  show "fst (rg_confirm now i g) = (\<exists>op. (i, op) \<in> set (rg_pending g) \<and> rg_live now g (i, op))"
    and "fst (rg_reject now i g) = (\<exists>op. (i, op) \<in> set (rg_pending g) \<and> rg_live now g (i, op))"
    using mem by (simp_all add: rg_confirm_def rg_reject_def Let_def e)
  show "rg_timeout (snd (rg_confirm now i g)) = rg_timeout g"
    and "rg_timeout (snd (rg_reject now i g)) = rg_timeout g"
    by (simp_all add: rg_confirm_def rg_reject_def Let_def)
qed

subsection \<open>Every run of the gate\<close>

text \<open>
  The gate's configurations after any sequence of operations: the gate, the latest clock
  reading, the identifiers issued so far and those settled (confirmed or rejected with
  result \<open>True\<close>). The clock does not go back and \<open>uuid4\<close> does not repeat.
\<close>

inductive rg_reach :: "risk_gate \<Rightarrow> micros \<Rightarrow> uuid set \<Rightarrow> uuid set \<Rightarrow> bool" where
  init: "rg_reach (risk_gate_new timeout lg source) t {} {}"
| evaluate: "rg_reach g t I S \<Longrightarrow> t \<le> t' \<Longrightarrow> i \<notin> I \<Longrightarrow>
    rg_evaluate i t' c rl rc br g = ((d, r), g') \<Longrightarrow> rg_reach g' t' (I \<union> set_option r) S"
| confirm: "rg_reach g t I S \<Longrightarrow> t \<le> t' \<Longrightarrow> rg_confirm t' i g = (b, g') \<Longrightarrow>
    rg_reach g' t' I (if b then insert i S else S)"
| reject: "rg_reach g t I S \<Longrightarrow> t \<le> t' \<Longrightarrow> rg_reject t' i g = (b, g') \<Longrightarrow>
    rg_reach g' t' I (if b then insert i S else S)"
| count: "rg_reach g t I S \<Longrightarrow> t \<le> t' \<Longrightarrow> rg_pending_count t' g = (n, g') \<Longrightarrow> rg_reach g' t' I S"

definition rg_inv :: "risk_gate \<Rightarrow> micros \<Rightarrow> uuid set \<Rightarrow> uuid set \<Rightarrow> bool" where
  "rg_inv g t I S \<longleftrightarrow> rg_wf g \<and> S \<subseteq> I
     \<and> (\<forall>p \<in> set (rg_pending g). fst p \<in> I \<and> fst p \<notin> S \<and> po_created (snd p) \<le> t)"

lemma rg_invD:
  assumes "rg_inv g t I S" and "p \<in> set (rg_pending g)"
  shows "fst p \<in> I" "fst p \<notin> S" "po_created (snd p) \<le> t"
  using assms by (simp_all add: rg_inv_def)

lemma rg_inv_shrink:
  assumes inv: "rg_inv g t I S" and t: "t \<le> t'"
    and p: "rg_pending g' = filter P (rg_pending g)" and S': "S' \<subseteq> I"
    and out: "\<And>p. p \<in> set (rg_pending g) \<Longrightarrow> P p \<Longrightarrow> fst p \<notin> S'"
  shows "rg_inv g' t' I S'"
proof -
  have "rg_wf g'" using inv p by (auto simp: rg_inv_def intro: rg_wf_pending_filter)
  moreover have "fst q \<in> I \<and> fst q \<notin> S' \<and> po_created (snd q) \<le> t'" if "q \<in> set (rg_pending g')" for q
    using that rg_invD [OF inv, of q] t out [of q] by (simp add: p)
  ultimately show ?thesis using S' by (auto simp: rg_inv_def)
qed

lemma rg_inv_settle:
  assumes inv: "rg_inv g t I S" and t: "t \<le> t'"
    and p: "rg_pending g' = filter (\<lambda>p. rg_live t' g p \<and> fst p \<noteq> i) (rg_pending g)"
    and b: "b = (\<exists>op. (i, op) \<in> set (rg_pending g) \<and> rg_live t' g (i, op))"
  shows "rg_inv g' t' I (if b then insert i S else S)"
proof (rule rg_inv_shrink [OF inv t p])
  show "(if b then insert i S else S) \<subseteq> I"
    using inv b rg_invD(1) [OF inv] by (auto simp: rg_inv_def)
next
  fix q assume "q \<in> set (rg_pending g)" and "rg_live t' g q \<and> fst q \<noteq> i"
  then show "fst q \<notin> (if b then insert i S else S)"
    using rg_invD(2) [OF inv] by simp
qed

lemma rg_inv_evaluate:
  assumes inv: "rg_inv g t I S" and t: "t \<le> t'" and i: "i \<notin> I"
  shows "rg_inv (snd (rg_evaluate i t' c rl rc br g)) t'
    (I \<union> set_option (snd (fst (rg_evaluate i t' c rl rc br g)))) S"
proof (cases "snd (fst (rg_evaluate i t' c rl rc br g))")
  case None
  have "rg_pending (snd (rg_evaluate i t' c rl rc br g)) = filter (\<lambda>_. True) (rg_pending g)"
    using None by (simp add: rg_evaluate_pending)
  from rg_inv_shrink [OF inv t this, of S] inv None show ?thesis by (auto simp: rg_inv_def)
next
  case (Some j)
  let ?g = "snd (rg_evaluate i t' c rl rc br g)"
  have j: "j = i" using Some rg_evaluate_id [of i t' c rl rc br g] by auto
  have wf: "rg_wf ?g" using inv by (simp add: rg_evaluate_wf rg_inv_def)
  have dist: "distinct (dict_keys (rg_pending g))" using inv by (simp add: rg_inv_def rg_wf_def)
  have "fst q \<in> insert i I \<and> fst q \<notin> S \<and> po_created (snd q) \<le> t'" if q: "q \<in> set (rg_pending ?g)" for q
  proof -
    obtain k op where kop: "q = (k, op)" by (cases q)
    have "(if k = i then po_created op = t' else (k, op) \<in> set (rg_pending g))"
      using q Some dict_update_mem [OF dist] by (auto simp: kop rg_evaluate_pending split: if_splits)
    then show ?thesis using rg_invD [OF inv, of q] t i inv by (auto simp: kop rg_inv_def split: if_splits)
  qed
  with wf inv show ?thesis by (auto simp: rg_inv_def Some j)
qed

lemma rg_reach_inv: "rg_reach g t I S \<Longrightarrow> rg_inv g t I S"
proof (induction rule: rg_reach.induct)
  case (init timeout lg source t)
  show ?case using rg_wf_new by (simp add: rg_inv_def risk_gate_new_def)
next
  case (evaluate g t I S t' i c rl rc br d r g')
  from rg_inv_evaluate [OF evaluate.IH evaluate.hyps(2,3), of c rl rc br] evaluate.hyps(4)
  show ?case by simp
next
  case (confirm g t I S t' i b g')
  then have wf: "rg_wf g" by (simp add: rg_inv_def)
  show ?case
    using settle_pending(1,3) [OF wf, of t' i] confirm.hyps(3)
    by (intro rg_inv_settle [OF confirm.IH confirm.hyps(2)]) simp_all
next
  case (reject g t I S t' i b g')
  then have wf: "rg_wf g" by (simp add: rg_inv_def)
  show ?case
    using settle_pending(2,4) [OF wf, of t' i] reject.hyps(3)
    by (intro rg_inv_settle [OF reject.IH reject.hyps(2)]) simp_all
next
  case (count g t I S t' n g')
  then have "distinct (dict_keys (rg_pending g))" by (simp add: rg_inv_def rg_wf_def)
  from rg_expire_pending [OF this, of t'] count.hyps(3)
  have "rg_pending g' = filter (rg_live t' g) (rg_pending g)"
    by (auto simp: rg_pending_count_def Let_def)
  from rg_inv_shrink [OF count.IH count.hyps(2) this, of S] count.IH show ?case
    by (auto simp: rg_inv_def)
qed

subsection \<open>Properties\<close>

text \<open>
  C28. In every run of the gate, an operation can be settled (confirmed or rejected with
  result true) only if it was parked before, has not been settled before, and was parked no
  longer ago than the gate's timeout. In particular no operation is ever confirmed twice.
\<close>

theorem rg_settled_once_in_time:
  assumes reach: "rg_reach g t I S" and clock: "t \<le> t'"
    and settled: "fst (rg_confirm t' i g) \<or> fst (rg_reject t' i g)"
  shows "i \<in> I \<and> i \<notin> S
    \<and> (\<exists>op. map_of (rg_pending g) i = Some op \<and> t' - secs (rg_timeout g) \<le> po_created op \<and> po_created op \<le> t')"
proof -
  have inv: "rg_inv g t I S" using reach by (rule rg_reach_inv)
  then have wf: "rg_wf g" by (simp add: rg_inv_def)
  obtain op where op: "(i, op) \<in> set (rg_pending g)" "rg_live t' g (i, op)"
    using settled settle_pending(3,4) [OF wf, of t' i] by auto
  moreover have "map_of (rg_pending g) i = Some op"
    using op(1) wf by (simp add: rg_wf_def)
  ultimately show ?thesis
    using rg_invD [OF inv op(1)] clock by (auto simp: rg_live_def)
qed

text \<open>A run that parks one operation and then confirms it, for the witness.\<close>

theorem rg_settled_once_in_time_witness:
  "\<exists>g. fst (rg_confirm 5 ''op1'' g) \<and> (''op1'' \<in> {''op1''} \<and> ''op1'' \<notin> ({} :: uuid set)
     \<and> (\<exists>op. map_of (rg_pending g) ''op1'' = Some op \<and> 5 - secs (rg_timeout g) \<le> po_created op \<and> po_created op \<le> 5))"
proof -
  let ?g0 = "risk_gate_new 300 None ''risk_gate''"
  let ?e = "rg_evaluate ''op1'' 2 ''wire_money'' ''critical'' False 0 ?g0"
  have n: "norm_risk ''critical'' = ''critical''" by code_simp
  have e: "fst ?e = (PAUSE, Some ''op1'')"
    and p: "map_of (rg_pending (snd ?e)) ''op1'' \<noteq> None"
    and f: "fst (rg_confirm 5 ''op1'' (snd ?e))"
    by code_simp+
  have r0: "rg_reach ?g0 1 {} {}" by (rule rg_reach.init)
  have "rg_reach (snd ?e) 2 ({} \<union> set_option (Some ''op1'')) {}"
    by (rule rg_reach.evaluate [OF r0, where i = "''op1''" and c = "''wire_money''" and rl = "''critical''"
          and rc = False and br = 0 and d = PAUSE and t' = 2]) (use e in \<open>auto simp: prod_eq_iff\<close>)
  then have "rg_reach (snd ?e) 2 {''op1''} {}" by simp
  from rg_settled_once_in_time [OF this, of 5 "''op1''"] f show ?thesis by auto
qed

text \<open>
  The gate's decision table: an operation runs at once exactly when no confirmation
  was asked for and its normalised level is low, medium, or high under 80 percent of the
  budget; it is refused exactly when no confirmation was asked for and its level is unknown;
  otherwise it is parked. Only parking changes the table of parked operations.
\<close>

theorem rg_decision_table:
  "(fst (fst (rg_evaluate i t c rl rc br g)) = EXECUTE \<longleftrightarrow>
      \<not> rc \<and> (norm_risk rl = ''low'' \<or> norm_risk rl = ''medium'' \<or> norm_risk rl = ''high'' \<and> br < 8 / 10))
   \<and> (fst (fst (rg_evaluate i t c rl rc br g)) = REJECT \<longleftrightarrow>
      \<not> rc \<and> norm_risk rl \<notin> {''low'', ''medium'', ''high'', ''critical''})
   \<and> (fst (fst (rg_evaluate i t c rl rc br g)) = PAUSE
      \<or> rg_pending (snd (rg_evaluate i t c rl rc br g)) = rg_pending g)"
proof (rule rg_evaluate_cases [of rl rc br i t c g])
  assume "norm_risk rl = ''critical'' \<or> rc \<or> norm_risk rl = ''high'' \<and> br \<ge> 8 / 10"
    and "rg_evaluate i t c rl rc br g = rg_pause i t c (norm_risk rl) (pause_reason (norm_risk rl) rc) g"
  then show ?thesis by auto
next
  fix d e x
  assume "\<not> (norm_risk rl = ''critical'' \<or> rc \<or> norm_risk rl = ''high'' \<and> br \<ge> 8 / 10)"
    and "d = (if norm_risk rl \<in> set known_risk_levels then EXECUTE else REJECT)"
    and "rg_evaluate i t c rl rc br g = ((d, None), rg_audit e x g)"
  then show ?thesis by (auto simp: known_risk_levels_def)
qed

end
