(* ===== verification/Visibility.thy ===== *)
theory Visibility
  imports Security
begin

section \<open>Visibility: the filter in front of the model\<close>

text \<open>
  \<open>owlclaw/governance/visibility.py\<close>: the view of a capability, the context of a run, and
  the filter that shows a capability to the model only when the risk gate lets it pass and
  every registered evaluator finds it visible.

  An evaluator is a function of the state \<open>'w\<close> it shares with the rest of the system (the
  ledger, its own tables). Its outcome says what the filter observes of the call: a
  \<open>FilterResult\<close>, a value of another type, a timeout or an exception. The evaluators of
  the repository never suspend on the in-memory ledger, so \<open>asyncio.gather\<close> runs them one
  after the other in the order of registration, and the model threads \<open>'w\<close> through them in
  that order. Cancellation of the whole call is not modelled.
\<close>

subsection \<open>Coercions of declared metadata\<close>

definition true_words :: "string list" where
  "true_words = [''1'', ''true'', ''yes'', ''on'']"

definition false_words :: "string list" where
  "false_words = [''0'', ''false'', ''no'', ''off'']"

fun coerce_bool :: "pyval \<Rightarrow> bool" where
  "coerce_bool (PBool b) = b"
| "coerce_bool (PInt i) = (i \<noteq> 0)"
| "coerce_bool (PStr s) =
     (let normalized = strip_lower s in
      if normalized \<in> set true_words then True
      else if normalized \<in> set false_words then False
      else False)"
| "coerce_bool v = False"

fun focus_loop :: "string list \<Rightarrow> pyval list \<Rightarrow> string list" where
  "focus_loop out [] = out"
| "focus_loop out (PStr s # items) =
     (let normalized = py_strip s in
      if normalized = [] \<or> normalized \<in> set out then focus_loop out items
      else focus_loop (out @ [normalized]) items)"
| "focus_loop out (item # items) = focus_loop out items"

fun coerce_focus :: "pyval \<Rightarrow> string list" where
  "coerce_focus (PStr s) = (let v = py_strip s in if v \<noteq> [] then [v] else [])"
| "coerce_focus (PList xs) = focus_loop [] xs"
| "coerce_focus (PTuple xs) = focus_loop [] xs"
| "coerce_focus (PSet xs) = focus_loop [] xs"
| "coerce_focus v = []"

fun coerce_risk_level :: "pyval \<Rightarrow> string" where
  "coerce_risk_level (PStr s) =
     (let normalized = strip_lower s in
      if normalized \<in> set known_risk_levels then normalized else ''low'')"
| "coerce_risk_level v = ''low''"

declare coerce_risk_level.simps [simp del]

subsection \<open>Results, contexts, capabilities\<close>

text \<open>
  The reason of a result: a fixed text, or the values the code interpolates into its
  message.
\<close>

datatype reason =
    RText string
  | RDailyLimit nat int
  | RCooldown int
  | RCircuitFailures nat
  | ROutsideHours micros micros
  | RBudgetExhausted money money pyval

record filter_result =
  fr_visible :: bool
  fr_reason :: reason

definition visible_result :: filter_result where
  "visible_result = \<lparr>fr_visible = True, fr_reason = RText []\<rparr>"

definition hidden_result :: "reason \<Rightarrow> filter_result" where
  "hidden_result r = \<lparr>fr_visible = False, fr_reason = r\<rparr>"

lemma fr_visible_results [simp]: "fr_visible visible_result" "\<not> fr_visible (hidden_result r)"
  by (simp_all add: visible_result_def hidden_result_def)

record run_context =
  rc_tenant :: string
  rc_confirmed :: "string set option"

definition run_context_new :: "pyval \<Rightarrow> string set option \<Rightarrow> py_error + run_context" where
  "run_context_new tenant_id confirmed =
     (case tenant_id of
        PStr s \<Rightarrow>
          if py_strip s = [] then Inl (ValueError ''tenant_id must be a non-empty string'')
          else Inr \<lparr>rc_tenant = py_strip s,
                 rc_confirmed = (case confirmed of
                    None \<Rightarrow> None
                  | Some names \<Rightarrow>
                      (let kept = py_strip ` names - {[]} in if kept = {} then None else Some kept))\<rparr>
      | _ \<Rightarrow> Inl (ValueError ''tenant_id must be a non-empty string''))"

definition is_confirmed :: "run_context \<Rightarrow> string \<Rightarrow> bool" where
  "is_confirmed ctx capability_name =
     (case rc_confirmed ctx of
        None \<Rightarrow> False
      | Some names \<Rightarrow>
          if names = {} then False
          else (let normalized = py_strip capability_name in
            if normalized = [] then False else normalized \<in> names))"

record capability =
  cap_name :: string
  cap_description :: string
  cap_task_type :: string
  cap_constraints :: pyval
  cap_focus :: "string list"
  cap_risk_level :: string
  cap_requires_confirmation :: bool

definition capability_new ::
  "string \<Rightarrow> string \<Rightarrow> string option \<Rightarrow> pyval \<Rightarrow> pyval \<Rightarrow> pyval \<Rightarrow> pyval \<Rightarrow> capability" where
  "capability_new name description task_type constraints focus risk_level requires_confirmation =
     \<lparr>cap_name = name, cap_description = description,
      cap_task_type = (case task_type of None \<Rightarrow> [] | Some t \<Rightarrow> t),
      cap_constraints = or_empty_dict constraints,
      cap_focus = coerce_focus focus,
      cap_risk_level = coerce_risk_level risk_level,
      cap_requires_confirmation = coerce_bool requires_confirmation\<rparr>"

definition cap_metadata :: "capability \<Rightarrow> pyval" where
  "cap_metadata c = PDict [(PStr ''owlclaw'', PDict
     [(PStr ''constraints'', cap_constraints c),
      (PStr ''task_type'', PStr (cap_task_type c)),
      (PStr ''focus'', PList (map PStr (cap_focus c))),
      (PStr ''risk_level'', PStr (cap_risk_level c)),
      (PStr ''requires_confirmation'', PBool (cap_requires_confirmation c))])]"

text \<open>\<open>capability.metadata.get("owlclaw", {}).get("constraints", {})\<close>, as the evaluators read it.\<close>

definition metadata_constraints :: "capability \<Rightarrow> pyval" where
  "metadata_constraints c =
     dict_get_or (dict_get_or (cap_metadata c) ''owlclaw'' (PDict [])) ''constraints'' (PDict [])"

lemma metadata_constraints [simp]: "metadata_constraints c = cap_constraints c"
  by (simp add: metadata_constraints_def cap_metadata_def dict_get_or_def dict_get_def)

subsection \<open>The filter: state and configuration\<close>

datatype eval_outcome =
    Returned filter_result
  | ReturnedOther
  | TimedOut
  | Raised

type_synonym 'w evaluator = "capability \<Rightarrow> string \<Rightarrow> run_context \<Rightarrow> 'w \<Rightarrow> eval_outcome \<times> 'w"

record 'w visibility_filter =
  vf_fail_policy :: string
  vf_timeout :: "rat option"
  vf_evaluators :: "'w evaluator list"
  vf_gate :: risk_gate
  vf_inject :: bool
  vf_cache :: "string \<rightharpoonup> rat"

definition visibility_filter_new :: "string \<Rightarrow> rat option \<Rightarrow> py_error + 'w visibility_filter" where
  "visibility_filter_new fail_policy timeout =
     (let normalized_policy = strip_lower fail_policy in
      if normalized_policy \<notin> {''open'', ''close''}
      then Inl (ValueError ''fail_policy must be either 'open' or 'close' '')
      else Inr \<lparr>vf_fail_policy = normalized_policy,
             vf_timeout = (case timeout of Some t \<Rightarrow> if t > 0 then Some t else None | None \<Rightarrow> None),
             vf_evaluators = [],
             vf_gate = risk_gate_new 300 None ''risk_gate'',
             vf_inject = False,
             vf_cache = Map.empty\<rparr>)"

text \<open>An object without a callable \<open>evaluate\<close> is \<open>None\<close>.\<close>

definition register_evaluator ::
  "'w evaluator option \<Rightarrow> 'w visibility_filter \<Rightarrow> py_error + 'w visibility_filter" where
  "register_evaluator e vf =
     (case e of
        None \<Rightarrow> Inl (TypeError ''evaluator must provide an evaluate(capability, agent_id, context) method'')
      | Some f \<Rightarrow> Inr (vf\<lparr>vf_evaluators := vf_evaluators vf @ [f]\<rparr>))"

definition configure_quality_score_injection ::
  "bool \<Rightarrow> (string \<times> rat) list option \<Rightarrow> 'w visibility_filter \<Rightarrow> 'w visibility_filter" where
  "configure_quality_score_injection enabled scores vf =
     (let vf1 = vf\<lparr>vf_inject := enabled\<rparr> in
      case scores of
        None \<Rightarrow> vf1
      | Some kvs \<Rightarrow> vf1\<lparr>vf_cache :=
          map_of (rev (map (\<lambda>(name, score). (py_strip name, score)) (filter (\<lambda>(name, score). py_strip name \<noteq> []) kvs)))\<rparr>)"

subsection \<open>The filter: one capability\<close>

definition handle_evaluator_failure :: "'w visibility_filter \<Rightarrow> filter_result" where
  "handle_evaluator_failure vf =
     (if vf_fail_policy vf = ''close'' then hidden_result (RText ''constraint_evaluator_error'')
      else visible_result)"

definition safe_evaluate ::
  "'w visibility_filter \<Rightarrow> 'w evaluator \<Rightarrow> capability \<Rightarrow> string \<Rightarrow> run_context \<Rightarrow> 'w \<Rightarrow> filter_result \<times> 'w" where
  "safe_evaluate vf e cap agent_id ctx w =
     (case e cap agent_id ctx w of
        (Returned r, w') \<Rightarrow> (r, w')
      | (ReturnedOther, w') \<Rightarrow> (handle_evaluator_failure vf, w')
      | (TimedOut, w') \<Rightarrow> (handle_evaluator_failure vf, w')
      | (Raised, w') \<Rightarrow> (handle_evaluator_failure vf, w'))"

fun gather_evaluators ::
  "'w visibility_filter \<Rightarrow> 'w evaluator list \<Rightarrow> capability \<Rightarrow> string \<Rightarrow> run_context \<Rightarrow> 'w
     \<Rightarrow> filter_result list \<times> 'w" where
  "gather_evaluators vf [] cap agent_id ctx w = ([], w)"
| "gather_evaluators vf (e # es) cap agent_id ctx w =
     (let (r, w1) = safe_evaluate vf e cap agent_id ctx w;
          (rs, w2) = gather_evaluators vf es cap agent_id ctx w1
      in (r # rs, w2))"

definition evaluate_risk_gate ::
  "uuid \<times> micros \<Rightarrow> capability \<Rightarrow> run_context \<Rightarrow> risk_gate \<Rightarrow> string option \<times> risk_gate" where
  "evaluate_risk_gate draw cap ctx gate =
     (if is_confirmed ctx (cap_name cap) then (None, gate)
      else (case rg_evaluate (fst draw) (snd draw) (cap_name cap) (cap_risk_level cap)
                   (cap_requires_confirmation cap) 0 gate of
          ((decision, _), gate') \<Rightarrow>
            (if decision = EXECUTE then None
             else if decision = PAUSE then Some ''requires_confirmation''
             else Some ''risk_rejected'', gate')))"

definition inject_quality_hint :: "(string \<rightharpoonup> rat) \<Rightarrow> capability \<Rightarrow> capability" where
  "inject_quality_hint cache cap =
     (case cache (cap_name cap) of
        None \<Rightarrow> cap
      | Some score \<Rightarrow>
          (let hint = ''[quality_score='' @ fmt3 score @ '']'' in
           if py_in hint (cap_description cap) then cap
           else if cap_description cap \<noteq> []
             then cap\<lparr>cap_description := cap_description cap @ '' '' @ hint\<rparr>
           else cap\<lparr>cap_description := hint\<rparr>))"

subsection \<open>The filter: a list of capabilities\<close>

text \<open>
  An entry that is not a \<open>CapabilityView\<close> is \<open>None\<close>. The \<open>n\<close>-th valid capability draws its
  operation identifier and its clock reading from \<open>draws n\<close>.
\<close>

fun filter_loop ::
  "'w visibility_filter \<Rightarrow> string \<Rightarrow> run_context \<Rightarrow> (nat \<Rightarrow> uuid \<times> micros) \<Rightarrow> nat \<Rightarrow> capability list
     \<Rightarrow> risk_gate \<Rightarrow> 'w \<Rightarrow> capability list \<times> risk_gate \<times> 'w" where
  "filter_loop vf agent_id ctx draws n [] gate w = ([], gate, w)"
| "filter_loop vf agent_id ctx draws n (cap # caps) gate w =
     (case evaluate_risk_gate (draws n) cap ctx gate of
        (Some reason, gate1) \<Rightarrow> filter_loop vf agent_id ctx draws (Suc n) caps gate1 w
      | (None, gate1) \<Rightarrow>
          (let (results, w1) = gather_evaluators vf (vf_evaluators vf) cap agent_id ctx w;
               reasons = map fr_reason (filter (\<lambda>r. \<not> fr_visible r) results)
           in if reasons \<noteq> [] then filter_loop vf agent_id ctx draws (Suc n) caps gate1 w1
              else (case filter_loop vf agent_id ctx draws (Suc n) caps gate1 w1 of
                  (out, gate2, w2) \<Rightarrow>
                    ((if vf_inject vf then inject_quality_hint (vf_cache vf) cap else cap) # out, gate2, w2))))"

definition filter_capabilities ::
  "(nat \<Rightarrow> uuid \<times> micros) \<Rightarrow> capability option list \<Rightarrow> string \<Rightarrow> run_context \<Rightarrow> 'w visibility_filter \<Rightarrow> 'w
     \<Rightarrow> capability list \<times> 'w visibility_filter \<times> 'w" where
  "filter_capabilities draws capabilities agent_id ctx vf w =
     (let valid_capabilities = List.map_filter (\<lambda>c. c) capabilities in
      case filter_loop vf agent_id ctx draws 0 valid_capabilities (vf_gate vf) w of
        (out, gate, w') \<Rightarrow> (out, vf\<lparr>vf_gate := gate\<rparr>, w'))"

subsection \<open>Facts about one capability\<close>

lemma inject_quality_hint_frame [simp, frame_simps]:
  "cap_name (inject_quality_hint cache c) = cap_name c"
  "cap_risk_level (inject_quality_hint cache c) = cap_risk_level c"
  "cap_requires_confirmation (inject_quality_hint cache c) = cap_requires_confirmation c"
  "cap_constraints (inject_quality_hint cache c) = cap_constraints c"
  by (simp_all add: inject_quality_hint_def Let_def split: option.split)

text \<open>The risk gate lets the capability pass in this run.\<close>

definition gate_passes :: "run_context \<Rightarrow> capability \<Rightarrow> bool" where
  "gate_passes ctx c \<longleftrightarrow> is_confirmed ctx (cap_name c)
     \<or> \<not> cap_requires_confirmation c \<and> norm_risk (cap_risk_level c) \<in> {''low'', ''medium'', ''high''}"

text \<open>The risk gate parks the capability.\<close>

definition gate_parks :: "run_context \<Rightarrow> capability \<Rightarrow> bool" where
  "gate_parks ctx c \<longleftrightarrow> \<not> is_confirmed ctx (cap_name c)
     \<and> (cap_requires_confirmation c \<or> norm_risk (cap_risk_level c) = ''critical'')"

lemma evaluate_risk_gate_None:
  "(fst (evaluate_risk_gate d c ctx g) = None) = gate_passes ctx c"
proof (cases "is_confirmed ctx (cap_name c)")
  case True
  then show ?thesis by (simp add: evaluate_risk_gate_def gate_passes_def)
next
  case False
  show ?thesis
    by (rule rg_evaluate_cases [of "cap_risk_level c" "cap_requires_confirmation c" 0 "fst d" "snd d" "cap_name c" g])
      (use False in \<open>auto simp: evaluate_risk_gate_def gate_passes_def known_risk_levels_def
         rg_pause_def Let_def\<close>)
qed

lemma evaluate_risk_gate_pending:
  "rg_pending (snd (evaluate_risk_gate d c ctx g)) =
     (if gate_parks ctx c then rg_pending (snd (rg_pause (fst d) (snd d) (cap_name c) (norm_risk (cap_risk_level c))
           (pause_reason (norm_risk (cap_risk_level c)) (cap_requires_confirmation c)) g))
      else rg_pending g)"
proof (cases "is_confirmed ctx (cap_name c)")
  case True
  then show ?thesis by (simp add: evaluate_risk_gate_def gate_parks_def)
next
  case False
  show ?thesis
  proof (rule rg_evaluate_cases [of "cap_risk_level c" "cap_requires_confirmation c" 0 "fst d" "snd d" "cap_name c" g])
    assume "norm_risk (cap_risk_level c) = ''critical'' \<or> cap_requires_confirmation c
        \<or> norm_risk (cap_risk_level c) = ''high'' \<and> (0::rat) \<ge> 8 / 10"
      and e: "rg_evaluate (fst d) (snd d) (cap_name c) (cap_risk_level c) (cap_requires_confirmation c) 0 g
        = rg_pause (fst d) (snd d) (cap_name c) (norm_risk (cap_risk_level c))
           (pause_reason (norm_risk (cap_risk_level c)) (cap_requires_confirmation c)) g"
    then have "gate_parks ctx c" using False by (auto simp: gate_parks_def)
    with False e show ?thesis by (simp add: evaluate_risk_gate_def case_prod_beta)
  next
    fix dd e x
    assume "\<not> (norm_risk (cap_risk_level c) = ''critical'' \<or> cap_requires_confirmation c
        \<or> norm_risk (cap_risk_level c) = ''high'' \<and> (0::rat) \<ge> 8 / 10)"
      and e: "rg_evaluate (fst d) (snd d) (cap_name c) (cap_risk_level c) (cap_requires_confirmation c) 0 g
        = ((dd, None), rg_audit e x g)"
    then have "\<not> gate_parks ctx c" by (auto simp: gate_parks_def)
    with False e show ?thesis by (simp add: evaluate_risk_gate_def)
  qed
qed

text \<open>An evaluator that never returns a \<open>FilterResult\<close>.\<close>

definition always_fails :: "'w evaluator \<Rightarrow> bool" where
  "always_fails e \<longleftrightarrow> (\<forall>c ag ctx w r. fst (e c ag ctx w) \<noteq> Returned r)"

text \<open>An evaluator that leaves the shared state alone.\<close>

definition read_only :: "'w evaluator \<Rightarrow> bool" where
  "read_only e \<longleftrightarrow> (\<forall>c ag ctx w. snd (e c ag ctx w) = w)"

lemma safe_evaluate_fails:
  "always_fails e \<Longrightarrow> fst (safe_evaluate vf e c ag ctx w) = handle_evaluator_failure vf"
  unfolding safe_evaluate_def always_fails_def
  by (cases "e c ag ctx w"; cases "fst (e c ag ctx w)") (auto, metis fst_conv)

lemma safe_evaluate_state: "snd (safe_evaluate vf e c ag ctx w) = snd (e c ag ctx w)"
  by (simp add: safe_evaluate_def case_prod_beta split: eval_outcome.split prod.split)

lemma gather_read_only:
  assumes "\<forall>e \<in> set es. read_only e"
  shows "gather_evaluators vf es c ag ctx w = (map (\<lambda>e. fst (safe_evaluate vf e c ag ctx w)) es, w)"
  using assms
proof (induction es)
  case (Cons e es)
  have "snd (safe_evaluate vf e c ag ctx w) = w"
    using Cons.prems by (simp add: safe_evaluate_state read_only_def)
  with Cons show ?case by (simp add: case_prod_beta Let_def)
qed simp

lemma gather_has_failure:
  assumes "bad \<in> set es" and "always_fails bad"
  shows "handle_evaluator_failure vf \<in> set (fst (gather_evaluators vf es c ag ctx w))"
  using assms
proof (induction es arbitrary: w)
  case (Cons e es)
  then show ?case
    using safe_evaluate_fails [of bad vf c ag ctx w] by (auto simp: case_prod_beta Let_def)
qed simp

subsection \<open>Facts about the loop\<close>

text \<open>One step of the loop, by what happens to its head.\<close>

definition evaluators_agree ::
  "'w visibility_filter \<Rightarrow> capability \<Rightarrow> string \<Rightarrow> run_context \<Rightarrow> 'w \<Rightarrow> bool" where
  "evaluators_agree vf c ag ctx w =
     list_all fr_visible (fst (gather_evaluators vf (vf_evaluators vf) c ag ctx w))"

lemma filter_loop_Cons:
  "filter_loop vf ag ctx draws n (c # cs) g w =
     (let g1 = snd (evaluate_risk_gate (draws n) c ctx g) in
      if gate_passes ctx c then
        (let w1 = snd (gather_evaluators vf (vf_evaluators vf) c ag ctx w);
             rest = filter_loop vf ag ctx draws (Suc n) cs g1 w1
         in (if evaluators_agree vf c ag ctx w
             then ((if vf_inject vf then inject_quality_hint (vf_cache vf) c else c) # fst rest, snd rest)
             else rest))
      else filter_loop vf ag ctx draws (Suc n) cs g1 w)"
proof -
  obtain o1 g1 where e: "evaluate_risk_gate (draws n) c ctx g = (o1, g1)"
    by (cases "evaluate_risk_gate (draws n) c ctx g")
  have o1: "(o1 = None) = gate_passes ctx c"
    using evaluate_risk_gate_None [of "draws n" c ctx g] by (simp add: e)
  have r: "(filter (\<lambda>r. \<not> fr_visible r) rs = []) = list_all fr_visible rs" for rs
    by (simp add: filter_empty_conv list_all_iff)
  show ?thesis
    using o1 by (cases o1) (simp_all add: e r evaluators_agree_def case_prod_beta Let_def)
qed

declare filter_loop.simps(2) [simp del]

lemma filter_loop_subset:
  "c' \<in> set (fst (filter_loop vf ag ctx draws n cs g w)) \<Longrightarrow> gate_passes ctx c'"
proof (induction cs arbitrary: n g w)
  case (Cons c cs)
  have "gate_passes ctx (inject_quality_hint (vf_cache vf) c) = gate_passes ctx c"
    by (simp add: gate_passes_def)
  with Cons show ?case by (auto simp: filter_loop_Cons Let_def split: if_splits)
qed simp

lemma filter_loop_subseq:
  "subseq (map cap_name (fst (filter_loop vf ag ctx draws n cs g w))) (map cap_name cs)"
proof (induction cs arbitrary: n g w)
  case (Cons c cs)
  then show ?case by (auto simp: filter_loop_Cons Let_def intro: list_emb_Cons)
qed simp

lemma filter_loop_read_only:
  assumes "\<forall>e \<in> set (vf_evaluators vf). read_only e"
  shows "fst (filter_loop vf ag ctx draws n cs g w) =
    map (\<lambda>c. if vf_inject vf then inject_quality_hint (vf_cache vf) c else c)
      (filter (\<lambda>c. gate_passes ctx c
         \<and> (\<forall>e \<in> set (vf_evaluators vf). fr_visible (fst (safe_evaluate vf e c ag ctx w)))) cs)"
proof (induction cs arbitrary: n g)
  case (Cons c cs)
  have "evaluators_agree vf c ag ctx w =
      (\<forall>e \<in> set (vf_evaluators vf). fr_visible (fst (safe_evaluate vf e c ag ctx w)))"
    by (simp add: evaluators_agree_def gather_read_only [OF assms] list_all_iff)
  with Cons show ?case by (simp add: filter_loop_Cons gather_read_only [OF assms] Let_def)
qed simp

lemma filter_loop_fail_closed:
  assumes "vf_fail_policy vf = ''close''" and "bad \<in> set (vf_evaluators vf)" and "always_fails bad"
  shows "fst (filter_loop vf ag ctx draws n cs g w) = []"
proof (induction cs arbitrary: n g w)
  case (Cons c cs)
  have "\<not> fr_visible (handle_evaluator_failure vf)"
    using assms(1) by (simp add: handle_evaluator_failure_def)
  then have "\<not> evaluators_agree vf c ag ctx w"
    using gather_has_failure [OF assms(2,3), of vf c ag ctx w]
    unfolding evaluators_agree_def list_all_iff by blast
  with Cons show ?case by (simp add: filter_loop_Cons Let_def)
qed simp

text \<open>
  What one registered evaluator demands of every capability it finds visible holds of every
  capability shown, as long as all evaluators keep the property \<open>I\<close> of the shared state the
  demand rests on.
\<close>

lemma gather_invariant:
  assumes "\<And>e c w. e \<in> set es \<Longrightarrow> I w \<Longrightarrow> I (snd (e c ag ctx w))" and "I w"
  shows "I (snd (gather_evaluators vf es c ag ctx w))"
  using assms
proof (induction es arbitrary: w)
  case (Cons e es)
  have "I (snd (safe_evaluate vf e c ag ctx w))"
    using Cons.prems by (simp add: safe_evaluate_state)
  moreover have "\<And>e c w. e \<in> set es \<Longrightarrow> I w \<Longrightarrow> I (snd (e c ag ctx w))"
    using Cons.prems(1) by simp
  ultimately show ?case using Cons.IH by (simp add: case_prod_beta Let_def)
qed simp

lemma gather_demand:
  assumes "\<And>e c w. e \<in> set es \<Longrightarrow> I w \<Longrightarrow> I (snd (e c ag ctx w))" and "I w" and "ev \<in> set es"
    and "vf_fail_policy vf = ''close''"
    and "\<And>w r. I w \<Longrightarrow> fst (ev c ag ctx w) = Returned r \<Longrightarrow> fr_visible r \<Longrightarrow> P"
    and "list_all fr_visible (fst (gather_evaluators vf es c ag ctx w))"
  shows P
  using assms(1-3,6)
proof (induction es arbitrary: w)
  case (Cons e es)
  have vis: "fr_visible (fst (safe_evaluate vf e c ag ctx w))"
    and rest: "list_all fr_visible (fst (gather_evaluators vf es c ag ctx (snd (safe_evaluate vf e c ag ctx w))))"
    using Cons.prems(4) by (simp_all add: case_prod_beta Let_def)
  have "I (snd (safe_evaluate vf e c ag ctx w))" using Cons.prems by (simp add: safe_evaluate_state)
  then have "ev \<in> set es \<Longrightarrow> P" using Cons.IH Cons.prems(1) rest by simp
  moreover have P if "ev = e"
  proof -
    obtain r where "fst (e c ag ctx w) = Returned r" "fr_visible r"
      using vis assms(4) by (cases "e c ag ctx w"; cases "fst (e c ag ctx w)")
        (simp_all add: safe_evaluate_def handle_evaluator_failure_def)
    then show P using assms(5) [OF Cons.prems(2)] that by simp
  qed
  ultimately show ?case using Cons.prems(3) by auto
qed simp

lemma filter_loop_demand:
  assumes inv: "\<And>e c w. e \<in> set (vf_evaluators vf) \<Longrightarrow> I w \<Longrightarrow> I (snd (e c ag ctx w))"
    and evs: "ev \<in> set (vf_evaluators vf)" and cl: "vf_fail_policy vf = ''close''"
    and demand: "\<And>c w r. I w \<Longrightarrow> fst (ev c ag ctx w) = Returned r \<Longrightarrow> fr_visible r \<Longrightarrow> P c"
    and inject: "\<And>c. P (inject_quality_hint (vf_cache vf) c) = P c"
  shows "I w \<Longrightarrow> list_all P (fst (filter_loop vf ag ctx draws n cs g w))
     \<and> I (snd (snd (filter_loop vf ag ctx draws n cs g w)))"
proof (induction cs arbitrary: n g w)
  case (Cons c cs)
  let ?w = "snd (gather_evaluators vf (vf_evaluators vf) c ag ctx w)"
  have w: "I ?w" by (rule gather_invariant) (use inv Cons.prems in blast)+
  have "P c" if "evaluators_agree vf c ag ctx w"
  proof -
    have d: "\<And>w r. I w \<Longrightarrow> fst (ev c ag ctx w) = Returned r \<Longrightarrow> fr_visible r \<Longrightarrow> P c"
      by (rule demand)
    have a: "list_all fr_visible (fst (gather_evaluators vf (vf_evaluators vf) c ag ctx w))"
      using that by (simp add: evaluators_agree_def)
    show ?thesis
      by (rule gather_demand [where I = I and ev = ev and c = c and vf = vf and w = w]) (fact inv Cons.prems evs cl d a)+
  qed
  then show ?case
    using Cons.IH [OF w] Cons.IH [OF Cons.prems] by (simp add: filter_loop_Cons Let_def inject)
qed simp

lemma filter_loop_pending:
  assumes "\<And>k. n \<le> k \<Longrightarrow> fst (draws k) \<notin> set (dict_keys (rg_pending g))"
    and "inj (\<lambda>k. fst (draws k))"
  shows "length (rg_pending (fst (snd (filter_loop vf ag ctx draws n cs g w)))) =
    length (rg_pending g) + length (filter (gate_parks ctx) cs)"
  using assms(1)
proof (induction cs arbitrary: n g w)
  case (Cons c cs)
  let ?g1 = "snd (evaluate_risk_gate (draws n) c ctx g)"
  have p: "length (rg_pending ?g1) = length (rg_pending g) + (if gate_parks ctx c then 1 else 0)"
    and k: "fst ` set (rg_pending ?g1) =
      (if gate_parks ctx c then {fst (draws n)} else {}) \<union> fst ` set (rg_pending g)"
    using Cons.prems [of n]
    by (simp_all add: evaluate_risk_gate_pending length_update_notin dom_update)
  have fresh: "fst (draws k) \<notin> set (dict_keys (rg_pending ?g1))" if "Suc n \<le> k" for k
  proof -
    have "fst (draws k) \<noteq> fst (draws n)" using assms(2) that by (auto dest: injD)
    then show ?thesis using Cons.prems [of k] that by (simp add: k)
  qed
  have "length (rg_pending (fst (snd (filter_loop vf ag ctx draws n (c # cs) g w)))) =
      length (rg_pending ?g1) + length (filter (gate_parks ctx) cs)"
    using Cons.IH [OF fresh] by (simp add: filter_loop_Cons Let_def)
  then show ?case by (simp add: p)
qed simp

subsection \<open>Properties\<close>

lemmas filter_capabilities_simps = filter_capabilities_def Let_def case_prod_beta


text \<open>Sample values for the witnesses.\<close>

definition sample_cap :: "string \<Rightarrow> string \<Rightarrow> capability" where
  "sample_cap name risk = capability_new name [] None PNone PNone (PStr risk) (PBool False)"

definition sample_ctx :: run_context where
  "sample_ctx = \<lparr>rc_tenant = ''t1'', rc_confirmed = None\<rparr>"

definition sample_filter :: "string \<Rightarrow> unit evaluator list \<Rightarrow> unit visibility_filter" where
  "sample_filter policy es = \<lparr>vf_fail_policy = policy, vf_timeout = Some 5, vf_evaluators = es,
     vf_gate = risk_gate_new 300 None ''risk_gate'', vf_inject = False, vf_cache = Map.empty\<rparr>"

definition sample_hide :: "string \<Rightarrow> unit evaluator" where
  "sample_hide name c ag ctx w =
     (Returned (if cap_name c = name then hidden_result (RText ''no'') else visible_result), w)"

definition sample_raise :: "unit evaluator" where
  "sample_raise c ag ctx w = (Raised, w)"

lemma norm_risk_samples [simp]:
  "norm_risk ''low'' = ''low''" "norm_risk ''critical'' = ''critical''"
  "coerce_risk_level (PStr ''low'') = ''low''" "coerce_risk_level (PStr ''critical'') = ''critical''"
  by code_simp+

lemma gate_samples [simp]:
  "gate_passes sample_ctx (sample_cap n ''low'')" "\<not> gate_passes sample_ctx (sample_cap n ''critical'')"
  "\<not> gate_parks sample_ctx (sample_cap n ''low'')" "gate_parks sample_ctx (sample_cap n ''critical'')"
  by (simp_all add: gate_passes_def gate_parks_def sample_ctx_def sample_cap_def capability_new_def is_confirmed_def)

lemma sample_cap_name [simp]: "cap_name (sample_cap n r) = n"
  by (simp add: sample_cap_def capability_new_def)


text \<open>
  Whatever the evaluators do, the filter shows a sublist of the capabilities it was
  given, in their order, and each one it shows was confirmed for this run or needs no
  confirmation and has a level below critical.
\<close>

theorem filter_capabilities_gate:
  "subseq (map cap_name (fst (filter_capabilities draws caps ag ctx vf w)))
      (map cap_name (List.map_filter (\<lambda>c. c) caps))
   \<and> list_all (gate_passes ctx) (fst (filter_capabilities draws caps ag ctx vf w))"
proof
  show "subseq (map cap_name (fst (filter_capabilities draws caps ag ctx vf w)))
      (map cap_name (List.map_filter (\<lambda>c. c) caps))"
    by (simp add: filter_capabilities_simps filter_loop_subseq)
  show "list_all (gate_passes ctx) (fst (filter_capabilities draws caps ag ctx vf w))"
    unfolding list_all_iff by (auto simp: filter_capabilities_simps dest: filter_loop_subset)
qed

text \<open>
  Fail-closed: under the policy \<open>close\<close>, one evaluator that raises, times out or returns
  something else hides every capability, whatever the other evaluators and the shared state
  do.
\<close>

theorem filter_capabilities_fail_closed:
  assumes "vf_fail_policy vf = ''close''" and "bad \<in> set (vf_evaluators vf)" and "always_fails bad"
  shows "fst (filter_capabilities draws caps ag ctx vf w) = []"
  using filter_loop_fail_closed [OF assms] by (simp add: filter_capabilities_simps)

theorem filter_capabilities_fail_closed_witness:
  "fst (filter_capabilities (\<lambda>n. (show_nat n, 0)) [Some (sample_cap ''a'' ''low'')] ''ag'' sample_ctx
      (sample_filter ''close'' [sample_hide ''b'', sample_raise]) ()) = []"
  by (rule filter_capabilities_fail_closed [where bad = sample_raise])
    (simp_all add: sample_filter_def always_fails_def sample_raise_def)

text \<open>
  A pass of the filter adds one parked operation to its risk gate for every unconfirmed
  capability that is critical or asks for confirmation, and removes none: nothing in the
  filter ever expires or settles the operations it parks, so the table grows with every
  pass.
\<close>

theorem filter_capabilities_pending_grows:
  assumes "inj (\<lambda>k. fst (draws k))"
    and "\<And>k. fst (draws k) \<notin> set (dict_keys (rg_pending (vf_gate vf)))"
  shows "length (rg_pending (vf_gate (fst (snd (filter_capabilities draws caps ag ctx vf w))))) =
    length (rg_pending (vf_gate vf)) + length (filter (gate_parks ctx) (List.map_filter (\<lambda>c. c) caps))"
  using filter_loop_pending [of 0 draws "vf_gate vf" vf ag ctx "List.map_filter (\<lambda>c. c) caps" w] assms
  by (simp add: filter_capabilities_simps)

theorem filter_capabilities_pending_grows_witness:
  "length (rg_pending (vf_gate (fst (snd (filter_capabilities (\<lambda>n. (replicate n CHR ''x'', 0))
      [Some (sample_cap ''a'' ''low''), Some (sample_cap ''c'' ''critical'')]
      ''ag'' sample_ctx (sample_filter ''close'' []) ()))))) = 1"
proof -
  have "inj (\<lambda>k. fst ((\<lambda>n. (replicate n CHR ''x'', 0 :: micros)) k))"
    by (rule injI) (metis fst_conv length_replicate)
  from filter_capabilities_pending_grows [OF this, of "sample_filter ''close'' []"
      "[Some (sample_cap ''a'' ''low''), Some (sample_cap ''c'' ''critical'')]" "''ag''" sample_ctx "()"]
  show ?thesis
    by (simp add: sample_filter_def risk_gate_new_def List.map_filter_simps)
qed

text \<open>
  Injecting the quality hint of a score a second time changes nothing, so repeated
  passes of the filter over the same capability objects do not grow their descriptions.
\<close>

theorem inject_quality_hint_idem:
  "inject_quality_hint cache (inject_quality_hint cache c) = inject_quality_hint cache c"
proof (cases "cache (cap_name c)")
  case None
  then show ?thesis by (simp add: inject_quality_hint_def)
next
  case (Some score)
  have "py_in h (d @ '' '' @ h)" and "py_in h h" for h d
    using py_in_appendI [of h "d @ '' ''"] py_in_appendI [of h "[]"] by simp_all
  with Some show ?thesis by (simp add: inject_quality_hint_def Let_def)
qed

end
