(* ===== verification/Ledger.thy ===== *)
theory Ledger
  imports Prelude
begin

section \<open>The execution ledger: records, queries, costs\<close>

text \<open>
  \<open>owlclaw/governance/ledger_inmemory.py\<close> and the query side of
  \<open>owlclaw/governance/ledger.py\<close>: the record of one capability execution, the filters of a
  query, the in-memory ledger of Lite Mode, and the statement the database ledger builds
  from the same filters. The locale \<open>ledger_view\<close> is what the constraint evaluators rely on:
  a query returns the matching records, ordered and limited as asked. It is interpreted on
  the in-memory ledger.
\<close>

subsection \<open>Data\<close>

text \<open>The arguments of \<open>record_execution\<close>; those the code type-checks are \<open>pyval\<close>.\<close>

record exec_call =
  xc_tenant :: pyval
  xc_agent :: pyval
  xc_run :: pyval
  xc_capability :: pyval
  xc_task :: pyval
  xc_input :: pyval
  xc_output :: pyval
  xc_reasoning :: "string option"
  xc_time_ms :: int
  xc_model :: string
  xc_tokens_in :: int
  xc_tokens_out :: int
  xc_cost :: money
  xc_status :: string
  xc_error :: "string option"
  xc_weight :: "int option"
  xc_mode :: "string option"
  xc_risk :: "rat option"
  xc_approver :: "string option"
  xc_approved_at :: "micros option"

record ledger_record =
  lr_id :: uuid
  lr_tenant :: string
  lr_agent :: string
  lr_run :: string
  lr_capability :: string
  lr_task :: string
  lr_input :: pyval
  lr_output :: pyval
  lr_reasoning :: "string option"
  lr_time_ms :: int
  lr_model :: string
  lr_tokens_in :: int
  lr_tokens_out :: int
  lr_cost :: money
  lr_status :: string
  lr_error :: "string option"
  lr_weight :: "int option"
  lr_mode :: "string option"
  lr_risk :: "rat option"
  lr_approver :: "string option"
  lr_approved_at :: "micros option"
  lr_created :: micros

record ledger_filters =
  lf_agent :: "string option"
  lf_capability :: "string option"
  lf_status :: "string option"
  lf_mode :: "string option"
  lf_start :: "date option"
  lf_end :: "date option"
  lf_limit :: "int option"
  lf_offset :: "int option"
  lf_order :: "string option"

definition no_filters :: ledger_filters where
  "no_filters = \<lparr>lf_agent = None, lf_capability = None, lf_status = None, lf_mode = None,
     lf_start = None, lf_end = None, lf_limit = None, lf_offset = None, lf_order = None\<rparr>"

record cost_summary =
  cs_total :: money
  cs_by_agent :: "(string \<times> money) list"
  cs_by_capability :: "(string \<times> money) list"

record memory_ledger =
  ml_records :: "ledger_record list"
  ml_max :: int

definition memory_ledger_new :: "int \<Rightarrow> memory_ledger" where
  "memory_ledger_new max_records = \<lparr>ml_records = [], ml_max = max_records\<rparr>"

subsection \<open>Recording\<close>

definition require_text :: "pyval \<Rightarrow> string \<Rightarrow> py_error + string" where
  "require_text value name =
     (case value of
        PStr s \<Rightarrow> let v = py_strip s in
          if v = [] then Inl (ValueError (name @ '' must be a non-empty string'')) else Inr v
      | _ \<Rightarrow> Inl (ValueError (name @ '' must be a non-empty string'')))"

text \<open>The five identifiers of a call, checked in the order of the code.\<close>

definition require_ids :: "exec_call \<Rightarrow> py_error + string \<times> string \<times> string \<times> string \<times> string" where
  "require_ids x =
     (case require_text (xc_tenant x) ''tenant_id'' of Inl e \<Rightarrow> Inl e | Inr tenant \<Rightarrow>
     (case require_text (xc_agent x) ''agent_id'' of Inl e \<Rightarrow> Inl e | Inr agent \<Rightarrow>
     (case require_text (xc_run x) ''run_id'' of Inl e \<Rightarrow> Inl e | Inr run \<Rightarrow>
     (case require_text (xc_capability x) ''capability_name'' of Inl e \<Rightarrow> Inl e | Inr capability \<Rightarrow>
     (case require_text (xc_task x) ''task_type'' of Inl e \<Rightarrow> Inl e | Inr task \<Rightarrow>
        Inr (tenant, agent, run, capability, task))))))"

definition make_record ::
  "uuid \<Rightarrow> micros \<Rightarrow> pyval \<Rightarrow> exec_call \<Rightarrow> string \<times> string \<times> string \<times> string \<times> string \<Rightarrow> ledger_record" where
  "make_record i now input x ids = (case ids of (tenant, agent, run, capability, task) \<Rightarrow>
     \<lparr>lr_id = i, lr_tenant = tenant, lr_agent = agent, lr_run = run, lr_capability = capability,
      lr_task = task, lr_input = input, lr_output = xc_output x, lr_reasoning = xc_reasoning x,
      lr_time_ms = xc_time_ms x, lr_model = xc_model x, lr_tokens_in = xc_tokens_in x,
      lr_tokens_out = xc_tokens_out x, lr_cost = xc_cost x, lr_status = xc_status x,
      lr_error = xc_error x, lr_weight = xc_weight x, lr_mode = xc_mode x, lr_risk = xc_risk x,
      lr_approver = xc_approver x, lr_approved_at = xc_approved_at x, lr_created = now\<rparr>)"

definition mem_append :: "ledger_record \<Rightarrow> memory_ledger \<Rightarrow> memory_ledger" where
  "mem_append r l =
     (let records = ml_records l @ [r]
      in if int (length records) > ml_max l then l\<lparr>ml_records := py_from (- ml_max l) records\<rparr>
         else l\<lparr>ml_records := records\<rparr>)"

definition mem_record_execution ::
  "uuid \<Rightarrow> micros \<Rightarrow> exec_call \<Rightarrow> memory_ledger \<Rightarrow> py_error + memory_ledger" where
  "mem_record_execution i now x l =
     (case require_ids x of
        Inl e \<Rightarrow> Inl e
      | Inr ids \<Rightarrow>
          Inr (mem_append (make_record i now (if is_dict (xc_input x) then xc_input x else PDict []) x ids) l))"

subsection \<open>Querying\<close>

definition filter_opt :: "'a option \<Rightarrow> ('a \<Rightarrow> 'b \<Rightarrow> bool) \<Rightarrow> 'b list \<Rightarrow> 'b list" where
  "filter_opt opt P xs = (case opt of None \<Rightarrow> xs | Some a \<Rightarrow> filter (P a) xs)"

definition order_records :: "string option \<Rightarrow> ledger_record list \<Rightarrow> ledger_record list" where
  "order_records order_by results =
     (if order_by = Some ''created_at DESC'' then sort_desc lr_created results
      else if order_by = Some ''created_at ASC'' then sort_asc lr_created results
      else results)"

definition mem_query_records :: "string \<Rightarrow> ledger_filters \<Rightarrow> memory_ledger \<Rightarrow> ledger_record list" where
  "mem_query_records tenant_id f l =
     (let results = filter (\<lambda>r. lr_tenant r = tenant_id) (ml_records l);
          results = filter_opt (lf_agent f) (\<lambda>a r. lr_agent r = a) results;
          results = filter_opt (lf_capability f) (\<lambda>c r. lr_capability r = c) results;
          results = filter_opt (lf_status f) (\<lambda>s r. lr_status r = s) results;
          results = filter_opt (lf_mode f) (\<lambda>m r. lr_mode r = Some m) results;
          results = filter_opt (lf_start f) (\<lambda>d r. day_start d \<le> lr_created r) results;
          results = filter_opt (lf_end f) (\<lambda>d r. lr_created r \<le> day_end d) results;
          results = order_records (lf_order f) results;
          results = (case lf_offset f of None \<Rightarrow> results | Some n \<Rightarrow> py_from n results);
          results = (case lf_limit f of None \<Rightarrow> results | Some n \<Rightarrow> py_upto n results)
      in results)"

fun cost_by_capability :: "(string \<times> money) list \<Rightarrow> ledger_record list \<Rightarrow> (string \<times> money) list" where
  "cost_by_capability acc [] = acc"
| "cost_by_capability acc (r # rs) =
     cost_by_capability
       (AList.update (lr_capability r)
          ((case map_of acc (lr_capability r) of None \<Rightarrow> 0 | Some c \<Rightarrow> c) + lr_cost r) acc) rs"

definition mem_get_cost_summary :: "string \<Rightarrow> string \<Rightarrow> date \<Rightarrow> date \<Rightarrow> memory_ledger \<Rightarrow> cost_summary" where
  "mem_get_cost_summary tenant_id agent_id start_date end_date l =
     (let start_dt = day_start start_date; end_dt = day_end end_date;
          matching = filter (\<lambda>r. lr_tenant r = tenant_id \<and> lr_agent r = agent_id
                       \<and> start_dt \<le> lr_created r \<and> lr_created r \<le> end_dt) (ml_records l);
          total = sum_list (map lr_cost matching)
      in \<lparr>cs_total = total, cs_by_agent = [(agent_id, total)],
          cs_by_capability = cost_by_capability [] matching\<rparr>)"

subsection \<open>The statement of the database ledger\<close>

text \<open>
  \<open>Ledger.query_records\<close> adds one \<open>where\<close> clause per filter to a select, then the order,
  the offset and the limit.
\<close>

datatype where_clause =
    WTenant string
  | WAgent string
  | WCapability string
  | WStatus string
  | WMode string
  | WFrom micros
  | WUntil micros

record ledger_stmt =
  st_where :: "where_clause list"
  st_order :: "bool option"
  st_offset :: "int option"
  st_limit :: "int option"

definition clause_opt :: "'a option \<Rightarrow> ('a \<Rightarrow> where_clause) \<Rightarrow> where_clause list" where
  "clause_opt opt mk = (case opt of None \<Rightarrow> [] | Some a \<Rightarrow> [mk a])"

definition build_query_stmt :: "string \<Rightarrow> ledger_filters \<Rightarrow> ledger_stmt" where
  "build_query_stmt tenant_id f =
     \<lparr>st_where = WTenant tenant_id # clause_opt (lf_agent f) WAgent @ clause_opt (lf_capability f) WCapability
        @ clause_opt (lf_status f) WStatus @ clause_opt (lf_mode f) WMode
        @ clause_opt (lf_start f) (\<lambda>d. WFrom (day_start d)) @ clause_opt (lf_end f) (\<lambda>d. WUntil (day_end d)),
      st_order = (if lf_order f = Some ''created_at DESC'' then Some True
                  else if lf_order f = Some ''created_at ASC'' then Some False else None),
      st_offset = lf_offset f,
      st_limit = lf_limit f\<rparr>"

text \<open>
  What such a select returns from a table whose rows are kept in insertion order, with a
  stable sort; \<open>OFFSET\<close> and \<open>LIMIT\<close> take non-negative numbers.
\<close>

fun clause_holds :: "where_clause \<Rightarrow> ledger_record \<Rightarrow> bool" where
  "clause_holds (WTenant t) r = (lr_tenant r = t)"
| "clause_holds (WAgent a) r = (lr_agent r = a)"
| "clause_holds (WCapability c) r = (lr_capability r = c)"
| "clause_holds (WStatus s) r = (lr_status r = s)"
| "clause_holds (WMode m) r = (lr_mode r = Some m)"
| "clause_holds (WFrom t) r = (t \<le> lr_created r)"
| "clause_holds (WUntil t) r = (lr_created r \<le> t)"

definition run_stmt :: "ledger_stmt \<Rightarrow> ledger_record list \<Rightarrow> ledger_record list" where
  "run_stmt st rows =
     (let hits = filter (\<lambda>r. list_all (\<lambda>c. clause_holds c r) (st_where st)) rows;
          ordered = (case st_order st of None \<Rightarrow> hits
             | Some True \<Rightarrow> sort_desc lr_created hits | Some False \<Rightarrow> sort_asc lr_created hits);
          rest = (case st_offset st of None \<Rightarrow> ordered | Some n \<Rightarrow> drop (nat n) ordered)
      in (case st_limit st of None \<Rightarrow> rest | Some n \<Rightarrow> take (nat n) rest))"

definition filters_match :: "string \<Rightarrow> ledger_filters \<Rightarrow> ledger_record \<Rightarrow> bool" where
  "filters_match tenant_id f r = list_all (\<lambda>c. clause_holds c r) (st_where (build_query_stmt tenant_id f))"

subsection \<open>Facts about queries\<close>

lemma filters_match_iff:
  "filters_match t f r \<longleftrightarrow> lr_tenant r = t
     \<and> (case lf_agent f of None \<Rightarrow> True | Some a \<Rightarrow> lr_agent r = a)
     \<and> (case lf_capability f of None \<Rightarrow> True | Some c \<Rightarrow> lr_capability r = c)
     \<and> (case lf_status f of None \<Rightarrow> True | Some s \<Rightarrow> lr_status r = s)
     \<and> (case lf_mode f of None \<Rightarrow> True | Some m \<Rightarrow> lr_mode r = Some m)
     \<and> (case lf_start f of None \<Rightarrow> True | Some d \<Rightarrow> day_start d \<le> lr_created r)
     \<and> (case lf_end f of None \<Rightarrow> True | Some d \<Rightarrow> lr_created r \<le> day_end d)"
  by (simp add: filters_match_def build_query_stmt_def clause_opt_def split: option.split)

lemma filter_opt_conv:
  "filter_opt opt P xs = filter (\<lambda>x. case opt of None \<Rightarrow> True | Some a \<Rightarrow> P a x) xs"
  by (simp add: filter_opt_def split: option.split)

lemma mem_query_eq:
  "mem_query_records t f l =
     (case lf_limit f of None \<Rightarrow> (\<lambda>xs. xs) | Some n \<Rightarrow> py_upto n)
     ((case lf_offset f of None \<Rightarrow> (\<lambda>xs. xs) | Some n \<Rightarrow> py_from n)
       (order_records (lf_order f) (filter (filters_match t f) (ml_records l))))"
  by (simp add: mem_query_records_def filter_opt_conv filters_match_iff [abs_def] conj_ac split: option.split)

lemma set_order_records [simp]: "set (order_records ob rs) = set rs"
  by (simp add: order_records_def)

lemma length_order_records [simp]: "length (order_records ob rs) = length rs"
  by (simp add: order_records_def)

lemma mem_query_subset:
  "set (mem_query_records t f l) \<subseteq> {r \<in> set (ml_records l). filters_match t f r}"
proof -
  let ?xs = "order_records (lf_order f) (filter (filters_match t f) (ml_records l))"
  let ?ys = "(case lf_offset f of None \<Rightarrow> (\<lambda>xs. xs) | Some n \<Rightarrow> py_from n) ?xs"
  have "set (mem_query_records t f l) \<subseteq> set ?ys"
    by (cases "lf_limit f") (simp_all add: mem_query_eq set_py_upto)
  also have "\<dots> \<subseteq> set ?xs"
    by (cases "lf_offset f") (simp_all add: set_py_from del: set_order_records set_filter)
  finally show ?thesis by simp
qed

subsection \<open>The interface the constraints use\<close>

text \<open>
  \<open>query\<close> is the ledger's \<open>query_records\<close> in its present state, \<open>recs\<close> the records it
  holds. The laws say which records a query may return, that without an offset and a limit
  it returns all of them, that the order asked for is the order given, and what a limit
  cuts.
\<close>

locale ledger_view =
  fixes query :: "string \<Rightarrow> ledger_filters \<Rightarrow> ledger_record list"
    and recs :: "ledger_record list"
  assumes query_sound: "set (query t f) \<subseteq> {r \<in> set recs. filters_match t f r}"
    and query_complete: "lf_offset f = None \<Longrightarrow> lf_limit f = None \<Longrightarrow>
      mset (query t f) = mset (filter (filters_match t f) recs)"
    and query_desc: "lf_offset f = None \<Longrightarrow> lf_limit f = None \<Longrightarrow> lf_order f = Some ''created_at DESC'' \<Longrightarrow>
      sorted (rev (map lr_created (query t f)))"
    and query_limit: "lf_offset f = None \<Longrightarrow> lf_limit f = Some n \<Longrightarrow> 0 \<le> n \<Longrightarrow>
      query t f = take (nat n) (query t (f\<lparr>lf_limit := None\<rparr>))"
begin

lemma query_tenant: "r \<in> set (query t f) \<Longrightarrow> lr_tenant r = t"
  using query_sound [of t f] by (auto simp: filters_match_iff)

lemma query_length: "lf_offset f = None \<Longrightarrow> lf_limit f = None \<Longrightarrow>
    length (query t f) = length (filter (filters_match t f) recs)"
  using query_complete [of f t] by (metis size_mset)

lemma query_set: "lf_offset f = None \<Longrightarrow> lf_limit f = None \<Longrightarrow>
    set (query t f) = {r \<in> set recs. filters_match t f r}"
  using query_complete [of f t] by (metis set_filter set_mset_mset)

lemma filters_match_limit [simp]: "filters_match t (f\<lparr>lf_limit := n\<rparr>) = filters_match t f"
  by (simp add: fun_eq_iff filters_match_iff)

text \<open>The first record of a descending query is a most recent one, and there is one if any record matches.\<close>

lemma query_latest:
  assumes f: "lf_offset f = None" "lf_limit f = Some n" "0 < n" "lf_order f = Some ''created_at DESC''"
  shows "(query t f = []) = (\<forall>r \<in> set recs. \<not> filters_match t f r)"
    and "query t f = r # rs \<Longrightarrow> r' \<in> set recs \<Longrightarrow> filters_match t f r' \<Longrightarrow> lr_created r' \<le> lr_created r"
proof -
  let ?f = "f\<lparr>lf_limit := None\<rparr>"
  have q: "query t f = take (nat n) (query t ?f)" using f by (intro query_limit) simp_all
  have set: "set (query t ?f) = {r \<in> set recs. filters_match t f r}"
    using query_set [of ?f t] f(1) by simp
  show "(query t f = []) = (\<forall>r \<in> set recs. \<not> filters_match t f r)"
  proof -
    have "(query t f = []) = (set (query t ?f) = {})" using f(3) by (simp add: q)
    then show ?thesis unfolding set by blast
  qed
  assume r: "query t f = r # rs" and r': "r' \<in> set recs" "filters_match t f r'"
  obtain rs' where full: "query t ?f = r # rs'"
    using r f(3) q by (cases "query t ?f") (auto simp: take_Cons')
  have "sorted (rev (map lr_created (r # rs')))"
    using query_desc [of ?f t] f full by simp
  moreover have "r' \<in> set (r # rs')" using set r' full by simp
  ultimately show "lr_created r' \<le> lr_created r" by (auto simp: sorted_append)
qed

end

interpretation mem_view: ledger_view "\<lambda>t f. mem_query_records t f l" "ml_records l" for l
proof (unfold_locales, goal_cases)
  case (1 t f)
  show ?case by (rule mem_query_subset)
next
  case (2 f t)
  then show ?case by (simp add: mem_query_eq order_records_def)
next
  case (3 f t)
  then show ?case by (simp add: mem_query_eq order_records_def sorted_sort_desc)
next
  case (4 f n t)
  have "filters_match t (f\<lparr>lf_limit := None\<rparr>) = filters_match t f"
    by (simp add: fun_eq_iff filters_match_iff)
  with 4 show ?case by (simp add: mem_query_eq py_upto_def)
qed

subsection \<open>Facts about the in-memory ledger\<close>

lemma mem_append_max [simp, frame_simps]: "ml_max (mem_append r l) = ml_max l"
  by (simp add: mem_append_def Let_def)

lemma mem_record_execution_Inr:
  "require_ids x = Inr ids \<Longrightarrow> mem_record_execution i now x l =
     Inr (mem_append (make_record i now (if is_dict (xc_input x) then xc_input x else PDict []) x ids) l)"
  by (simp add: mem_record_execution_def)

lemma mem_append_window:
  "0 < ml_max l \<Longrightarrow> ml_records (mem_append r l) = py_from (- ml_max l) (ml_records l @ [r])
     \<or> ml_records (mem_append r l) = ml_records l @ [r]"
  by (simp add: mem_append_def Let_def)

lemma mem_append_drop:
  assumes "0 < ml_max l"
  shows "ml_records (mem_append r l) =
    drop (length (ml_records l @ [r]) - nat (ml_max l)) (ml_records l @ [r])"
  using assms by (auto simp: mem_append_def Let_def py_from_def)

text \<open>Appending a whole list of records keeps the last \<open>ml_max\<close> of them.\<close>

lemma fold_mem_append:
  assumes "0 < ml_max l" and "length (ml_records l) \<le> nat (ml_max l)"
  shows "ml_records (fold mem_append rs l) =
    drop (length (ml_records l @ rs) - nat (ml_max l)) (ml_records l @ rs)"
  using assms
proof (induction rs arbitrary: l)
  case (Cons r rs)
  let ?l = "mem_append r l"
  have len: "length (ml_records ?l) \<le> nat (ml_max ?l)"
    using Cons.prems by (simp add: mem_append_drop)
  have "ml_records (fold mem_append (r # rs) l) =
      drop (length (ml_records ?l @ rs) - nat (ml_max l)) (ml_records ?l @ rs)"
    using Cons.IH [of ?l] Cons.prems len by simp
  also have "ml_records ?l = drop (length (ml_records l @ [r]) - nat (ml_max l)) (ml_records l @ [r])"
    using Cons.prems by (simp add: mem_append_drop)
  finally show ?case
    using Cons.prems by (cases "length (ml_records l) = nat (ml_max l)") auto
qed simp

lemma cost_by_capability_sum:
  assumes "distinct (dict_keys acc)"
  shows "sum_list (map snd (cost_by_capability acc rs)) = sum_list (map snd acc) + sum_list (map lr_cost rs)"
  using assms
proof (induction rs arbitrary: acc)
  case (Cons r rs)
  have upd: "sum_list (map snd (AList.update k (v + d) a)) = sum_list (map snd a) + d"
    if "distinct (dict_keys a)" "v = (case map_of a k of None \<Rightarrow> 0 | Some c \<Rightarrow> c)"
    for a :: "(string \<times> money) list" and k v d
    using that by (induction a arbitrary: v) (auto split: option.splits)
  show ?case
    using Cons.IH [OF distinct_keys_update [OF Cons.prems]] upd [OF Cons.prems refl] by simp
qed simp

lemma cost_by_capability_get:
  "map_of (cost_by_capability acc rs) c =
     (if (\<exists>r \<in> set rs. lr_capability r = c) \<or> map_of acc c \<noteq> None
      then Some ((case map_of acc c of None \<Rightarrow> 0 | Some x \<Rightarrow> x) + sum_list (map lr_cost (filter (\<lambda>r. lr_capability r = c) rs)))
      else None)"
  by (induction rs arbitrary: acc) (auto simp: update_conv' split: option.split)

subsection \<open>A history of calls\<close>

text \<open>
  Each call comes with the identifier and the time its record draws. A call that raises
  leaves the ledger as it was.
\<close>

fun mem_record_all :: "(uuid \<times> micros \<times> exec_call) list \<Rightarrow> memory_ledger \<Rightarrow> memory_ledger" where
  "mem_record_all [] l = l"
| "mem_record_all ((i, now, x) # calls) l =
     mem_record_all calls (case mem_record_execution i now x l of Inl e \<Rightarrow> l | Inr l' \<Rightarrow> l')"

text \<open>The record an accepted call creates.\<close>

definition accepted_record :: "uuid \<times> micros \<times> exec_call \<Rightarrow> ledger_record option" where
  "accepted_record c = (case c of (i, now, x) \<Rightarrow>
     (case require_ids x of
        Inl e \<Rightarrow> None
      | Inr ids \<Rightarrow> Some (make_record i now (if is_dict (xc_input x) then xc_input x else PDict []) x ids)))"

lemma mem_record_all_fold:
  "mem_record_all calls l = fold mem_append (List.map_filter accepted_record calls) l"
proof (induction calls arbitrary: l)
  case (Cons c calls)
  obtain i now x where "c = (i, now, x)" by (cases c)
  with Cons show ?case
    by (simp add: mem_record_execution_def accepted_record_def List.map_filter_simps split: sum.split)
qed (simp add: List.map_filter_simps)

subsection \<open>Properties\<close>

text \<open>
  After any history of calls, a fresh in-memory ledger of positive capacity holds
  exactly the records of the accepted calls, in order, cut to the last \<open>max_records\<close> of
  them.
\<close>

theorem mem_ledger_keeps_latest:
  assumes "0 < m"
  shows "ml_records (mem_record_all calls (memory_ledger_new m)) =
    (let rs = List.map_filter accepted_record calls in drop (length rs - nat m) rs)"
  using fold_mem_append [of "memory_ledger_new m"] assms
  by (simp add: mem_record_all_fold memory_ledger_new_def Let_def)

definition sample_call :: "string \<Rightarrow> string \<Rightarrow> rat \<Rightarrow> string \<Rightarrow> exec_call" where
  "sample_call tenant capability cost status =
     \<lparr>xc_tenant = PStr tenant, xc_agent = PStr ''agent'', xc_run = PStr ''run'',
      xc_capability = PStr capability, xc_task = PStr ''task'', xc_input = PDict [], xc_output = PNone,
      xc_reasoning = None, xc_time_ms = 0, xc_model = [], xc_tokens_in = 0, xc_tokens_out = 0,
      xc_cost = cost, xc_status = status, xc_error = None, xc_weight = None, xc_mode = None,
      xc_risk = None, xc_approver = None, xc_approved_at = None\<rparr>"

theorem mem_ledger_keeps_latest_witness:
  "map lr_id (ml_records (mem_record_all
      [(''1'', 1, sample_call ''t'' ''c'' 1 ''success''), (''2'', 2, sample_call [] ''c'' 1 ''success''),
       (''3'', 3, sample_call ''t'' ''c'' 1 ''error''), (''4'', 4, sample_call ''t'' ''d'' 1 ''success'')]
      (memory_ledger_new 2))) = [''3'', ''4'']"
proof -
  let ?calls = "[(''1'', 1, sample_call ''t'' ''c'' 1 ''success''), (''2'', 2, sample_call [] ''c'' 1 ''success''),
       (''3'', 3, sample_call ''t'' ''c'' 1 ''error''), (''4'', 4, sample_call ''t'' ''d'' 1 ''success'')]"
  let ?rs = "List.map_filter accepted_record ?calls"
  have ids: "map lr_id ?rs = [''1'', ''3'', ''4'']"
    by code_simp
  have "map lr_id (drop (length ?rs - 2) ?rs) = drop (length (map lr_id ?rs) - 2) (map lr_id ?rs)"
    by (simp only: drop_map length_map)
  also have "\<dots> = [''3'', ''4'']"
    unfolding ids by simp
  finally show ?thesis
    using mem_ledger_keeps_latest [of 2 ?calls] by (simp only: Let_def nat_numeral)
qed

text \<open>
  A capacity of zero does not empty the ledger: the slice \<open>records[-0:]\<close> is the whole
  list, so nothing is ever trimmed and the ledger grows without bound.
\<close>

theorem mem_ledger_zero_capacity_unbounded:
  "ml_records (mem_record_all calls (memory_ledger_new 0)) = List.map_filter accepted_record calls"
proof -
  have "ml_records (fold mem_append rs l) = ml_records l @ rs" if "ml_max l = 0" for rs l
    using that by (induction rs arbitrary: l) (simp_all add: mem_append_def Let_def py_from_def)
  then show ?thesis by (simp add: mem_record_all_fold memory_ledger_new_def)
qed

text \<open>
  A query returns only records of the tenant it names that match every filter given;
  no combination of filters, order, offset and limit reaches another tenant's records.
\<close>

theorem mem_query_isolated:
  "list_all (\<lambda>r. lr_tenant r = tenant \<and> filters_match tenant f r \<and> r \<in> set (ml_records l))
     (mem_query_records tenant f l)"
  using mem_view.query_tenant mem_view.query_sound [where l = l and t = tenant and f = f]
  by (auto simp: list_all_iff)



text \<open>
  A cost summary is consistent: its total is the sum of its per-capability costs, and
  the entry of a capability is the sum of the costs of the tenant's and agent's records of
  that capability in the period, present exactly when there is one.
\<close>

theorem mem_cost_summary_consistent:
  "cs_total (mem_get_cost_summary t a d1 d2 l) =
      sum_list (map snd (cs_by_capability (mem_get_cost_summary t a d1 d2 l)))
   \<and> map_of (cs_by_capability (mem_get_cost_summary t a d1 d2 l)) c =
      (let rs = filter (\<lambda>r. lr_tenant r = t \<and> lr_agent r = a \<and> lr_capability r = c
           \<and> day_start d1 \<le> lr_created r \<and> lr_created r \<le> day_end d2) (ml_records l)
       in if rs = [] then None else Some (sum_list (map lr_cost rs)))"
proof -
  let ?m = "filter (\<lambda>r. lr_tenant r = t \<and> lr_agent r = a
       \<and> day_start d1 \<le> lr_created r \<and> lr_created r \<le> day_end d2) (ml_records l)"
  have "filter (\<lambda>r. lr_capability r = c) ?m = filter (\<lambda>r. lr_tenant r = t \<and> lr_agent r = a \<and> lr_capability r = c
           \<and> day_start d1 \<le> lr_created r \<and> lr_created r \<le> day_end d2) (ml_records l)"
    by (auto intro: filter_cong)
  moreover have "(\<exists>r \<in> set ?m. lr_capability r = c) = (filter (\<lambda>r. lr_capability r = c) ?m \<noteq> [])"
    by (simp only: filter_empty_conv) blast
  ultimately show ?thesis
    using cost_by_capability_sum [of "[]" ?m] cost_by_capability_get [of "[]" ?m c]
    by (simp add: mem_get_cost_summary_def Let_def)
qed

end
