(* ===== verification/Budget.thy ===== *)
theory Budget
  imports Visibility Ledger
begin

section \<open>The budget constraint\<close>

text \<open>
  \<open>owlclaw/governance/constraints/budget.py\<close>. The evaluator compares what an agent spent
  this month, plus what earlier checks reserved, with the agent's limit; a check that lets
  an expensive capability through reserves its estimated cost for some seconds. The ledger
  enters as its \<open>get_cost_summary\<close>. The lock makes everything after the ledger query one
  step. A reservation is the monotonic time it expires at and its amount.
\<close>

type_synonym reservations = "string \<times> string \<rightharpoonup> (seconds \<times> money) list"

record budget_constraint =
  bc_threshold :: money
  bc_limits :: pyval
  bc_ttl :: int
  bc_reservations :: reservations

definition safe_decimal :: "pyval \<Rightarrow> money \<Rightarrow> money" where
  "safe_decimal value fallback = (case decimal_of value of None \<Rightarrow> fallback | Some d \<Rightarrow> d)"

definition budget_new :: "pyval \<Rightarrow> py_error + budget_constraint" where
  "budget_new config0 =
     (let config = or_empty_dict config0 in
      and_then (py_get_or config ''high_cost_threshold'' PNone) (\<lambda>threshold.
      and_then (py_get_or config ''budget_limits'' (PDict [])) (\<lambda>limits.
      and_then (py_get_or config ''reservation_ttl_seconds'' (PInt 30)) (\<lambda>ttl0.
      and_then (py_int ttl0) (\<lambda>ttl.
        Inr \<lparr>bc_threshold = safe_decimal threshold (1 / 10), bc_limits = limits,
             bc_ttl = ttl, bc_reservations = Map.empty\<rparr>)))))"

definition estimate_capability_cost :: "capability \<Rightarrow> py_error + money" where
  "estimate_capability_cost cap =
     and_then (py_get_or (cap_metadata cap) ''owlclaw'' PNone) (\<lambda>owlclaw.
     and_then (py_get_or (or_empty_dict owlclaw) ''constraints'' PNone) (\<lambda>constraints.
     and_then (py_get_or (or_empty_dict constraints) ''estimated_cost'' PNone) (\<lambda>raw.
       if raw \<noteq> PNone then Inr (safe_decimal raw (5 / 100)) else Inr (5 / 100))))"

definition purge_expired_reservations :: "seconds \<Rightarrow> string \<times> string \<Rightarrow> reservations \<Rightarrow> reservations" where
  "purge_expired_reservations now key rs =
     (case rs key of
        None \<Rightarrow> rs
      | Some entries \<Rightarrow>
          if entries = [] then rs
          else (let kept = filter (\<lambda>entry. fst entry > now) entries in
            if kept \<noteq> [] then rs(key \<mapsto> kept) else rs(key := None)))"

definition entries_of :: "reservations \<Rightarrow> string \<times> string \<Rightarrow> (seconds \<times> money) list" where
  "entries_of rs key = (case rs key of None \<Rightarrow> [] | Some entries \<Rightarrow> entries)"

text \<open>
  The arguments before the capability are what the call observes outside its own state: the
  ledger's \<open>get_cost_summary\<close>, the two readings of \<open>date.today()\<close> and the two readings of
  the monotonic clock.
\<close>

definition budget_evaluate ::
  "(string \<Rightarrow> string \<Rightarrow> date \<Rightarrow> date \<Rightarrow> cost_summary) \<Rightarrow> date \<Rightarrow> date \<Rightarrow> seconds \<Rightarrow> seconds
     \<Rightarrow> capability \<Rightarrow> string \<Rightarrow> run_context \<Rightarrow> budget_constraint
     \<Rightarrow> (py_error + filter_result) \<times> budget_constraint" where
  "budget_evaluate cost_summary_of today1 today2 now1 now2 cap agent_id ctx bc =
     (case py_get_or (bc_limits bc) agent_id PNone of
        Inl e \<Rightarrow> (Inl e, bc)
      | Inr budget_limit \<Rightarrow>
          if \<not> truthy budget_limit then (Inr visible_result, bc)
          else (let used_cost = cs_total (cost_summary_of (rc_tenant ctx) agent_id (first_of_month today1) today2);
                    limit_decimal = safe_decimal budget_limit 0
                in case estimate_capability_cost cap of
                     Inl e \<Rightarrow> (Inl e, bc)
                   | Inr estimated_cost \<Rightarrow>
                       (let reservation_needed = estimated_cost > bc_threshold bc;
                            key = (rc_tenant ctx, agent_id);
                            rs = purge_expired_reservations now1 key (bc_reservations bc);
                            reserved = sum_list (map snd (entries_of rs key));
                            remaining = limit_decimal - used_cost - reserved
                        in if reservation_needed \<and> (remaining \<le> 0 \<or> remaining < estimated_cost)
                           then (Inr (hidden_result (RBudgetExhausted used_cost reserved budget_limit)),
                                 bc\<lparr>bc_reservations := rs\<rparr>)
                           else if reservation_needed
                           then (Inr visible_result,
                                 bc\<lparr>bc_reservations := rs(key \<mapsto> entries_of rs key
                                      @ [(now2 + rat_of_int (bc_ttl bc), estimated_cost)])\<rparr>)
                           else (Inr visible_result, bc\<lparr>bc_reservations := rs\<rparr>))))"

text \<open>The scan of \<open>refund_reservation\<close> from index \<open>i - 1\<close> down to 0, popping the first hit.\<close>

fun refund_scan :: "money \<Rightarrow> nat \<Rightarrow> (seconds \<times> money) list \<Rightarrow> (seconds \<times> money) list" where
  "refund_scan amount 0 entries = entries"
| "refund_scan amount (Suc i) entries =
     (if snd (entries ! i) \<ge> amount then take i entries @ drop (Suc i) entries
      else refund_scan amount i entries)"

definition refund_reservation ::
  "seconds \<Rightarrow> string \<Rightarrow> string \<Rightarrow> pyval \<Rightarrow> budget_constraint \<Rightarrow> budget_constraint" where
  "refund_reservation now tenant_id agent_id amount bc =
     (let safe_amount = safe_decimal amount 0 in
      if safe_amount \<le> 0 then bc
      else (let key = (tenant_id, agent_id);
                rs = purge_expired_reservations now key (bc_reservations bc);
                entries = refund_scan safe_amount (length (entries_of rs key)) (entries_of rs key)
            in if entries = [] then bc\<lparr>bc_reservations := rs(key := None)\<rparr>
               else bc\<lparr>bc_reservations := rs(key \<mapsto> entries)\<rparr>))"

subsection \<open>Facts about reservations\<close>

definition reserved_total :: "reservations \<Rightarrow> string \<times> string \<Rightarrow> money" where
  "reserved_total rs key = sum_list (map snd (entries_of rs key))"

definition live_entries :: "seconds \<Rightarrow> (seconds \<times> money) list \<Rightarrow> (seconds \<times> money) list" where
  "live_entries now es = filter (\<lambda>e. now < fst e) es"

lemma entries_of_upd [simp]:
  "entries_of (rs(k \<mapsto> es)) k' = (if k' = k then es else entries_of rs k')"
  "entries_of (rs(k := None)) k' = (if k' = k then [] else entries_of rs k')"
  by (simp_all add: entries_of_def)

lemma entries_of_empty [simp]: "entries_of Map.empty k = []"
  by (simp add: entries_of_def)

lemma entries_purge [simp]:
  "entries_of (purge_expired_reservations now key rs) k =
     (if k = key then live_entries now (entries_of rs key) else entries_of rs k)"
  by (auto simp: purge_expired_reservations_def entries_of_def live_entries_def Let_def split: option.splits)

lemma budget_frame [simp, frame_simps]:
  "bc_limits (snd (budget_evaluate s d1 d2 n1 n2 c a x bc)) = bc_limits bc"
  "bc_threshold (snd (budget_evaluate s d1 d2 n1 n2 c a x bc)) = bc_threshold bc"
  "bc_ttl (snd (budget_evaluate s d1 d2 n1 n2 c a x bc)) = bc_ttl bc"
  "bc_limits (refund_reservation n t a m bc) = bc_limits bc"
  "bc_threshold (refund_reservation n t a m bc) = bc_threshold bc"
  "bc_ttl (refund_reservation n t a m bc) = bc_ttl bc"
  by (simp_all add: budget_evaluate_def refund_reservation_def Let_def split: sum.split)

lemma refund_scan_split:
  assumes "i \<le> length es"
  shows "(find (\<lambda>e. m \<le> snd e) (rev (take i es)) = None \<longrightarrow> refund_scan m i es = es)
   \<and> (\<forall>e. find (\<lambda>e. m \<le> snd e) (rev (take i es)) = Some e \<longrightarrow>
        (\<exists>as bs. es = as @ e # bs \<and> refund_scan m i es = as @ bs \<and> m \<le> snd e))"
  using assms
proof (induction i)
  case (Suc i)
  then have i: "i < length es" by simp
  then have t: "take (Suc i) es = take i es @ [es ! i]" by (rule take_Suc_conv_app_nth)
  show ?case
  proof (cases "m \<le> snd (es ! i)")
    case True
    have "es = take i es @ es ! i # drop (Suc i) es" using i by (rule id_take_nth_drop)
    with True show ?thesis by (simp add: t) blast
  next
    case False
    with Suc i show ?thesis by (simp add: t)
  qed
qed simp

lemma refund_scan_sum:
  "sum_list (map snd (refund_scan m (length es) es)) =
     sum_list (map snd es) - (case find (\<lambda>e. m \<le> snd e) (rev es) of None \<Rightarrow> 0 | Some e \<Rightarrow> snd e)"
proof (cases "find (\<lambda>e. m \<le> snd e) (rev es)")
  case None
  with refund_scan_split [of "length es" es m] show ?thesis by simp
next
  case (Some e)
  with refund_scan_split [of "length es" es m] obtain as bs
    where "es = as @ e # bs" "refund_scan m (length es) es = as @ bs" by auto
  with Some show ?thesis by simp
qed

lemma refund_scan_subset: "set (refund_scan m i es) \<subseteq> set es"
  by (induction i) (auto dest: in_set_takeD in_set_dropD)

lemma budget_evaluate_live:
  assumes "py_get_or (bc_limits bc) agent PNone = Inr lmt" and "truthy lmt"
    and "estimate_capability_cost cap = Inr cost"
  shows "budget_evaluate sm d1 d2 n1 n2 cap agent ctx bc =
    (let key = (rc_tenant ctx, agent);
         rs = purge_expired_reservations n1 key (bc_reservations bc);
         live = live_entries n1 (entries_of (bc_reservations bc) key);
         used = cs_total (sm (rc_tenant ctx) agent (first_of_month d1) d2);
         reserved = sum_list (map snd live);
         remaining = safe_decimal lmt 0 - used - reserved
     in if bc_threshold bc < cost \<and> (remaining \<le> 0 \<or> remaining < cost)
        then (Inr (hidden_result (RBudgetExhausted used reserved lmt)), bc\<lparr>bc_reservations := rs\<rparr>)
        else if bc_threshold bc < cost
        then (Inr visible_result, bc\<lparr>bc_reservations := rs(key \<mapsto> live @ [(n2 + rat_of_int (bc_ttl bc), cost)])\<rparr>)
        else (Inr visible_result, bc\<lparr>bc_reservations := rs\<rparr>))"
  using assms by (simp add: budget_evaluate_def Let_def)

lemma live_entries_sum_le:
  assumes "list_all (\<lambda>e. 0 \<le> snd e) es"
  shows "sum_list (map snd (live_entries now es)) \<le> sum_list (map snd es)"
  using assms by (induction es) (auto simp: live_entries_def intro: add_mono)

lemma list_all_live_entries: "list_all P es \<Longrightarrow> list_all P (live_entries now es)"
  by (simp add: live_entries_def list_all_iff)

subsection \<open>Reachable constraints\<close>

text \<open>
  Every call may come from any tenant and agent, see any non-negative spend and read any
  clock.
\<close>

inductive budget_reach :: "budget_constraint \<Rightarrow> bool" where
  budget_init: "budget_new config = Inr bc \<Longrightarrow> budget_reach bc"
| budget_check: "budget_reach bc \<Longrightarrow> \<forall>t a d e. 0 \<le> cs_total (sm t a d e) \<Longrightarrow>
    budget_reach (snd (budget_evaluate sm d1 d2 n1 n2 cap agent ctx bc))"
| budget_refund: "budget_reach bc \<Longrightarrow> budget_reach (refund_reservation n t a amount bc)"

definition agent_limit :: "budget_constraint \<Rightarrow> string \<Rightarrow> money" where
  "agent_limit bc agent = (case py_get_or (bc_limits bc) agent PNone of
      Inl e \<Rightarrow> 0 | Inr lmt \<Rightarrow> if truthy lmt then safe_decimal lmt 0 else 0)"

text \<open>What holds of the reservations under one key.\<close>

definition entries_ok :: "money \<Rightarrow> money \<Rightarrow> (seconds \<times> money) list \<Rightarrow> bool" where
  "entries_ok threshold limit es \<longleftrightarrow>
     list_all (\<lambda>e. threshold < snd e) es \<and> sum_list (map snd es) \<le> max 0 limit"

lemma entries_ok_nonneg: "entries_ok th l es \<Longrightarrow> 0 \<le> th \<Longrightarrow> list_all (\<lambda>e. 0 \<le> snd e) es"
  by (auto simp: entries_ok_def list_all_iff)

lemma entries_ok_live: "entries_ok th l es \<Longrightarrow> 0 \<le> th \<Longrightarrow> entries_ok th l (live_entries now es)"
  using live_entries_sum_le [OF entries_ok_nonneg, of th l es now]
  by (auto simp: entries_ok_def list_all_live_entries)

lemma entries_ok_refund:
  assumes "entries_ok th l es" and "0 \<le> th" and "0 < m"
  shows "entries_ok th l (refund_scan m (length es) es)"
proof -
  have "0 \<le> (case find (\<lambda>e. m \<le> snd e) (rev es) of None \<Rightarrow> 0 | Some e \<Rightarrow> snd e)"
  proof (cases "find (\<lambda>e. m \<le> snd e) (rev es)")
    case (Some e)
    then have "m \<le> snd e" by (auto simp: find_Some_iff)
    with Some assms(3) show ?thesis by simp
  qed simp
  then show ?thesis
    using assms(1) refund_scan_subset [of m "length es" es]
    by (auto simp: entries_ok_def refund_scan_sum list_all_iff)
qed

lemma budget_check_ok:
  assumes nn: "0 \<le> bc_threshold bc" and sm: "\<forall>t a d e. 0 \<le> cs_total (sm t a d e)"
    and ok: "\<forall>t a. entries_ok (bc_threshold bc) (agent_limit bc a) (entries_of (bc_reservations bc) (t, a))"
  shows "entries_ok (bc_threshold bc) (agent_limit bc a)
    (entries_of (bc_reservations (snd (budget_evaluate sm d1 d2 n1 n2 cap agent ctx bc))) (t, a))"
proof (cases "\<exists>lmt cost. py_get_or (bc_limits bc) agent PNone = Inr lmt \<and> truthy lmt
     \<and> estimate_capability_cost cap = Inr cost")
  case False
  then have "snd (budget_evaluate sm d1 d2 n1 n2 cap agent ctx bc) = bc"
    by (auto simp: budget_evaluate_def Let_def split: sum.split)
  with ok show ?thesis by simp
next
  case True
  then obtain lmt cost where l: "py_get_or (bc_limits bc) agent PNone = Inr lmt" "truthy lmt"
    and c: "estimate_capability_cost cap = Inr cost" by blast
  let ?es = "entries_of (bc_reservations bc) (rc_tenant ctx, agent)"
  have live: "entries_ok (bc_threshold bc) (agent_limit bc agent) (live_entries n1 ?es)"
    by (intro entries_ok_live ok [rule_format] nn)
  have lmt: "agent_limit bc agent = safe_decimal lmt 0" using l by (simp add: agent_limit_def)
  have used: "0 \<le> cs_total (sm (rc_tenant ctx) agent (first_of_month d1) d2)" using sm by blast
  have new: "entries_ok (bc_threshold bc) (agent_limit bc agent) (live_entries n1 ?es @ [(x, cost)])"
    if "bc_threshold bc < cost"
      "cost \<le> safe_decimal lmt 0 - cs_total (sm (rc_tenant ctx) agent (first_of_month d1) d2)
          - sum_list (map snd (live_entries n1 ?es))" for x
    using that live used by (simp add: entries_ok_def lmt)
  show ?thesis
    using ok live new
    by (auto simp: budget_evaluate_live [OF l c] Let_def not_le not_less)
qed

lemma budget_refund_ok:
  assumes nn: "0 \<le> bc_threshold bc"
    and ok: "\<forall>t a. entries_ok (bc_threshold bc) (agent_limit bc a) (entries_of (bc_reservations bc) (t, a))"
  shows "entries_ok (bc_threshold bc) (agent_limit bc a')
    (entries_of (bc_reservations (refund_reservation n t a amount bc)) (t', a'))"
proof (cases "safe_decimal amount 0 \<le> 0")
  case True
  with ok show ?thesis by (simp add: refund_reservation_def)
next
  case False
  let ?es = "live_entries n (entries_of (bc_reservations bc) (t, a))"
  have "entries_ok (bc_threshold bc) (agent_limit bc a) (refund_scan (safe_decimal amount 0) (length ?es) ?es)"
    using False by (intro entries_ok_refund entries_ok_live ok [rule_format] nn) simp
  moreover have "entries_ok th l []" for th l by (simp add: entries_ok_def)
  ultimately show ?thesis using ok False by (auto simp: refund_reservation_def Let_def)
qed

lemma agent_limit_frame [simp]:
  "agent_limit (snd (budget_evaluate s d1 d2 n1 n2 c a x bc)) = agent_limit bc"
  "agent_limit (refund_reservation n t a m bc) = agent_limit bc"
  by (simp_all add: fun_eq_iff agent_limit_def)

lemma budget_reach_ok:
  "budget_reach bc \<Longrightarrow> 0 \<le> bc_threshold bc \<Longrightarrow>
     \<forall>t a. entries_ok (bc_threshold bc) (agent_limit bc a) (entries_of (bc_reservations bc) (t, a))"
proof (induction rule: budget_reach.induct)
  case (budget_init config bc)
  then have "bc_reservations bc = Map.empty"
    by (auto simp: budget_new_def Let_def and_then_Inr_iff)
  then show ?case by (simp add: entries_ok_def)
next
  case (budget_check bc sm d1 d2 n1 n2 cap agent ctx)
  then show ?case using budget_check_ok [of bc sm] by simp
next
  case (budget_refund bc n t a amount)
  then show ?case using budget_refund_ok [of bc] by simp
qed

subsection \<open>Properties\<close>

text \<open>
  The decision on a capability with a known cost, for an agent with a limit: it stays
  visible exactly when it is cheap or when the spend of the month, the live reservations
  and its own cost fit in the limit; only an expensive capability that is let through adds
  its cost to what is reserved.
\<close>

theorem budget_admission:
  assumes "py_get_or (bc_limits bc) agent PNone = Inr lmt" and "truthy lmt"
    and "estimate_capability_cost cap = Inr cost" and "0 \<le> bc_threshold bc"
  shows "let r = budget_evaluate sm d1 d2 n1 n2 cap agent ctx bc;
       key = (rc_tenant ctx, agent);
       used = cs_total (sm (rc_tenant ctx) agent (first_of_month d1) d2);
       reserved = sum_list (map snd (live_entries n1 (entries_of (bc_reservations bc) key)))
     in fst r = Inr (if cost \<le> bc_threshold bc \<or> used + reserved + cost \<le> safe_decimal lmt 0
                     then visible_result else hidden_result (RBudgetExhausted used reserved lmt))
        \<and> reserved_total (bc_reservations (snd r)) key =
            reserved + (if bc_threshold bc < cost \<and> used + reserved + cost \<le> safe_decimal lmt 0 then cost else 0)"
  using assms(4) by (auto simp: budget_evaluate_live [OF assms(1-3)] Let_def reserved_total_def not_le not_less)

definition sample_costly :: capability where
  "sample_costly = capability_new ''report'' [] None (PDict [(PStr ''estimated_cost'', PStr ''0.4'')]) PNone (PStr ''low'') PNone"

definition sample_budget :: budget_constraint where
  "sample_budget = \<lparr>bc_threshold = 1 / 10, bc_limits = PDict [(PStr ''agent'', PStr ''1'')], bc_ttl = 30,
     bc_reservations = Map.empty\<rparr>"

definition no_spend :: "string \<Rightarrow> string \<Rightarrow> date \<Rightarrow> date \<Rightarrow> cost_summary" where
  "no_spend t a d e = \<lparr>cs_total = 0, cs_by_agent = [], cs_by_capability = []\<rparr>"

lemma sample_budget_facts:
  "py_get_or (bc_limits sample_budget) ''agent'' PNone = Inr (PStr ''1'')"
  "truthy (PStr ''1'')"
  "estimate_capability_cost sample_costly = Inr (2 / 5)"
  "safe_decimal (PStr ''1'') 0 = 1"
  "0 \<le> bc_threshold sample_budget"
  by (code_simp)+

theorem budget_admission_witness:
  "fst (budget_evaluate no_spend (2025, 3, 5) (2025, 3, 5) 0 0 sample_costly ''agent'' sample_ctx sample_budget)
     = Inr visible_result"
  using budget_admission [OF sample_budget_facts(1-3,5), of no_spend "(2025, 3, 5)" "(2025, 3, 5)" 0 0 sample_ctx]
  by (simp add: Let_def sample_budget_facts(4) no_spend_def sample_budget_def live_entries_def)



text \<open>
  A refund gives back one whole reservation: the newest live one whose amount is at
  least the amount refunded, however much larger it is, and nothing if there is none.
\<close>

theorem refund_releases_whole_reservation:
  assumes "0 < safe_decimal amount 0"
  shows "let live = live_entries n (entries_of (bc_reservations bc) (t, a)) in
    reserved_total (bc_reservations (refund_reservation n t a amount bc)) (t, a) =
      sum_list (map snd live)
      - (case find (\<lambda>e. safe_decimal amount 0 \<le> snd e) (rev live) of None \<Rightarrow> 0 | Some e \<Rightarrow> snd e)"
  using assms
  by (auto simp: refund_reservation_def Let_def reserved_total_def refund_scan_sum [symmetric] not_le)

theorem refund_releases_whole_reservation_witness:
  "reserved_total (bc_reservations (refund_reservation 0 ''t'' ''agent'' (PStr ''0.1'')
      (sample_budget\<lparr>bc_reservations := [(''t'', ''agent'') \<mapsto> [(30, 1 / 2), (31, 9 / 10)]]\<rparr>))) (''t'', ''agent'')
   = 1 / 2"
proof -
  have a: "safe_decimal (PStr ''0.1'') 0 = 1 / 10" by code_simp
  show ?thesis
    using refund_releases_whole_reservation [of "PStr ''0.1''" 0
        "sample_budget\<lparr>bc_reservations := [(''t'', ''agent'') \<mapsto> [(30, 1 / 2), (31, 9 / 10)]]\<rparr>" "''t''" "''agent''"]
    by (simp add: a Let_def live_entries_def entries_of_def)
qed

subsection \<open>Checks without executions\<close>

text \<open>
  The same check repeated; \<open>n1 i\<close> and \<open>n2 i\<close> are the clock readings of the \<open>i\<close>-th one.
\<close>

fun budget_checks ::
  "(string \<Rightarrow> string \<Rightarrow> date \<Rightarrow> date \<Rightarrow> cost_summary) \<Rightarrow> date \<Rightarrow> (nat \<Rightarrow> seconds) \<Rightarrow> (nat \<Rightarrow> seconds)
     \<Rightarrow> capability \<Rightarrow> string \<Rightarrow> run_context \<Rightarrow> nat \<Rightarrow> budget_constraint \<Rightarrow> budget_constraint" where
  "budget_checks sm d n1 n2 cap agent ctx 0 bc = bc"
| "budget_checks sm d n1 n2 cap agent ctx (Suc k) bc =
     snd (budget_evaluate sm d d (n1 k) (n2 k) cap agent ctx (budget_checks sm d n1 n2 cap agent ctx k bc))"

lemma budget_checks_frame [simp]:
  "bc_limits (budget_checks sm d n1 n2 cap agent ctx k bc) = bc_limits bc"
  "bc_threshold (budget_checks sm d n1 n2 cap agent ctx k bc) = bc_threshold bc"
  "bc_ttl (budget_checks sm d n1 n2 cap agent ctx k bc) = bc_ttl bc"
  by (induction k) simp_all

lemma budget_checks_entries:
  assumes l: "py_get_or (bc_limits bc) agent PNone = Inr lmt" "truthy lmt"
    and c: "estimate_capability_cost cap = Inr cost" and th: "0 \<le> bc_threshold bc" "bc_threshold bc < cost"
    and used: "used = cs_total (sm (rc_tenant ctx) agent (first_of_month d) d)"
    and e0: "bc_reservations bc = Map.empty"
    and ttl: "\<forall>i j. n1 i < n2 j + rat_of_int (bc_ttl bc)"
  shows "\<exists>m \<le> k. (m = k \<or> safe_decimal lmt 0 < used + of_nat (Suc m) * cost)
    \<and> (used + of_nat m * cost \<le> safe_decimal lmt 0 \<or> m = 0)
    \<and> (\<exists>ts. entries_of (bc_reservations (budget_checks sm d n1 n2 cap agent ctx k bc)) (rc_tenant ctx, agent)
          = map (\<lambda>t. (t, cost)) ts \<and> length ts = m \<and> (\<forall>i. \<forall>t \<in> set ts. n1 i < t))"
proof (induction k)
  case 0
  show ?case by (auto simp: e0)
next
  case (Suc k)
  let ?b = "budget_checks sm d n1 n2 cap agent ctx k bc"
  let ?key = "(rc_tenant ctx, agent)"
  from Suc obtain m ts where m: "m \<le> k" "m = k \<or> safe_decimal lmt 0 < used + of_nat (Suc m) * cost"
      "used + of_nat m * cost \<le> safe_decimal lmt 0 \<or> m = 0"
    and ts: "entries_of (bc_reservations ?b) ?key = map (\<lambda>t. (t, cost)) ts" "length ts = m"
      "\<forall>i. \<forall>t \<in> set ts. n1 i < t" by blast
  have live: "live_entries (n1 k) (entries_of (bc_reservations ?b) ?key) = map (\<lambda>t. (t, cost)) ts"
    using ts(3) by (simp add: ts(1) live_entries_def filter_id_conv)
  have total: "sum_list (map (snd \<circ> (\<lambda>t. (t, cost))) ts) = cost * of_nat m"
    by (simp add: ts(2) [symmetric] o_def sum_list_triv)
  have lb: "py_get_or (bc_limits ?b) agent PNone = Inr lmt" using l by simp
  have step: "entries_of (bc_reservations (budget_checks sm d n1 n2 cap agent ctx (Suc k) bc)) ?key =
      (if used + of_nat (Suc m) * cost \<le> safe_decimal lmt 0
       then map (\<lambda>t. (t, cost)) (ts @ [n2 k + rat_of_int (bc_ttl bc)]) else map (\<lambda>t. (t, cost)) ts)"
    using th by (auto simp: budget_evaluate_live [OF lb l(2) c] Let_def live total used [symmetric] algebra_simps)
  show ?case
  proof (cases "used + of_nat (Suc m) * cost \<le> safe_decimal lmt 0")
    case True
    then have "m = k" using m by auto
    with True step ts ttl show ?thesis
      by (intro exI [of _ "Suc m"]) (auto intro!: exI [of _ "ts @ [n2 k + rat_of_int (bc_ttl bc)]"])
  next
    case False
    with step ts m show ?thesis by (intro exI [of _ m]) auto
  qed
qed

text \<open>
  Checks alone spend the budget: with no execution in between, the check number \<open>k\<close>
  (from 0) of one expensive capability within the reservation time is answered as if each
  earlier visible answer had been an execution, so it stays visible only while
  \<open>(k + 1) * cost\<close> fits in what is left of the limit.
\<close>

theorem budget_checks_exhaust:
  assumes l: "py_get_or (bc_limits bc) agent PNone = Inr lmt" "truthy lmt"
    and c: "estimate_capability_cost cap = Inr cost" and th: "0 \<le> bc_threshold bc" "bc_threshold bc < cost"
    and e0: "bc_reservations bc = Map.empty"
    and ttl: "\<forall>i j. n1 i < n2 j + rat_of_int (bc_ttl bc)"
  shows "(fst (budget_evaluate sm d d (n1 k) (n2 k) cap agent ctx (budget_checks sm d n1 n2 cap agent ctx k bc))
      = Inr visible_result)
    = (cs_total (sm (rc_tenant ctx) agent (first_of_month d) d) + of_nat (Suc k) * cost \<le> safe_decimal lmt 0)"
proof -
  let ?b = "budget_checks sm d n1 n2 cap agent ctx k bc"
  let ?used = "cs_total (sm (rc_tenant ctx) agent (first_of_month d) d)"
  obtain m ts where m: "m \<le> k" "m = k \<or> safe_decimal lmt 0 < ?used + of_nat (Suc m) * cost"
    and ts: "entries_of (bc_reservations ?b) (rc_tenant ctx, agent) = map (\<lambda>t. (t, cost)) ts" "length ts = m"
      "\<forall>i. \<forall>t \<in> set ts. n1 i < t"
    using budget_checks_entries [OF l c th refl e0 ttl, where k = k] by blast
  have live: "live_entries (n1 k) (entries_of (bc_reservations ?b) (rc_tenant ctx, agent)) = map (\<lambda>t. (t, cost)) ts"
    using ts(3) by (simp add: ts(1) live_entries_def filter_id_conv)
  have total: "sum_list (map (snd \<circ> (\<lambda>t. (t, cost))) ts) = cost * of_nat m"
    by (simp add: ts(2) [symmetric] o_def sum_list_triv)
  have lb: "py_get_or (bc_limits ?b) agent PNone = Inr lmt" using l by simp
  have "(fst (budget_evaluate sm d d (n1 k) (n2 k) cap agent ctx ?b) = Inr visible_result)
      = (?used + of_nat (Suc m) * cost \<le> safe_decimal lmt 0)"
    using th by (auto simp: budget_evaluate_live [OF lb l(2) c] Let_def live total algebra_simps
        visible_result_def hidden_result_def)
  also have "\<dots> = (?used + of_nat (Suc k) * cost \<le> safe_decimal lmt 0)"
  proof (cases "m = k")
    case False
    have "of_nat (Suc m) * cost \<le> of_nat (Suc k) * cost"
      using m(1) th by (intro mult_right_mono) simp_all
    with False m(2) show ?thesis by linarith
  qed simp
  finally show ?thesis .
qed

theorem budget_checks_exhaust_witness:
  "fst (budget_evaluate no_spend (2025, 3, 5) (2025, 3, 5) 2 2 sample_costly ''agent'' sample_ctx
      (budget_checks no_spend (2025, 3, 5) (\<lambda>i. 2) (\<lambda>i. 2) sample_costly ''agent'' sample_ctx 2 sample_budget))
   \<noteq> Inr visible_result"
proof -
  have "bc_threshold sample_budget < 2 / 5" "bc_reservations sample_budget = Map.empty"
    "\<forall>(i::nat) (j::nat). (2 :: rat) < 2 + rat_of_int (bc_ttl sample_budget)"
    by (simp_all add: sample_budget_def)
  from budget_checks_exhaust [OF sample_budget_facts(1-3,5) this, of no_spend "(2025, 3, 5)" sample_ctx 2]
  show ?thesis by (simp add: sample_budget_facts(4) no_spend_def)
qed

end
