(* ===== verification/Breaker.thy ===== *)
theory Breaker
  imports Visibility Ledger
begin

section \<open>The circuit breaker constraint\<close>

text \<open>
  \<open>owlclaw/governance/constraints/circuit_breaker.py\<close>: a capability whose most recent
  records are all failures is hidden for some time, then let through once. The ledger enters
  as its \<open>query_records\<close>; what the count needs of it is the locale \<open>ledger_view\<close>. The
  configured threshold and timeout are numbers.
\<close>

datatype circuit_state = CLOSED | OPEN | HALF_OPEN

record breaker =
  cb_threshold :: int
  cb_timeout :: seconds
  cb_states :: "string \<times> string \<rightharpoonup> circuit_state \<times> micros option"

definition breaker_new :: "int option \<Rightarrow> seconds option \<Rightarrow> breaker" where
  "breaker_new failure_threshold recovery_timeout =
     \<lparr>cb_threshold = (case failure_threshold of None \<Rightarrow> 5 | Some n \<Rightarrow> n),
      cb_timeout = (case recovery_timeout of None \<Rightarrow> 300 | Some r \<Rightarrow> r),
      cb_states = Map.empty\<rparr>"

text \<open>\<open>(now - then).total_seconds()\<close>.\<close>

definition elapsed_seconds :: "micros \<Rightarrow> micros \<Rightarrow> seconds" where
  "elapsed_seconds now start = rat_of_int (now - start) / 1000000"

definition failed :: "ledger_record \<Rightarrow> bool" where
  "failed rec \<longleftrightarrow> lr_status rec \<in> {''error'', ''timeout''}"

fun count_failures :: "int \<Rightarrow> ledger_record list \<Rightarrow> int" where
  "count_failures failures [] = failures"
| "count_failures failures (rec # recs) =
     (if failed rec then count_failures (failures + 1) recs else failures)"

definition failure_filters :: "int \<Rightarrow> string \<Rightarrow> string \<Rightarrow> ledger_filters" where
  "failure_filters threshold agent_id capability_name =
     no_filters\<lparr>lf_agent := Some agent_id, lf_capability := Some capability_name,
        lf_limit := Some (threshold + 1), lf_order := Some ''created_at DESC''\<rparr>"

definition get_recent_failures ::
  "(string \<Rightarrow> ledger_filters \<Rightarrow> ledger_record list) \<Rightarrow> string \<Rightarrow> string \<Rightarrow> string \<Rightarrow> breaker \<Rightarrow> int" where
  "get_recent_failures query tenant_id agent_id capability_name cb =
     count_failures 0 (query tenant_id (failure_filters (cb_threshold cb) agent_id capability_name))"

definition breaker_evaluate ::
  "(string \<Rightarrow> ledger_filters \<Rightarrow> ledger_record list) \<Rightarrow> micros
     \<Rightarrow> capability \<Rightarrow> string \<Rightarrow> run_context \<Rightarrow> breaker \<Rightarrow> filter_result \<times> breaker" where
  "breaker_evaluate query now cap agent_id ctx cb =
     (let key = (agent_id, cap_name cap);
          (state, open_time) = (case cb_states cb key of None \<Rightarrow> (CLOSED, None) | Some s \<Rightarrow> s)
      in if state = OPEN then
           (case open_time of
              Some t \<Rightarrow>
                if elapsed_seconds now t > cb_timeout cb
                then (visible_result, cb\<lparr>cb_states := (cb_states cb)(key \<mapsto> (HALF_OPEN, None))\<rparr>)
                else (hidden_result (RText ''Circuit open (capability recently failed)''), cb)
            | None \<Rightarrow> (hidden_result (RText ''Circuit open (capability recently failed)''), cb))
         else
           (let recent_failures = get_recent_failures query (rc_tenant ctx) agent_id (cap_name cap) cb
            in if recent_failures \<ge> cb_threshold cb
               then (hidden_result (RCircuitFailures (nat recent_failures)),
                     cb\<lparr>cb_states := (cb_states cb)(key \<mapsto> (OPEN, Some now))\<rparr>)
               else (visible_result, cb)))"

definition on_capability_success :: "string \<Rightarrow> string \<Rightarrow> breaker \<Rightarrow> breaker" where
  "on_capability_success agent_id capability_name cb =
     (let key = (agent_id, capability_name) in
      if cb_states cb key \<noteq> None then cb\<lparr>cb_states := (cb_states cb)(key \<mapsto> (CLOSED, None))\<rparr> else cb)"

subsection \<open>Counting failures\<close>

lemma count_failures_eq: "count_failures n rs = n + int (length (takeWhile failed rs))"
  by (induction rs arbitrary: n) simp_all

lemma takeWhile_ge_iff:
  "k \<le> length (takeWhile P xs) \<longleftrightarrow> k \<le> length xs \<and> list_all P (take k xs)"
proof (induction xs arbitrary: k)
  case (Cons x xs)
  then show ?case by (cases k) auto
qed simp

text \<open>The records of an agent and a capability, the newest first.\<close>

definition history_filters :: "string \<Rightarrow> string \<Rightarrow> ledger_filters" where
  "history_filters agent_id capability_name =
     no_filters\<lparr>lf_agent := Some agent_id, lf_capability := Some capability_name,
        lf_order := Some ''created_at DESC''\<rparr>"

definition all_recent_failed :: "nat \<Rightarrow> ledger_record list \<Rightarrow> bool" where
  "all_recent_failed n history \<longleftrightarrow> n \<le> length history \<and> list_all failed (take n history)"

context ledger_view
begin

lemma recent_failures_limit:
  assumes "0 \<le> cb_threshold cb"
  shows "cb_threshold cb \<le> get_recent_failures query t a c cb
    \<longleftrightarrow> all_recent_failed (nat (cb_threshold cb)) (query t (history_filters a c))"
proof -
  let ?n = "nat (cb_threshold cb)"
  let ?f = "failure_filters (cb_threshold cb) a c"
  have "query t ?f = take (nat (cb_threshold cb + 1)) (query t (?f\<lparr>lf_limit := None\<rparr>))"
    using assms by (intro query_limit) (simp_all add: failure_filters_def no_filters_def)
  moreover have "?f\<lparr>lf_limit := None\<rparr> = history_filters a c"
    by (simp add: failure_filters_def history_filters_def no_filters_def)
  moreover have "nat (cb_threshold cb + 1) = Suc ?n" using assms by simp
  ultimately have q: "query t ?f = take (Suc ?n) (query t (history_filters a c))" by simp
  have "cb_threshold cb \<le> get_recent_failures query t a c cb \<longleftrightarrow> ?n \<le> length (takeWhile failed (query t ?f))"
    using assms by (simp add: get_recent_failures_def count_failures_eq nat_le_iff)
  also have "\<dots> \<longleftrightarrow> all_recent_failed ?n (query t (history_filters a c))"
    by (simp add: takeWhile_ge_iff q all_recent_failed_def min_def)
  finally show ?thesis .
qed

text \<open>One success among the most recent records keeps the circuit from tripping.\<close>

lemma recent_success_no_trip:
  assumes "0 < cb_threshold cb" and "query t (history_filters a c) = r # rs" and "\<not> failed r"
  shows "\<not> cb_threshold cb \<le> get_recent_failures query t a c cb"
  using assms recent_failures_limit [of cb t a c]
  by (cases "nat (cb_threshold cb)") (simp_all add: all_recent_failed_def)

end

lemma mem_history:
  "mem_query_records t (history_filters a c) l =
     sort_desc lr_created (filter (\<lambda>r. lr_tenant r = t \<and> lr_agent r = a \<and> lr_capability r = c) (ml_records l))"
  by (simp add: mem_query_eq history_filters_def no_filters_def order_records_def filters_match_iff [abs_def])

subsection \<open>The automaton of one circuit\<close>

text \<open>The state of a circuit as the code reads it, and the moves of the documented automaton.\<close>

definition circuit_of :: "breaker \<Rightarrow> string \<times> string \<Rightarrow> circuit_state \<times> micros option" where
  "circuit_of cb key = (case cb_states cb key of None \<Rightarrow> (CLOSED, None) | Some s \<Rightarrow> s)"

inductive circuit_step :: "circuit_state \<Rightarrow> circuit_state \<Rightarrow> bool" where
  circuit_stay: "circuit_step s s"
| circuit_trip: "circuit_step CLOSED OPEN"
| circuit_probe: "circuit_step OPEN HALF_OPEN"
| circuit_retrip: "circuit_step HALF_OPEN OPEN"
| circuit_reset: "circuit_step s CLOSED"

inductive_cases circuit_from_OPEN: "circuit_step OPEN s"
inductive_simps circuit_to_HALF_OPEN: "circuit_step s HALF_OPEN"

lemma breaker_frame [simp, frame_simps]:
  "cb_threshold (snd (breaker_evaluate q now c a x cb)) = cb_threshold cb"
  "cb_timeout (snd (breaker_evaluate q now c a x cb)) = cb_timeout cb"
  "cb_threshold (on_capability_success a' n cb) = cb_threshold cb"
  "cb_timeout (on_capability_success a' n cb) = cb_timeout cb"
  by (simp_all add: breaker_evaluate_def on_capability_success_def Let_def split: prod.split option.split)

lemma breaker_evaluate_open:
  assumes "circuit_of cb (a, cap_name c) = (OPEN, Some t)"
  shows "breaker_evaluate q now c a ctx cb =
    (if elapsed_seconds now t > cb_timeout cb
     then (visible_result, cb\<lparr>cb_states := (cb_states cb)((a, cap_name c) \<mapsto> (HALF_OPEN, None))\<rparr>)
     else (hidden_result (RText ''Circuit open (capability recently failed)''), cb))"
  using assms by (simp add: breaker_evaluate_def circuit_of_def Let_def)

lemma breaker_evaluate_not_open:
  assumes "fst (circuit_of cb (a, cap_name c)) \<noteq> OPEN"
  shows "breaker_evaluate q now c a ctx cb =
    (let n = get_recent_failures q (rc_tenant ctx) a (cap_name c) cb in
     if cb_threshold cb \<le> n
     then (hidden_result (RCircuitFailures (nat n)),
           cb\<lparr>cb_states := (cb_states cb)((a, cap_name c) \<mapsto> (OPEN, Some now))\<rparr>)
     else (visible_result, cb))"
  using assms by (cases "circuit_of cb (a, cap_name c)") (simp add: breaker_evaluate_def circuit_of_def Let_def)

lemma circuit_of_upd [simp]:
  "circuit_of (cb\<lparr>cb_states := (cb_states cb)(k \<mapsto> s)\<rparr>) k' = (if k' = k then s else circuit_of cb k')"
  by (simp add: circuit_of_def)

lemma circuit_of_success:
  "circuit_of (on_capability_success a n cb) k =
     (if k = (a, n) then (CLOSED, None) else circuit_of cb k)"
  by (cases "cb_states cb (a, n)") (simp_all add: on_capability_success_def circuit_of_def)

subsection \<open>Reachable breakers\<close>

inductive breaker_reach :: "breaker \<Rightarrow> bool" where
  breaker_init: "breaker_reach (breaker_new n t)"
| breaker_check: "breaker_reach cb \<Longrightarrow> breaker_reach (snd (breaker_evaluate q now c a ctx cb))"
| breaker_success: "breaker_reach cb \<Longrightarrow> breaker_reach (on_capability_success a n cb)"

text \<open>A circuit carries an opening time exactly while it is open.\<close>

lemma breaker_open_time:
  "breaker_reach cb \<Longrightarrow> (fst (circuit_of cb k) = OPEN) = (snd (circuit_of cb k) \<noteq> None)"
proof (induction arbitrary: k rule: breaker_reach.induct)
  case (breaker_init n t)
  show ?case by (simp add: breaker_new_def circuit_of_def)
next
  case (breaker_check cb q now c a ctx)
  obtain s t where st: "circuit_of cb (a, cap_name c) = (s, t)" by (cases "circuit_of cb (a, cap_name c)")
  show ?case
  proof (cases "s = OPEN")
    case True
    with breaker_check.IH [of "(a, cap_name c)"] obtain u where u: "t = Some u" by (auto simp: st)
    show ?thesis
      using breaker_check.IH [of k] by (simp add: breaker_evaluate_open [OF st [unfolded True u]])
  next
    case False
    then have n: "fst (circuit_of cb (a, cap_name c)) \<noteq> OPEN" by (simp add: st)
    show ?thesis
      using breaker_check.IH [of k] by (simp add: breaker_evaluate_not_open [OF n] Let_def)
  qed
next
  case (breaker_success cb a n)
  then show ?case by (simp add: circuit_of_success)
qed

subsection \<open>Properties\<close>


definition failing_call :: "uuid \<Rightarrow> micros \<Rightarrow> uuid \<times> micros \<times> exec_call" where
  "failing_call i now = (i, now, sample_call ''t1'' ''a'' 1 ''error'')"

definition failing_ledger :: memory_ledger where
  "failing_ledger = mem_record_all [failing_call ''1'' 1, failing_call ''2'' 2] (memory_ledger_new 10)"

abbreviation ledger_query :: "memory_ledger \<Rightarrow> string \<Rightarrow> ledger_filters \<Rightarrow> ledger_record list" where
  "ledger_query l \<equiv> (\<lambda>t f. mem_query_records t f l)"


text \<open>
  A circuit that is not open trips on a check exactly when the ledger holds at least
  \<open>failure_threshold\<close> records of this tenant, agent and capability and the newest
  \<open>failure_threshold\<close> of them are errors or timeouts; otherwise the capability stays visible
  and nothing changes.
\<close>

theorem breaker_trips_iff:
  assumes "fst (circuit_of cb (a, cap_name c)) \<noteq> OPEN" and "0 \<le> cb_threshold cb"
  shows "let r = breaker_evaluate (ledger_query l) now c a ctx cb;
       history = sort_desc lr_created (filter (\<lambda>r. lr_tenant r = rc_tenant ctx \<and> lr_agent r = a
           \<and> lr_capability r = cap_name c) (ml_records l))
     in if all_recent_failed (nat (cb_threshold cb)) history
        then \<not> fr_visible (fst r) \<and> circuit_of (snd r) (a, cap_name c) = (OPEN, Some now)
        else fst r = visible_result \<and> snd r = cb"
  using mem_view.recent_failures_limit [where l = l and t = "rc_tenant ctx" and a = a and c = "cap_name c", OF assms(2)]
  by (simp add: breaker_evaluate_not_open [OF assms(1)] mem_history Let_def)

lemma failing_history:
  "map (\<lambda>r. (lr_created r, failed r)) (sort_desc lr_created (filter (\<lambda>r. lr_tenant r = ''t1'' \<and> lr_agent r = ''agent''
     \<and> lr_capability r = ''a'') (ml_records failing_ledger))) = [(2, True), (1, True)]"
  by code_simp

lemma all_recent_failed_map:
  "map (\<lambda>r. (lr_created r, failed r)) rs = xs \<Longrightarrow> all_recent_failed n rs = (n \<le> length xs \<and> list_all snd (take n xs))"
  by (auto simp: all_recent_failed_def list_all_iff take_map)

theorem breaker_trips_iff_witness:
  "circuit_of (snd (breaker_evaluate (ledger_query failing_ledger) 5 (sample_cap ''a'' ''low'') ''agent'' sample_ctx
      (breaker_new (Some 2) None))) (''agent'', ''a'') = (OPEN, Some 5)"
proof -
  have "fst (circuit_of (breaker_new (Some 2) None) (''agent'', cap_name (sample_cap ''a'' ''low''))) \<noteq> OPEN"
    and "0 \<le> cb_threshold (breaker_new (Some 2) None)"
    by (simp_all add: breaker_new_def circuit_of_def)
  from breaker_trips_iff [OF this, of failing_ledger 5 sample_ctx]
  show ?thesis
    by (simp add: Let_def sample_ctx_def all_recent_failed_map [OF failing_history] breaker_new_def)
qed

text \<open>Checks by several tenants, in the order they happen.\<close>

fun breaker_checks ::
  "((string \<Rightarrow> ledger_filters \<Rightarrow> ledger_record list) \<times> micros \<times> run_context) list \<Rightarrow> capability \<Rightarrow> string
     \<Rightarrow> breaker \<Rightarrow> filter_result list \<times> breaker" where
  "breaker_checks [] c a cb = ([], cb)"
| "breaker_checks ((q, now, ctx) # ks) c a cb =
     (let (r, cb1) = breaker_evaluate q now c a ctx cb; (rs, cb2) = breaker_checks ks c a cb1 in (r # rs, cb2))"

text \<open>
  An open circuit hides the capability from every tenant until the timeout has passed:
  the table is keyed by agent and capability only, so once the failures of one tenant have
  opened it, checks of any tenants find the capability hidden, whatever their own ledger
  records, successes included, say.
\<close>

theorem breaker_open_hides_all_tenants:
  assumes "circuit_of cb (a, cap_name c) = (OPEN, Some t)"
    and "list_all (\<lambda>(q, now, ctx). elapsed_seconds now t \<le> cb_timeout cb) ks"
  shows "list_all (\<lambda>r. \<not> fr_visible r) (fst (breaker_checks ks c a cb)) \<and> snd (breaker_checks ks c a cb) = cb"
  using assms(2)
proof (induction ks)
  case (Cons k ks)
  obtain q now ctx where k: "k = (q, now, ctx)" by (cases k)
  with Cons.prems have "breaker_evaluate q now c a ctx cb =
      (hidden_result (RText ''Circuit open (capability recently failed)''), cb)"
    by (simp add: breaker_evaluate_open [OF assms(1)])
  with Cons k show ?case by (simp add: case_prod_beta Let_def)
qed simp

theorem breaker_open_hides_all_tenants_witness:
  "list_all (\<lambda>r. \<not> fr_visible r) (fst (breaker_checks
     [(ledger_query (memory_ledger_new 10), 6, sample_ctx\<lparr>rc_tenant := ''t2''\<rparr>)] (sample_cap ''a'' ''low'') ''agent''
     (snd (breaker_evaluate (ledger_query failing_ledger) 5 (sample_cap ''a'' ''low'') ''agent'' sample_ctx
      (breaker_new (Some 2) None)))))"
proof -
  let ?cb = "snd (breaker_evaluate (ledger_query failing_ledger) 5 (sample_cap ''a'' ''low'') ''agent'' sample_ctx
      (breaker_new (Some 2) None))"
  have "fst (circuit_of (breaker_new (Some 2) None) (''agent'', cap_name (sample_cap ''a'' ''low''))) \<noteq> OPEN"
    by (simp add: breaker_new_def circuit_of_def)
  from breaker_evaluate_not_open [OF this, of "ledger_query failing_ledger" 5 sample_ctx]
    mem_view.recent_failures_limit [where l = failing_ledger and t = "''t1''" and a = "''agent''" and c = "''a''"
      and cb = "breaker_new (Some 2) None"]
  have "circuit_of ?cb (''agent'', cap_name (sample_cap ''a'' ''low'')) = (OPEN, Some 5)"
    by (simp add: Let_def sample_ctx_def mem_history all_recent_failed_map [OF failing_history] breaker_new_def
        circuit_of_def)
  then show ?thesis
    by (rule breaker_open_hides_all_tenants [THEN conjunct1]) (simp add: elapsed_seconds_def breaker_new_def)
qed

text \<open>
  After the timeout the capability is let through by exactly one check: the next check
  of a tenant whose newest records are still all failures opens the circuit again, with the
  time of that check.
\<close>

theorem breaker_single_probe:
  assumes "circuit_of cb (a, cap_name c) = (OPEN, Some t)" and "elapsed_seconds now1 t > cb_timeout cb"
    and "cb_threshold cb \<le> get_recent_failures q2 (rc_tenant ctx2) a (cap_name c) cb"
  shows "let r1 = breaker_evaluate q1 now1 c a ctx1 cb; r2 = breaker_evaluate q2 now2 c a ctx2 (snd r1)
    in fst r1 = visible_result \<and> \<not> fr_visible (fst r2) \<and> circuit_of (snd r2) (a, cap_name c) = (OPEN, Some now2)"
proof -
  let ?cb = "cb\<lparr>cb_states := (cb_states cb)((a, cap_name c) \<mapsto> (HALF_OPEN, None))\<rparr>"
  have e1: "breaker_evaluate q1 now1 c a ctx1 cb = (visible_result, ?cb)"
    using assms(2) by (simp add: breaker_evaluate_open [OF assms(1)])
  have "get_recent_failures q2 (rc_tenant ctx2) a (cap_name c) ?cb = get_recent_failures q2 (rc_tenant ctx2) a (cap_name c) cb"
    by (simp add: get_recent_failures_def)
  with assms(3) show ?thesis
    by (simp add: e1 breaker_evaluate_not_open [of ?cb] Let_def)
qed

theorem breaker_single_probe_witness:
  "\<not> fr_visible (fst (breaker_evaluate (ledger_query failing_ledger) 400000001 (sample_cap ''a'' ''low'') ''agent'' sample_ctx
      (snd (breaker_evaluate (ledger_query failing_ledger) 400000000 (sample_cap ''a'' ''low'') ''agent'' sample_ctx
        ((breaker_new (Some 2) None)\<lparr>cb_states := [(''agent'', ''a'') \<mapsto> (OPEN, Some 5)]\<rparr>)))))"
proof -
  let ?cb = "(breaker_new (Some 2) None)\<lparr>cb_states := [(''agent'', ''a'') \<mapsto> (OPEN, Some 5)]\<rparr>"
  have "circuit_of ?cb (''agent'', cap_name (sample_cap ''a'' ''low'')) = (OPEN, Some 5)"
    by (simp add: circuit_of_def)
  moreover have "elapsed_seconds 400000000 5 > cb_timeout ?cb"
    by (simp add: elapsed_seconds_def breaker_new_def)
  moreover have "cb_threshold ?cb \<le> get_recent_failures (ledger_query failing_ledger) (rc_tenant sample_ctx) ''agent''
      (cap_name (sample_cap ''a'' ''low'')) ?cb"
    using mem_view.recent_failures_limit [where l = failing_ledger and t = "''t1''" and a = "''agent''" and c = "''a''"
      and cb = ?cb]
    by (simp add: sample_ctx_def mem_history all_recent_failed_map [OF failing_history] breaker_new_def)
  ultimately show ?thesis
    using breaker_single_probe [of ?cb "''agent''" "sample_cap ''a'' ''low''" 5 400000000
        "ledger_query failing_ledger" sample_ctx "ledger_query failing_ledger" sample_ctx 400000001]
    by (simp add: Let_def)
qed

end
