(* ===== verification/Restrictions.thy ===== *)
theory Restrictions
  imports Breaker
begin

section \<open>The rate limit, confirmation and trading hours constraints\<close>

text \<open>
  \<open>owlclaw/governance/constraints/rate_limit.py\<close>, \<open>risk_confirmation.py\<close> and \<open>time.py\<close>.
  None of the three keeps state. The ledger enters as its \<open>query_records\<close>, the local clock
  of the trading hours as a weekday (0 is Monday) and a time of day in microseconds.
\<close>

text \<open>\<open>capability.metadata.get("owlclaw", {}).get("constraints", {}).get(key)\<close>.\<close>

definition constraint_value :: "capability \<Rightarrow> string \<Rightarrow> py_error + pyval" where
  "constraint_value cap key =
     and_then (py_get_or (cap_metadata cap) ''owlclaw'' (PDict [])) (\<lambda>owlclaw.
     and_then (py_get_or owlclaw ''constraints'' (PDict [])) (\<lambda>constraints.
       py_get_or constraints key PNone))"

lemma constraint_value_eq [simp]: "constraint_value cap key = py_get_or (cap_constraints cap) key PNone"
  by (simp add: constraint_value_def cap_metadata_def)

subsection \<open>Rate limit\<close>

definition parse_non_negative_int :: "pyval \<Rightarrow> int option" where
  "parse_non_negative_int value =
     (if (case value of PInt i \<Rightarrow> True | PFloat r \<Rightarrow> True | PStr s \<Rightarrow> True | _ \<Rightarrow> False)
      then (case py_int value of
              Inl e \<Rightarrow> None
            | Inr parsed \<Rightarrow> if parsed < 0 then None else Some parsed)
      else None)"

definition daily_filters :: "date \<Rightarrow> string \<Rightarrow> string \<Rightarrow> ledger_filters" where
  "daily_filters today agent_id capability_name =
     no_filters\<lparr>lf_agent := Some agent_id, lf_capability := Some capability_name,
        lf_start := Some today, lf_end := Some today\<rparr>"

definition get_daily_call_count ::
  "(string \<Rightarrow> ledger_filters \<Rightarrow> ledger_record list) \<Rightarrow> date \<Rightarrow> string \<Rightarrow> string \<Rightarrow> string \<Rightarrow> nat" where
  "get_daily_call_count query today tenant_id agent_id capability_name =
     length (query tenant_id (daily_filters today agent_id capability_name))"

definition last_filters :: "string \<Rightarrow> string \<Rightarrow> ledger_filters" where
  "last_filters agent_id capability_name =
     no_filters\<lparr>lf_agent := Some agent_id, lf_capability := Some capability_name,
        lf_limit := Some 1, lf_order := Some ''created_at DESC''\<rparr>"

definition get_last_call_time ::
  "(string \<Rightarrow> ledger_filters \<Rightarrow> ledger_record list) \<Rightarrow> string \<Rightarrow> string \<Rightarrow> string \<Rightarrow> micros option" where
  "get_last_call_time query tenant_id agent_id capability_name =
     (case query tenant_id (last_filters agent_id capability_name) of
        [] \<Rightarrow> None
      | rec # _ \<Rightarrow> Some (lr_created rec))"

definition rate_evaluate ::
  "(string \<Rightarrow> ledger_filters \<Rightarrow> ledger_record list) \<Rightarrow> date \<Rightarrow> micros \<Rightarrow> capability \<Rightarrow> string \<Rightarrow> run_context
     \<Rightarrow> py_error + filter_result" where
  "rate_evaluate query today now cap agent_id ctx =
     and_then (constraint_value cap ''max_daily_calls'') (\<lambda>v1.
     and_then (constraint_value cap ''cooldown_seconds'') (\<lambda>v2.
       let max_daily_calls = parse_non_negative_int v1;
           cooldown_seconds = parse_non_negative_int v2;
           cooldown_part =
             (case cooldown_seconds of
                None \<Rightarrow> Inr visible_result
              | Some cooldown \<Rightarrow>
                  (case get_last_call_time query (rc_tenant ctx) agent_id (cap_name cap) of
                     None \<Rightarrow> Inr visible_result
                   | Some last_call \<Rightarrow>
                       (let elapsed = elapsed_seconds now last_call in
                        if elapsed < rat_of_int cooldown
                        then Inr (hidden_result (RCooldown (trunc_rat (rat_of_int cooldown - elapsed))))
                        else Inr visible_result)))
       in if max_daily_calls = None \<and> cooldown_seconds = None then Inr visible_result
          else (case max_daily_calls of
             None \<Rightarrow> cooldown_part
           | Some m \<Rightarrow>
               (let count = get_daily_call_count query today (rc_tenant ctx) agent_id (cap_name cap) in
                if int count \<ge> m then Inr (hidden_result (RDailyLimit count m)) else cooldown_part))))"

subsection \<open>Risk confirmation\<close>

definition confirmation_new :: "pyval \<Rightarrow> py_error + bool" where
  "confirmation_new config =
     and_then (py_get_or (or_empty_dict config) ''enforce_high_risk_confirmation'' (PBool True)) (\<lambda>v. Inr (truthy v))"

definition confirmation_evaluate :: "bool \<Rightarrow> capability \<Rightarrow> string \<Rightarrow> run_context \<Rightarrow> filter_result" where
  "confirmation_evaluate enforce cap agent_id ctx =
     (let risk_level = strip_lower (if cap_risk_level cap \<noteq> [] then cap_risk_level cap else ''low'');
          requires = (if \<not> cap_requires_confirmation cap \<and> enforce \<and> risk_level \<in> {''high'', ''critical''}
                      then True else cap_requires_confirmation cap)
      in if \<not> requires then visible_result
         else if is_confirmed ctx (cap_name cap) then visible_result
         else hidden_result (RText ''requires_confirmation''))"

subsection \<open>Trading hours\<close>

text \<open>A configured time is a \<open>time\<close> or any other value, given here by its \<open>str()\<close>.\<close>

datatype time_value = TimeOfDay micros | TimeText string

definition time_of :: "int \<Rightarrow> int \<Rightarrow> int \<Rightarrow> py_error + micros" where
  "time_of h m s =
     (if \<not> (0 \<le> h \<and> h < 24) then Inl (ValueError ''hour must be in 0..23'')
      else if \<not> (0 \<le> m \<and> m < 60) then Inl (ValueError ''minute must be in 0..59'')
      else if \<not> (0 \<le> s \<and> s < 60) then Inl (ValueError ''second must be in 0..59'')
      else Inr (secs (h * 3600 + m * 60 + s)))"

fun parse_time :: "time_value \<Rightarrow> py_error + micros" where
  "parse_time (TimeOfDay t) = Inr t"
| "parse_time (TimeText v) =
     (let parts = py_split CHR '':'' (py_strip v) in
      if length parts \<ge> 2 then
        and_then (py_int (PStr (parts ! 0))) (\<lambda>h.
        and_then (py_int (PStr (parts ! 1))) (\<lambda>m.
        and_then (if length parts > 2 then py_int (PStr (parts ! 2)) else Inr 0) (\<lambda>s. time_of h m s)))
      else time_of 9 30 0)"

definition parse_weekdays :: "int list option \<Rightarrow> int list" where
  "parse_weekdays v = (case v of None \<Rightarrow> [0, 1, 2, 3, 4] | Some ds \<Rightarrow> if ds \<noteq> [] then ds else [0, 1, 2, 3, 4])"

record time_constraint =
  tc_start :: micros
  tc_end :: micros
  tc_weekdays :: "int list"

text \<open>The entries of \<open>config["trading_hours"]\<close>, all absent when it is not a dict.\<close>

definition time_new :: "time_value option \<Rightarrow> time_value option \<Rightarrow> int list option \<Rightarrow> py_error + time_constraint" where
  "time_new start0 end0 weekdays =
     and_then (parse_time (case start0 of None \<Rightarrow> TimeText ''09:30'' | Some v \<Rightarrow> v)) (\<lambda>s.
     and_then (parse_time (case end0 of None \<Rightarrow> TimeText ''15:00'' | Some v \<Rightarrow> v)) (\<lambda>e.
       Inr \<lparr>tc_start = s, tc_end = e, tc_weekdays = parse_weekdays weekdays\<rparr>))"

definition time_evaluate ::
  "int \<Rightarrow> micros \<Rightarrow> time_constraint \<Rightarrow> capability \<Rightarrow> string \<Rightarrow> run_context \<Rightarrow> py_error + filter_result" where
  "time_evaluate weekday current_time tc cap agent_id ctx =
     and_then (constraint_value cap ''trading_hours_only'') (\<lambda>v.
       if \<not> truthy v then Inr visible_result
       else if weekday \<notin> set (tc_weekdays tc) then Inr (hidden_result (RText ''Outside trading weekdays''))
       else if \<not> (tc_start tc \<le> current_time \<and> current_time \<le> tc_end tc)
         then Inr (hidden_result (ROutsideHours (tc_start tc) (tc_end tc)))
       else Inr visible_result)"

subsection \<open>Facts about the queries\<close>

definition calls_of :: "string \<Rightarrow> string \<Rightarrow> string \<Rightarrow> ledger_record list \<Rightarrow> ledger_record list" where
  "calls_of t a c rs = filter (\<lambda>r. lr_tenant r = t \<and> lr_agent r = a \<and> lr_capability r = c) rs"

definition created_on :: "date \<Rightarrow> ledger_record \<Rightarrow> bool" where
  "created_on d r \<longleftrightarrow> day_start d \<le> lr_created r \<and> lr_created r \<le> day_end d"

context ledger_view
begin

lemma daily_count:
  "get_daily_call_count query d t a c = length (filter (created_on d) (calls_of t a c recs))"
proof -
  have "filters_match t (daily_filters d a c) = (\<lambda>r. (lr_tenant r = t \<and> lr_agent r = a \<and> lr_capability r = c) \<and> created_on d r)"
    by (auto simp: fun_eq_iff filters_match_iff daily_filters_def no_filters_def created_on_def)
  then show ?thesis
    using query_length [of "daily_filters d a c" t]
    by (simp add: get_daily_call_count_def daily_filters_def no_filters_def calls_of_def conj_commute)
qed

lemma last_filters_match:
  "filters_match t (last_filters a c) r \<longleftrightarrow> lr_tenant r = t \<and> lr_agent r = a \<and> lr_capability r = c"
  by (simp add: filters_match_iff last_filters_def no_filters_def)

lemma last_call_None: "(get_last_call_time query t a c = None) = (calls_of t a c recs = [])"
proof -
  have "(query t (last_filters a c) = []) = (\<forall>r \<in> set recs. \<not> filters_match t (last_filters a c) r)"
    by (rule query_latest(1) [where n = 1]) (simp_all add: last_filters_def no_filters_def)
  then show ?thesis
    by (cases "query t (last_filters a c)")
      (auto simp: get_last_call_time_def calls_of_def filter_empty_conv last_filters_match)
qed

lemma last_call_Some:
  assumes "get_last_call_time query t a c = Some u"
  shows "u \<in> lr_created ` set (calls_of t a c recs)" and "r \<in> set (calls_of t a c recs) \<Longrightarrow> lr_created r \<le> u"
proof -
  obtain r0 rs where q: "query t (last_filters a c) = r0 # rs" and u: "u = lr_created r0"
    using assms by (auto simp: get_last_call_time_def split: list.splits)
  have "r0 \<in> set (query t (last_filters a c))" by (simp add: q)
  with query_sound [of t "last_filters a c"] have "r0 \<in> set recs" "filters_match t (last_filters a c) r0" by blast+
  then show "u \<in> lr_created ` set (calls_of t a c recs)"
    by (simp add: u calls_of_def last_filters_match)
  assume "r \<in> set (calls_of t a c recs)"
  then have "r \<in> set recs" "filters_match t (last_filters a c) r"
    by (simp_all add: calls_of_def last_filters_match)
  then show "lr_created r \<le> u"
    unfolding u by (intro query_latest(2) [where n = 1, OF _ _ _ _ q]) (simp_all add: last_filters_def no_filters_def)
qed

text \<open>A cooldown is over exactly when every call is at least that old.\<close>

lemma cooldown_over:
  "(case get_last_call_time query t a c of None \<Rightarrow> True | Some u \<Rightarrow> rat_of_int s \<le> elapsed_seconds now u)
   = list_all (\<lambda>r. rat_of_int s \<le> elapsed_seconds now (lr_created r)) (calls_of t a c recs)"
proof (cases "get_last_call_time query t a c")
  case None
  with last_call_None [of t a c] show ?thesis by simp
next
  case (Some u)
  note l = last_call_Some [OF Some]
  have mono: "elapsed_seconds now u \<le> elapsed_seconds now v" if "v \<le> u" for v
    using that by (simp add: elapsed_seconds_def divide_right_mono)
  have "rat_of_int s \<le> elapsed_seconds now u \<longleftrightarrow>
      (\<forall>r \<in> set (calls_of t a c recs). rat_of_int s \<le> elapsed_seconds now (lr_created r))"
    using l(1) mono [OF l(2)] by (auto intro: order_trans)
  then show ?thesis by (simp add: Some list_all_iff)
qed

lemma rate_visible:
  assumes "constraint_value cap ''max_daily_calls'' = Inr v1" and "constraint_value cap ''cooldown_seconds'' = Inr v2"
  shows "\<exists>res. rate_evaluate query d now cap a ctx = Inr res \<and> fr_visible res =
    ((case parse_non_negative_int v1 of None \<Rightarrow> True
        | Some m \<Rightarrow> int (length (filter (created_on d) (calls_of (rc_tenant ctx) a (cap_name cap) recs))) < m)
     \<and> (case parse_non_negative_int v2 of None \<Rightarrow> True
        | Some s \<Rightarrow> list_all (\<lambda>r. rat_of_int s \<le> elapsed_seconds now (lr_created r))
            (calls_of (rc_tenant ctx) a (cap_name cap) recs)))"
  using assms cooldown_over [where t = "rc_tenant ctx" and a = a and c = "cap_name cap"
      and s = "the (parse_non_negative_int v2)" and now = now]
  by (cases "parse_non_negative_int v1"; cases "parse_non_negative_int v2";
      cases "get_last_call_time query (rc_tenant ctx) a (cap_name cap)")
    (auto simp: rate_evaluate_def Let_def daily_count not_le not_less)

end

lemma mem_rate_visible:
  assumes "constraint_value cap ''max_daily_calls'' = Inr v1" and "constraint_value cap ''cooldown_seconds'' = Inr v2"
  shows "\<exists>res. rate_evaluate (ledger_query l) d now cap a ctx = Inr res \<and> fr_visible res =
    ((case parse_non_negative_int v1 of None \<Rightarrow> True
        | Some m \<Rightarrow> int (length (filter (created_on d) (calls_of (rc_tenant ctx) a (cap_name cap) (ml_records l)))) < m)
     \<and> (case parse_non_negative_int v2 of None \<Rightarrow> True
        | Some s \<Rightarrow> list_all (\<lambda>r. rat_of_int s \<le> elapsed_seconds now (lr_created r))
            (calls_of (rc_tenant ctx) a (cap_name cap) (ml_records l))))"
  by (rule mem_view.rate_visible [OF assms])

subsection \<open>Properties\<close>

text \<open>
  The rate limit on the in-memory ledger: a capability whose constraints are a dict is
  visible exactly when its calls of today by this tenant and agent are fewer than
  \<open>max_daily_calls\<close> and each of its calls is at least \<open>cooldown_seconds\<close> old; a bound that is
  absent, negative or not a number is no bound.
\<close>

theorem rate_limit_exact:
  assumes "constraint_value cap ''max_daily_calls'' = Inr v1" and "constraint_value cap ''cooldown_seconds'' = Inr v2"
  shows "map_sum (\<lambda>e. True) fr_visible (rate_evaluate (ledger_query l) d now cap a ctx) =
    Inr ((case parse_non_negative_int v1 of None \<Rightarrow> True
        | Some m \<Rightarrow> int (length (filter (created_on d) (calls_of (rc_tenant ctx) a (cap_name cap) (ml_records l)))) < m)
     \<and> (case parse_non_negative_int v2 of None \<Rightarrow> True
        | Some s \<Rightarrow> list_all (\<lambda>r. rat_of_int s \<le> elapsed_seconds now (lr_created r))
            (calls_of (rc_tenant ctx) a (cap_name cap) (ml_records l))))"
  using mem_rate_visible [OF assms, of l d now a ctx] by auto

definition sample_limited :: capability where
  "sample_limited = capability_new ''a'' [] None
     (PDict [(PStr ''max_daily_calls'', PInt 5), (PStr ''cooldown_seconds'', PInt 60)]) PNone (PStr ''low'') PNone"

lemma sample_limited_facts:
  "constraint_value sample_limited ''max_daily_calls'' = Inr (PInt 5)"
  "constraint_value sample_limited ''cooldown_seconds'' = Inr (PInt 60)"
  "parse_non_negative_int (PInt 5) = Some 5" "parse_non_negative_int (PInt 60) = Some 60"
  "cap_name sample_limited = ''a''"
  by (simp_all add: sample_limited_def capability_new_def or_empty_dict_def parse_non_negative_int_def)

theorem rate_limit_exact_witness:
  "map_sum (\<lambda>e. True) fr_visible
     (rate_evaluate (ledger_query failing_ledger) (1970, 1, 1) 3 sample_limited ''agent'' sample_ctx) = Inr False"
proof -
  have "map lr_created (calls_of ''t1'' ''agent'' ''a'' (ml_records failing_ledger)) = [1, 2]" by code_simp
  then have c: "\<exists>r1 r2. calls_of ''t1'' ''agent'' ''a'' (ml_records failing_ledger) = [r1, r2] \<and> lr_created r1 = 1"
    by (auto simp: map_eq_Cons_conv)
  then have "\<not> list_all (\<lambda>r. rat_of_int 60 \<le> elapsed_seconds 3 (lr_created r))
      (calls_of ''t1'' ''agent'' ''a'' (ml_records failing_ledger))"
    by (auto simp: elapsed_seconds_def)
  then show ?thesis
    using rate_limit_exact [OF sample_limited_facts(1,2), of failing_ledger "(1970, 1, 1)" 3 "''agent''" sample_ctx]
    by (simp add: sample_limited_facts sample_ctx_def)
qed

text \<open>
  Trading hours: a capability with a truthy \<open>trading_hours_only\<close> is visible exactly on a
  configured weekday between start and end, both inclusive, so a window that ends before it
  starts (one that spans midnight) never shows it; without it, or with a falsy one, the
  clock does not matter.
\<close>

theorem trading_hours_exact:
  assumes "constraint_value cap ''trading_hours_only'' = Inr v"
  shows "map_sum (\<lambda>e. True) fr_visible (time_evaluate wd t tc cap a ctx) =
    Inr (if truthy v then wd \<in> set (tc_weekdays tc) \<and> t \<in> {tc_start tc..tc_end tc} else True)"
  using assms by (simp add: time_evaluate_def)

theorem trading_hours_exact_witness:
  "map_sum (\<lambda>e. True) fr_visible (time_evaluate 0 (secs 80000) \<lparr>tc_start = secs 79200, tc_end = secs 7200, tc_weekdays = [0]\<rparr>
      (capability_new ''a'' [] None (PDict [(PStr ''trading_hours_only'', PBool True)]) PNone PNone PNone) ''agent'' sample_ctx)
   = Inr False"
proof -
  have "constraint_value (capability_new ''a'' [] None (PDict [(PStr ''trading_hours_only'', PBool True)]) PNone PNone PNone)
      ''trading_hours_only'' = Inr (PBool True)"
    by (simp add: capability_new_def or_empty_dict_def)
  from trading_hours_exact [OF this, of 0 "secs 80000" "\<lparr>tc_start = secs 79200, tc_end = secs 7200, tc_weekdays = [0]\<rparr>"]
  show ?thesis by (simp add: secs_def)
qed

lemma show_nat_no_colon: "CHR '':'' \<notin> set (show_nat n)"
  using show_nat_digits [of n] is_digit_facts by (auto simp: list_all_iff)

lemma strip_clock_text: "py_strip (show_nat h @ '':'' @ show_nat m) = show_nat h @ '':'' @ show_nat m"
proof (rule py_strip_plain)
  have "\<not> py_space CHR '':''" by code_simp
  then show "list_all (\<lambda>c. \<not> py_space c) (show_nat h @ '':'' @ show_nat m)"
    using show_nat_digits [of h] show_nat_digits [of m] is_digit_facts by (auto simp: list_all_iff)
qed

text \<open>
  Reading a configured time \<open>H:M\<close> gives that time of day back, and raises exactly for
  an hour above 23 or a minute above 59.
\<close>

theorem parse_time_reads_clock:
  "parse_time (TimeText (show_nat h @ '':'' @ show_nat m)) =
    (if h < 24 \<and> m < 60 then Inr (secs (int (h * 3600 + m * 60)))
     else if h < 24 then Inl (ValueError ''minute must be in 0..59'')
     else Inl (ValueError ''hour must be in 0..23''))"
proof -
  have "py_split CHR '':'' (show_nat h @ '':'' @ show_nat m) = [show_nat h, show_nat m]"
    using py_split_append [OF show_nat_no_colon, of h "show_nat m"] by (simp add: py_split_none show_nat_no_colon)
  then show ?thesis by (simp add: strip_clock_text [simplified] time_of_def)
qed

end
