(* ===== verification/Governance.thy ===== *)
theory Governance
  imports Budget Restrictions
begin

section \<open>The governance pass: the constraints behind the visibility filter\<close>

text \<open>
  How \<open>OwlClaw._ensure_governance\<close> in \<open>owlclaw/app.py\<close> puts the parts together: the
  visibility filter with its evaluators, in the order of registration, over one shared state
  (the in-memory ledger, the reservations of the budget, the circuits of the breaker). Each
  reading of the clocks is the next one of a stream, so readings taken by different
  evaluators of one pass may differ.
\<close>

record reading =
  rd_today :: date
  rd_now :: micros
  rd_mono :: seconds
  rd_weekday :: int
  rd_time :: micros

record gov_world =
  gw_ledger :: memory_ledger
  gw_budget :: budget_constraint
  gw_breaker :: breaker
  gw_clock :: "nat \<Rightarrow> reading"
  gw_ticks :: nat

definition read_clock :: "gov_world \<Rightarrow> reading \<times> gov_world" where
  "read_clock w = (gw_clock w (gw_ticks w), w\<lparr>gw_ticks := Suc (gw_ticks w)\<rparr>)"

fun outcome_of :: "py_error + filter_result \<Rightarrow> eval_outcome" where
  "outcome_of (Inl e) = Raised"
| "outcome_of (Inr r) = Returned r"

definition ev_time :: "time_constraint \<Rightarrow> gov_world evaluator" where
  "ev_time tc cap a ctx w =
     (let (rd, w1) = read_clock w
      in (outcome_of (time_evaluate (rd_weekday rd) (rd_time rd) tc cap a ctx), w1))"

definition ev_confirmation :: "bool \<Rightarrow> gov_world evaluator" where
  "ev_confirmation enforce cap a ctx w = (Returned (confirmation_evaluate enforce cap a ctx), w)"

definition ev_budget :: "gov_world evaluator" where
  "ev_budget cap a ctx w =
     (let (rd1, w1) = read_clock w; (rd2, w2) = read_clock w1;
          (r, bc) = budget_evaluate (\<lambda>t ag d e. mem_get_cost_summary t ag d e (gw_ledger w))
             (rd_today rd1) (rd_today rd2) (rd_mono rd1) (rd_mono rd2) cap a ctx (gw_budget w)
      in (outcome_of r, w2\<lparr>gw_budget := bc\<rparr>))"

definition ev_rate :: "gov_world evaluator" where
  "ev_rate cap a ctx w =
     (let (rd, w1) = read_clock w
      in (outcome_of (rate_evaluate (ledger_query (gw_ledger w)) (rd_today rd) (rd_now rd) cap a ctx), w1))"

definition ev_breaker :: "gov_world evaluator" where
  "ev_breaker cap a ctx w =
     (let (rd, w1) = read_clock w;
          (r, cb) = breaker_evaluate (ledger_query (gw_ledger w)) (rd_now rd) cap a ctx (gw_breaker w)
      in (Returned r, w1\<lparr>gw_breaker := cb\<rparr>))"

text \<open>Without a ledger only the first two are registered.\<close>

definition governance_evaluators :: "bool \<Rightarrow> time_constraint \<Rightarrow> bool \<Rightarrow> gov_world evaluator list" where
  "governance_evaluators has_ledger tc enforce =
     [ev_time tc, ev_confirmation enforce] @ (if has_ledger then [ev_budget, ev_rate, ev_breaker] else [])"

fun register_all :: "'w evaluator list \<Rightarrow> 'w visibility_filter \<Rightarrow> py_error + 'w visibility_filter" where
  "register_all [] vf = Inr vf"
| "register_all (e # es) vf = and_then (register_evaluator (Some e) vf) (register_all es)"

definition ensure_governance ::
  "string \<Rightarrow> bool \<Rightarrow> time_constraint \<Rightarrow> bool \<Rightarrow> py_error + gov_world visibility_filter" where
  "ensure_governance fail_policy has_ledger tc enforce =
     and_then (visibility_filter_new fail_policy (Some 5)) (register_all (governance_evaluators has_ledger tc enforce))"

subsection \<open>What a shown capability satisfies\<close>

definition confirmation_ok :: "bool \<Rightarrow> run_context \<Rightarrow> capability \<Rightarrow> bool" where
  "confirmation_ok enforce ctx c \<longleftrightarrow> is_confirmed ctx (cap_name c)
     \<or> \<not> cap_requires_confirmation c \<and> \<not> (enforce \<and> strip_lower (cap_risk_level c) \<in> {''high'', ''critical''})"

definition time_ok :: "time_constraint \<Rightarrow> reading \<Rightarrow> capability \<Rightarrow> bool" where
  "time_ok tc rd c = (case constraint_value c ''trading_hours_only'' of
      Inl e \<Rightarrow> False
    | Inr v \<Rightarrow> if truthy v then rd_weekday rd \<in> set (tc_weekdays tc) \<and> rd_time rd \<in> {tc_start tc..tc_end tc} else True)"

definition rate_ok :: "memory_ledger \<Rightarrow> string \<Rightarrow> run_context \<Rightarrow> reading \<Rightarrow> capability \<Rightarrow> bool" where
  "rate_ok l a ctx rd c =
     (case (constraint_value c ''max_daily_calls'', constraint_value c ''cooldown_seconds'') of
        (Inr v1, Inr v2) \<Rightarrow>
          (let calls = calls_of (rc_tenant ctx) a (cap_name c) (ml_records l) in
           (case parse_non_negative_int v1 of None \<Rightarrow> True
              | Some m \<Rightarrow> int (length (filter (created_on (rd_today rd)) calls)) < m)
           \<and> (case parse_non_negative_int v2 of None \<Rightarrow> True
              | Some s \<Rightarrow> list_all (\<lambda>r. rat_of_int s \<le> elapsed_seconds (rd_now rd) (lr_created r)) calls))
      | _ \<Rightarrow> False)"

lemma py_strip_lower_empty: "strip_lower ''low'' = ''low''"
  by code_simp

lemma confirmation_visible: "fr_visible (confirmation_evaluate enforce c a ctx) = confirmation_ok enforce ctx c"
proof -
  have "strip_lower [] = []" by code_simp
  then show ?thesis
    by (auto simp: confirmation_evaluate_def confirmation_ok_def Let_def py_strip_lower_empty)
qed

lemma time_visible:
  "outcome_of (time_evaluate (rd_weekday rd) (rd_time rd) tc c a ctx) = Returned r \<Longrightarrow> fr_visible r \<Longrightarrow> time_ok tc rd c"
  by (cases "constraint_value c ''trading_hours_only''")
    (auto simp: time_evaluate_def time_ok_def split: if_splits)

lemma rate_visible_ok:
  assumes "outcome_of (rate_evaluate (ledger_query l) (rd_today rd) (rd_now rd) c a ctx) = Returned r" "fr_visible r"
  shows "rate_ok l a ctx rd c"
proof -
  obtain v1 v2 where v: "constraint_value c ''max_daily_calls'' = Inr v1" "constraint_value c ''cooldown_seconds'' = Inr v2"
    using assms(1)
    by (cases "constraint_value c ''max_daily_calls''"; cases "constraint_value c ''cooldown_seconds''")
      (simp_all add: rate_evaluate_def)
  from mem_rate_visible [OF v, of l "rd_today rd" "rd_now rd" a ctx] assms show ?thesis
    unfolding rate_ok_def v Let_def by auto
qed

text \<open>What every evaluator keeps of the shared state.\<close>

definition same_ledger :: "memory_ledger \<Rightarrow> (nat \<Rightarrow> reading) \<Rightarrow> gov_world \<Rightarrow> bool" where
  "same_ledger l clk w \<longleftrightarrow> gw_ledger w = l \<and> gw_clock w = clk"

lemma evaluators_same_ledger:
  "e \<in> set (governance_evaluators b tc enforce) \<Longrightarrow> same_ledger l clk w \<Longrightarrow> same_ledger l clk (snd (e c a ctx w))"
  by (auto simp: governance_evaluators_def same_ledger_def ev_time_def ev_confirmation_def ev_budget_def ev_rate_def
      ev_breaker_def read_clock_def case_prod_beta split: if_splits)

lemma register_all_evaluators:
  "register_all es vf = Inr vf' \<Longrightarrow> vf_evaluators vf' = vf_evaluators vf @ es \<and> vf_fail_policy vf' = vf_fail_policy vf
     \<and> vf_gate vf' = vf_gate vf"
  by (induction es arbitrary: vf) (auto simp: register_evaluator_def)

lemma ensure_governance_fields:
  assumes "ensure_governance fail_policy b tc enforce = Inr vf"
  shows "vf_evaluators vf = governance_evaluators b tc enforce" and "vf_fail_policy vf = strip_lower fail_policy"
proof -
  obtain vf0 where "visibility_filter_new fail_policy (Some 5) = Inr vf0"
    and r: "register_all (governance_evaluators b tc enforce) vf0 = Inr vf"
    using assms by (auto simp: ensure_governance_def and_then_Inr_iff)
  then have "vf_evaluators vf0 = []" "vf_fail_policy vf0 = strip_lower fail_policy"
    by (auto simp: visibility_filter_new_def Let_def split: if_splits)
  with register_all_evaluators [OF r]
  show "vf_evaluators vf = governance_evaluators b tc enforce" "vf_fail_policy vf = strip_lower fail_policy" by simp_all
qed

lemma ok_inject [simp]:
  "confirmation_ok enforce ctx (inject_quality_hint cache c) = confirmation_ok enforce ctx c"
  "time_ok tc rd (inject_quality_hint cache c) = time_ok tc rd c"
  "rate_ok l a ctx rd (inject_quality_hint cache c) = rate_ok l a ctx rd c"
  by (simp_all add: confirmation_ok_def time_ok_def rate_ok_def split: sum.split)

lemma governance_demand:
  assumes g: "ensure_governance fail_policy b tc enforce = Inr vf" and cl: "strip_lower fail_policy = ''close''"
    and ev: "ev \<in> set (governance_evaluators b tc enforce)"
    and demand: "\<And>c w r. same_ledger l clk w \<Longrightarrow> fst (ev c a ctx w) = Returned r \<Longrightarrow> fr_visible r \<Longrightarrow> P c"
    and inject: "\<And>c. P (inject_quality_hint (vf_cache vf) c) = P c"
    and w: "same_ledger l clk w"
  shows "list_all P (fst (filter_capabilities draws caps a ctx vf w))
    \<and> same_ledger l clk (snd (snd (filter_capabilities draws caps a ctx vf w)))"
proof -
  note f = ensure_governance_fields [OF g]
  let ?out = "filter_loop vf a ctx draws 0 (List.map_filter (\<lambda>c. c) caps) (vf_gate vf) w"
  have "list_all P (fst ?out) \<and> same_ledger l clk (snd (snd ?out))"
  proof (rule filter_loop_demand [where I = "same_ledger l clk" and ev = ev])
    show "\<And>e c w. e \<in> set (vf_evaluators vf) \<Longrightarrow> same_ledger l clk w \<Longrightarrow> same_ledger l clk (snd (e c a ctx w))"
      unfolding f(1) by (rule evaluators_same_ledger)
    show "ev \<in> set (vf_evaluators vf)" "vf_fail_policy vf = ''close''" using ev by (simp_all add: f cl)
    show "\<And>c w r. same_ledger l clk w \<Longrightarrow> fst (ev c a ctx w) = Returned r \<Longrightarrow> fr_visible r \<Longrightarrow> P c" by (rule demand)
    show "\<And>c. P (inject_quality_hint (vf_cache vf) c) = P c" by (rule inject)
  qed (rule w)
  then show ?thesis by (simp add: filter_capabilities_def Let_def case_prod_beta)
qed

subsection \<open>Properties\<close>


definition sample_world :: gov_world where
  "sample_world = \<lparr>gw_ledger = failing_ledger, gw_budget = sample_budget, gw_breaker = breaker_new None None,
     gw_clock = (\<lambda>n. \<lparr>rd_today = (1970, 1, 1), rd_now = 3, rd_mono = 0, rd_weekday = 3, rd_time = 3\<rparr>), gw_ticks = 0\<rparr>"


end
