(* ===== verification/LedgerWriter.thy ===== *)
theory LedgerWriter
  imports Ledger
begin

section \<open>The database ledger: queue, background writer, fallback log\<close>

text \<open>
  The write side of \<open>owlclaw/governance/ledger.py\<close>: \<open>record_execution\<close> puts a record in a
  bounded queue and drops the oldest one when it is full; a background task takes records in
  batches and commits them, with retries, and appends to a local log what it cannot commit.

  A \<open>LedgerRecord\<close> before it is saved is the call with its identifiers normalised (the
  database draws its key and its creation time). The batch of the writer is a local variable
  of the task, so the task is \<open>None\<close> or its batch. What the outside decides is an argument:
  whether the \<open>k\<close>-th attempt to commit succeeds and whether the \<open>i\<close>-th line can be written. The task is taken to suspend only while it waits
  for the queue, so a cancellation finds it there and one flush is one step.
\<close>

record ledger_state =
  ld_batch_size :: int
  ld_flush_interval :: rat
  ld_fallback_path :: string
  ld_flush_max_retries :: nat
  ld_backoff_base :: rat
  ld_queue_maxsize :: int
  ld_queue :: "exec_call list"
  ld_task :: "exec_call list option"
  ld_db :: "exec_call list"
  ld_log :: "exec_call list"

definition ledger_new :: "pyval \<Rightarrow> pyval \<Rightarrow> pyval \<Rightarrow> pyval \<Rightarrow> py_error + ledger_state" where
  "ledger_new batch_size flush_interval fallback_log_path queue_maxsize =
     and_then (case batch_size of
         PInt n \<Rightarrow> if n < 1 then Inl (ValueError ''batch_size must be a positive integer'') else Inr n
       | _ \<Rightarrow> Inl (ValueError ''batch_size must be a positive integer'')) (\<lambda>bs.
     and_then (case flush_interval of
         PInt n \<Rightarrow> Inr (rat_of_int n) | PFloat r \<Rightarrow> Inr r
       | _ \<Rightarrow> Inl (ValueError ''flush_interval must be a positive number'')) (\<lambda>fi.
     and_then (if fi \<le> 0 then Inl (ValueError ''flush_interval must be a positive number'') else Inr ()) (\<lambda>_.
     and_then (case fallback_log_path of
         PStr s \<Rightarrow> if py_strip s = [] then Inl (ValueError ''fallback_log_path must be a non-empty string'') else Inr (py_strip s)
       | _ \<Rightarrow> Inl (ValueError ''fallback_log_path must be a non-empty string'')) (\<lambda>path.
     and_then (case queue_maxsize of
         PInt n \<Rightarrow> if n < 1 then Inl (ValueError ''queue_maxsize must be a positive integer'') else Inr n
       | _ \<Rightarrow> Inl (ValueError ''queue_maxsize must be a positive integer'')) (\<lambda>qm.
       Inr \<lparr>ld_batch_size = bs, ld_flush_interval = fi, ld_fallback_path = path, ld_flush_max_retries = 3,
            ld_backoff_base = 1 / 10, ld_queue_maxsize = qm, ld_queue = [], ld_task = None, ld_db = [], ld_log = []\<rparr>)))))"

subsection \<open>Recording\<close>

definition normalize_call :: "exec_call \<Rightarrow> py_error + exec_call" where
  "normalize_call x =
     and_then (require_ids x) (\<lambda>(tenant, agent, run, capability, task).
       if \<not> is_dict (xc_input x) then Inl (ValueError ''input_params must be a dictionary'')
       else if xc_output x \<noteq> PNone \<and> \<not> is_dict (xc_output x)
         then Inl (ValueError ''output_result must be a dictionary when provided'')
       else Inr (x\<lparr>xc_tenant := PStr tenant, xc_agent := PStr agent, xc_run := PStr run,
              xc_capability := PStr capability, xc_task := PStr task\<rparr>))"

text \<open>\<open>put_nowait\<close>, and on \<open>QueueFull\<close> one \<open>get_nowait\<close> before a second \<open>put_nowait\<close>.\<close>

definition enqueue :: "exec_call \<Rightarrow> ledger_state \<Rightarrow> ledger_state" where
  "enqueue r s =
     (if int (length (ld_queue s)) \<ge> ld_queue_maxsize s then s\<lparr>ld_queue := drop 1 (ld_queue s) @ [r]\<rparr>
      else s\<lparr>ld_queue := ld_queue s @ [r]\<rparr>)"

definition ledger_record_execution :: "exec_call \<Rightarrow> ledger_state \<Rightarrow> py_error + ledger_state" where
  "ledger_record_execution x s = and_then (normalize_call x) (\<lambda>r. Inr (enqueue r s))"

subsection \<open>Flushing\<close>

fun write_to_fallback_log :: "(nat \<Rightarrow> bool) \<Rightarrow> nat \<Rightarrow> exec_call list \<Rightarrow> exec_call list \<Rightarrow> exec_call list" where
  "write_to_fallback_log writable i [] lines = lines"
| "write_to_fallback_log writable i (r # batch) lines =
     write_to_fallback_log writable (Suc i) batch (if writable i then lines @ [r] else lines)"

text \<open>
  The loop over \<open>range(1, max_retries + 1)\<close>; the second component of the result is the list
  of delays slept.
\<close>

fun flush_attempts ::
  "(nat \<Rightarrow> bool) \<Rightarrow> (nat \<Rightarrow> bool) \<Rightarrow> nat list \<Rightarrow> exec_call list \<Rightarrow> ledger_state \<Rightarrow> ledger_state \<times> seconds list" where
  "flush_attempts commits writable [] batch s = (s, [])"
| "flush_attempts commits writable (attempt # attempts) batch s =
     (if commits attempt then (s\<lparr>ld_db := ld_db s @ batch\<rparr>, [])
      else if attempt \<ge> ld_flush_max_retries s
        then (s\<lparr>ld_log := write_to_fallback_log writable 0 batch (ld_log s)\<rparr>, [])
      else (case flush_attempts commits writable attempts batch s of
          (s', delays) \<Rightarrow> (s', (ld_backoff_base s * 2 ^ (attempt - 1)) # delays)))"

definition flush_batch ::
  "(nat \<Rightarrow> bool) \<Rightarrow> (nat \<Rightarrow> bool) \<Rightarrow> exec_call list \<Rightarrow> ledger_state \<Rightarrow> ledger_state \<times> seconds list" where
  "flush_batch commits writable batch s =
     flush_attempts commits writable [1..<Suc (ld_flush_max_retries s)] batch s"

subsection \<open>The background writer\<close>

text \<open>Take what is there, up to the batch size.\<close>

fun drain_queue :: "int \<Rightarrow> exec_call list \<Rightarrow> exec_call list \<Rightarrow> exec_call list \<times> exec_call list" where
  "drain_queue batch_size batch [] = (batch, [])"
| "drain_queue batch_size batch (r # queue) =
     (if int (length batch) < batch_size then drain_queue batch_size (batch @ [r]) queue
      else (batch, r # queue))"

text \<open>The writer wakes up with a record, or after \<open>flush_interval\<close> without one, or is cancelled.\<close>

definition writer_get :: "(nat \<Rightarrow> bool) \<Rightarrow> (nat \<Rightarrow> bool) \<Rightarrow> ledger_state \<Rightarrow> ledger_state" where
  "writer_get commits writable s =
     (case (ld_task s, ld_queue s) of
        (Some batch0, r # queue0) \<Rightarrow>
          (let (batch, queue) = drain_queue (ld_batch_size s) (batch0 @ [r]) queue0;
               s1 = s\<lparr>ld_queue := queue\<rparr>
           in if int (length batch) \<ge> ld_batch_size s
              then (fst (flush_batch commits writable batch s1))\<lparr>ld_task := Some []\<rparr>
              else s1\<lparr>ld_task := Some batch\<rparr>)
      | _ \<Rightarrow> s)"

definition writer_timeout :: "(nat \<Rightarrow> bool) \<Rightarrow> (nat \<Rightarrow> bool) \<Rightarrow> ledger_state \<Rightarrow> ledger_state" where
  "writer_timeout commits writable s =
     (case ld_task s of
        Some batch \<Rightarrow>
          if batch \<noteq> [] then (fst (flush_batch commits writable batch s))\<lparr>ld_task := Some []\<rparr> else s
      | None \<Rightarrow> s)"

definition ledger_start :: "ledger_state \<Rightarrow> ledger_state" where
  "ledger_start s = (if ld_task s \<noteq> None then s else s\<lparr>ld_task := Some []\<rparr>)"

definition ledger_stop :: "(nat \<Rightarrow> bool) \<Rightarrow> (nat \<Rightarrow> bool) \<Rightarrow> ledger_state \<Rightarrow> ledger_state" where
  "ledger_stop commits writable s =
     (case ld_task s of
        None \<Rightarrow> s
      | Some batch \<Rightarrow>
          (let s1 = (if batch \<noteq> [] then fst (flush_batch commits writable batch s) else s)
           in s1\<lparr>ld_task := None\<rparr>))"

subsection \<open>Facts about flushing\<close>

definition all_ok :: "nat \<Rightarrow> bool" where
  "all_ok k = True"

lemma write_all [simp]: "write_to_fallback_log all_ok i batch lines = lines @ batch"
  by (induction batch arbitrary: i lines) (simp_all add: all_ok_def)

lemma write_subset: "mset (write_to_fallback_log wr i batch lines) \<subseteq># mset lines + mset batch"
proof (induction batch arbitrary: i lines)
  case (Cons r batch)
  have "mset (write_to_fallback_log wr i (r # batch) lines) \<subseteq># mset (if wr i then lines @ [r] else lines) + mset batch"
    using Cons [of "Suc i" "if wr i then lines @ [r] else lines"] by simp
  also have "\<dots> \<subseteq># mset lines + mset (r # batch)" by simp
  finally show ?case .
qed simp

text \<open>With three attempts a flush has four outcomes.\<close>

lemma flush_batch_cases:
  assumes "ld_flush_max_retries s = 3"
  shows "flush_batch commits wr batch s =
    (if commits 1 then (s\<lparr>ld_db := ld_db s @ batch\<rparr>, [])
     else if commits 2 then (s\<lparr>ld_db := ld_db s @ batch\<rparr>, [ld_backoff_base s])
     else if commits 3 then (s\<lparr>ld_db := ld_db s @ batch\<rparr>, [ld_backoff_base s, ld_backoff_base s * 2])
     else (s\<lparr>ld_log := write_to_fallback_log wr 0 batch (ld_log s)\<rparr>, [ld_backoff_base s, ld_backoff_base s * 2]))"
proof -
  have "[1..<Suc 3] = [1, 2, 3 :: nat]" by (simp add: upt_rec)
  then show ?thesis using assms by (simp add: flush_batch_def)
qed

lemma drain_queue_append:
  "drain_queue n b q = (b', q') \<Longrightarrow> b' @ q' = b @ q \<and> (\<exists>zs. b' = b @ zs)"
proof (induction n b q arbitrary: b' q' rule: drain_queue.induct)
  case (2 n b r q)
  show ?case
  proof (cases "int (length b) < n")
    case True
    with 2 have "b' @ q' = (b @ [r]) @ q \<and> (\<exists>zs. b' = (b @ [r]) @ zs)" by (simp only: drain_queue.simps if_True)
    then show ?thesis by auto
  next
    case False
    with 2 show ?thesis by simp
  qed
qed simp

lemma drain_queue_length: "int (length b) \<le> n \<Longrightarrow> int (length (fst (drain_queue n b q))) \<le> n"
  by (induction n b q rule: drain_queue.induct) simp_all

definition batch_of :: "ledger_state \<Rightarrow> exec_call list" where
  "batch_of s = (case ld_task s of None \<Rightarrow> [] | Some b \<Rightarrow> b)"

text \<open>What is still on its way, in the order of arrival.\<close>

definition in_flight :: "ledger_state \<Rightarrow> exec_call list" where
  "in_flight s = batch_of s @ ld_queue s"

subsection \<open>Histories\<close>

datatype ledger_event =
    EvRecord exec_call
  | EvStart
  | EvGet "nat \<Rightarrow> bool" "nat \<Rightarrow> bool"
  | EvTimeout "nat \<Rightarrow> bool" "nat \<Rightarrow> bool"
  | EvStop "nat \<Rightarrow> bool" "nat \<Rightarrow> bool"

fun ledger_step :: "ledger_event \<Rightarrow> ledger_state \<Rightarrow> ledger_state" where
  "ledger_step (EvRecord x) s = (case ledger_record_execution x s of Inl e \<Rightarrow> s | Inr s' \<Rightarrow> s')"
| "ledger_step EvStart s = ledger_start s"
| "ledger_step (EvGet commits wr) s = writer_get commits wr s"
| "ledger_step (EvTimeout commits wr) s = writer_timeout commits wr s"
| "ledger_step (EvStop commits wr) s = ledger_stop commits wr s"

text \<open>The record an event adds, and the one it pushes out of a full queue.\<close>

fun accepted_by :: "ledger_event \<Rightarrow> exec_call list" where
  "accepted_by (EvRecord x) = (case normalize_call x of Inl e \<Rightarrow> [] | Inr r \<Rightarrow> [r])"
| "accepted_by e = []"

fun dropped_by :: "ledger_event \<Rightarrow> ledger_state \<Rightarrow> exec_call list" where
  "dropped_by (EvRecord x) s =
     (case normalize_call x of Inl e \<Rightarrow> []
      | Inr r \<Rightarrow> if int (length (ld_queue s)) \<ge> ld_queue_maxsize s then take 1 (ld_queue s) else [])"
| "dropped_by e s = []"

text \<open>The events of a history whose log can always be written, or whose commits all succeed.\<close>

fun log_writable :: "ledger_event \<Rightarrow> bool" where
  "log_writable (EvGet commits wr) = (wr = all_ok)"
| "log_writable (EvTimeout commits wr) = (wr = all_ok)"
| "log_writable (EvStop commits wr) = (wr = all_ok)"
| "log_writable e = True"

fun commits_ok :: "ledger_event \<Rightarrow> bool" where
  "commits_ok (EvGet commits wr) = commits 1"
| "commits_ok (EvTimeout commits wr) = commits 1"
| "commits_ok (EvStop commits wr) = commits 1"
| "commits_ok e = True"

definition ledger_inv :: "ledger_state \<Rightarrow> bool" where
  "ledger_inv s \<longleftrightarrow> 1 \<le> ld_queue_maxsize s \<and> 1 \<le> ld_batch_size s \<and> ld_flush_max_retries s = 3
     \<and> int (length (ld_queue s)) \<le> ld_queue_maxsize s \<and> int (length (batch_of s)) < ld_batch_size s"

lemma ledger_invD:
  "ledger_inv s \<Longrightarrow> ld_flush_max_retries s = 3"
  "ledger_inv s \<Longrightarrow> 1 \<le> ld_batch_size s"
  "ledger_inv s \<Longrightarrow> int (length (ld_queue s)) \<le> ld_queue_maxsize s"
  by (simp_all add: ledger_inv_def)

lemma ledger_new_inv: "ledger_new b f p q = Inr s \<Longrightarrow> ledger_inv s \<and> ld_db s = [] \<and> ld_log s = [] \<and> in_flight s = []"
  by (auto simp: ledger_new_def and_then_Inr_iff ledger_inv_def batch_of_def in_flight_def
      split: pyval.splits if_splits)

lemma flush_batch_frame [simp, frame_simps]:
  "ld_queue (fst (flush_batch commits wr batch s)) = ld_queue s"
  "ld_task (fst (flush_batch commits wr batch s)) = ld_task s"
  "ld_queue_maxsize (fst (flush_batch commits wr batch s)) = ld_queue_maxsize s"
  "ld_batch_size (fst (flush_batch commits wr batch s)) = ld_batch_size s"
  "ld_flush_max_retries (fst (flush_batch commits wr batch s)) = ld_flush_max_retries s"
proof -
  have "ld_queue (fst (flush_attempts commits wr as batch s)) = ld_queue s
      \<and> ld_task (fst (flush_attempts commits wr as batch s)) = ld_task s
      \<and> ld_queue_maxsize (fst (flush_attempts commits wr as batch s)) = ld_queue_maxsize s
      \<and> ld_batch_size (fst (flush_attempts commits wr as batch s)) = ld_batch_size s
      \<and> ld_flush_max_retries (fst (flush_attempts commits wr as batch s)) = ld_flush_max_retries s" for as
    by (induction as) (simp_all add: case_prod_beta)
  then show "ld_queue (fst (flush_batch commits wr batch s)) = ld_queue s"
    "ld_task (fst (flush_batch commits wr batch s)) = ld_task s"
    "ld_queue_maxsize (fst (flush_batch commits wr batch s)) = ld_queue_maxsize s"
    "ld_batch_size (fst (flush_batch commits wr batch s)) = ld_batch_size s"
    "ld_flush_max_retries (fst (flush_batch commits wr batch s)) = ld_flush_max_retries s"
    by (simp_all add: flush_batch_def)
qed

text \<open>One wake-up of the writer, in terms of the batch and the queue it leaves.\<close>

lemma writer_get_cases:
  assumes "ld_task s = Some b0" and "ld_queue s = r # q0"
  shows "\<exists>b q. b @ q = b0 @ r # q0 \<and> length q \<le> length q0 \<and> writer_get commits wr s =
    (if int (length b) \<ge> ld_batch_size s
     then (fst (flush_batch commits wr b (s\<lparr>ld_queue := q\<rparr>)))\<lparr>ld_task := Some []\<rparr>
     else s\<lparr>ld_queue := q, ld_task := Some b\<rparr>)"
proof -
  obtain b q where d: "drain_queue (ld_batch_size s) (b0 @ [r]) q0 = (b, q)"
    by (cases "drain_queue (ld_batch_size s) (b0 @ [r]) q0")
  from drain_queue_append [OF d] obtain zs where bq: "b @ q = b0 @ r # q0" and z: "b = (b0 @ [r]) @ zs" by auto
  then have "length q \<le> length q0" by auto
  with bq show ?thesis
    using assms d by (intro exI [of _ b] exI [of _ q]) (simp add: writer_get_def Let_def)
qed

lemma writer_get_idle: "ld_task s = None \<or> ld_queue s = [] \<Longrightarrow> writer_get commits wr s = s"
  by (auto simp: writer_get_def split: option.split)

lemma ledger_step_inv:
  assumes "ledger_inv s"
  shows "ledger_inv (ledger_step e s)"
proof (cases e)
  case (EvRecord x)
  with assms show ?thesis
    by (auto simp: ledger_record_execution_def and_then_def enqueue_def ledger_inv_def batch_of_def split: sum.split)
next
  case (EvGet commits wr)
  show ?thesis
  proof (cases "ld_task s = None \<or> ld_queue s = []")
    case True
    with assms EvGet show ?thesis by (simp add: writer_get_idle)
  next
    case False
    then obtain b0 r q0 where t: "ld_task s = Some b0" "ld_queue s = r # q0" by (cases "ld_queue s") auto
    from writer_get_cases [OF t, of commits wr] obtain b q where "length q \<le> length q0"
      "writer_get commits wr s = (if int (length b) \<ge> ld_batch_size s
         then (fst (flush_batch commits wr b (s\<lparr>ld_queue := q\<rparr>)))\<lparr>ld_task := Some []\<rparr>
         else s\<lparr>ld_queue := q, ld_task := Some b\<rparr>)" by blast
    with assms EvGet t show ?thesis
      by (cases "int (length b) < ld_batch_size s") (simp_all add: ledger_inv_def batch_of_def)
  qed
qed (use assms in \<open>auto simp: ledger_start_def ledger_stop_def writer_timeout_def ledger_inv_def batch_of_def Let_def
    split: option.split\<close>)

lemma flush_total:
  assumes "ld_flush_max_retries s = 3"
  shows "mset (ld_db (fst (flush_batch commits all_ok b s))) + mset (ld_log (fst (flush_batch commits all_ok b s)))
    = mset (ld_db s) + mset (ld_log s) + mset b"
  by (simp add: flush_batch_cases [OF assms])

lemma flush_committed:
  "ld_flush_max_retries s = 3 \<Longrightarrow> commits 1 \<Longrightarrow> ld_db (fst (flush_batch commits wr b s)) = ld_db s @ b"
  by (simp add: flush_batch_cases)

lemmas flush_facts = flush_total flush_committed in_flight_def batch_of_def

text \<open>One event neither loses nor duplicates a record, the one pushed out of the queue apart.\<close>

lemma writer_get_conserves:
  assumes "ledger_inv s" and "wr = all_ok"
  shows "mset (ld_db (writer_get commits wr s)) + mset (ld_log (writer_get commits wr s)) + mset (in_flight (writer_get commits wr s))
    = mset (ld_db s) + mset (ld_log s) + mset (in_flight s)"
proof (cases "ld_task s = None \<or> ld_queue s = []")
  case True
  then show ?thesis by (simp add: writer_get_idle)
next
  case False
  then obtain b0 r q0 where t: "ld_task s = Some b0" "ld_queue s = r # q0" by (cases "ld_queue s") auto
  from writer_get_cases [OF t, of commits wr] obtain b q where bq: "b @ q = b0 @ r # q0"
    and w: "writer_get commits wr s = (if int (length b) \<ge> ld_batch_size s
         then (fst (flush_batch commits wr b (s\<lparr>ld_queue := q\<rparr>)))\<lparr>ld_task := Some []\<rparr>
         else s\<lparr>ld_queue := q, ld_task := Some b\<rparr>)" by blast
  have m: "in_flight s = b @ q" using t bq by (simp add: in_flight_def batch_of_def)
  have r: "ld_flush_max_retries (s\<lparr>ld_queue := q\<rparr>) = 3" using ledger_invD(1) [OF assms(1)] by simp
  show ?thesis
  proof (cases "int (length b) < ld_batch_size s")
    case True
    then show ?thesis by (simp add: w m) (simp add: in_flight_def batch_of_def)
  next
    case False
    then show ?thesis
      using flush_total [OF r, of commits b] by (simp add: w [unfolded assms(2)] m assms(2)) (simp add: in_flight_def batch_of_def)
  qed
qed

lemma ledger_step_conserves:
  assumes inv: "ledger_inv s" and "log_writable e"
  shows "mset (ld_db (ledger_step e s)) + mset (ld_log (ledger_step e s)) + mset (in_flight (ledger_step e s))
      + mset (dropped_by e s) = mset (ld_db s) + mset (ld_log s) + mset (in_flight s) + mset (accepted_by e)"
proof (cases e)
  case (EvRecord x)
  then show ?thesis
    by (cases "ld_queue s") (auto simp: ledger_record_execution_def enqueue_def in_flight_def batch_of_def split: sum.split)
next
  case EvStart
  then show ?thesis by (simp add: ledger_start_def in_flight_def batch_of_def)
next
  case (EvGet commits wr)
  with assms writer_get_conserves [OF inv, of wr commits] show ?thesis by simp
next
  case (EvTimeout commits wr)
  with assms flush_total [OF ledger_invD(1) [OF inv], of commits "batch_of s"] show ?thesis
    by (auto simp: writer_timeout_def in_flight_def batch_of_def split: option.split)
next
  case (EvStop commits wr)
  with assms flush_total [OF ledger_invD(1) [OF inv], of commits "batch_of s"] show ?thesis
    by (auto simp: ledger_stop_def in_flight_def batch_of_def Let_def split: option.split)
qed

text \<open>With commits that succeed, records leave for the database in the order they came.\<close>

lemma writer_get_order:
  assumes "ledger_inv s" and "commits 1"
  shows "ld_db (writer_get commits wr s) @ in_flight (writer_get commits wr s) = ld_db s @ in_flight s"
proof (cases "ld_task s = None \<or> ld_queue s = []")
  case True
  then show ?thesis by (simp add: writer_get_idle)
next
  case False
  then obtain b0 r q0 where t: "ld_task s = Some b0" "ld_queue s = r # q0" by (cases "ld_queue s") auto
  from writer_get_cases [OF t, of commits wr] obtain b q where bq: "b @ q = b0 @ r # q0"
    and w: "writer_get commits wr s = (if int (length b) \<ge> ld_batch_size s
         then (fst (flush_batch commits wr b (s\<lparr>ld_queue := q\<rparr>)))\<lparr>ld_task := Some []\<rparr>
         else s\<lparr>ld_queue := q, ld_task := Some b\<rparr>)" by blast
  have r: "ld_flush_max_retries (s\<lparr>ld_queue := q\<rparr>) = 3" using ledger_invD(1) [OF assms(1)] by simp
  have f: "in_flight s = b @ q" using t bq by (simp add: in_flight_def batch_of_def)
  show ?thesis
    unfolding f
    by (cases "int (length b) < ld_batch_size s")
      (simp_all add: w in_flight_def batch_of_def flush_committed [where commits = commits, OF r assms(2)])
qed

lemma ledger_step_order:
  assumes inv: "ledger_inv s" and "commits_ok e"
  shows "subseq (ld_db (ledger_step e s) @ in_flight (ledger_step e s)) (ld_db s @ in_flight s @ accepted_by e)"
proof (cases e)
  case (EvRecord x)
  have "subseq (drop 1 q @ r) (q @ r)" for q r :: "exec_call list"
    by (cases q) (auto intro: list_emb_append_mono)
  then show ?thesis
    using EvRecord by (auto simp: ledger_record_execution_def enqueue_def in_flight_def batch_of_def
        split: sum.split intro!: list_emb_append_mono)
next
  case (EvGet commits wr)
  with assms writer_get_order [OF inv, of commits wr] show ?thesis by simp
qed (use assms flush_committed [OF ledger_invD(1) [OF inv]] in
    \<open>auto simp: ledger_start_def writer_timeout_def ledger_stop_def in_flight_def batch_of_def Let_def split: option.split\<close>)

text \<open>A history, and the records it accepts and drops.\<close>

fun ledger_run :: "ledger_event list \<Rightarrow> ledger_state \<Rightarrow> ledger_state" where
  "ledger_run [] s = s"
| "ledger_run (e # es) s = ledger_run es (ledger_step e s)"

fun dropped_in :: "ledger_event list \<Rightarrow> ledger_state \<Rightarrow> exec_call list" where
  "dropped_in [] s = []"
| "dropped_in (e # es) s = dropped_by e s @ dropped_in es (ledger_step e s)"

definition accepted_in :: "ledger_event list \<Rightarrow> exec_call list" where
  "accepted_in es = concat (map accepted_by es)"

lemma ledger_run_inv: "ledger_inv s \<Longrightarrow> ledger_inv (ledger_run es s)"
  by (induction es arbitrary: s) (simp_all add: ledger_step_inv)

lemma conserve_trans:
  assumes "T + d2 = S1 + a2" and "S1 + d1 = S0 + (a1 :: 'a multiset)"
  shows "T + (d1 + d2) = S0 + (a1 + a2)"
proof -
  have "T + (d1 + d2) = (T + d2) + d1" by (simp only: ac_simps)
  also have "\<dots> = (S1 + d1) + a2" by (simp only: assms(1) ac_simps)
  finally show ?thesis by (simp only: assms(2) ac_simps)
qed

lemma ledger_run_conserves:
  assumes "ledger_inv s" and "list_all log_writable es"
  shows "mset (ld_db (ledger_run es s)) + mset (ld_log (ledger_run es s)) + mset (in_flight (ledger_run es s))
      + mset (dropped_in es s) = mset (ld_db s) + mset (ld_log s) + mset (in_flight s) + mset (accepted_in es)"
  using assms
proof (induction es arbitrary: s)
  case (Cons e es)
  have "mset (ld_db (ledger_run es (ledger_step e s))) + mset (ld_log (ledger_run es (ledger_step e s)))
      + mset (in_flight (ledger_run es (ledger_step e s))) + mset (dropped_in es (ledger_step e s))
      = mset (ld_db (ledger_step e s)) + mset (ld_log (ledger_step e s)) + mset (in_flight (ledger_step e s))
        + mset (accepted_in es)"
    using Cons by (intro Cons.IH ledger_step_inv) simp_all
  moreover have "mset (ld_db (ledger_step e s)) + mset (ld_log (ledger_step e s)) + mset (in_flight (ledger_step e s))
      + mset (dropped_by e s) = mset (ld_db s) + mset (ld_log s) + mset (in_flight s) + mset (accepted_by e)"
    using Cons.prems by (intro ledger_step_conserves) simp_all
  ultimately show ?case
    unfolding ledger_run.simps dropped_in.simps accepted_in_def list.map concat.simps mset_append
    by (rule conserve_trans)
qed (simp add: accepted_in_def)

lemma ledger_run_order:
  assumes "ledger_inv s" and "list_all commits_ok es"
  shows "subseq (ld_db (ledger_run es s) @ in_flight (ledger_run es s)) (ld_db s @ in_flight s @ accepted_in es)"
  using assms
proof (induction es arbitrary: s)
  case (Cons e es)
  have "subseq (ld_db (ledger_run es (ledger_step e s)) @ in_flight (ledger_run es (ledger_step e s)))
      ((ld_db (ledger_step e s) @ in_flight (ledger_step e s)) @ accepted_in es)"
    using Cons by (simp add: ledger_step_inv)
  also have "subseq \<dots> ((ld_db s @ in_flight s @ accepted_by e) @ accepted_in es)"
    using Cons.prems by (intro list_emb_append_mono ledger_step_order subseq_order.refl) simp_all
  finally show ?case by (simp add: accepted_in_def)
qed (simp add: accepted_in_def)

subsection \<open>Properties\<close>


definition sample_ledger :: ledger_state where
  "sample_ledger = \<lparr>ld_batch_size = 2, ld_flush_interval = 5, ld_fallback_path = ''f'', ld_flush_max_retries = 3,
     ld_backoff_base = 1 / 10, ld_queue_maxsize = 2, ld_queue = [], ld_task = None, ld_db = [], ld_log = []\<rparr>"

lemma sample_ledger_new: "ledger_new (PInt 2) (PFloat 5) (PStr ''f'') (PInt 2) = Inr sample_ledger"
  by code_simp

definition sample_records :: "ledger_event list" where
  "sample_records = map (\<lambda>c. EvRecord (sample_call ''t'' c 1 ''success'')) [''a'', ''b'', ''c'']"


text \<open>
  C33. While commits succeed, records reach the database in the order they were accepted:
  what is committed, followed by what is in flight, is a subsequence of the accepted
  records, whatever the queue drops and however often the writer is stopped and started.
\<close>

theorem ledger_commits_in_order:
  assumes "ledger_new b f p q = Inr s" and "list_all commits_ok es"
  shows "subseq (ld_db (ledger_run es s) @ in_flight (ledger_run es s)) (accepted_in es)"
  using ledger_run_order [of s es] ledger_new_inv [OF assms(1)] assms(2) by simp

theorem ledger_commits_in_order_witness:
  "subseq (ld_db (ledger_run (sample_records @ [EvStart, EvGet all_ok all_ok]) sample_ledger)
      @ in_flight (ledger_run (sample_records @ [EvStart, EvGet all_ok all_ok]) sample_ledger))
    (accepted_in (sample_records @ [EvStart, EvGet all_ok all_ok]))"
  by (rule ledger_commits_in_order [OF sample_ledger_new]) (simp add: sample_records_def all_ok_def)

text \<open>
  The queue is bounded and keeps the newest: in every reachable ledger the queue holds
  at most \<open>queue_maxsize\<close> records, and an accepted call makes its record the last one and
  costs at most the oldest.
\<close>

theorem ledger_queue_bounded:
  assumes "ledger_new b f p q = Inr s0" and "normalize_call x = Inr r"
  shows "let s = ledger_run es s0; s' = ledger_step (EvRecord x) s in
    int (length (ld_queue s')) \<le> ld_queue_maxsize s'
    \<and> ld_queue s' = (if int (length (ld_queue s)) = ld_queue_maxsize s then tl (ld_queue s) else ld_queue s) @ [r]"
proof -
  let ?s = "ledger_run es s0"
  have inv: "ledger_inv ?s" using ledger_new_inv [OF assms(1)] by (simp add: ledger_run_inv)
  have "int (length (ld_queue (ledger_step (EvRecord x) ?s))) \<le> ld_queue_maxsize (ledger_step (EvRecord x) ?s)"
    by (rule ledger_invD(3)) (rule ledger_step_inv [OF inv])
  with ledger_invD(3) [OF inv] assms(2) show ?thesis
    by (auto simp: Let_def ledger_record_execution_def enqueue_def drop_Suc)
qed

theorem ledger_queue_bounded_witness:
  "int (length (ld_queue (ledger_step (EvRecord (sample_call ''t'' ''d'' 1 ''error'')) (ledger_run sample_records sample_ledger))))
   \<le> ld_queue_maxsize (ledger_step (EvRecord (sample_call ''t'' ''d'' 1 ''error'')) (ledger_run sample_records sample_ledger))"
proof -
  have "normalize_call (sample_call ''t'' ''d'' 1 ''error'') = Inr (sample_call ''t'' ''d'' 1 ''error'')"
    by code_simp
  from ledger_queue_bounded [OF sample_ledger_new this, of sample_records] show ?thesis
    unfolding Let_def by (rule conjunct1)
qed

text \<open>
  Stopping the ledger flushes the batch the writer holds and nothing else: the records
  still in the queue stay there, uncommitted and not in the fallback log, and no writer is
  left to take them.
\<close>

theorem ledger_stop_abandons_queue:
  assumes "ledger_new b f p q = Inr s0"
  shows "let s = ledger_run es s0; s' = ledger_stop commits all_ok s in
    ld_task s' = None \<and> ld_queue s' = ld_queue s
    \<and> mset (ld_db s') + mset (ld_log s') = mset (ld_db s) + mset (ld_log s) + mset (batch_of s)"
proof -
  have "ledger_inv (ledger_run es s0)" using ledger_new_inv [OF assms] by (simp add: ledger_run_inv)
  from flush_total [OF ledger_invD(1) [OF this], of commits "batch_of (ledger_run es s0)"] show ?thesis
    by (auto simp: ledger_stop_def batch_of_def Let_def split: option.split)
qed

theorem ledger_stop_abandons_queue_witness:
  "ld_queue (ledger_stop all_ok all_ok (ledger_run (sample_records @ [EvStart]) sample_ledger))
   = ld_queue (ledger_run (sample_records @ [EvStart]) sample_ledger)"
  using ledger_stop_abandons_queue [OF sample_ledger_new, of "sample_records @ [EvStart]" all_ok]
  by (simp add: Let_def)

text \<open>
  A flush ends after at most three attempts and 0.3 seconds of waiting, and the whole batch
  is in one place: committed, when an attempt succeeded, or handed to the fallback log.
\<close>

lemma flush_batch_outcome:
  assumes "ld_flush_max_retries s = 3" and "ld_backoff_base s = 1 / 10"
  shows "sum_list (snd (flush_batch commits wr b s)) \<le> 3 / 10
    \<and> (if commits 1 \<or> commits 2 \<or> commits 3
       then fst (flush_batch commits wr b s) = s\<lparr>ld_db := ld_db s @ b\<rparr>
       else fst (flush_batch commits wr b s) = s\<lparr>ld_log := write_to_fallback_log wr 0 b (ld_log s)\<rparr>)"
  using assms(2) by (simp add: flush_batch_cases [OF assms(1)])

end
