(* ===== verification/Approval.thy ===== *)
theory Approval
  imports Prelude
begin

section \<open>The approval queue of progressive migration\<close>

text \<open>
  \<open>owlclaw/governance/approval_queue.py\<close>: requests for a decision, kept by identifier in the
  order of creation, and the operations that decide or expire them. An operation that raises
  may still have changed the queue, so every operation returns its outcome and the queue.
\<close>

datatype approval_status = PENDING | APPROVED | REJECTED | MODIFIED | EXPIRED

record approval_request =
  ar_id :: uuid
  ar_tenant :: string
  ar_agent :: string
  ar_skill :: string
  ar_suggestion :: "(pyval \<times> pyval) list"
  ar_reasoning :: "string option"
  ar_status :: approval_status
  ar_created :: micros
  ar_expires :: micros
  ar_updated :: micros
  ar_approver :: "string option"
  ar_payload :: "(pyval \<times> pyval) list option"

record approval_queue =
  aq_timeout :: int
  aq_items :: "(uuid \<times> approval_request) list"

definition approval_queue_new :: "int \<Rightarrow> py_error + approval_queue" where
  "approval_queue_new timeout_seconds =
     (if timeout_seconds \<le> 0 then Inl (ValueError ''timeout_seconds must be positive'')
      else Inr \<lparr>aq_timeout = timeout_seconds, aq_items = []\<rparr>)"

definition aq_create ::
  "uuid \<Rightarrow> micros \<Rightarrow> string \<Rightarrow> string \<Rightarrow> string \<Rightarrow> (pyval \<times> pyval) list \<Rightarrow> string option \<Rightarrow> approval_queue
     \<Rightarrow> approval_request \<times> approval_queue" where
  "aq_create i now tenant agent skill suggestion reasoning q =
     (let request = \<lparr>ar_id = i, ar_tenant = tenant, ar_agent = agent, ar_skill = skill,
            ar_suggestion = suggestion, ar_reasoning = reasoning, ar_status = PENDING, ar_created = now,
            ar_expires = now + secs (aq_timeout q), ar_updated = now, ar_approver = None, ar_payload = None\<rparr>
      in (request, q\<lparr>aq_items := AList.update i request (aq_items q)\<rparr>))"

definition put_request :: "approval_request \<Rightarrow> uuid \<Rightarrow> approval_queue \<Rightarrow> approval_queue" where
  "put_request r i q = q\<lparr>aq_items := AList.update i r (aq_items q)\<rparr>"

definition require_active :: "micros \<Rightarrow> uuid \<Rightarrow> approval_queue \<Rightarrow> (py_error + approval_request) \<times> approval_queue" where
  "require_active now request_id q =
     (case map_of (aq_items q) request_id of
        None \<Rightarrow> (Inl (KeyError (''unknown approval request: '' @ request_id)), q)
      | Some request \<Rightarrow>
          if ar_status request \<noteq> PENDING then (Inl (ValueError ''approval request is not pending''), q)
          else if ar_expires request \<le> now
            then (Inl (ValueError ''approval request has expired''),
                  put_request (request\<lparr>ar_status := EXPIRED\<rparr>) request_id q)
          else (Inr request, q))"

text \<open>\<open>now1\<close> is the reading of the check, \<open>now2\<close> the one kept as the time of the update.\<close>

definition aq_approve ::
  "micros \<Rightarrow> micros \<Rightarrow> uuid \<Rightarrow> string \<Rightarrow> (pyval \<times> pyval) list option \<Rightarrow> approval_queue
     \<Rightarrow> (py_error + approval_request) \<times> approval_queue" where
  "aq_approve now1 now2 request_id approver modified_payload q =
     (case require_active now1 request_id q of
        (Inl e, q') \<Rightarrow> (Inl e, q')
      | (Inr request, q') \<Rightarrow>
          (let r1 = request\<lparr>ar_updated := now2, ar_approver := Some approver\<rparr>;
               r2 = (case modified_payload of
                  None \<Rightarrow> r1\<lparr>ar_status := APPROVED, ar_payload := Some (ar_suggestion request)\<rparr>
                | Some payload \<Rightarrow> r1\<lparr>ar_status := MODIFIED, ar_payload := Some payload\<rparr>)
           in (Inr r2, put_request r2 request_id q')))"

definition aq_reject ::
  "micros \<Rightarrow> micros \<Rightarrow> uuid \<Rightarrow> string \<Rightarrow> approval_queue \<Rightarrow> (py_error + approval_request) \<times> approval_queue" where
  "aq_reject now1 now2 request_id approver q =
     (case require_active now1 request_id q of
        (Inl e, q') \<Rightarrow> (Inl e, q')
      | (Inr request, q') \<Rightarrow>
          (let r = request\<lparr>ar_updated := now2, ar_approver := Some approver, ar_status := REJECTED, ar_payload := None\<rparr>
           in (Inr r, put_request r request_id q')))"

definition expire_request :: "micros \<Rightarrow> approval_request \<Rightarrow> approval_request" where
  "expire_request now r =
     (if ar_status r = PENDING \<and> ar_expires r \<le> now then r\<lparr>ar_status := EXPIRED, ar_updated := now\<rparr> else r)"

definition aq_expire_pending :: "micros \<Rightarrow> approval_queue \<Rightarrow> nat \<times> approval_queue" where
  "aq_expire_pending now q =
     (length (filter (\<lambda>(i, r). ar_status r = PENDING \<and> ar_expires r \<le> now) (aq_items q)),
      q\<lparr>aq_items := map (\<lambda>(i, r). (i, expire_request now r)) (aq_items q)\<rparr>)"

definition aq_list ::
  "micros \<Rightarrow> string \<Rightarrow> approval_status option \<Rightarrow> approval_queue \<Rightarrow> approval_request list \<times> approval_queue" where
  "aq_list now tenant status q =
     (let q' = snd (aq_expire_pending now q);
          rows = filter (\<lambda>r. ar_tenant r = tenant) (map snd (aq_items q'));
          rows = (case status of None \<Rightarrow> rows | Some st \<Rightarrow> filter (\<lambda>r. ar_status r = st) rows)
      in (sort_asc ar_created rows, q'))"

subsection \<open>Steps\<close>

text \<open>One operation, by anyone, at any readings of the clock; identifiers are fresh.\<close>

inductive aq_step :: "approval_queue \<Rightarrow> approval_queue \<Rightarrow> bool" where
  step_create: "i \<notin> set (dict_keys (aq_items q)) \<Longrightarrow> aq_step q (snd (aq_create i now t a s sug why q))"
| step_approve: "aq_step q (snd (aq_approve now1 now2 i approver payload q))"
| step_reject: "aq_step q (snd (aq_reject now1 now2 i approver q))"
| step_expire: "aq_step q (snd (aq_expire_pending now q))"
| step_list: "aq_step q (snd (aq_list now t st q))"

inductive_cases aq_stepE: "aq_step q q'"

inductive aq_steps :: "approval_queue \<Rightarrow> approval_queue \<Rightarrow> bool" where
  steps_none: "aq_steps q q"
| steps_more: "aq_steps q q1 \<Longrightarrow> aq_step q1 q2 \<Longrightarrow> aq_steps q q2"

lemma map_of_expire:
  "map_of (map (\<lambda>(i, r). (i, f r)) xs) k = map_option f (map_of xs k)"
  by (induction xs) auto

text \<open>What an operation may do to a request that is there: keep it, expire it, or decide it.\<close>

inductive request_moves :: "approval_request \<Rightarrow> approval_request \<Rightarrow> bool" where
  move_none [simp]: "request_moves r r"
| move_expire: "ar_status r = PENDING \<Longrightarrow> request_moves r (r\<lparr>ar_status := EXPIRED, ar_updated := u\<rparr>)"
| move_late: "ar_status r = PENDING \<Longrightarrow> request_moves r (r\<lparr>ar_status := EXPIRED\<rparr>)"
| move_reject: "ar_status r = PENDING \<Longrightarrow>
    request_moves r (r\<lparr>ar_updated := u, ar_approver := Some w, ar_status := REJECTED, ar_payload := None\<rparr>)"
| move_approve: "ar_status r = PENDING \<Longrightarrow>
    request_moves r (r\<lparr>ar_updated := u, ar_approver := Some w, ar_status := APPROVED, ar_payload := Some (ar_suggestion r)\<rparr>)"
| move_modify: "ar_status r = PENDING \<Longrightarrow>
    request_moves r (r\<lparr>ar_updated := u, ar_approver := Some w, ar_status := MODIFIED, ar_payload := Some p\<rparr>)"

lemma expire_request_moves: "request_moves r (expire_request now r)"
  by (simp add: expire_request_def move_expire)

text \<open>A request that is not pending does not move.\<close>

lemma decided_stays: "request_moves r r' \<Longrightarrow> ar_status r \<noteq> PENDING \<Longrightarrow> r' = r"
  by (induction rule: request_moves.induct) simp_all

lemma require_active_cases:
  obtains e where "require_active now i q = (Inl e, q)"
  | e r where "map_of (aq_items q) i = Some r" "ar_status r = PENDING"
      "require_active now i q = (Inl e, put_request (r\<lparr>ar_status := EXPIRED\<rparr>) i q)"
  | r where "map_of (aq_items q) i = Some r" "ar_status r = PENDING" "now < ar_expires r"
      "require_active now i q = (Inr r, q)"
proof (cases "map_of (aq_items q) i")
  case None
  then have "require_active now i q = (Inl (KeyError (''unknown approval request: '' @ i)), q)"
    by (simp add: require_active_def)
  then show thesis by (rule that(1))
next
  case (Some r)
  show thesis
  proof (cases "ar_status r = PENDING")
    case False
    with Some that(1) show thesis by (simp add: require_active_def)
  next
    case True
    with Some that(2,3) show thesis by (cases "ar_expires r \<le> now") (simp_all add: require_active_def)
  qed
qed

lemma put_request_get [simp]:
  "map_of (aq_items (put_request r i q)) j = (if j = i then Some r else map_of (aq_items q) j)"
  by (simp add: put_request_def update_conv')

lemma aq_approve_moves:
  "map_of (aq_items q) j = Some r \<Longrightarrow>
     \<exists>r'. map_of (aq_items (snd (aq_approve now1 now2 i w p q))) j = Some r' \<and> request_moves r r'"
  by (rule require_active_cases [of now1 i q]; cases p)
    (auto simp: aq_approve_def Let_def intro: move_late move_approve move_modify)

lemma aq_reject_moves:
  "map_of (aq_items q) j = Some r \<Longrightarrow>
     \<exists>r'. map_of (aq_items (snd (aq_reject now1 now2 i w q))) j = Some r' \<and> request_moves r r'"
  by (rule require_active_cases [of now1 i q])
    (auto simp: aq_reject_def Let_def intro: move_late move_reject)

lemma aq_expire_moves:
  "map_of (aq_items q) j = Some r \<Longrightarrow>
     \<exists>r'. map_of (aq_items (snd (aq_expire_pending now q))) j = Some r' \<and> request_moves r r'"
  by (simp add: aq_expire_pending_def map_of_expire expire_request_moves)

lemma aq_step_moves:
  assumes "aq_step q q'" and r: "map_of (aq_items q) j = Some r"
  shows "\<exists>r'. map_of (aq_items q') j = Some r' \<and> request_moves r r'"
  using assms(1)
proof cases
  case (step_create i now t a s sug why)
  have "j \<noteq> i" using step_create(2) r by (metis map_of_eq_None_iff option.distinct(1) set_map)
  with step_create(1) r show ?thesis by (simp add: aq_create_def Let_def update_conv')
next
  case (step_list now t st)
  with aq_expire_moves [OF r, of now] show ?thesis by (simp add: aq_list_def Let_def)
qed (use r aq_approve_moves aq_reject_moves aq_expire_moves in blast)+

text \<open>What holds of a request at every moment of its life.\<close>

definition request_ok :: "approval_request \<Rightarrow> bool" where
  "request_ok r = (case ar_status r of
      PENDING \<Rightarrow> ar_approver r = None \<and> ar_payload r = None
    | EXPIRED \<Rightarrow> ar_approver r = None \<and> ar_payload r = None
    | REJECTED \<Rightarrow> ar_approver r \<noteq> None \<and> ar_payload r = None
    | APPROVED \<Rightarrow> ar_approver r \<noteq> None \<and> ar_payload r = Some (ar_suggestion r)
    | MODIFIED \<Rightarrow> ar_approver r \<noteq> None \<and> ar_payload r \<noteq> None)"

lemma request_moves_ok: "request_moves r r' \<Longrightarrow> request_ok r \<Longrightarrow> request_ok r'"
  by (induction rule: request_moves.induct) (simp_all add: request_ok_def)

lemma aq_steps_moves:
  "aq_steps q q' \<Longrightarrow> map_of (aq_items q) j = Some r \<Longrightarrow> ar_status r \<noteq> PENDING \<Longrightarrow> map_of (aq_items q') j = Some r"
proof (induction rule: aq_steps.induct)
  case (steps_more q q1 q2)
  from aq_step_moves [OF steps_more.hyps(2) steps_more.IH] steps_more.prems
  show ?case using decided_stays by blast
qed

text \<open>Where a request of the new state comes from.\<close>

lemma aq_step_origin:
  assumes "aq_step q q'" and r': "map_of (aq_items q') j = Some r'"
  shows "(\<exists>r. map_of (aq_items q) j = Some r \<and> request_moves r r') \<or> request_ok r'"
proof (cases "map_of (aq_items q) j")
  case (Some r)
  with aq_step_moves [OF assms(1) Some] r' show ?thesis by auto
next
  case None
  from assms(1) show ?thesis
  proof cases
    case (step_create i now t a s sug why)
    with r' None show ?thesis
      by (auto simp: aq_create_def Let_def update_conv' request_ok_def split: if_splits)
  next
    case (step_approve now1 now2 i w p)
    then show ?thesis
      using r' None by (cases rule: require_active_cases [of now1 i q])
        (auto simp: aq_approve_def Let_def split: option.splits if_splits)
  next
    case (step_reject now1 now2 i w)
    then show ?thesis
      using r' None by (cases rule: require_active_cases [of now1 i q])
        (auto simp: aq_reject_def Let_def split: if_splits)
  qed (use r' None in \<open>simp_all add: aq_list_def aq_expire_pending_def map_of_expire Let_def\<close>)
qed

lemma aq_steps_ok:
  "aq_steps q q' \<Longrightarrow> aq_items q = [] \<Longrightarrow> map_of (aq_items q') j = Some r \<Longrightarrow> request_ok r"
proof (induction arbitrary: r rule: aq_steps.induct)
  case (steps_more q q1 q2)
  from aq_step_origin [OF steps_more.hyps(2) steps_more.prems(2)] show ?case
    using request_moves_ok steps_more.IH steps_more.prems(1) by blast
qed simp

subsection \<open>Properties\<close>

text \<open>
  C12. A request is decided at most once: when it is approved, modified, rejected or expired,
  no later operation changes any field of it, and an attempt to decide it raises and leaves
  the queue as it is.
\<close>

theorem approval_decided_once:
  assumes "map_of (aq_items q) i = Some r" and "ar_status r \<noteq> PENDING" and "aq_steps q q'"
  shows "map_of (aq_items q') i = Some r
    \<and> aq_approve now1 now2 i w p q' = (Inl (ValueError ''approval request is not pending''), q')
    \<and> aq_reject now1 now2 i w q' = (Inl (ValueError ''approval request is not pending''), q')"
  using aq_steps_moves [OF assms(3,1,2)] assms(2)
  by (simp add: aq_approve_def aq_reject_def require_active_def)

definition sample_queue :: approval_queue where
  "sample_queue = snd (aq_reject 2 2 ''r1'' ''bob''
     (snd (aq_create ''r1'' 1 ''t'' ''a'' ''s'' [] None \<lparr>aq_timeout = 60, aq_items = []\<rparr>)))"

theorem approval_decided_once_witness:
  "fst (aq_approve 4 4 ''r1'' ''eve'' None (snd (aq_expire_pending (secs 100) sample_queue)))
   = Inl (ValueError ''approval request is not pending'')"
proof -
  have "map_option ar_status (map_of (aq_items sample_queue) ''r1'') = Some REJECTED" by code_simp
  then obtain r where r: "map_of (aq_items sample_queue) ''r1'' = Some r" "ar_status r \<noteq> PENDING" by auto
  have "aq_steps sample_queue (snd (aq_expire_pending (secs 100) sample_queue))"
    by (intro steps_more [OF steps_none] step_expire)
  from approval_decided_once [OF r this] show ?thesis by simp
qed

text \<open>
  What is executed was approved: in every queue reached from an empty one a request
  carries a payload exactly when a named approver approved it (then the payload is the
  suggestion) or modified it, and pending, expired and rejected ones carry none.
\<close>

theorem approval_payload_has_approver:
  assumes "approval_queue_new timeout = Inr q0" and "aq_steps q0 q" and "map_of (aq_items q) i = Some r"
  shows "(ar_payload r \<noteq> None) = (ar_status r \<in> {APPROVED, MODIFIED})
    \<and> (ar_approver r \<noteq> None) = (ar_status r \<in> {APPROVED, MODIFIED, REJECTED})
    \<and> ar_payload r = (if ar_status r = APPROVED then Some (ar_suggestion r) else ar_payload r)"
proof -
  have "aq_items q0 = []" using assms(1) by (auto simp: approval_queue_new_def split: if_splits)
  from aq_steps_ok [OF assms(2) this assms(3)] show ?thesis
    by (cases "ar_status r") (auto simp: request_ok_def)
qed

theorem approval_payload_has_approver_witness:
  "\<exists>r. map_of (aq_items sample_queue) ''r1'' = Some r \<and> ar_payload r = None \<and> ar_approver r \<noteq> None"
proof -
  have n: "approval_queue_new 60 = Inr \<lparr>aq_timeout = 60, aq_items = []\<rparr>"
    by (simp add: approval_queue_new_def)
  have st: "map_option ar_status (map_of (aq_items sample_queue) ''r1'') = Some REJECTED" by code_simp
  then obtain r where r: "map_of (aq_items sample_queue) ''r1'' = Some r" "ar_status r = REJECTED" by auto
  have "aq_steps \<lparr>aq_timeout = 60, aq_items = []\<rparr> sample_queue"
    unfolding sample_queue_def by (rule steps_more [OF steps_more [OF steps_none step_create] step_reject]) simp
  from approval_payload_has_approver [OF n this r(1)] r show ?thesis by auto
qed

end
