(* ===== verification/Migration.thy ===== *)
theory Migration
  imports Prelude
begin

section \<open>Progressive migration: the risk assessor and the migration gate\<close>

text \<open>
  \<open>owlclaw/governance/risk_assessor.py\<close> and \<open>owlclaw/governance/migration_gate.py\<close>. An action
  and a skill's \<open>owlclaw\<close> block are dicts. What the gate reads from outside is an argument:
  the parsed configuration file, its modification time (\<open>None\<close> when \<open>stat\<close> raises
  \<open>OSError\<close>), and the random number.
\<close>

subsection \<open>Risk assessor\<close>

text \<open>
  \<open>str(v)\<close> where the code only compares it with fixed words: the text of a value that is
  not a string is none of them.
\<close>

definition word_of :: "pyval \<Rightarrow> string option" where
  "word_of v = (case v of PStr s \<Rightarrow> Some s | _ \<Rightarrow> None)"

definition operation_base :: "string \<Rightarrow> rat option" where
  "operation_base = map_of [(''read'', 0), (''notify'', 2 / 10), (''write'', 5 / 10), (''delete'', 8 / 10), (''payment'', 1)]"

definition scope_base :: "string \<Rightarrow> rat option" where
  "scope_base = map_of [(''single'', 1 / 10), (''batch'', 5 / 10), (''global'', 1)]"

definition reversibility_base :: "string \<Rightarrow> rat option" where
  "reversibility_base = map_of [(''reversible'', 0), (''partially_reversible'', 5 / 10), (''irreversible'', 1)]"

definition base_score :: "(string \<Rightarrow> rat option) \<Rightarrow> string option \<Rightarrow> rat" where
  "base_score base w = (case w of None \<Rightarrow> 5 / 10 | Some s \<Rightarrow> (case base s of None \<Rightarrow> 5 / 10 | Some r \<Rightarrow> r))"

record risk_assessor =
  ra_op :: rat
  ra_scope :: rat
  ra_amount :: rat
  ra_rev :: rat

record risk_breakdown =
  rb_operation :: rat
  rb_scope :: rat
  rb_amount :: rat
  rb_reversibility :: rat
  rb_total :: rat

definition risk_assessor_new :: "rat \<Rightarrow> rat \<Rightarrow> rat \<Rightarrow> rat \<Rightarrow> py_error + risk_assessor" where
  "risk_assessor_new op scope amount revers =
     (if op < 0 \<or> scope < 0 \<or> amount < 0 \<or> revers < 0 then Inl (ValueError ''risk weights must be non-negative'')
      else (let total = op + scope + amount + revers in
        if total \<le> 0 then Inl (ValueError ''risk weights sum must be positive'')
        else Inr \<lparr>ra_op = op / total, ra_scope = scope / total, ra_amount = amount / total, ra_rev = revers / total\<rparr>))"

definition infer_operation_type :: "pyval \<Rightarrow> string" where
  "infer_operation_type action =
     (let binding0 = dict_get_or action ''binding'' (PDict []);
          binding = (if is_dict binding0 then binding0 else PDict []);
          meth = map_option py_upper (word_of (dict_get_or binding ''method'' (PStr [])));
          sql_op = map_option py_upper (word_of (dict_get_or binding ''sql_operation'' (PStr [])));
          action_type = map_option py_lower (word_of (dict_get_or action ''action_type'' (PStr [])))
      in if Option.bind action_type operation_base \<noteq> None then the action_type
         else if meth = Some ''GET'' then ''read''
         else if meth \<in> {Some ''POST'', Some ''PUT'', Some ''PATCH''} then ''write''
         else if meth = Some ''DELETE'' then ''delete''
         else if sql_op = Some ''SELECT'' then ''read''
         else if sql_op \<in> {Some ''INSERT'', Some ''UPDATE''} then ''write''
         else if sql_op = Some ''DELETE'' then ''delete''
         else ''write'')"

definition override_word :: "pyval \<Rightarrow> string \<Rightarrow> string option" where
  "override_word raw key =
     (case dict_get raw key of
        Some (PStr s) \<Rightarrow> if py_strip s \<noteq> [] then Some (strip_lower s) else None
      | _ \<Rightarrow> None)"

definition override_amount :: "pyval \<Rightarrow> rat option" where
  "override_amount raw =
     (case dict_get raw ''amount'' of
        Some (PBool b) \<Rightarrow> Some (if b then 1 else 0)
      | Some (PInt i) \<Rightarrow> Some (rat_of_int i)
      | Some (PFloat r) \<Rightarrow> Some r
      | _ \<Rightarrow> None)"

text \<open>
  The overrides are looked up in the dict under \<open>risk\<close>, or in an empty one when there is
  none.
\<close>

definition risk_overrides :: "pyval \<Rightarrow> pyval" where
  "risk_overrides skill_owlclaw =
     (case dict_get skill_owlclaw ''risk'' of Some (PDict kvs) \<Rightarrow> PDict kvs | _ \<Rightarrow> PDict [])"

definition amount_to_score :: "rat \<Rightarrow> rat" where
  "amount_to_score amount =
     (let value = max 0 amount in if value < 1000 then 1 / 10 else if value < 10000 then 5 / 10 else 1)"

definition assess :: "risk_assessor \<Rightarrow> pyval \<Rightarrow> pyval \<Rightarrow> py_error + risk_breakdown" where
  "assess ra action skill_owlclaw =
     (let raw = risk_overrides (or_empty_dict skill_owlclaw);
          op_type = (case override_word raw ''operation_type'' of Some w \<Rightarrow> Some w | None \<Rightarrow> Some (infer_operation_type action));
          scope = (case override_word raw ''impact_scope'' of Some w \<Rightarrow> Some w
             | None \<Rightarrow> word_of (dict_get_or action ''impact_scope'' (PStr ''single'')));
          reversibility = (case override_word raw ''reversibility'' of Some w \<Rightarrow> Some w
             | None \<Rightarrow> word_of (dict_get_or action ''reversibility'' (PStr ''reversible'')));
          amount0 = (case override_amount raw of Some r \<Rightarrow> PFloat r | None \<Rightarrow> dict_get_or action ''amount'' (PFloat 0))
      in and_then (if truthy amount0 then py_float amount0 else Inr 0) (\<lambda>amount.
        let op_score = base_score operation_base op_type;
            scope_score = base_score scope_base scope;
            rev_score = base_score reversibility_base reversibility;
            amount_score = amount_to_score amount;
            total = op_score * ra_op ra + scope_score * ra_scope ra + amount_score * ra_amount ra + rev_score * ra_rev ra
        in Inr \<lparr>rb_operation = op_score, rb_scope = scope_score, rb_amount = amount_score,
                rb_reversibility = rev_score, rb_total = max 0 (min 1 total)\<rparr>))"

subsection \<open>Migration gate\<close>

datatype migration_decision = OBSERVE_ONLY | AUTO_EXECUTE | REQUIRE_APPROVAL

record migration_outcome =
  mo_decision :: migration_decision
  mo_weight :: int
  mo_risk :: rat
  mo_probability :: rat

record migration_gate =
  mg_weights :: "string \<rightharpoonup> int"
  mg_assessor :: risk_assessor
  mg_auto_reload :: bool
  mg_mtime :: "int option"

definition normalize_weight :: "pyval \<Rightarrow> py_error + int" where
  "normalize_weight value =
     (case value of
        PBool b \<Rightarrow> Inl (ValueError ''migration_weight must be an integer between 0 and 100'')
      | _ \<Rightarrow> and_then (py_int value) (\<lambda>as_int.
          if as_int < 0 \<or> as_int > 100 then Inl (ValueError ''migration_weight must be an integer between 0 and 100'')
          else Inr as_int))"

definition extract_weight_from_skill :: "pyval \<Rightarrow> int option" where
  "extract_weight_from_skill skill_owlclaw =
     (case dict_get skill_owlclaw ''migration_weight'' of
        None \<Rightarrow> None
      | Some PNone \<Rightarrow> None
      | Some value \<Rightarrow> (case normalize_weight value of Inl e \<Rightarrow> None | Inr w \<Rightarrow> Some w))"

fun load_entries :: "(pyval \<times> pyval) list \<Rightarrow> (string \<rightharpoonup> int) \<Rightarrow> (string \<rightharpoonup> int)" where
  "load_entries [] out = out"
| "load_entries ((PStr name, payload) # entries) out =
     (case extract_weight_from_skill (if is_dict payload then payload else PDict []) of
        Some w \<Rightarrow> load_entries entries (out(py_strip name \<mapsto> w))
      | None \<Rightarrow> load_entries entries out)"
| "load_entries (_ # entries) out = load_entries entries out"

fun load_skills :: "(pyval \<times> pyval) list \<Rightarrow> (string \<rightharpoonup> int) \<Rightarrow> (string \<rightharpoonup> int)" where
  "load_skills [] out = out"
| "load_skills ((PStr name, PDict payload) # skills) out =
     (if name = ''entries'' then load_skills skills out
      else (case extract_weight_from_skill (PDict payload) of
        Some w \<Rightarrow> load_skills skills (out(py_strip name \<mapsto> w))
      | None \<Rightarrow> load_skills skills out))"
| "load_skills (_ # skills) out = load_skills skills out"

definition parse_weights_from_config :: "pyval \<Rightarrow> (string \<rightharpoonup> int)" where
  "parse_weights_from_config config =
     (case dict_get config ''skills'' of
        Some (PDict skills) \<Rightarrow>
          load_skills skills
            (case dict_get (PDict skills) ''entries'' of
               Some (PDict entries) \<Rightarrow> load_entries entries Map.empty
             | _ \<Rightarrow> Map.empty)
      | _ \<Rightarrow> Map.empty)"

definition refresh_from_config :: "pyval \<Rightarrow> int option \<Rightarrow> migration_gate \<Rightarrow> migration_gate" where
  "refresh_from_config config stat mg =
     mg\<lparr>mg_weights := mg_weights mg ++ parse_weights_from_config config, mg_mtime := stat\<rparr>"

text \<open>
  What a call sees of the file: its modification time when it checks, its contents, and its
  modification time after loading.
\<close>

record file_view =
  fv_current :: "int option"
  fv_config :: pyval
  fv_after :: "int option"

definition refresh_if_config_changed :: "file_view \<Rightarrow> migration_gate \<Rightarrow> migration_gate" where
  "refresh_if_config_changed fv mg =
     (case fv_current fv of
        None \<Rightarrow> mg
      | Some current \<Rightarrow>
          if (case mg_mtime mg of None \<Rightarrow> True | Some old \<Rightarrow> current > old)
          then refresh_from_config (fv_config fv) (fv_after fv) mg else mg)"

fun initial_weights :: "(string \<times> pyval) list \<Rightarrow> (string \<rightharpoonup> int) \<Rightarrow> py_error + (string \<rightharpoonup> int)" where
  "initial_weights [] out = Inr out"
| "initial_weights ((name, value) # rest) out =
     and_then (normalize_weight value) (\<lambda>w. initial_weights rest (out(py_strip name \<mapsto> w)))"

definition migration_gate_new ::
  "(string \<times> pyval) list \<Rightarrow> risk_assessor option \<Rightarrow> bool \<Rightarrow> pyval \<Rightarrow> int option \<Rightarrow> py_error + migration_gate" where
  "migration_gate_new skill_weights risk_assessor auto_reload config stat =
     and_then (initial_weights skill_weights Map.empty) (\<lambda>weights.
     and_then (case risk_assessor of Some ra \<Rightarrow> Inr ra | None \<Rightarrow> risk_assessor_new (3 / 10) (3 / 10) (2 / 10) (2 / 10)) (\<lambda>ra.
       Inr (refresh_from_config config stat
         \<lparr>mg_weights = weights, mg_assessor = ra, mg_auto_reload = auto_reload, mg_mtime = None\<rparr>)))"

definition set_weight :: "string \<Rightarrow> pyval \<Rightarrow> migration_gate \<Rightarrow> py_error + migration_gate" where
  "set_weight skill_name weight mg =
     (let normalized_name = py_strip skill_name in
      if normalized_name = [] then Inl (ValueError ''skill_name must be a non-empty string'')
      else and_then (normalize_weight weight) (\<lambda>w. Inr (mg\<lparr>mg_weights := (mg_weights mg)(normalized_name \<mapsto> w)\<rparr>)))"

definition get_weight :: "file_view \<Rightarrow> string \<Rightarrow> pyval \<Rightarrow> migration_gate \<Rightarrow> int \<times> migration_gate" where
  "get_weight fv skill_name skill_owlclaw mg =
     (let mg1 = (if mg_auto_reload mg then refresh_if_config_changed fv mg else mg)
      in (case extract_weight_from_skill (or_empty_dict skill_owlclaw) of
            Some inline \<Rightarrow> inline
          | None \<Rightarrow> (case mg_weights mg1 (py_strip skill_name) of None \<Rightarrow> 100 | Some w \<Rightarrow> w), mg1))"

definition migration_evaluate ::
  "file_view \<Rightarrow> rat \<Rightarrow> string \<Rightarrow> pyval \<Rightarrow> pyval \<Rightarrow> migration_gate
     \<Rightarrow> (py_error + migration_outcome) \<times> migration_gate" where
  "migration_evaluate fv rnd skill_name action skill_owlclaw mg =
     (let (weight, mg1) = get_weight fv skill_name skill_owlclaw mg in
      (and_then (assess (mg_assessor mg1) action skill_owlclaw) (\<lambda>breakdown.
        let risk = rb_total breakdown;
            probability = max 0 (min 1 (rat_of_int weight / 100 * (1 - risk)))
        in if weight \<le> 0 then
             Inr \<lparr>mo_decision = OBSERVE_ONLY, mo_weight = weight, mo_risk = risk, mo_probability = 0\<rparr>
           else if weight \<ge> 100 then
             Inr \<lparr>mo_decision = AUTO_EXECUTE, mo_weight = weight, mo_risk = risk, mo_probability = 1\<rparr>
           else
             Inr \<lparr>mo_decision = (if rnd < probability then AUTO_EXECUTE else REQUIRE_APPROVAL),
                  mo_weight = weight, mo_risk = risk, mo_probability = probability\<rparr>), mg1))"

subsection \<open>Facts about risk\<close>

definition assessor_ok :: "risk_assessor \<Rightarrow> bool" where
  "assessor_ok ra \<longleftrightarrow> 0 \<le> ra_op ra \<and> 0 \<le> ra_scope ra \<and> 0 \<le> ra_amount ra \<and> 0 \<le> ra_rev ra
     \<and> ra_op ra + ra_scope ra + ra_amount ra + ra_rev ra = 1"

lemma risk_assessor_new_ok: "risk_assessor_new a b c d = Inr ra \<Longrightarrow> assessor_ok ra"
  by (auto simp: risk_assessor_new_def assessor_ok_def Let_def add_divide_distrib [symmetric] split: if_splits)

lemma base_score_bounds:
  "0 \<le> base_score operation_base w \<and> base_score operation_base w \<le> 1"
  "0 \<le> base_score scope_base w \<and> base_score scope_base w \<le> 1"
  "0 \<le> base_score reversibility_base w \<and> base_score reversibility_base w \<le> 1"
  by (auto simp: base_score_def operation_base_def scope_base_def reversibility_base_def split: option.split)

lemma amount_score_bounds: "0 \<le> amount_to_score a \<and> amount_to_score a \<le> 1"
  by (simp add: amount_to_score_def Let_def)

lemma convex_bounds:
  assumes "0 \<le> w \<and> w \<le> (1 :: rat)" "0 \<le> x \<and> x \<le> 1" "0 \<le> y \<and> y \<le> 1" "0 \<le> z \<and> z \<le> 1"
    and "assessor_ok ra"
  shows "0 \<le> w * ra_op ra + x * ra_scope ra + y * ra_amount ra + z * ra_rev ra"
    and "w * ra_op ra + x * ra_scope ra + y * ra_amount ra + z * ra_rev ra \<le> 1"
proof -
  have nn: "0 \<le> ra_op ra" "0 \<le> ra_scope ra" "0 \<le> ra_amount ra" "0 \<le> ra_rev ra"
    and one: "ra_op ra + ra_scope ra + ra_amount ra + ra_rev ra = 1"
    using assms(5) by (simp_all add: assessor_ok_def)
  show "0 \<le> w * ra_op ra + x * ra_scope ra + y * ra_amount ra + z * ra_rev ra"
    using assms nn by simp
  have "w * ra_op ra \<le> ra_op ra" "x * ra_scope ra \<le> ra_scope ra" "y * ra_amount ra \<le> ra_amount ra" "z * ra_rev ra \<le> ra_rev ra"
    using assms nn by (simp_all add: mult_left_le_one_le)
  with one show "w * ra_op ra + x * ra_scope ra + y * ra_amount ra + z * ra_rev ra \<le> 1" by linarith
qed

lemma assess_total:
  assumes "assess ra action skill = Inr b" and "assessor_ok ra"
  shows "rb_total b = rb_operation b * ra_op ra + rb_scope b * ra_scope ra + rb_amount b * ra_amount ra
      + rb_reversibility b * ra_rev ra \<and> 0 \<le> rb_total b \<and> rb_total b \<le> 1"
proof -
  have c: "0 \<le> rb_operation b * ra_op ra + rb_scope b * ra_scope ra + rb_amount b * ra_amount ra + rb_reversibility b * ra_rev ra"
    "rb_operation b * ra_op ra + rb_scope b * ra_scope ra + rb_amount b * ra_amount ra + rb_reversibility b * ra_rev ra \<le> 1"
    using assms(1) by (intro convex_bounds [OF _ _ _ _ assms(2)];
      auto simp: assess_def Let_def and_then_Inr_iff base_score_bounds amount_score_bounds)+
  have "rb_total b = max 0 (min 1 (rb_operation b * ra_op ra + rb_scope b * ra_scope ra + rb_amount b * ra_amount ra
      + rb_reversibility b * ra_rev ra))"
    using assms(1) by (auto simp: assess_def Let_def and_then_Inr_iff)
  with c show ?thesis by simp
qed

subsection \<open>Facts about weights\<close>

text \<open>Every configured weight is a percentage.\<close>

definition weights_ok :: "(string \<rightharpoonup> int) \<Rightarrow> bool" where
  "weights_ok m \<longleftrightarrow> (\<forall>k w. m k = Some w \<longrightarrow> 0 \<le> w \<and> w \<le> 100)"

definition gate_ok :: "migration_gate \<Rightarrow> bool" where
  "gate_ok mg \<longleftrightarrow> weights_ok (mg_weights mg) \<and> assessor_ok (mg_assessor mg)"

lemma weights_ok_empty [simp]: "weights_ok Map.empty"
  by (simp add: weights_ok_def)

lemma weights_ok_upd [simp]: "0 \<le> w \<Longrightarrow> w \<le> 100 \<Longrightarrow> weights_ok m \<Longrightarrow> weights_ok (m(k \<mapsto> w))"
  by (simp add: weights_ok_def)

lemma weights_ok_add [simp]: "weights_ok m \<Longrightarrow> weights_ok n \<Longrightarrow> weights_ok (m ++ n)"
  by (auto simp: weights_ok_def map_add_Some_iff)

lemma normalize_weight_bounds: "normalize_weight v = Inr w \<Longrightarrow> 0 \<le> w \<and> w \<le> 100"
  by (auto simp: normalize_weight_def and_then_Inr_iff split: pyval.splits if_splits)

lemma extract_weight_bounds: "extract_weight_from_skill s = Some w \<Longrightarrow> 0 \<le> w \<and> w \<le> 100"
  by (auto simp: extract_weight_from_skill_def normalize_weight_bounds split: option.splits pyval.splits sum.splits)

lemma weights_ok_extract: "extract_weight_from_skill p = Some w \<Longrightarrow> weights_ok m \<Longrightarrow> weights_ok (m(k \<mapsto> w))"
  using extract_weight_bounds [of p w] by simp

lemma load_entries_ok [simp]: "weights_ok out \<Longrightarrow> weights_ok (load_entries es out)"
  by (induction es out rule: load_entries.induct)
    (simp_all add: weights_ok_extract split: option.split split del: if_split)

lemma load_skills_ok [simp]: "weights_ok out \<Longrightarrow> weights_ok (load_skills es out)"
  by (induction es out rule: load_skills.induct) (simp_all add: weights_ok_extract split: option.split)

lemma parse_weights_ok [simp]: "weights_ok (parse_weights_from_config config)"
  by (simp add: parse_weights_from_config_def split: option.split pyval.split)

lemma initial_weights_ok: "initial_weights ws out = Inr m \<Longrightarrow> weights_ok out \<Longrightarrow> weights_ok m"
  by (induction ws arbitrary: out) (auto simp: and_then_Inr_iff normalize_weight_bounds)

lemma refresh_ok [simp]: "gate_ok mg \<Longrightarrow> gate_ok (refresh_from_config config st mg)"
  by (simp add: gate_ok_def refresh_from_config_def)

lemma refresh_changed_ok [simp]: "gate_ok mg \<Longrightarrow> gate_ok (refresh_if_config_changed fv mg)"
  by (simp add: refresh_if_config_changed_def split: option.split)

lemma assessor_default_ok:
  "(case ra of Some a \<Rightarrow> Inr a | None \<Rightarrow> risk_assessor_new (3 / 10) (3 / 10) (2 / 10) (2 / 10)) = Inr a'
   \<Longrightarrow> (case ra of None \<Rightarrow> True | Some a \<Rightarrow> assessor_ok a) \<Longrightarrow> assessor_ok a'"
  by (auto split: option.splits dest: risk_assessor_new_ok)

lemma migration_gate_new_ok:
  "migration_gate_new ws ra auto config st = Inr mg \<Longrightarrow> (case ra of None \<Rightarrow> True | Some a \<Rightarrow> assessor_ok a) \<Longrightarrow> gate_ok mg"
  unfolding migration_gate_new_def and_then_Inr_iff
  by (elim exE conjE) (metis (no_types, lifting) Inr_inject assessor_default_ok gate_ok_def initial_weights_ok
      migration_gate.select_convs(1,2) refresh_ok weights_ok_empty)

lemma set_weight_ok: "set_weight n v mg = Inr mg' \<Longrightarrow> gate_ok mg \<Longrightarrow> gate_ok mg'"
  by (auto simp: set_weight_def Let_def and_then_Inr_iff gate_ok_def normalize_weight_bounds split: if_splits)

lemma get_weight_ok:
  assumes "gate_ok mg"
  shows "gate_ok (snd (get_weight fv n skill mg))" and "0 \<le> fst (get_weight fv n skill mg)"
    and "fst (get_weight fv n skill mg) \<le> 100"
proof -
  let ?mg = "if mg_auto_reload mg then refresh_if_config_changed fv mg else mg"
  have ok: "gate_ok ?mg" using assms by simp
  then have w: "mg_weights ?mg k = Some w \<Longrightarrow> 0 \<le> w \<and> w \<le> 100" for k w by (simp add: gate_ok_def weights_ok_def)
  show "gate_ok (snd (get_weight fv n skill mg))" using ok by (simp add: get_weight_def Let_def)
  show "0 \<le> fst (get_weight fv n skill mg)" "fst (get_weight fv n skill mg) \<le> 100"
    using w extract_weight_bounds [of "or_empty_dict skill"]
    by (auto simp: get_weight_def Let_def split: option.split)
qed

subsection \<open>Reachable gates\<close>

inductive gate_reach :: "migration_gate \<Rightarrow> bool" where
  gate_init: "migration_gate_new ws None auto config st = Inr mg \<Longrightarrow> gate_reach mg"
| gate_init_assessor: "risk_assessor_new a b c d = Inr ra \<Longrightarrow>
    migration_gate_new ws (Some ra) auto config st = Inr mg \<Longrightarrow> gate_reach mg"
| gate_set: "gate_reach mg \<Longrightarrow> set_weight n v mg = Inr mg' \<Longrightarrow> gate_reach mg'"
| gate_refresh: "gate_reach mg \<Longrightarrow> gate_reach (refresh_from_config config st mg)"
| gate_evaluate: "gate_reach mg \<Longrightarrow> gate_reach (snd (migration_evaluate fv r n action skill mg))"

lemma snd_migration_evaluate: "snd (migration_evaluate fv r n action skill mg) = snd (get_weight fv n skill mg)"
  by (simp add: migration_evaluate_def case_prod_beta)

lemma gate_reach_ok: "gate_reach mg \<Longrightarrow> gate_ok mg"
proof (induction rule: gate_reach.induct)
  case (gate_init ws auto config st mg)
  then show ?case by (rule migration_gate_new_ok) simp
next
  case (gate_init_assessor a b c d ra ws auto config st mg)
  then show ?case using risk_assessor_new_ok by (intro migration_gate_new_ok [OF gate_init_assessor(2)]) simp
next
  case (gate_set mg n v mg')
  then show ?case by (blast intro: set_weight_ok)
qed (simp_all add: snd_migration_evaluate get_weight_ok)

subsection \<open>Properties\<close>

text \<open>
  The decision of a reachable gate on an action that can be assessed: the weight is a
  percentage, the risk and the execution probability lie in [0, 1]; weight 0 only observes,
  weight 100 always executes, and any other executes exactly when the random number is below
  \<open>weight / 100 * (1 - risk)\<close> and asks for approval otherwise.
\<close>

theorem migration_decision_table:
  assumes "gate_reach mg" and "fst (migration_evaluate fv r n action skill mg) = Inr out"
  shows "mo_weight out = fst (get_weight fv n skill mg) \<and> mo_weight out \<in> {0..100} \<and> mo_risk out \<in> {0..1}
    \<and> mo_probability out \<in> {0..1}
    \<and> mo_decision out = (if mo_weight out = 0 then OBSERVE_ONLY else if mo_weight out = 100 then AUTO_EXECUTE
        else if r < rat_of_int (mo_weight out) / 100 * (1 - mo_risk out) then AUTO_EXECUTE else REQUIRE_APPROVAL)"
proof -
  let ?w = "fst (get_weight fv n skill mg)" and ?mg = "snd (get_weight fv n skill mg)"
  note ok = gate_reach_ok [OF assms(1)]
  obtain b where b: "assess (mg_assessor ?mg) action skill = Inr b"
    using assms(2) by (auto simp: migration_evaluate_def case_prod_beta and_then_Inr_iff)
  have risk: "0 \<le> rb_total b" "rb_total b \<le> 1"
    using assess_total [OF b] get_weight_ok(1) [OF ok] by (simp_all add: gate_ok_def)
  note w = get_weight_ok(2,3) [OF ok, of fv n skill]
  let ?p = "rat_of_int ?w / 100 * (1 - rb_total b)"
  have "rat_of_int ?w / 100 \<le> 1" "0 \<le> rat_of_int ?w / 100" using w by simp_all
  then have p: "0 \<le> ?p" "?p \<le> 1" using risk by (simp, intro mult_le_one) simp_all
  then have "max 0 (min 1 ?p) = ?p" by simp
  then have "fst (migration_evaluate fv r n action skill mg) =
      (if ?w \<le> 0 then Inr \<lparr>mo_decision = OBSERVE_ONLY, mo_weight = ?w, mo_risk = rb_total b, mo_probability = 0\<rparr>
       else if ?w \<ge> 100 then Inr \<lparr>mo_decision = AUTO_EXECUTE, mo_weight = ?w, mo_risk = rb_total b, mo_probability = 1\<rparr>
       else Inr \<lparr>mo_decision = (if r < ?p then AUTO_EXECUTE else REQUIRE_APPROVAL), mo_weight = ?w,
             mo_risk = rb_total b, mo_probability = ?p\<rparr>)"
    by (simp add: migration_evaluate_def case_prod_beta b Let_def)
  with assms(2) w risk p show ?thesis by (auto split: if_splits)
qed

definition sample_action :: pyval where
  "sample_action = PDict [(PStr ''action_type'', PStr ''payment''), (PStr ''amount'', PInt 20000)]"

definition sample_view :: file_view where
  "sample_view = \<lparr>fv_current = None, fv_config = PDict [], fv_after = None\<rparr>"

theorem migration_decision_table_witness:
  "\<exists>mg out. migration_gate_new [('' pay '', PInt 40)] None True (PDict []) None = Inr mg
     \<and> fst (migration_evaluate sample_view (1 / 2) ''pay'' sample_action PNone mg) = Inr out
     \<and> mo_decision out = REQUIRE_APPROVAL"
proof -
  have "map_sum (\<lambda>e. ()) (\<lambda>mg. map_sum (\<lambda>e. ()) (\<lambda>out. (mo_weight out, mo_risk out))
      (fst (migration_evaluate sample_view (1 / 2) ''pay'' sample_action PNone mg)))
      (migration_gate_new [('' pay '', PInt 40)] None True (PDict []) None) = Inr (Inr (40, 53 / 100))"
    by code_simp
  then obtain mg out where mg: "migration_gate_new [('' pay '', PInt 40)] None True (PDict []) None = Inr mg"
    and out: "fst (migration_evaluate sample_view (1 / 2) ''pay'' sample_action PNone mg) = Inr out"
    and v: "mo_weight out = 40" "mo_risk out = 53 / 100"
    by (auto simp: map_sum_def split: sum.splits)
  from migration_decision_table [OF gate_init [OF mg] out] have "mo_decision out = REQUIRE_APPROVAL"
    by (simp add: v)
  with mg out show ?thesis by blast
qed

text \<open>
  The total risk is a weighted mean of the four scores that never needs its bounds: with
  the weights of any assessor the code accepts, it is the exact weighted sum and lies in
  [0, 1].
\<close>

theorem risk_total_is_weighted_mean:
  assumes "risk_assessor_new wo wsc wa wr = Inr ra" and "assess ra action skill = Inr b"
  shows "rb_total b * (wo + wsc + wa + wr) =
      wo * rb_operation b + wsc * rb_scope b + wa * rb_amount b + wr * rb_reversibility b
    \<and> rb_total b \<in> {0..1}"
proof -
  have pos: "wo + wsc + wa + wr > 0" and ra: "ra = \<lparr>ra_op = wo / (wo + wsc + wa + wr), ra_scope = wsc / (wo + wsc + wa + wr),
      ra_amount = wa / (wo + wsc + wa + wr), ra_rev = wr / (wo + wsc + wa + wr)\<rparr>"
    using assms(1) by (auto simp: risk_assessor_new_def Let_def split: if_splits)
  note t = assess_total [OF assms(2) risk_assessor_new_ok [OF assms(1)]]
  then have eq: "rb_total b = (wo * rb_operation b + wsc * rb_scope b + wa * rb_amount b + wr * rb_reversibility b)
      / (wo + wsc + wa + wr)"
    by (simp add: ra add_divide_distrib mult.commute)
  have "rb_total b * (wo + wsc + wa + wr) =
      wo * rb_operation b + wsc * rb_scope b + wa * rb_amount b + wr * rb_reversibility b"
    unfolding eq using pos by simp
  moreover have "rb_total b \<in> {0..1}" using t by simp
  ultimately show ?thesis ..
qed

theorem risk_total_is_weighted_mean_witness:
  "\<exists>ra b. risk_assessor_new 1 1 0 0 = Inr ra \<and> assess ra sample_action PNone = Inr b \<and> rb_total b * 2 = 1 * 1 + 1 / 10"
proof -
  have "map_sum (\<lambda>e. ()) (\<lambda>ra. map_sum (\<lambda>e. ()) (\<lambda>b. (rb_operation b, rb_scope b)) (assess ra sample_action PNone))
      (risk_assessor_new 1 1 0 0) = Inr (Inr (1, 1 / 10))"
    by code_simp
  then obtain ra b where r: "risk_assessor_new 1 1 0 0 = Inr ra" and b: "assess ra sample_action PNone = Inr b"
    and v: "rb_operation b = 1" "rb_scope b = 1 / 10"
    by (auto simp: map_sum_def split: sum.splits)
  from risk_total_is_weighted_mean [OF r b] r b v show ?thesis by auto
qed

end
