(* ===== verification/ModelRouter.thy ===== *)
theory ModelRouter
  imports Prelude
begin

section \<open>The model router\<close>

text \<open>
  \<open>owlclaw/governance/router.py\<close>: the first rule whose task type matches picks the model and
  its fallback chain. Configuration values are untyped.
\<close>

record model_selection =
  ms_model :: string
  ms_fallback :: "string list"

record model_router =
  mr_rules :: "pyval list"
  mr_default :: string

definition non_blank :: "pyval \<Rightarrow> string option" where
  "non_blank v = (case v of PStr s \<Rightarrow> if py_strip s \<noteq> [] then Some s else None | _ \<Rightarrow> None)"

definition reload_config :: "pyval \<Rightarrow> model_router \<Rightarrow> model_router" where
  "reload_config config mr =
     (let cfg = (if is_dict config then config else PDict []);
          rules = (case dict_get_or cfg ''rules'' (PList []) of PList rs \<Rightarrow> rs | _ \<Rightarrow> []);
          raw_default = dict_get_or cfg ''default_model'' (PStr (mr_default mr))
      in \<lparr>mr_rules = rules,
          mr_default = (case non_blank raw_default of Some s \<Rightarrow> py_strip s | None \<Rightarrow> ''gpt-4o-mini'')\<rparr>)"

definition router_new :: "pyval \<Rightarrow> pyval \<Rightarrow> model_router" where
  "router_new config default_model =
     reload_config config \<lparr>mr_rules = [],
       mr_default = (case non_blank default_model of Some s \<Rightarrow> py_strip s | None \<Rightarrow> ''gpt-4o-mini'')\<rparr>"

definition stripped_items :: "pyval list \<Rightarrow> string list" where
  "stripped_items xs = List.map_filter (\<lambda>v. map_option py_strip (non_blank v)) xs"

definition rule_matches :: "string \<Rightarrow> pyval \<Rightarrow> bool" where
  "rule_matches task rule \<longleftrightarrow> is_dict rule
     \<and> (case dict_get rule ''task_type'' of Some (PStr s) \<Rightarrow> py_strip s = task | _ \<Rightarrow> False)"

definition rule_selection :: "string \<Rightarrow> pyval \<Rightarrow> model_selection" where
  "rule_selection default_model rule =
     \<lparr>ms_model = (case non_blank (dict_get_or rule ''model'' (PStr default_model)) of Some s \<Rightarrow> s | None \<Rightarrow> default_model),
      ms_fallback = (case dict_get_or rule ''fallback'' (PList []) of PList xs \<Rightarrow> stripped_items xs | _ \<Rightarrow> [])\<rparr>"

fun select_rule :: "string \<Rightarrow> string \<Rightarrow> pyval list \<Rightarrow> model_selection option" where
  "select_rule default_model task [] = None"
| "select_rule default_model task (rule # rules) =
     (if rule_matches task rule then Some (rule_selection default_model rule)
      else select_rule default_model task rules)"

definition select_model :: "pyval \<Rightarrow> model_router \<Rightarrow> model_selection option" where
  "select_model task_type mr =
     select_rule (mr_default mr) (case task_type of PStr s \<Rightarrow> py_strip s | _ \<Rightarrow> []) (mr_rules mr)"

definition handle_model_failure :: "string \<Rightarrow> string \<Rightarrow> pyval list \<Rightarrow> string option" where
  "handle_model_failure failed_model task_type fallback_chain =
     (case stripped_items fallback_chain of [] \<Rightarrow> None | m # _ \<Rightarrow> Some m)"

lemma stripped_items_strings: "stripped_items (map PStr ms) = filter (\<lambda>m. m \<noteq> []) (map py_strip ms)"
  by (induction ms) (auto simp: stripped_items_def List.map_filter_simps non_blank_def)

lemma select_first_match:
  assumes "py_strip (mr_default mr) \<noteq> []"
  shows "case select_model (PStr task) mr of
      None \<Rightarrow> list_all (\<lambda>r. \<not> rule_matches (py_strip task) r) (mr_rules mr)
    | Some sel \<Rightarrow> py_strip (ms_model sel) \<noteq> [] \<and> list_all (\<lambda>m. m \<noteq> [] \<and> py_strip m = m) (ms_fallback sel)
        \<and> (\<exists>as r bs. mr_rules mr = as @ r # bs \<and> list_all (\<lambda>r. \<not> rule_matches (py_strip task) r) as
             \<and> rule_matches (py_strip task) r \<and> sel = rule_selection (mr_default mr) r)"
proof -
  have chain: "list_all (\<lambda>m. m \<noteq> [] \<and> py_strip m = m) (stripped_items xs)" for xs
    by (induction xs) (auto simp: stripped_items_def List.map_filter_simps non_blank_def split: pyval.split)
  have model: "py_strip (ms_model (rule_selection (mr_default mr) r)) \<noteq> []
      \<and> list_all (\<lambda>m. m \<noteq> [] \<and> py_strip m = m) (ms_fallback (rule_selection (mr_default mr) r))" for r
    using assms chain by (auto simp: rule_selection_def non_blank_def split: pyval.split option.split)
  have "case select_rule (mr_default mr) t rules of
      None \<Rightarrow> list_all (\<lambda>r. \<not> rule_matches t r) rules
    | Some sel \<Rightarrow> (\<exists>as r bs. rules = as @ r # bs \<and> list_all (\<lambda>r. \<not> rule_matches t r) as
             \<and> rule_matches t r \<and> sel = rule_selection (mr_default mr) r)" for t rules
  proof (induction rules)
    case (Cons r rules)
    show ?case
    proof (cases "rule_matches t r")
      case True
      then show ?thesis by (auto intro!: exI [of _ "[]"])
    next
      case False
      show ?thesis
      proof (cases "select_rule (mr_default mr) t rules")
        case None
        with Cons False show ?thesis by simp
      next
        case (Some sel)
        with Cons obtain as r' bs where "rules = as @ r' # bs" "list_all (\<lambda>r. \<not> rule_matches t r) as"
          "rule_matches t r'" "sel = rule_selection (mr_default mr) r'" by auto
        with Some False show ?thesis by (auto intro!: exI [of _ "r # as"])
      qed
    qed
  qed simp
  from this [of "py_strip task" "mr_rules mr"] model show ?thesis
    by (auto simp: select_model_def split: option.splits)
qed

lemma reload_default_not_blank: "py_strip (mr_default (reload_config cfg mr)) \<noteq> []"
proof -
  have "py_strip ''gpt-4o-mini'' \<noteq> []" by code_simp
  moreover have "non_blank v = Some s \<Longrightarrow> py_strip (py_strip s) \<noteq> []" for v s
    by (auto simp: non_blank_def split: pyval.splits if_splits)
  ultimately show ?thesis by (auto simp: reload_config_def Let_def split: option.split)
qed

text \<open>
  Routing: a selection comes from the first rule whose task type matches, its model and
  the models of its chain are never blank, and there is none exactly when no rule matches.
\<close>

theorem select_model_first_match:
  "let mr = reload_config cfg mr0 in
   case select_model (PStr task) mr of
      None \<Rightarrow> list_all (\<lambda>r. \<not> rule_matches (py_strip task) r) (mr_rules mr)
    | Some sel \<Rightarrow> py_strip (ms_model sel) \<noteq> [] \<and> list_all (\<lambda>m. m \<noteq> [] \<and> py_strip m = m) (ms_fallback sel)
        \<and> (\<exists>as r bs. mr_rules mr = as @ r # bs \<and> list_all (\<lambda>r. \<not> rule_matches (py_strip task) r) as
             \<and> rule_matches (py_strip task) r \<and> sel = rule_selection (mr_default mr) r)"
  unfolding Let_def by (rule select_first_match [OF reload_default_not_blank])

text \<open>
  A failing model is not skipped: the answer to a failure is always the first model of the
  chain given, also when that is the model that failed.
\<close>

lemma handle_model_failure_repeats:
  "py_strip m \<noteq> [] \<Longrightarrow> handle_model_failure m task (PStr m # chain) = Some (py_strip m)"
  by (simp add: handle_model_failure_def stripped_items_def List.map_filter_simps non_blank_def)

end
