(* ===== verification/Proxy.thy ===== *)
theory Proxy
  imports Ledger
begin

section \<open>The governance proxy in front of direct model calls\<close>

text \<open>
  \<open>owlclaw/governance/proxy.py\<close>: budget, rate limit and circuit breaker in front of a model
  call, and one audit record behind it. The gates run under the lock as one step, the
  bookkeeping after the call as another; what the call observes outside (clocks, the drawn
  identifier, the provider) is in \<open>proxy_env\<close>. \<open>from_config\<close> is not modelled. The configured
  per-service rates are untyped, as in the code, so a gate can also raise.
\<close>

datatype gate_state = GateClosed | GateOpen | GateHalfOpen

record gate_circuit =
  gc_state :: gate_state
  gc_failures :: int
  gc_opened_at :: seconds
  gc_half_calls :: int

definition gate_circuit_new :: gate_circuit where
  "gate_circuit_new = \<lparr>gc_state = GateClosed, gc_failures = 0, gc_opened_at = 0, gc_half_calls = 0\<rparr>"

record gproxy =
  gp_daily_limit :: money
  gp_monthly_limit :: money
  gp_default_qps :: int
  gp_per_service :: "string \<rightharpoonup> pyval"
  gp_threshold :: int
  gp_timeout :: int
  gp_half_max :: int
  gp_tenant :: string
  gp_agent :: string
  gp_passthrough :: bool
  gp_daily :: "string \<times> date \<rightharpoonup> money"
  gp_monthly :: "string \<times> int \<times> int \<rightharpoonup> money"
  gp_windows :: "string \<rightharpoonup> seconds list"
  gp_circuits :: "string \<rightharpoonup> gate_circuit"
  gp_ledger :: memory_ledger

definition gproxy_new ::
  "money \<Rightarrow> money \<Rightarrow> int \<Rightarrow> (string \<rightharpoonup> pyval) \<Rightarrow> int \<Rightarrow> int \<Rightarrow> int \<Rightarrow> string \<Rightarrow> string \<Rightarrow> bool \<Rightarrow> gproxy" where
  "gproxy_new daily monthly default_qps per_service failure_threshold recovery_timeout half_max tenant agent passthrough =
     \<lparr>gp_daily_limit = daily, gp_monthly_limit = monthly, gp_default_qps = max 1 default_qps,
      gp_per_service = per_service, gp_threshold = max 1 failure_threshold, gp_timeout = max 1 recovery_timeout,
      gp_half_max = max 1 half_max, gp_tenant = tenant, gp_agent = agent, gp_passthrough = passthrough,
      gp_daily = Map.empty, gp_monthly = Map.empty, gp_windows = Map.empty, gp_circuits = Map.empty,
      gp_ledger = memory_ledger_new 20000\<rparr>"

subsection \<open>Gates\<close>

datatype gate_error = Rejected string | GateRaised py_error

definition check_budget :: "date \<Rightarrow> string \<Rightarrow> gproxy \<Rightarrow> gate_error option" where
  "check_budget today caller gp =
     (case today of (y, m, d) \<Rightarrow>
       let day_used = (case gp_daily gp (caller, today) of None \<Rightarrow> 0 | Some u \<Rightarrow> u);
           month_used = (case gp_monthly gp (caller, y, m) of None \<Rightarrow> 0 | Some u \<Rightarrow> u)
       in if day_used \<ge> gp_daily_limit gp then Some (Rejected ''budget_exhausted_daily'')
          else if month_used \<ge> gp_monthly_limit gp then Some (Rejected ''budget_exhausted_monthly'')
          else None)"

text \<open>\<open>len(window) >= qps\<close>: comparing an \<open>int\<close> with a value that is not a number raises.\<close>

definition at_least :: "nat \<Rightarrow> pyval \<Rightarrow> py_error + bool" where
  "at_least n qps =
     (case qps of
        PInt i \<Rightarrow> Inr (int n \<ge> i)
      | PBool b \<Rightarrow> Inr (int n \<ge> (if b then 1 else 0))
      | PFloat r \<Rightarrow> Inr (of_nat n \<ge> r)
      | _ \<Rightarrow> Inl (TypeError ''not supported between instances''))"

definition slide_window :: "seconds \<Rightarrow> seconds list \<Rightarrow> seconds list" where
  "slide_window now window = dropWhile (\<lambda>t. now - t > 1) window"

definition check_rate_limit :: "seconds \<Rightarrow> string \<Rightarrow> gproxy \<Rightarrow> gate_error option \<times> gproxy" where
  "check_rate_limit now caller gp =
     (let qps = (case gp_per_service gp caller of None \<Rightarrow> PInt (gp_default_qps gp) | Some q \<Rightarrow> q);
          window = slide_window now (case gp_windows gp caller of None \<Rightarrow> [] | Some w \<Rightarrow> w);
          slid = gp\<lparr>gp_windows := (gp_windows gp)(caller \<mapsto> window)\<rparr>
      in (case at_least (length window) qps of
            Inl e \<Rightarrow> (Some (GateRaised e), slid)
          | Inr True \<Rightarrow> (Some (Rejected ''rate_limited''), slid)
          | Inr False \<Rightarrow> (None, gp\<lparr>gp_windows := (gp_windows gp)(caller \<mapsto> window @ [now])\<rparr>)))"

text \<open>The circuit of one caller; the rejection, if any, and the circuit after the check.\<close>

definition circuit_check :: "int \<Rightarrow> int \<Rightarrow> seconds \<Rightarrow> gate_circuit \<Rightarrow> string option \<times> gate_circuit" where
  "circuit_check timeout half_max now c =
     (if gc_state c = GateOpen \<and> now - gc_opened_at c < rat_of_int timeout then (Some ''circuit_open'', c)
      else (let c1 = (if gc_state c = GateOpen then c\<lparr>gc_state := GateHalfOpen, gc_half_calls := 0\<rparr> else c)
        in if gc_state c1 = GateHalfOpen \<and> gc_half_calls c1 \<ge> half_max then (Some ''circuit_half_open_limit'', c1)
           else if gc_state c1 = GateHalfOpen then (None, c1\<lparr>gc_half_calls := gc_half_calls c1 + 1\<rparr>)
           else (None, c1)))"

definition circuit_get :: "gproxy \<Rightarrow> string \<Rightarrow> gate_circuit" where
  "circuit_get gp caller = (case gp_circuits gp caller of None \<Rightarrow> gate_circuit_new | Some c \<Rightarrow> c)"

definition check_circuit :: "seconds \<Rightarrow> string \<Rightarrow> gproxy \<Rightarrow> gate_error option \<times> gproxy" where
  "check_circuit now caller gp =
     (case circuit_check (gp_timeout gp) (gp_half_max gp) now (circuit_get gp caller) of
        (reason, c) \<Rightarrow> (map_option Rejected reason, gp\<lparr>gp_circuits := (gp_circuits gp)(caller \<mapsto> c)\<rparr>))"

subsection \<open>Bookkeeping\<close>

definition on_success :: "string \<Rightarrow> gproxy \<Rightarrow> gproxy" where
  "on_success caller gp = gp\<lparr>gp_circuits := (gp_circuits gp)(caller \<mapsto> gate_circuit_new)\<rparr>"

definition circuit_failed :: "int \<Rightarrow> seconds \<Rightarrow> gate_circuit \<Rightarrow> gate_circuit" where
  "circuit_failed threshold now c =
     (let c1 = c\<lparr>gc_failures := gc_failures c + 1\<rparr> in
      if gc_failures c1 \<ge> threshold then c1\<lparr>gc_state := GateOpen, gc_opened_at := now, gc_half_calls := 0\<rparr> else c1)"

definition on_failure :: "seconds \<Rightarrow> string \<Rightarrow> gproxy \<Rightarrow> gproxy" where
  "on_failure now caller gp =
     gp\<lparr>gp_circuits := (gp_circuits gp)(caller \<mapsto> circuit_failed (gp_threshold gp) now (circuit_get gp caller))\<rparr>"

definition consume_budget :: "date \<Rightarrow> string \<Rightarrow> money \<Rightarrow> gproxy \<Rightarrow> gproxy" where
  "consume_budget today caller cost gp =
     (case today of (y, m, d) \<Rightarrow>
       gp\<lparr>gp_daily := (gp_daily gp)((caller, today) \<mapsto> (case gp_daily gp (caller, today) of None \<Rightarrow> 0 | Some u \<Rightarrow> u) + cost),
          gp_monthly := (gp_monthly gp)((caller, y, m) \<mapsto> (case gp_monthly gp (caller, y, m) of None \<Rightarrow> 0 | Some u \<Rightarrow> u) + cost)\<rparr>)"

text \<open>
  A response of the provider: a dict, or another object with what its \<open>model_dump()\<close> and its
  \<open>dict()\<close> return when they exist and return a dict, and its \<open>str()\<close>.
\<close>

datatype llm_raw = RawDict "(pyval \<times> pyval) list" | RawObject "(pyval \<times> pyval) list option" "(pyval \<times> pyval) list option" string

fun normalize_response :: "llm_raw \<Rightarrow> (pyval \<times> pyval) list" where
  "normalize_response (RawDict kvs) = kvs"
| "normalize_response (RawObject (Some kvs) _ _) = kvs"
| "normalize_response (RawObject None (Some kvs) _) = kvs"
| "normalize_response (RawObject None None s) = [(PStr ''raw_response'', PStr s)]"

definition estimate_cost :: "(pyval \<times> pyval) list \<Rightarrow> money" where
  "estimate_cost response =
     (let usage = dict_get_or (PDict response) ''usage'' (PDict []) in
      if \<not> is_dict usage then 0
      else (case decimal_of (dict_get_or usage ''total_tokens'' PNone) of
          None \<Rightarrow> 0
        | Some tokens \<Rightarrow> tokens / 1000 * (2 / 1000)))"

record proxy_env =
  pe_today :: date
  pe_mono_rate :: seconds
  pe_mono_circuit :: seconds
  pe_today_after :: date
  pe_mono_after :: seconds
  pe_elapsed :: int
  pe_run :: string
  pe_id :: uuid
  pe_created :: micros

definition event_call :: "proxy_env \<Rightarrow> string \<Rightarrow> string \<Rightarrow> string \<Rightarrow> string \<Rightarrow> pyval \<Rightarrow> money \<Rightarrow> gproxy \<Rightarrow> exec_call" where
  "event_call env caller model status reason output cost gp =
     \<lparr>xc_tenant = PStr (gp_tenant gp), xc_agent = PStr (gp_agent gp), xc_run = PStr (''govproxy-'' @ pe_run env),
      xc_capability = PStr caller, xc_task = PStr ''llm_proxy'', xc_input = PDict [(PStr ''caller'', PStr caller)],
      xc_output = output, xc_reasoning = (if reason = [] then None else Some reason),
      xc_time_ms = max 0 (pe_elapsed env), xc_model = model, xc_tokens_in = 0, xc_tokens_out = 0, xc_cost = cost,
      xc_status = status, xc_error = (if reason = [] then None else Some reason), xc_weight = None, xc_mode = None,
      xc_risk = None, xc_approver = None, xc_approved_at = None\<rparr>"

definition record_event ::
  "proxy_env \<Rightarrow> string \<Rightarrow> string \<Rightarrow> string \<Rightarrow> string \<Rightarrow> pyval \<Rightarrow> money \<Rightarrow> gproxy \<Rightarrow> py_error + gproxy" where
  "record_event env caller model status reason output cost gp =
     and_then (mem_record_execution (pe_id env) (pe_created env)
        (event_call env caller model status reason output cost gp) (gp_ledger gp))
       (\<lambda>l. Inr (gp\<lparr>gp_ledger := l\<rparr>))"

subsection \<open>A governed call\<close>

text \<open>What the provider does: answer, or raise an exception of a class.\<close>

datatype llm_outcome = LlmAnswers llm_raw | LlmRaises string

datatype proxy_result =
    Answer "(pyval \<times> pyval) list"
  | Blocked string
  | CallFailed
  | ProviderRaised string
  | AuditRaised py_error

definition run_gates :: "proxy_env \<Rightarrow> string \<Rightarrow> gproxy \<Rightarrow> gate_error option \<times> gproxy" where
  "run_gates env caller gp =
     (case check_budget (pe_today env) caller gp of
        Some e \<Rightarrow> (Some e, gp)
      | None \<Rightarrow>
          (case check_rate_limit (pe_mono_rate env) caller gp of
             (Some e, gp1) \<Rightarrow> (Some e, gp1)
           | (None, gp1) \<Rightarrow> check_circuit (pe_mono_circuit env) caller gp1))"

definition passthrough_call :: "llm_outcome \<Rightarrow> proxy_result" where
  "passthrough_call llm =
     (case llm of LlmAnswers raw \<Rightarrow> Answer (normalize_response raw) | LlmRaises c \<Rightarrow> ProviderRaised c)"

text \<open>The handler of any exception after the gates.\<close>

definition finish_failure :: "proxy_env \<Rightarrow> string \<Rightarrow> string \<Rightarrow> string \<Rightarrow> gproxy \<Rightarrow> proxy_result \<times> gproxy" where
  "finish_failure env caller model exc_class gp =
     (let gp1 = on_failure (pe_mono_after env) caller gp in
      case record_event env caller model ''failure'' exc_class PNone 0 gp1 of
        Inl e \<Rightarrow> (AuditRaised e, gp1)
      | Inr gp2 \<Rightarrow> (CallFailed, gp2))"

definition finish_call :: "proxy_env \<Rightarrow> string \<Rightarrow> string \<Rightarrow> llm_outcome \<Rightarrow> gproxy \<Rightarrow> proxy_result \<times> gproxy" where
  "finish_call env caller model llm gp =
     (case llm of
        LlmRaises c \<Rightarrow> finish_failure env caller model c gp
      | LlmAnswers raw \<Rightarrow>
          (let response = normalize_response raw;
               cost = estimate_cost response;
               gp1 = on_success caller (consume_budget (pe_today_after env) caller cost gp)
           in case record_event env caller model ''success'' [] (PDict response) cost gp1 of
                Inl e \<Rightarrow> finish_failure env caller model ''ValueError'' gp1
              | Inr gp2 \<Rightarrow> (Answer response, gp2)))"

definition acompletion :: "proxy_env \<Rightarrow> string \<Rightarrow> string \<Rightarrow> llm_outcome \<Rightarrow> gproxy \<Rightarrow> proxy_result \<times> gproxy" where
  "acompletion env caller model llm gp =
     (case run_gates env caller gp of
        (Some (Rejected reason), gp1) \<Rightarrow>
          (case record_event env caller model ''blocked'' reason PNone 0 gp1 of
             Inl e \<Rightarrow> (AuditRaised e, gp1)
           | Inr gp2 \<Rightarrow> (Blocked reason, gp2))
      | (Some (GateRaised e), gp1) \<Rightarrow>
          if \<not> gp_passthrough gp1 then (CallFailed, gp1) else (passthrough_call llm, gp1)
      | (None, gp1) \<Rightarrow> finish_call env caller model llm gp1)"

subsection \<open>The rate window\<close>

text \<open>The times at which a sequence of checks by one caller passes.\<close>

fun rate_admitted :: "seconds list \<Rightarrow> string \<Rightarrow> gproxy \<Rightarrow> seconds list" where
  "rate_admitted [] caller gp = []"
| "rate_admitted (t # ts) caller gp =
     (case check_rate_limit t caller gp of
        (None, gp1) \<Rightarrow> t # rate_admitted ts caller gp1
      | (Some e, gp1) \<Rightarrow> rate_admitted ts caller gp1)"

definition spaced :: "nat \<Rightarrow> seconds list \<Rightarrow> bool" where
  "spaced q xs \<longleftrightarrow> (\<forall>i. i + q < length xs \<longrightarrow> 1 < xs ! (i + q) - xs ! i)"

lemma spaced_snoc:
  assumes "spaced q (as @ w)" and "length w < q" and "\<forall>a \<in> set as. 1 < t - a"
  shows "spaced q (as @ w @ [t])"
  unfolding spaced_def
proof (intro allI impI)
  fix i assume i: "i + q < length (as @ w @ [t])"
  show "1 < (as @ w @ [t]) ! (i + q) - (as @ w @ [t]) ! i"
  proof (cases "i + q < length (as @ w)")
    case True
    with assms(1) have "1 < (as @ w) ! (i + q) - (as @ w) ! i" by (simp add: spaced_def)
    moreover have "(as @ w @ [t]) ! j = (as @ w) ! j" if "j < length (as @ w)" for j
      using that by (metis append_assoc nth_append)
    ultimately show ?thesis using True by simp
  next
    case False
    with i have e: "i + q = length (as @ w)" by simp
    then have "(as @ w @ [t]) ! (i + q) = t" by (metis append_assoc nth_append_length)
    moreover have "i < length as" using e assms(2) by simp
    ultimately show ?thesis using assms(3) by (simp add: nth_append)
  qed
qed

definition window_of :: "gproxy \<Rightarrow> string \<Rightarrow> seconds list" where
  "window_of gp caller = (case gp_windows gp caller of None \<Rightarrow> [] | Some w \<Rightarrow> w)"

lemma check_rate_limit_default:
  assumes "gp_per_service gp caller = None"
  shows "check_rate_limit t caller gp =
    (let w = slide_window t (window_of gp caller) in
     if gp_default_qps gp \<le> int (length w)
     then (Some (Rejected ''rate_limited''), gp\<lparr>gp_windows := (gp_windows gp)(caller \<mapsto> w)\<rparr>)
     else (None, gp\<lparr>gp_windows := (gp_windows gp)(caller \<mapsto> w @ [t])\<rparr>))"
  using assms by (simp add: check_rate_limit_def window_of_def at_least_def Let_def split: bool.split)

lemma window_of_upd [simp]: "window_of (gp\<lparr>gp_windows := (gp_windows gp)(c \<mapsto> w)\<rparr>) c = w"
  by (simp add: window_of_def)

lemma rate_admitted_spaced:
  assumes "gp_per_service gp caller = None" and "sorted ts"
    and "spaced (nat (gp_default_qps gp)) (as @ window_of gp caller)"
    and "\<forall>a \<in> set as. \<forall>t \<in> set ts. 1 < t - a"
  shows "spaced (nat (gp_default_qps gp)) (as @ window_of gp caller @ rate_admitted ts caller gp)"
  using assms
proof (induction ts arbitrary: as gp)
  case (Cons t ts)
  let ?q = "nat (gp_default_qps gp)"
  let ?old = "takeWhile (\<lambda>u. t - u > 1) (window_of gp caller)"
  let ?w = "slide_window t (window_of gp caller)"
  have win: "window_of gp caller = ?old @ ?w" by (simp add: slide_window_def)
  have later: "t \<le> u" if "u \<in> set (t # ts)" for u using Cons.prems(2) that by auto
  have gone: "1 < t - a" if "a \<in> set (as @ ?old)" for a
  proof (cases "a \<in> set as")
    case True
    then show ?thesis using Cons.prems(4) by simp
  next
    case False
    with that have "a \<in> set ?old" by simp
    then show ?thesis by (rule set_takeWhileD [THEN conjunct2])
  qed
  have old: "\<forall>a \<in> set (as @ ?old). \<forall>u \<in> set ts. 1 < u - a"
  proof (intro ballI)
    fix a u assume "a \<in> set (as @ ?old)" "u \<in> set ts"
    with gone [of a] later [of u] show "1 < u - a" by simp
  qed
  have sp: "spaced ?q ((as @ ?old) @ ?w)" using Cons.prems(3) win by (metis append_assoc)
  have srt: "sorted ts" using Cons.prems(2) by simp
  have res: "as @ window_of gp caller @ xs = (as @ ?old) @ ?w @ xs" for xs using win by (metis append_assoc)
  show ?case
  proof (cases "gp_default_qps gp \<le> int (length ?w)")
    case True
    let ?gp = "gp\<lparr>gp_windows := (gp_windows gp)(caller \<mapsto> ?w)\<rparr>"
    have h: "gp_per_service ?gp caller = None" "spaced (nat (gp_default_qps ?gp)) ((as @ ?old) @ window_of ?gp caller)"
      using Cons.prems(1) sp by simp_all
    have r: "rate_admitted (t # ts) caller gp = rate_admitted ts caller ?gp"
      using True by (simp add: check_rate_limit_default [OF Cons.prems(1)] Let_def)
    show ?thesis
      using Cons.IH [OF h(1) srt h(2) old] unfolding res r by simp
  next
    case False
    let ?gp = "gp\<lparr>gp_windows := (gp_windows gp)(caller \<mapsto> ?w @ [t])\<rparr>"
    have "length ?w < ?q" using False by simp
    then have "spaced ?q ((as @ ?old) @ ?w @ [t])" by (intro spaced_snoc [OF sp] ballI gone)
    then have h: "gp_per_service ?gp caller = None" "spaced (nat (gp_default_qps ?gp)) ((as @ ?old) @ window_of ?gp caller)"
      using Cons.prems(1) by simp_all
    have r: "rate_admitted (t # ts) caller gp = t # rate_admitted ts caller ?gp"
      using False by (simp add: check_rate_limit_default [OF Cons.prems(1)] Let_def)
    show ?thesis
      using Cons.IH [OF h(1) srt h(2) old] unfolding res r by simp
  qed
qed simp

subsection \<open>The circuit\<close>

fun circuit_trials :: "seconds list \<Rightarrow> string \<Rightarrow> gproxy \<Rightarrow> nat" where
  "circuit_trials [] caller gp = 0"
| "circuit_trials (t # ts) caller gp =
     (case check_circuit t caller gp of
        (None, gp1) \<Rightarrow> Suc (circuit_trials ts caller gp1)
      | (Some e, gp1) \<Rightarrow> circuit_trials ts caller gp1)"

lemma circuit_get_upd [simp]:
  "circuit_get (gp\<lparr>gp_circuits := (gp_circuits gp)(caller \<mapsto> c)\<rparr>) caller = c"
  by (simp add: circuit_get_def)

lemma circuit_trials_half:
  assumes "gc_state (circuit_get gp caller) = GateHalfOpen" and "gc_half_calls (circuit_get gp caller) \<le> gp_half_max gp"
  shows "int (circuit_trials ts caller gp) \<le> gp_half_max gp - gc_half_calls (circuit_get gp caller)"
  using assms
proof (induction ts arbitrary: gp)
  case (Cons t ts)
  let ?c = "circuit_get gp caller"
  show ?case
  proof (cases "gc_half_calls ?c \<ge> gp_half_max gp")
    case True
    let ?gp = "gp\<lparr>gp_circuits := (gp_circuits gp)(caller \<mapsto> ?c)\<rparr>"
    have "int (circuit_trials ts caller ?gp) \<le> gp_half_max ?gp - gc_half_calls (circuit_get ?gp caller)"
      by (rule Cons.IH) (use Cons.prems in simp_all)
    with True Cons.prems show ?thesis by (simp add: check_circuit_def circuit_check_def Let_def)
  next
    case False
    let ?gp = "gp\<lparr>gp_circuits := (gp_circuits gp)(caller \<mapsto> ?c\<lparr>gc_half_calls := gc_half_calls ?c + 1\<rparr>)\<rparr>"
    have "int (circuit_trials ts caller ?gp) \<le> gp_half_max ?gp - gc_half_calls (circuit_get ?gp caller)"
      by (rule Cons.IH) (use Cons.prems False in simp_all)
    with False Cons.prems show ?thesis by (simp add: check_circuit_def circuit_check_def Let_def)
  qed
qed simp

lemma circuit_trials_open:
  assumes "gc_state (circuit_get gp caller) = GateOpen" and "0 < gp_half_max gp"
  shows "int (circuit_trials ts caller gp) \<le> gp_half_max gp"
  using assms
proof (induction ts arbitrary: gp)
  case (Cons t ts)
  let ?c = "circuit_get gp caller"
  show ?case
  proof (cases "t - gc_opened_at ?c < rat_of_int (gp_timeout gp)")
    case True
    let ?gp = "gp\<lparr>gp_circuits := (gp_circuits gp)(caller \<mapsto> ?c)\<rparr>"
    have "int (circuit_trials ts caller ?gp) \<le> gp_half_max ?gp"
      by (rule Cons.IH) (use Cons.prems in simp_all)
    with True Cons.prems show ?thesis by (simp add: check_circuit_def circuit_check_def Let_def)
  next
    case False
    let ?gp = "gp\<lparr>gp_circuits := (gp_circuits gp)(caller \<mapsto> ?c\<lparr>gc_state := GateHalfOpen, gc_half_calls := 1\<rparr>)\<rparr>"
    have "int (circuit_trials ts caller ?gp) \<le> gp_half_max ?gp - gc_half_calls (circuit_get ?gp caller)"
      by (rule circuit_trials_half) (use Cons.prems in simp_all)
    with False Cons.prems show ?thesis by (simp add: check_circuit_def circuit_check_def Let_def)
  qed
qed simp

text \<open>The life of one circuit, and why a single failed trial opens it again.\<close>

inductive circuit_reach :: "int \<Rightarrow> int \<Rightarrow> int \<Rightarrow> gate_circuit \<Rightarrow> bool" for threshold timeout half_max where
  reach_new: "circuit_reach threshold timeout half_max gate_circuit_new"
| reach_check: "circuit_reach threshold timeout half_max c \<Longrightarrow>
    circuit_reach threshold timeout half_max (snd (circuit_check timeout half_max now c))"
| reach_failed: "circuit_reach threshold timeout half_max c \<Longrightarrow>
    circuit_reach threshold timeout half_max (circuit_failed threshold now c)"

lemma circuit_reach_failures:
  "circuit_reach threshold timeout half_max c \<Longrightarrow> 0 < threshold \<Longrightarrow>
     (gc_state c = GateClosed) = (gc_failures c < threshold)"
proof (induction rule: circuit_reach.induct)
  case reach_new
  then show ?case by (simp add: gate_circuit_new_def)
next
  case (reach_check c now)
  then show ?case by (auto simp: circuit_check_def Let_def)
next
  case (reach_failed c now)
  then show ?case by (auto simp: circuit_failed_def Let_def)
qed

lemma failed_trial_reopens:
  assumes "circuit_reach threshold timeout half_max c" and "0 < threshold" and "gc_state c = GateHalfOpen"
  shows "circuit_failed threshold now c = c\<lparr>gc_failures := gc_failures c + 1, gc_state := GateOpen,
      gc_opened_at := now, gc_half_calls := 0\<rparr>"
  using circuit_reach_failures [OF assms(1,2)] assms(3) by (auto simp: circuit_failed_def Let_def)

subsection \<open>The audit record\<close>

definition proxy_named :: "gproxy \<Rightarrow> string \<Rightarrow> bool" where
  "proxy_named gp caller \<longleftrightarrow> py_strip (gp_tenant gp) \<noteq> [] \<and> py_strip (gp_agent gp) \<noteq> [] \<and> py_strip caller \<noteq> []"

lemma record_event_ok:
  assumes "proxy_named gp caller"
  shows "\<exists>r. record_event env caller model status reason output cost gp = Inr (gp\<lparr>gp_ledger := mem_append r (gp_ledger gp)\<rparr>)
    \<and> lr_capability r = py_strip caller \<and> lr_status r = status \<and> lr_cost r = cost
    \<and> lr_error r = (if reason = [] then None else Some reason)"
proof -
  let ?x = "event_call env caller model status reason output cost gp"
  have "\<not> py_space CHR ''g''" "\<not> py_space CHR ''l''" by code_simp+
  then have n: "py_strip (''govproxy-'' @ pe_run env) \<noteq> []" "py_strip ''llm_proxy'' \<noteq> []"
    by (simp_all add: py_strip_Cons_nonempty)
  have "require_ids ?x = Inr (py_strip (gp_tenant gp), py_strip (gp_agent gp), py_strip (''govproxy-'' @ pe_run env),
      py_strip caller, py_strip ''llm_proxy'')"
    using assms n by (simp add: require_ids_def require_text_def proxy_named_def Let_def event_call_def)
  from mem_record_execution_Inr [OF this, of "pe_id env" "pe_created env" "gp_ledger gp"] show ?thesis
    unfolding record_event_def
    by (intro exI conjI; (simp only: and_then_simps; rule refl)?) (simp_all add: make_record_def event_call_def)
qed

lemma gate_frames:
  assumes "gp_per_service gp caller = None"
  shows "let (e, gp1) = run_gates env caller gp in
    gp_ledger gp1 = gp_ledger gp \<and> gp_daily gp1 = gp_daily gp \<and> gp_tenant gp1 = gp_tenant gp \<and> gp_agent gp1 = gp_agent gp
    \<and> (case e of Some (GateRaised x) \<Rightarrow> False | Some (Rejected reason) \<Rightarrow> reason \<noteq> [] | None \<Rightarrow> True)"
proof -
  obtain y m d where t: "pe_today env = (y, m, d)" by (cases "pe_today env")
  show ?thesis
    by (simp add: run_gates_def check_budget_def t check_rate_limit_default [OF assms] check_circuit_def
        circuit_check_def Let_def split: prod.split)
qed

lemma finish_failure_ok:
  assumes "proxy_named gp caller"
  shows "\<exists>r. finish_failure env caller model c gp =
      (CallFailed, (on_failure (pe_mono_after env) caller gp)\<lparr>gp_ledger := mem_append r (gp_ledger gp)\<rparr>)
    \<and> lr_capability r = py_strip caller \<and> lr_status r = ''failure'' \<and> lr_cost r = 0"
proof -
  let ?gp = "on_failure (pe_mono_after env) caller gp"
  have "proxy_named ?gp caller" using assms by (simp add: proxy_named_def on_failure_def)
  from record_event_ok [OF this, of env model "''failure''" c PNone 0] show ?thesis
    by (auto simp: finish_failure_def Let_def on_failure_def)
qed

subsection \<open>Properties\<close>

text \<open>
  The rate limit holds over every second: when one caller's checks read a clock that
  does not run backwards, any \<open>qps + 1\<close> checks in a row that pass span more than one second.
\<close>

theorem rate_limit_per_second:
  assumes "gp_per_service gp caller = None" and "gp_windows gp caller = None" and "sorted ts"
    and "i + nat (gp_default_qps gp) < length (rate_admitted ts caller gp)"
  shows "rate_admitted ts caller gp ! (i + nat (gp_default_qps gp)) - rate_admitted ts caller gp ! i > 1"
proof -
  have "window_of gp caller = []" using assms(2) by (simp add: window_of_def)
  then have "spaced (nat (gp_default_qps gp)) ([] @ window_of gp caller @ rate_admitted ts caller gp)"
    by (intro rate_admitted_spaced assms) (simp_all add: spaced_def)
  with \<open>window_of gp caller = []\<close> assms(4) show ?thesis by (simp add: spaced_def)
qed

definition sample_proxy :: gproxy where
  "sample_proxy = gproxy_new 10 200 2 Map.empty 5 60 3 ''default'' ''proxy'' True"

theorem rate_limit_per_second_witness:
  "rate_admitted [0, 1 / 2, 1, 3 / 2, 8 / 5] ''c'' sample_proxy ! 2 - rate_admitted [0, 1 / 2, 1, 3 / 2, 8 / 5] ''c'' sample_proxy ! 0 > 1"
proof -
  have f: "gp_per_service sample_proxy ''c'' = None" "gp_windows sample_proxy ''c'' = None"
    "sorted [0, 1 / 2, 1, 3 / 2, 8 / 5 :: rat]" "nat (gp_default_qps sample_proxy) = 2"
    by (simp_all add: sample_proxy_def gproxy_new_def)
  have "length (rate_admitted [0, 1 / 2, 1, 3 / 2, 8 / 5] ''c'' sample_proxy) = 4"
    by code_simp
  then show ?thesis
    using rate_limit_per_second [OF f(1-3), of 0] by (simp add: f(4) numeral_2_eq_2 del: rate_admitted.simps)
qed

text \<open>
  An open circuit admits at most \<open>half_open_max_calls\<close> trial calls until an outcome of a
  call is known, however many checks arrive and whatever the clock reads.
\<close>

theorem circuit_trials_bounded:
  assumes "gc_state (circuit_get gp caller) = GateOpen" and "0 < gp_half_max gp"
  shows "int (circuit_trials ts caller gp) \<le> gp_half_max gp"
  by (rule circuit_trials_open [OF assms])

theorem circuit_trials_bounded_witness:
  "int (circuit_trials [10, 70, 71, 72, 73, 500] ''c'' (on_failure 9 ''c'' (sample_proxy\<lparr>gp_threshold := 1\<rparr>))) \<le> 3"
  using circuit_trials_bounded [of "on_failure 9 ''c'' (sample_proxy\<lparr>gp_threshold := 1\<rparr>)" "''c''" "[10, 70, 71, 72, 73, 500]"]
  by (simp add: on_failure_def circuit_get_def circuit_failed_def gate_circuit_new_def sample_proxy_def gproxy_new_def
      del: circuit_trials.simps)


definition sample_env :: proxy_env where
  "sample_env = \<lparr>pe_today = (2025, 3, 5), pe_mono_rate = 0, pe_mono_circuit = 0, pe_today_after = (2025, 3, 5),
     pe_mono_after = 1, pe_elapsed = 3, pe_run = ''ab'', pe_id = ''id'', pe_created = 0\<rparr>"


text \<open>
  A call refused by an open circuit has already taken a slot of the caller's rate window.
\<close>

lemma circuit_rejection_takes_slot:
  assumes "gp_per_service gp caller = None" and "run_gates env caller gp = (Some (Rejected ''circuit_open''), gp')"
  shows "window_of gp' caller = slide_window (pe_mono_rate env) (window_of gp caller) @ [pe_mono_rate env]"
proof -
  obtain y m d where t: "pe_today env = (y, m, d)" by (cases "pe_today env")
  show ?thesis
    using assms(2)
    by (auto simp: run_gates_def check_budget_def t check_rate_limit_default [OF assms(1)] check_circuit_def
        circuit_check_def Let_def window_of_def split: if_splits)
qed

text \<open>
  A rate that is not a number opens the gates: when the configured rate of a caller is a
  string, a call that the budgets admit goes straight to the provider while
  \<open>passthrough_on_error\<close> is set, which it is by default, with no check of the circuit, no
  audit record and no charge.
\<close>

theorem bad_rate_bypasses_governance:
  assumes "gp_per_service gp caller = Some (PStr qps)" and "gp_passthrough gp"
    and "check_budget (pe_today env) caller gp = None"
  shows "let (res, gp') = acompletion env caller model llm gp in
    res = passthrough_call llm \<and> gp_ledger gp' = gp_ledger gp \<and> gp_daily gp' = gp_daily gp
    \<and> gp_circuits gp' = gp_circuits gp"
  using assms by (simp add: acompletion_def run_gates_def check_rate_limit_def at_least_def Let_def)

theorem bad_rate_bypasses_governance_witness:
  "fst (acompletion sample_env ''c'' ''m'' (LlmAnswers (RawDict []))
      (sample_proxy\<lparr>gp_per_service := [''c'' \<mapsto> PStr ''5'']\<rparr>)) = Answer []"
proof -
  let ?gp = "sample_proxy\<lparr>gp_per_service := [''c'' \<mapsto> PStr ''5'']\<rparr>"
  have "gp_per_service ?gp ''c'' = Some (PStr ''5'')" "gp_passthrough ?gp"
    "check_budget (pe_today sample_env) ''c'' ?gp = None"
    by (simp_all add: sample_proxy_def gproxy_new_def check_budget_def sample_env_def)
  from bad_rate_bypasses_governance [OF this, of "''m''" "LlmAnswers (RawDict [])"] show ?thesis
    by (simp add: case_prod_beta Let_def passthrough_call_def)
qed

end
