(* ===== verification/Quality.thy ===== *)
theory Quality
  imports Ledger
begin

section \<open>Skill quality: aggregation, snapshots, degradation\<close>

text \<open>
  \<open>owlclaw/governance/quality_aggregator.py\<close>, the in-memory store of
  \<open>quality_store.py\<close> and the detector of \<open>quality_detector.py\<close>. The standard deviation makes
  the scores real numbers; \<open>round\<close> is exact rounding to even. The records are those of the
  ledger.
\<close>

subsection \<open>Numbers\<close>

definition round_even :: "real \<Rightarrow> int" where
  "round_even r =
     (let f = \<lfloor>r\<rfloor>; d = r - of_int f in if d < 1 / 2 then f else if d > 1 / 2 then f + 1 else if even f then f else f + 1)"

definition py_round :: "nat \<Rightarrow> real \<Rightarrow> real" where
  "py_round n r = of_int (round_even (r * 10 ^ n)) / 10 ^ n"

definition mean_of :: "real list \<Rightarrow> real" where
  "mean_of xs = sum_list xs / of_nat (length xs)"

definition pstdev :: "real list \<Rightarrow> real" where
  "pstdev xs = sqrt (sum_list (map (\<lambda>x. (x - mean_of xs) ^ 2) xs) / of_nat (length xs))"

definition clamp01 :: "real \<Rightarrow> real" where
  "clamp01 r = max 0 (min 1 r)"

subsection \<open>Aggregation\<close>

record quality_weights =
  qw_success :: real
  qw_intervention :: real
  qw_satisfaction :: real
  qw_consistency :: real
  qw_latency :: real
  qw_cost :: real

definition default_weights :: quality_weights where
  "default_weights = \<lparr>qw_success = 30 / 100, qw_intervention = 25 / 100, qw_satisfaction = 20 / 100,
     qw_consistency = 15 / 100, qw_latency = 5 / 100, qw_cost = 5 / 100\<rparr>"

record quality_report =
  qr_skill :: string
  qr_tenant :: string
  qr_start :: micros
  qr_end :: micros
  qr_runs :: nat
  qr_success :: real
  qr_latency :: real
  qr_cost :: real
  qr_intervention :: real
  qr_consistency :: real
  qr_satisfaction :: real
  qr_score :: real

definition quality_filter :: "string \<Rightarrow> string \<Rightarrow> ledger_record list \<Rightarrow> micros \<Rightarrow> micros \<Rightarrow> ledger_record list" where
  "quality_filter tenant skill records window_start window_end =
     filter (\<lambda>r. lr_tenant r = tenant \<and> lr_capability r = skill
        \<and> \<not> (lr_created r < window_start \<or> lr_created r > window_end)) records"

definition succeeded :: "ledger_record \<Rightarrow> bool" where
  "succeeded r \<longleftrightarrow> py_lower (lr_status r) = ''success''"

definition flagged :: "pyval \<Rightarrow> string \<Rightarrow> string \<Rightarrow> bool" where
  "flagged v k1 k2 \<longleftrightarrow> is_dict (or_empty_dict v)
     \<and> (truthy (dict_get_or (or_empty_dict v) k1 PNone) \<or> truthy (dict_get_or (or_empty_dict v) k2 PNone))"

definition calc_intervention_rate :: "ledger_record list \<Rightarrow> real" where
  "calc_intervention_rate records =
     (if records = [] then 0
      else of_nat (length (filter (\<lambda>r. flagged (lr_input r) ''requires_confirmation'' ''manual_intervention'') records))
             / of_nat (length records))"

text \<open>
  \<open>params.get("approval") in {"approved", True, "pass"}\<close>: numbers equal to 1 are equal to
  \<open>True\<close>, and a list, a dict or a set cannot be hashed.
\<close>

fun approval_mark :: "pyval \<Rightarrow> py_error + bool" where
  "approval_mark (PStr s) = Inr (s = ''approved'' \<or> s = ''pass'')"
| "approval_mark (PBool b) = Inr b"
| "approval_mark (PInt i) = Inr (i = 1)"
| "approval_mark (PFloat r) = Inr (r = 1)"
| "approval_mark (PList xs) = Inl (TypeError ''unhashable type: 'list' '')"
| "approval_mark (PDict xs) = Inl (TypeError ''unhashable type: 'dict' '')"
| "approval_mark (PSet xs) = Inl (TypeError ''unhashable type: 'set' '')"
| "approval_mark v = Inr False"

fun count_approvals :: "nat \<Rightarrow> ledger_record list \<Rightarrow> py_error + nat" where
  "count_approvals n [] = Inr n"
| "count_approvals n (r # rs) =
     (let params = or_empty_dict (lr_input r) in
      if is_dict params then
        and_then (approval_mark (dict_get_or params ''approval'' PNone)) (\<lambda>b. count_approvals (if b then Suc n else n) rs)
      else count_approvals n rs)"

definition calc_satisfaction :: "ledger_record list \<Rightarrow> py_error + real" where
  "calc_satisfaction records =
     (if records = [] then Inr 0
      else and_then (count_approvals 0 records) (\<lambda>approvals.
        let total = of_nat (length records) :: real;
            modifications = length (filter (\<lambda>r. flagged (lr_output r) ''modified'' ''requires_revision'') records);
            approval_rate = of_nat approvals / total;
            modification_rate = of_nat modifications / total
        in Inr (clamp01 ((approval_rate + (1 - modification_rate)) / 2))))"

definition calc_consistency :: "ledger_record list \<Rightarrow> real" where
  "calc_consistency records =
     (let outcomes = map (\<lambda>r. if succeeded r then 1 else 0) records in
      if length outcomes \<le> 1 then 1 else clamp01 (1 - pstdev outcomes))"

definition calc_weighted_score :: "quality_weights \<Rightarrow> real \<Rightarrow> real \<Rightarrow> real \<Rightarrow> real \<Rightarrow> real \<Rightarrow> real \<Rightarrow> real" where
  "calc_weighted_score w success_rate avg_latency avg_cost intervention_rate consistency satisfaction =
     (let latency_norm = min (avg_latency / 10000) 1;
          cost_norm = min (avg_cost / 1) 1
      in clamp01 (qw_success w * success_rate + qw_intervention w * (1 - intervention_rate)
           + qw_satisfaction w * satisfaction + qw_consistency w * consistency
           + qw_latency w * (1 - latency_norm) + qw_cost w * (1 - cost_norm)))"

definition compute_report ::
  "quality_weights \<Rightarrow> string \<Rightarrow> string \<Rightarrow> ledger_record list \<Rightarrow> micros \<Rightarrow> micros \<Rightarrow> py_error + quality_report" where
  "compute_report w tenant skill records window_end window =
     (let start = window_end - window;
          filtered = quality_filter tenant skill records start window_end;
          total_runs = length filtered
      in if total_runs = 0 then
           Inr \<lparr>qr_skill = skill, qr_tenant = tenant, qr_start = start, qr_end = window_end, qr_runs = 0, qr_success = 0,
              qr_latency = 0, qr_cost = 0, qr_intervention = 0, qr_consistency = 0, qr_satisfaction = 0, qr_score = 0\<rparr>
         else and_then (calc_satisfaction filtered) (\<lambda>satisfaction.
           let success_rate = of_nat (length (filter succeeded filtered)) / of_nat total_runs;
               avg_latency = mean_of (map (\<lambda>r. of_int (lr_time_ms r)) filtered);
               avg_cost = mean_of (map (\<lambda>r. of_rat (lr_cost r)) filtered);
               intervention_rate = calc_intervention_rate filtered;
               consistency = calc_consistency filtered;
               score = calc_weighted_score w success_rate avg_latency avg_cost intervention_rate consistency satisfaction
           in Inr \<lparr>qr_skill = skill, qr_tenant = tenant, qr_start = start, qr_end = window_end, qr_runs = total_runs,
                qr_success = py_round 6 success_rate, qr_latency = py_round 3 avg_latency, qr_cost = py_round 6 avg_cost,
                qr_intervention = py_round 6 intervention_rate, qr_consistency = py_round 6 consistency,
                qr_satisfaction = py_round 6 satisfaction, qr_score = py_round 6 score\<rparr>))"

datatype granularity = Day | Week | Month

definition period_span :: "granularity \<Rightarrow> micros" where
  "period_span g = (case g of Day \<Rightarrow> day_micros | Week \<Rightarrow> 7 * day_micros | Month \<Rightarrow> 30 * day_micros)"

text \<open>The loop of \<open>compute_trend\<close>; the list is built newest first and reversed at the end.\<close>

fun trend_loop ::
  "quality_weights \<Rightarrow> string \<Rightarrow> string \<Rightarrow> ledger_record list \<Rightarrow> micros \<Rightarrow> nat \<Rightarrow> micros \<Rightarrow> quality_report list
     \<Rightarrow> py_error + quality_report list" where
  "trend_loop w tenant skill records width 0 cursor output = Inr output"
| "trend_loop w tenant skill records width (Suc n) cursor output =
     and_then (compute_report w tenant skill records cursor width) (\<lambda>report.
       trend_loop w tenant skill records width n (qr_start report) (output @ [report]))"

definition compute_trend ::
  "quality_weights \<Rightarrow> string \<Rightarrow> string \<Rightarrow> ledger_record list \<Rightarrow> micros \<Rightarrow> int \<Rightarrow> granularity
     \<Rightarrow> py_error + quality_report list" where
  "compute_trend w tenant skill records window_end periods g =
     and_then (trend_loop w tenant skill records (period_span g) (nat periods) window_end []) (\<lambda>out. Inr (rev out))"

subsection \<open>Snapshots\<close>

record quality_snapshot =
  qs_tenant :: string
  qs_skill :: string
  qs_start :: micros
  qs_end :: micros
  qs_metrics :: pyval
  qs_score :: real
  qs_computed :: micros

definition qs_save :: "quality_snapshot \<Rightarrow> quality_snapshot list \<Rightarrow> quality_snapshot list" where
  "qs_save s store = store @ [s]"

definition list_for_skill :: "string \<Rightarrow> string \<Rightarrow> quality_snapshot list \<Rightarrow> quality_snapshot list" where
  "list_for_skill tenant skill store = sort_asc qs_computed (filter (\<lambda>s. qs_tenant s = tenant \<and> qs_skill s = skill) store)"

definition latest_for_skill :: "string \<Rightarrow> string \<Rightarrow> quality_snapshot list \<Rightarrow> quality_snapshot option" where
  "latest_for_skill tenant skill store =
     (let rows = list_for_skill tenant skill store in if rows = [] then None else Some (last rows))"

fun latest_by_skill ::
  "string \<Rightarrow> quality_snapshot list \<Rightarrow> (string \<times> quality_snapshot) list \<Rightarrow> (string \<times> quality_snapshot) list" where
  "latest_by_skill tenant [] by_skill = by_skill"
| "latest_by_skill tenant (s # store) by_skill =
     (if qs_tenant s \<noteq> tenant then latest_by_skill tenant store by_skill
      else (case map_of by_skill (qs_skill s) of
          None \<Rightarrow> latest_by_skill tenant store (AList.update (qs_skill s) s by_skill)
        | Some prev \<Rightarrow>
            if qs_computed s > qs_computed prev
            then latest_by_skill tenant store (AList.update (qs_skill s) s by_skill)
            else latest_by_skill tenant store by_skill))"

definition all_latest :: "string \<Rightarrow> quality_snapshot list \<Rightarrow> quality_snapshot list" where
  "all_latest tenant store = sort_asc qs_skill (map snd (latest_by_skill tenant store []))"

subsection \<open>Degradation\<close>

definition detect_degradation :: "quality_snapshot list \<Rightarrow> bool" where
  "detect_degradation snapshots =
     (if length snapshots < 3 then False
      else (let ordered = sort_asc qs_computed snapshots;
                recent = py_from (- 3) ordered;
                scores = map qs_score recent
            in list_all (\<lambda>i. scores ! i < scores ! (i - 1) * (9 / 10)) [1..<length scores]))"

definition metric_value :: "pyval \<Rightarrow> string \<Rightarrow> rat \<Rightarrow> py_error + rat" where
  "metric_value metrics key d = py_float (dict_get_or metrics key (PFloat d))"

definition suggest_improvements :: "quality_snapshot \<Rightarrow> py_error + string list" where
  "suggest_improvements s =
     (let metrics = (if is_dict (qs_metrics s) then qs_metrics s else PDict []) in
      and_then (metric_value metrics ''success_rate'' 1) (\<lambda>sr.
      and_then (metric_value metrics ''intervention_rate'' 0) (\<lambda>ir.
      and_then (metric_value metrics ''consistency'' 1) (\<lambda>co.
      and_then (metric_value metrics ''avg_latency_ms'' 0) (\<lambda>la.
      and_then (metric_value metrics ''avg_cost'' 0) (\<lambda>cs.
        let suggestions =
              (if sr < 8 / 10 then [''Improve success rate: review failure categories and add guardrails.''] else [])
            @ (if ir > 3 / 10 then [''Reduce manual intervention by clarifying business rules and thresholds.''] else [])
            @ (if co < 7 / 10 then [''Increase consistency by tightening trigger conditions and expected outputs.''] else [])
            @ (if la > 3000 then [''Lower latency by reducing tool chain depth and context size.''] else [])
            @ (if cs > 3 / 10 then [''Lower cost by routing simple tasks to cheaper models.''] else [])
        in Inr (if suggestions = [] then [''Quality is stable; continue monitoring weekly trends.''] else suggestions)))))))"

subsection \<open>Facts about the numbers\<close>

lemma round_even_mono_bounds:
  "0 \<le> r \<Longrightarrow> 0 \<le> round_even r" "r \<le> of_int k \<Longrightarrow> round_even r \<le> k"
proof -
  show "0 \<le> r \<Longrightarrow> 0 \<le> round_even r" by (auto simp: round_even_def Let_def)
  assume r: "r \<le> of_int k"
  show "round_even r \<le> k"
  proof (cases "r = of_int k")
    case True
    then show ?thesis by (simp add: round_even_def)
  next
    case False
    with r have "\<lfloor>r\<rfloor> < k" by (simp add: floor_less_iff)
    then show ?thesis by (auto simp: round_even_def Let_def)
  qed
qed

lemma py_round_unit: "r \<in> {0..1} \<Longrightarrow> py_round n r \<in> {0..1}"
proof -
  assume r: "r \<in> {0..1}"
  then have "0 \<le> round_even (r * 10 ^ n)" by (intro round_even_mono_bounds) simp
  moreover have "round_even (r * 10 ^ n) \<le> 10 ^ n"
    using r by (intro round_even_mono_bounds) simp
  then have "(of_int (round_even (r * 10 ^ n)) :: real) \<le> 10 ^ n"
    by (metis of_int_le_iff of_int_numeral of_int_power)
  ultimately show ?thesis by (simp add: py_round_def)
qed

lemma clamp01_unit [simp]: "clamp01 r \<in> {0..1}"
  by (simp add: clamp01_def)

lemma share_unit: "length (filter P xs) / length xs \<in> {0..(1 :: real)}"
proof (cases "xs = []")
  case False
  then show ?thesis by (simp add: divide_le_eq)
qed simp

lemma calc_satisfaction_unit: "calc_satisfaction rs = Inr s \<Longrightarrow> s \<in> {0..1}"
proof -
  assume s: "calc_satisfaction rs = Inr s"
  show ?thesis
  proof (cases "rs = []")
    case True
    with s show ?thesis by (simp add: calc_satisfaction_def)
  next
    case False
    with s obtain x where "s = clamp01 x" by (auto simp: calc_satisfaction_def and_then_Inr_iff Let_def)
    then show ?thesis by (simp only: clamp01_unit)
  qed
qed

lemma calc_units:
  "calc_intervention_rate rs \<in> {0..1}" "calc_consistency rs \<in> {0..1}" "calc_weighted_score w a b c d e f \<in> {0..1}"
  using share_unit [of _ rs] clamp01_unit
  by (auto simp: calc_intervention_rate_def calc_consistency_def calc_weighted_score_def Let_def simp del: clamp01_unit)

subsection \<open>The latest snapshot of every skill\<close>

definition newer :: "quality_snapshot option \<Rightarrow> quality_snapshot \<Rightarrow> quality_snapshot option" where
  "newer p s = (case p of None \<Rightarrow> Some s | Some q \<Rightarrow> if qs_computed s > qs_computed q then Some s else Some q)"

lemma newer_Some: "newer (Some q) s = (if qs_computed s > qs_computed q then Some s else Some q)"
  by (simp add: newer_def)

lemma latest_by_skill_get:
  "map_of (latest_by_skill t store acc) k =
     foldl newer (map_of acc k) (filter (\<lambda>s. qs_tenant s = t \<and> qs_skill s = k) store)"
proof (induction store arbitrary: acc)
  case (Cons s store)
  show ?case
  proof (cases "qs_tenant s = t")
    case True
    with Cons show ?thesis
      by (cases "map_of acc (qs_skill s)") (auto simp: newer_def update_conv')
  qed (simp add: Cons)
qed simp

definition keyed :: "(string \<times> quality_snapshot) list \<Rightarrow> bool" where
  "keyed d \<longleftrightarrow> distinct (dict_keys d) \<and> (\<forall>k s. (k, s) \<in> set d \<longrightarrow> qs_skill s = k)"

lemma keyed_update: "keyed d \<Longrightarrow> keyed (AList.update (qs_skill s) s d)"
  by (simp add: keyed_def distinct_keys_update dict_update_mem)

lemma latest_by_skill_keyed: "keyed acc \<Longrightarrow> keyed (latest_by_skill t store acc)"
  by (induction store arbitrary: acc) (simp_all add: keyed_update split: option.split)

lemma foldl_newer_max:
  "foldl newer (Some q) ss = Some r \<Longrightarrow> (r = q \<or> r \<in> set ss) \<and> qs_computed q \<le> qs_computed r
     \<and> (\<forall>s \<in> set ss. qs_computed s \<le> qs_computed r)"
proof (induction ss arbitrary: q)
  case (Cons s ss)
  show ?case
  proof (cases "qs_computed q < qs_computed s")
    case True
    with Cons.prems have "foldl newer (Some s) ss = Some r" by (simp add: newer_Some)
    from Cons.IH [OF this] True show ?thesis by auto
  next
    case False
    with Cons.prems have "foldl newer (Some q) ss = Some r" by (simp add: newer_Some)
    from Cons.IH [OF this] False show ?thesis by auto
  qed
qed simp

lemma foldl_newer_Some: "\<exists>r. foldl newer (Some q) ss = Some r"
  by (induction ss arbitrary: q) (auto simp: newer_def)

lemma latest_for_skill_max:
  assumes "latest_for_skill t k store = Some l" and "s \<in> set store" "qs_tenant s = t" "qs_skill s = k"
  shows "qs_computed s \<le> qs_computed l"
proof -
  let ?rows = "list_for_skill t k store"
  have "?rows \<noteq> []" and l: "l = last ?rows" using assms(1) by (auto simp: latest_for_skill_def Let_def split: if_splits)
  then obtain as where rows: "?rows = as @ [l]" by (metis append_butlast_last_id)
  have "sorted (map qs_computed ?rows)" unfolding list_for_skill_def by (rule sorted_sort_asc)
  moreover have "s \<in> set ?rows" using assms(2-4) by (simp add: list_for_skill_def)
  ultimately show ?thesis unfolding rows by (auto simp: sorted_append)
qed

lemma latest_for_skill_mem:
  "latest_for_skill t k store = Some l \<Longrightarrow> l \<in> set store \<and> qs_tenant l = t \<and> qs_skill l = k"
proof -
  assume "latest_for_skill t k store = Some l"
  then have "l \<in> set (list_for_skill t k store)"
    by (auto simp: latest_for_skill_def Let_def split: if_splits)
  then show ?thesis by (simp add: list_for_skill_def)
qed

lemma latest_agree:
  assumes "map_of (latest_by_skill t store []) k = Some s"
  shows "\<exists>l. latest_for_skill t k store = Some l \<and> qs_computed l = qs_computed s \<and> s \<in> set store \<and> qs_tenant s = t"
proof -
  let ?ss = "filter (\<lambda>s. qs_tenant s = t \<and> qs_skill s = k) store"
  obtain q qs where ss: "?ss = q # qs"
    using assms by (cases ?ss) (simp_all add: latest_by_skill_get)
  have "foldl newer (Some q) qs = Some s" using assms by (simp add: latest_by_skill_get ss newer_def)
  from foldl_newer_max [OF this] have mem: "s \<in> set ?ss" and mx: "\<forall>u \<in> set ?ss. qs_computed u \<le> qs_computed s"
    unfolding ss by auto
  have "list_for_skill t k store \<noteq> []" using mem by (metis empty_iff list.set(1) list_for_skill_def set_sort_asc)
  then obtain l where l: "latest_for_skill t k store = Some l" by (simp add: latest_for_skill_def Let_def)
  have "qs_computed l \<le> qs_computed s" using latest_for_skill_mem [OF l] mx by simp
  moreover have "qs_computed s \<le> qs_computed l" using mem by (intro latest_for_skill_max [OF l]) simp_all
  ultimately show ?thesis using l mem by auto
qed

lemma compute_report_returns:
  "calc_satisfaction (quality_filter tenant skill records (e - width) e) = Inr sat \<Longrightarrow>
     \<exists>rep. compute_report w tenant skill records e width = Inr rep"
  by (simp add: compute_report_def Let_def)

subsection \<open>Properties\<close>

text \<open>
  A quality report is well formed: it counts exactly the records of its tenant and skill
  in its window, both ends included, and every rate and the score lie in [0, 1], whatever
  the weights.
\<close>

theorem quality_report_bounds:
  assumes "compute_report w tenant skill records window_end window = Inr rep"
  shows "qr_runs rep = length (filter (\<lambda>r. lr_tenant r = tenant \<and> lr_capability r = skill
        \<and> lr_created r \<in> {window_end - window..window_end}) records)
    \<and> {qr_success rep, qr_intervention rep, qr_consistency rep, qr_satisfaction rep, qr_score rep} \<subseteq> {0..1}"
proof -
  let ?rs = "quality_filter tenant skill records (window_end - window) window_end"
  have runs: "length (filter (\<lambda>r. lr_tenant r = tenant \<and> lr_capability r = skill
        \<and> lr_created r \<in> {window_end - window..window_end}) records) = length ?rs"
    by (simp add: quality_filter_def not_less conj_commute)
  show ?thesis
  proof (cases "length ?rs = 0")
    case True
    with assms runs show ?thesis by (auto simp: compute_report_def Let_def)
  next
    case False
    with assms obtain sat where "calc_satisfaction ?rs = Inr sat"
      by (auto simp: compute_report_def Let_def and_then_Inr_iff split: if_splits)
    with assms False runs show ?thesis
      using calc_units(1,2) [of ?rs] calc_satisfaction_unit [of ?rs sat] calc_units(3) share_unit [of succeeded ?rs]
      by (auto simp: compute_report_def Let_def simp del: atLeastAtMost_iff intro!: py_round_unit)
  qed
qed

theorem quality_report_bounds_witness:
  "\<exists>rep. compute_report default_weights ''t1'' ''a'' (ml_records (mem_record_all
       [(''1'', 1, sample_call ''t1'' ''a'' 1 ''error'')] (memory_ledger_new 10))) 10 20 = Inr rep
     \<and> qr_score rep \<in> {0..1}"
proof -
  have "map_sum (\<lambda>e. True) (\<lambda>s. True) (calc_satisfaction (quality_filter ''t1'' ''a'' (ml_records (mem_record_all
       [(''1'', 1, sample_call ''t1'' ''a'' 1 ''error'')] (memory_ledger_new 10))) (10 - 20) 10)) = Inr True"
    by code_simp
  then obtain sat where "calc_satisfaction (quality_filter ''t1'' ''a'' (ml_records (mem_record_all
       [(''1'', 1, sample_call ''t1'' ''a'' 1 ''error'')] (memory_ledger_new 10))) (10 - 20) 10) = Inr sat"
    by (auto simp: map_sum_def simp del: mem_record_all.simps split: sum.splits)
  from compute_report_returns [OF this] obtain rep where "compute_report default_weights ''t1'' ''a'' (ml_records (mem_record_all
       [(''1'', 1, sample_call ''t1'' ''a'' 1 ''error'')] (memory_ledger_new 10))) 10 20 = Inr rep" by blast
  with quality_report_bounds [OF this] show ?thesis by auto
qed

text \<open>
  The overview of a tenant's latest snapshots has one entry for each skill the tenant
  has snapshots of, in the order of the names, each of the tenant and computed as late as
  the one \<open>latest_for_skill\<close> gives for that skill.
\<close>

theorem all_latest_spec:
  "let out = all_latest tenant store in
     sorted (map qs_skill out) \<and> distinct (map qs_skill out)
     \<and> set (map qs_skill out) = set (map qs_skill (filter (\<lambda>s. qs_tenant s = tenant) store))
     \<and> list_all (\<lambda>s. qs_tenant s = tenant
          \<and> map_option qs_computed (latest_for_skill tenant (qs_skill s) store) = Some (qs_computed s)) out"
proof -
  let ?d = "latest_by_skill tenant store []"
  have "keyed ?d" by (rule latest_by_skill_keyed) (simp add: keyed_def)
  then have k: "distinct (dict_keys ?d)" "\<And>k s. (k, s) \<in> set ?d \<Longrightarrow> qs_skill s = k" by (simp_all add: keyed_def)
  have names: "map qs_skill (map snd ?d) = dict_keys ?d" using k(2) by auto
  have "mset (map qs_skill (all_latest tenant store)) = mset (dict_keys ?d)"
    by (simp add: all_latest_def names [symmetric] del: map_map)
  then have "distinct (map qs_skill (all_latest tenant store))" using k(1) by (metis mset_eq_imp_distinct_iff)
  moreover have "sorted (map qs_skill (all_latest tenant store))" unfolding all_latest_def by (rule sorted_sort_asc)
  moreover have "list_all (\<lambda>s. qs_tenant s = tenant
          \<and> map_option qs_computed (latest_for_skill tenant (qs_skill s) store) = Some (qs_computed s)) (all_latest tenant store)"
    unfolding list_all_iff
  proof
    fix s assume "s \<in> set (all_latest tenant store)"
    then obtain n where n: "(n, s) \<in> set ?d" by (auto simp: all_latest_def)
    with k have "map_of ?d n = Some s" "qs_skill s = n" by auto
    with latest_agree [of tenant store n s] show "qs_tenant s = tenant
          \<and> map_option qs_computed (latest_for_skill tenant (qs_skill s) store) = Some (qs_computed s)" by auto
  qed
  moreover have "set (map qs_skill (all_latest tenant store)) = set (map qs_skill (filter (\<lambda>s. qs_tenant s = tenant) store))"
  proof -
    have "set (map qs_skill (all_latest tenant store)) = set (dict_keys ?d)"
      using names by (metis all_latest_def set_map set_sort_asc)
    also have "\<dots> = {n. map_of ?d n \<noteq> None}" by (metis dom_def dom_map_of_conv_image_fst set_map)
    also have "\<dots> = {n. filter (\<lambda>s. qs_tenant s = tenant \<and> qs_skill s = n) store \<noteq> []}"
    proof -
      have "(foldl newer None xs \<noteq> None) = (xs \<noteq> [])" for xs
        using foldl_newer_Some by (cases xs) (auto simp: newer_def)
      then show ?thesis by (simp add: latest_by_skill_get)
    qed
    also have "\<dots> = set (map qs_skill (filter (\<lambda>s. qs_tenant s = tenant) store))"
      by (auto simp: filter_empty_conv)
    finally show ?thesis .
  qed
  ultimately show ?thesis by (simp add: Let_def)
qed

lemma fewer_than_three: "length xs < 3 \<Longrightarrow> xs = [] \<or> (\<exists>a. xs = [a]) \<or> (\<exists>a b. xs = [a, b])"
  by (cases xs; cases "tl xs"; cases "tl (tl xs)") auto

lemma case_fewer_than_three:
  assumes "length xs < 3"
  shows "(case xs of a # b # c # _ \<Rightarrow> P a b c | _ \<Rightarrow> False) = False"
  using fewer_than_three [OF assms] by (elim disjE exE) simp_all

lemma three_or_more: "\<not> length xs < 3 \<Longrightarrow> \<exists>a b c r. xs = a # b # c # r"
  by (cases xs; cases "tl xs"; cases "tl (tl xs)") auto

lemma two_drops: "list_all (\<lambda>i. [x, y, z] ! i < [x, y, z] ! (i - 1) * (9 / 10 :: real)) [1..<3]
    = (y < x * (9 / 10) \<and> z < y * (9 / 10))"
proof -
  have "[1..<3] = [1, 2 :: nat]" by (simp add: upt_rec)
  then show ?thesis by simp
qed

lemma last_three:
  assumes "rev xs = c # b # a # r"
  shows "py_from (- 3) xs = [a, b, c]"
proof -
  have "xs = rev r @ [a, b, c]" using assms by (simp add: rev_eq_Cons_iff)
  then show ?thesis by (simp add: py_from_def)
qed

lemma detect_three:
  assumes "rev (sort_asc qs_computed ss) = s3 # s2 # s1 # r"
  shows "detect_degradation ss = (qs_score s2 < qs_score s1 * (9 / 10) \<and> qs_score s3 < qs_score s2 * (9 / 10))"
proof -
  have "length ss = length (rev (sort_asc qs_computed ss))" by simp
  then have n: "(length ss < 3) = False" unfolding assms by simp
  have "length [qs_score s1, qs_score s2, qs_score s3] = 3" by simp
  then show ?thesis
    unfolding detect_degradation_def n if_False Let_def last_three [OF assms] list.map
    by (simp only: two_drops)
qed

text \<open>
  Degradation is reported exactly when there are at least three snapshots and, of the
  three computed last, the second scores more than a tenth below the first and the third
  more than a tenth below the second: two drops, of three snapshots.
\<close>

theorem detect_degradation_iff:
  "detect_degradation snapshots =
     (case rev (sort_asc qs_computed snapshots) of
        s3 # s2 # s1 # _ \<Rightarrow> qs_score s2 < qs_score s1 * (9 / 10) \<and> qs_score s3 < qs_score s2 * (9 / 10)
      | _ \<Rightarrow> False)"
proof (cases "length (rev (sort_asc qs_computed snapshots)) < 3")
  case True
  then have "length snapshots < 3" by simp
  then have "detect_degradation snapshots = False" by (simp add: detect_degradation_def)
  with case_fewer_than_three [OF True] show ?thesis by (simp only:)
next
  case False
  then obtain a b c r where r: "rev (sort_asc qs_computed snapshots) = a # b # c # r"
    using three_or_more by blast
  show ?thesis unfolding detect_three [OF r] by (simp only: r list.case)
qed

text \<open>The windows of a trend touch: each report starts where the one before it ends.\<close>

lemma compute_report_ends:
  "compute_report w tenant skill records e width = Inr rep \<Longrightarrow> qr_end rep = e \<and> qr_start rep = e - width"
  by (auto simp: compute_report_def Let_def and_then_Inr_iff split: if_splits)

lemma trend_loop_windows:
  "trend_loop w tenant skill records width n cursor out = Inr out' \<Longrightarrow>
     \<exists>new. out' = out @ new \<and> map (\<lambda>r. (qr_start r, qr_end r)) new
        = map (\<lambda>i. (cursor - int (Suc i) * width, cursor - int i * width)) [0..<n]"
proof (induction n arbitrary: cursor out)
  case (Suc n)
  then obtain rep where rep: "compute_report w tenant skill records cursor width = Inr rep"
    and rest: "trend_loop w tenant skill records width n (qr_start rep) (out @ [rep]) = Inr out'"
    by (auto simp: and_then_Inr_iff)
  note e = compute_report_ends [OF rep]
  from Suc.IH [OF rest] obtain new where "out' = (out @ [rep]) @ new"
    and new: "map (\<lambda>r. (qr_start r, qr_end r)) new
        = map (\<lambda>i. (qr_start rep - int (Suc i) * width, qr_start rep - int i * width)) [0..<n]" by blast
  moreover have "map (\<lambda>i. (cursor - int (Suc i) * width, cursor - int i * width)) [0..<Suc n] =
      (cursor - width, cursor) # map (\<lambda>i. (qr_start rep - int (Suc i) * width, qr_start rep - int i * width)) [0..<n]"
    by (simp add: e upt_conv_Cons map_Suc_upt [symmetric] algebra_simps del: upt_Suc)
  ultimately show ?case using e by (intro exI [of _ "rep # new"]) simp
qed simp

end
