(* ===== verification/SignalState.thy ===== *)
theory SignalState
  imports Prelude
begin

section \<open>Signal state: paused agents and pending instructions\<close>

text \<open>
  \<open>owlclaw/triggers/signal/models.py\<close>, \<open>state.py\<close> and the tables of \<open>persistence.py\<close>. The
  state manager has two backends: a dict of states under a lock, so each operation is one
  step, and two database tables, where each operation is one transaction. The locale
  \<open>control_store\<close> is what the handlers and the agent run rely on; it is interpreted on both.
  A select without an order returns rows in the order they were inserted.
\<close>

datatype signal_type = SigPause | SigResume | SigTrigger | SigInstruct
datatype signal_source = SrcCli | SrcApi | SrcMcp

record pending_instruction =
  pi_content :: string
  pi_operator :: string
  pi_source :: signal_source
  pi_created :: micros
  pi_expires :: micros
  pi_consumed :: bool

definition instruction_create :: "micros \<Rightarrow> string \<Rightarrow> string \<Rightarrow> signal_source \<Rightarrow> int \<Rightarrow> pending_instruction" where
  "instruction_create now content operator source ttl_seconds =
     \<lparr>pi_content = content, pi_operator = operator, pi_source = source, pi_created = now,
      pi_expires = now + secs ttl_seconds, pi_consumed = False\<rparr>"

definition is_expired :: "micros \<Rightarrow> pending_instruction \<Rightarrow> bool" where
  "is_expired now i \<longleftrightarrow> now \<ge> pi_expires i"

definition deliverable :: "micros \<Rightarrow> pending_instruction \<Rightarrow> bool" where
  "deliverable now i \<longleftrightarrow> \<not> (pi_consumed i \<or> is_expired now i)"

subsection \<open>In memory\<close>

record agent_state =
  as_paused :: bool
  as_pending :: "pending_instruction list"

definition agent_state_new :: agent_state where
  "agent_state_new = \<lparr>as_paused = False, as_pending = []\<rparr>"

record mem_control =
  mc_max :: int
  mc_states :: "string \<times> string \<rightharpoonup> agent_state"

definition state_key :: "string \<Rightarrow> string \<Rightarrow> string \<times> string" where
  "state_key agent_id tenant_id = (py_strip tenant_id, py_strip agent_id)"

definition state_at :: "mem_control \<Rightarrow> string \<times> string \<Rightarrow> agent_state" where
  "state_at s key = (case mc_states s key of None \<Rightarrow> agent_state_new | Some st \<Rightarrow> st)"

definition put_state :: "string \<times> string \<Rightarrow> agent_state \<Rightarrow> mem_control \<Rightarrow> mem_control" where
  "put_state key st s = s\<lparr>mc_states := (mc_states s)(key \<mapsto> st)\<rparr>"

definition get_in_memory :: "string \<Rightarrow> string \<Rightarrow> mem_control \<Rightarrow> agent_state \<times> mem_control" where
  "get_in_memory agent_id tenant_id s =
     (let key = state_key agent_id tenant_id in (state_at s key, put_state key (state_at s key) s))"

definition set_paused_in_memory :: "string \<Rightarrow> string \<Rightarrow> bool \<Rightarrow> mem_control \<Rightarrow> mem_control" where
  "set_paused_in_memory agent_id tenant_id paused s =
     (let key = state_key agent_id tenant_id in put_state key ((state_at s key)\<lparr>as_paused := paused\<rparr>) s)"

text \<open>\<open>pop(0)\<close> raises on an empty list, which a limit below one leads to.\<close>

definition add_instruction_in_memory ::
  "string \<Rightarrow> string \<Rightarrow> pending_instruction \<Rightarrow> mem_control \<Rightarrow> py_error option \<times> mem_control" where
  "add_instruction_in_memory agent_id tenant_id instruction s =
     (let key = state_key agent_id tenant_id; st = state_at s key in
      if int (length (as_pending st)) \<ge> mc_max s
      then (case as_pending st of
              [] \<Rightarrow> (Some (IndexError ''pop from empty list''), put_state key st s)
            | _ # rest \<Rightarrow> (None, put_state key (st\<lparr>as_pending := rest @ [instruction]\<rparr>) s))
      else (None, put_state key (st\<lparr>as_pending := as_pending st @ [instruction]\<rparr>) s))"

text \<open>The first loop marks what it hands out, the second keeps what is neither consumed nor expired.\<close>

fun mark_loop :: "micros \<Rightarrow> pending_instruction list \<Rightarrow> pending_instruction list \<times> pending_instruction list" where
  "mark_loop now [] = ([], [])"
| "mark_loop now (i # is) =
     (let (consumed, marked) = mark_loop now is in
      if pi_consumed i \<or> is_expired now i then (consumed, i # marked)
      else (i\<lparr>pi_consumed := True\<rparr> # consumed, i\<lparr>pi_consumed := True\<rparr> # marked))"

definition consume_in_memory ::
  "micros \<Rightarrow> string \<Rightarrow> string \<Rightarrow> mem_control \<Rightarrow> pending_instruction list \<times> mem_control" where
  "consume_in_memory now agent_id tenant_id s =
     (let key = state_key agent_id tenant_id; st = state_at s key;
          (consumed, marked) = mark_loop now (as_pending st);
          kept = filter (\<lambda>i. \<not> pi_consumed i \<and> \<not> is_expired now i) marked
      in (consumed, put_state key (st\<lparr>as_pending := kept\<rparr>) s))"

definition cleanup_in_memory :: "micros \<Rightarrow> string \<Rightarrow> string \<Rightarrow> mem_control \<Rightarrow> nat \<times> mem_control" where
  "cleanup_in_memory now agent_id tenant_id s =
     (let key = state_key agent_id tenant_id; st = state_at s key;
          kept = filter (\<lambda>i. \<not> is_expired now i \<and> \<not> pi_consumed i) (as_pending st)
      in (length (as_pending st) - length kept, put_state key (st\<lparr>as_pending := kept\<rparr>) s))"

subsection \<open>In the database\<close>

record instruction_row =
  ir_id :: uuid
  ir_tenant :: string
  ir_agent :: string
  ir_instruction :: pending_instruction
  ir_consumed_at :: "micros option"

record db_control =
  dc_max :: int
  dc_agents :: "string \<times> string \<rightharpoonup> bool"
  dc_rows :: "instruction_row list"

definition row_of :: "string \<Rightarrow> string \<Rightarrow> instruction_row \<Rightarrow> bool" where
  "row_of agent_id tenant_id r \<longleftrightarrow> ir_agent r = agent_id \<and> ir_tenant r = tenant_id"

definition open_rows :: "string \<Rightarrow> string \<Rightarrow> db_control \<Rightarrow> instruction_row list" where
  "open_rows agent_id tenant_id s =
     filter (\<lambda>r. row_of agent_id tenant_id r \<and> \<not> pi_consumed (ir_instruction r)) (dc_rows s)"

definition get_from_db :: "string \<Rightarrow> string \<Rightarrow> db_control \<Rightarrow> agent_state \<times> db_control" where
  "get_from_db agent_id tenant_id s =
     (let s1 = (case dc_agents s (tenant_id, agent_id) of
            None \<Rightarrow> s\<lparr>dc_agents := (dc_agents s)((tenant_id, agent_id) \<mapsto> False)\<rparr> | Some p \<Rightarrow> s)
      in (\<lparr>as_paused = the (dc_agents s1 (tenant_id, agent_id)),
           as_pending = map ir_instruction (open_rows agent_id tenant_id s1)\<rparr>, s1))"

definition set_paused_in_db :: "string \<Rightarrow> string \<Rightarrow> bool \<Rightarrow> db_control \<Rightarrow> db_control" where
  "set_paused_in_db agent_id tenant_id paused s = s\<lparr>dc_agents := (dc_agents s)((tenant_id, agent_id) \<mapsto> paused)\<rparr>"

text \<open>The oldest open row by creation time is deleted when the limit is reached.\<close>

definition delete_oldest :: "string \<Rightarrow> string \<Rightarrow> db_control \<Rightarrow> instruction_row list" where
  "delete_oldest agent_id tenant_id s =
     (case sort_asc (\<lambda>r. pi_created (ir_instruction r)) (open_rows agent_id tenant_id s) of
        [] \<Rightarrow> dc_rows s
      | oldest # _ \<Rightarrow> filter (\<lambda>r. ir_id r \<noteq> ir_id oldest) (dc_rows s))"

definition add_instruction_in_db ::
  "uuid \<Rightarrow> string \<Rightarrow> string \<Rightarrow> pending_instruction \<Rightarrow> db_control \<Rightarrow> db_control" where
  "add_instruction_in_db i agent_id tenant_id instruction s =
     (let rows = (if int (length (open_rows agent_id tenant_id s)) \<ge> dc_max s
            then delete_oldest agent_id tenant_id s else dc_rows s)
      in s\<lparr>dc_rows := rows @ [\<lparr>ir_id = i, ir_tenant = tenant_id, ir_agent = agent_id, ir_instruction = instruction,
             ir_consumed_at = None\<rparr>]\<rparr>)"

definition consume_row :: "micros \<Rightarrow> string \<Rightarrow> string \<Rightarrow> instruction_row \<Rightarrow> instruction_row" where
  "consume_row now agent_id tenant_id r =
     (if row_of agent_id tenant_id r \<and> \<not> pi_consumed (ir_instruction r) \<and> pi_expires (ir_instruction r) > now
      then r\<lparr>ir_instruction := (ir_instruction r)\<lparr>pi_consumed := True\<rparr>, ir_consumed_at := Some now\<rparr> else r)"

definition consume_in_db ::
  "micros \<Rightarrow> string \<Rightarrow> string \<Rightarrow> db_control \<Rightarrow> pending_instruction list \<times> db_control" where
  "consume_in_db now agent_id tenant_id s =
     (map (\<lambda>r. (ir_instruction r)\<lparr>pi_consumed := True\<rparr>)
        (filter (\<lambda>r. row_of agent_id tenant_id r \<and> \<not> pi_consumed (ir_instruction r) \<and> pi_expires (ir_instruction r) > now)
           (dc_rows s)),
      s\<lparr>dc_rows := map (consume_row now agent_id tenant_id) (dc_rows s)\<rparr>)"

definition cleanup_in_db :: "micros \<Rightarrow> string \<Rightarrow> string \<Rightarrow> db_control \<Rightarrow> nat \<times> db_control" where
  "cleanup_in_db now agent_id tenant_id s =
     (let gone = (\<lambda>r. row_of agent_id tenant_id r \<and> pi_expires (ir_instruction r) \<le> now)
      in (length (filter gone (dc_rows s)), s\<lparr>dc_rows := filter (\<lambda>r. \<not> gone r) (dc_rows s)\<rparr>))"

subsection \<open>The interface\<close>

text \<open>
  \<open>paused\<close> and \<open>pending\<close> observe a store for an agent and a tenant; \<open>same\<close> says when two
  pairs name the same agent. The laws: pausing is read back and touches no other agent; a
  consumption hands out exactly what is deliverable, in order, marked, and leaves nothing
  deliverable behind; a clean-up loses nothing that can still be delivered.
\<close>

locale control_store =
  fixes same :: "string \<times> string \<Rightarrow> string \<times> string \<Rightarrow> bool"
    and paused :: "'s \<Rightarrow> string \<times> string \<Rightarrow> bool"
    and pending :: "'s \<Rightarrow> string \<times> string \<Rightarrow> pending_instruction list"
    and set_paused :: "string \<times> string \<Rightarrow> bool \<Rightarrow> 's \<Rightarrow> 's"
    and consume :: "micros \<Rightarrow> string \<times> string \<Rightarrow> 's \<Rightarrow> pending_instruction list \<times> 's"
    and cleanup :: "micros \<Rightarrow> string \<times> string \<Rightarrow> 's \<Rightarrow> nat \<times> 's"
  assumes paused_set: "paused (set_paused k b s) k' = (if same k k' then b else paused s k')"
    and pending_set: "pending (set_paused k b s) = pending s"
    and consumed: "fst (consume now k s) = map (\<lambda>i. i\<lparr>pi_consumed := True\<rparr>) (filter (deliverable now) (pending s k))"
    and consume_rest: "filter (deliverable now) (pending (snd (consume now k s)) k) = []"
    and consume_other: "\<not> same k k' \<Longrightarrow> pending (snd (consume now k s)) k' = pending s k'"
    and consume_paused: "paused (snd (consume now k s)) = paused s"
    and cleanup_keeps: "filter (deliverable now) (pending (snd (cleanup now k s)) k') = filter (deliverable now) (pending s k')"
    and cleanup_paused: "paused (snd (cleanup now k s)) = paused s"
begin

lemma deliverable_earlier: "t1 \<le> t2 \<Longrightarrow> deliverable t2 i \<Longrightarrow> deliverable t1 i"
  by (auto simp: deliverable_def is_expired_def)

text \<open>A second consumption, with nothing added in between, hands out nothing.\<close>

lemma consume_twice:
  assumes "t1 \<le> t2"
  shows "fst (consume t2 k (snd (consume t1 k s))) = []"
proof -
  let ?p = "pending (snd (consume t1 k s)) k"
  have "filter (deliverable t2) ?p = []"
    using consume_rest [of t1 k s] deliverable_earlier [OF assms] by (auto simp: filter_empty_conv)
  then show ?thesis by (simp add: consumed)
qed

text \<open>What is handed out has not expired.\<close>

lemma consume_fresh: "i \<in> set (fst (consume now k s)) \<Longrightarrow> \<not> is_expired now i"
  by (auto simp: consumed deliverable_def is_expired_def)

text \<open>Cleaning up first does not change what a consumption hands out.\<close>

lemma consume_after_cleanup: "fst (consume now k (snd (cleanup now k' s))) = fst (consume now k s)"
  by (simp add: consumed cleanup_keeps)

end

lemma state_at_put [simp]: "state_at (put_state k st s) k' = (if k' = k then st else state_at s k')"
  by (simp add: state_at_def put_state_def)

lemma mark_loop_eq:
  "mark_loop now is = (map (\<lambda>i. i\<lparr>pi_consumed := True\<rparr>) (filter (deliverable now) is),
     map (\<lambda>i. if deliverable now i then i\<lparr>pi_consumed := True\<rparr> else i) is)"
  by (induction "is") (auto simp: deliverable_def)

lemma kept_after_marking:
  "filter (\<lambda>i. \<not> pi_consumed i \<and> \<not> is_expired now i)
     (map (\<lambda>i. if deliverable now i then i\<lparr>pi_consumed := True\<rparr> else i) is) = []"
  by (induction "is") (auto simp: deliverable_def)

lemma consume_in_memory_eq:
  "consume_in_memory now a t s =
     (map (\<lambda>i. i\<lparr>pi_consumed := True\<rparr>) (filter (deliverable now) (as_pending (state_at s (state_key a t)))),
      put_state (state_key a t) ((state_at s (state_key a t))\<lparr>as_pending := []\<rparr>) s)"
  by (simp add: consume_in_memory_def Let_def mark_loop_eq kept_after_marking)

lemma deliverable_kept:
  "filter (\<lambda>i. \<not> is_expired now i \<and> \<not> pi_consumed i \<and> deliverable now i) is = filter (deliverable now) is"
  by (rule filter_cong) (auto simp: deliverable_def)

interpretation mem_store: control_store
  "\<lambda>k k'. state_key (fst k) (snd k) = state_key (fst k') (snd k')"
  "\<lambda>s k. as_paused (state_at s (state_key (fst k) (snd k)))"
  "\<lambda>s k. as_pending (state_at s (state_key (fst k) (snd k)))"
  "\<lambda>k. set_paused_in_memory (fst k) (snd k)"
  "\<lambda>now k. consume_in_memory now (fst k) (snd k)"
  "\<lambda>now k. cleanup_in_memory now (fst k) (snd k)"
proof (unfold_locales, goal_cases)
  case (7 now k s k')
  show ?case by (simp add: cleanup_in_memory_def Let_def deliverable_kept)
qed (simp_all add: set_paused_in_memory_def consume_in_memory_eq cleanup_in_memory_def Let_def fun_eq_iff)

definition db_paused :: "db_control \<Rightarrow> string \<times> string \<Rightarrow> bool" where
  "db_paused s k = (dc_agents s (snd k, fst k) = Some True)"

definition db_pending :: "db_control \<Rightarrow> string \<times> string \<Rightarrow> pending_instruction list" where
  "db_pending s k = map ir_instruction (open_rows (fst k) (snd k) s)"

lemma consume_row_keeps: "row_of a t (consume_row now a' t' r) = row_of a t r"
  by (simp add: consume_row_def row_of_def)

lemma consume_row_other: "(a, t) \<noteq> (a', t') \<Longrightarrow> row_of a t r \<Longrightarrow> consume_row now a' t' r = r"
  by (auto simp: consume_row_def row_of_def)

lemma consume_row_open:
  "row_of a t r \<Longrightarrow> (\<not> pi_consumed (ir_instruction (consume_row now a t r)))
     = (\<not> pi_consumed (ir_instruction r) \<and> \<not> now < pi_expires (ir_instruction r))"
  by (simp add: consume_row_def)

lemma db_pending_consume_other:
  "(a, t) \<noteq> (a', t') \<Longrightarrow>
   map ir_instruction (filter (\<lambda>r. row_of a t r \<and> \<not> pi_consumed (ir_instruction r)) (map (consume_row now a' t') rows)) =
   map ir_instruction (filter (\<lambda>r. row_of a t r \<and> \<not> pi_consumed (ir_instruction r)) rows)"
proof -
  assume "(a, t) \<noteq> (a', t')"
  then have c: "row_of a t r \<Longrightarrow> consume_row now a' t' r = r" for r by (rule consume_row_other)
  show ?thesis
  proof (induction rows)
    case (Cons r rows)
    then show ?case by (cases "row_of a t r") (simp_all add: consume_row_keeps c)
  qed simp
qed

lemma db_rows_consume [simp]: "dc_rows (snd (consume_in_db now a t s)) = map (consume_row now a t) (dc_rows s)"
  by (simp add: consume_in_db_def)

lemma db_rows_cleanup:
  "dc_rows (snd (cleanup_in_db now a t s)) = filter (\<lambda>r. \<not> (row_of a t r \<and> pi_expires (ir_instruction r) \<le> now)) (dc_rows s)"
  by (simp add: cleanup_in_db_def Let_def)

lemma db_pending_consume_same:
  "filter (deliverable now) (map ir_instruction (filter (\<lambda>r. row_of a t r \<and> \<not> pi_consumed (ir_instruction r))
     (map (consume_row now a t) rows))) = []"
proof -
  have "\<not> deliverable now (ir_instruction (consume_row now a t r))" if "row_of a t r" for r
    using that by (auto simp: consume_row_def deliverable_def is_expired_def)
  then show ?thesis by (induction rows) (simp_all add: consume_row_keeps)
qed

lemma db_delivered:
  "map (\<lambda>r. (ir_instruction r)\<lparr>pi_consumed := True\<rparr>)
     (filter (\<lambda>r. row_of a t r \<and> \<not> pi_consumed (ir_instruction r) \<and> now < pi_expires (ir_instruction r)) rows) =
   map (\<lambda>i. i\<lparr>pi_consumed := True\<rparr>) (filter (deliverable now)
     (map ir_instruction (filter (\<lambda>r. row_of a t r \<and> \<not> pi_consumed (ir_instruction r)) rows)))"
  by (induction rows) (auto simp: deliverable_def is_expired_def)

lemma db_cleanup_delivers:
  "filter (deliverable now) (map ir_instruction (filter (\<lambda>r. row_of a t r \<and> \<not> pi_consumed (ir_instruction r))
      (filter (\<lambda>r. \<not> (row_of a' t' r \<and> pi_expires (ir_instruction r) \<le> now)) rows))) =
   filter (deliverable now) (map ir_instruction (filter (\<lambda>r. row_of a t r \<and> \<not> pi_consumed (ir_instruction r)) rows))"
  by (induction rows) (auto simp: deliverable_def is_expired_def)

interpretation db_store: control_store
  "\<lambda>k k'. k = k'" db_paused db_pending
  "\<lambda>k. set_paused_in_db (fst k) (snd k)"
  "\<lambda>now k. consume_in_db now (fst k) (snd k)"
  "\<lambda>now k. cleanup_in_db now (fst k) (snd k)"
proof (unfold_locales, goal_cases)
  case (1 k b s k')
  then show ?case by (cases k; cases k') (auto simp: db_paused_def set_paused_in_db_def)
next
  case (4 now k s)
  show ?case by (simp only: db_pending_def open_rows_def db_rows_consume db_pending_consume_same)
next
  case (5 k k' now s)
  then have "(fst k', snd k') \<noteq> (fst k, snd k)" by (cases k; cases k') auto
  then show ?case
    unfolding db_pending_def open_rows_def db_rows_consume by (rule db_pending_consume_other)
next
  case (7 now k s k')
  show ?case unfolding db_pending_def open_rows_def db_rows_cleanup by (rule db_cleanup_delivers)
qed (simp_all add: db_paused_def [abs_def] db_pending_def [abs_def] open_rows_def set_paused_in_db_def consume_in_db_def
    cleanup_in_db_def db_delivered db_cleanup_delivers Let_def)

subsection \<open>Properties\<close>



text \<open>
  Pausing is per agent and tenant: in both backends a pause or resume is what the next
  read of the same agent and tenant shows, no other agent's flag and no pending instruction
  changes, and consuming or cleaning up instructions never changes a flag.
\<close>

theorem pause_isolated:
  "as_paused (fst (get_in_memory a' t' (set_paused_in_memory a t b m))) =
     (if state_key a t = state_key a' t' then b else as_paused (fst (get_in_memory a' t' m)))
   \<and> as_pending (fst (get_in_memory a' t' (set_paused_in_memory a t b m))) = as_pending (fst (get_in_memory a' t' m))
   \<and> as_paused (fst (get_in_memory a' t' (snd (consume_in_memory now a t m)))) = as_paused (fst (get_in_memory a' t' m))
   \<and> as_paused (fst (get_from_db a' t' (set_paused_in_db a t b d))) =
     (if (a, t) = (a', t') then b else as_paused (fst (get_from_db a' t' d)))
   \<and> as_paused (fst (get_from_db a' t' (snd (consume_in_db now a t d)))) = as_paused (fst (get_from_db a' t' d))"
proof -
  have get: "fst (get_in_memory a' t' x) = state_at x (state_key a' t')" for x
    by (simp add: get_in_memory_def Let_def)
  have db: "as_paused (fst (get_from_db a' t' x)) = db_paused x (a', t')" for x
    by (auto simp: get_from_db_def db_paused_def Let_def split: option.split)
  note c = mem_store.consume_paused [of now "(a, t)" m, THEN fun_cong, of "(a', t')"]
  note e = db_store.consume_paused [of now "(a, t)" d, THEN fun_cong, of "(a', t')"]
  show ?thesis
    unfolding get db
    using mem_store.paused_set [of "(a, t)" b m "(a', t')"] mem_store.pending_set [of "(a, t)" b m, THEN fun_cong, of "(a', t')"]
      db_store.paused_set [of "(a, t)" b d "(a', t')"] c e
    by simp
qed

text \<open>
  The in-memory queue of instructions is a bounded FIFO: with a limit \<open>m\<close> of at least one
  and at most \<open>m\<close> instructions pending, adding one never raises, keeps at most \<open>m\<close>, and drops
  exactly the oldest when it was full.
\<close>

theorem instruction_queue_bounded:
  assumes "1 \<le> mc_max s" and "int (length (as_pending (state_at s (state_key a t)))) \<le> mc_max s"
  shows "let pend = as_pending (state_at s (state_key a t)); (e, s') = add_instruction_in_memory a t i s;
             pend' = as_pending (state_at s' (state_key a t))
    in e = None \<and> int (length pend') \<le> mc_max s'
       \<and> pend' = (if int (length pend) = mc_max s then tl pend else pend) @ [i]"
  using assms
  by (cases "as_pending (state_at s (state_key a t))")
    (auto simp: add_instruction_in_memory_def Let_def put_state_def state_at_def)

theorem instruction_queue_bounded_witness:
  "map pi_content (as_pending (state_at (snd (add_instruction_in_memory ''a'' ''t'' (instruction_create 2 ''new'' ''op'' SrcApi 60)
      \<lparr>mc_max = 1, mc_states = [state_key ''a'' ''t'' \<mapsto> \<lparr>as_paused = False, as_pending = [instruction_create 1 ''old'' ''op'' SrcCli 60]\<rparr>]\<rparr>))
      (state_key ''a'' ''t''))) = [''new'']"
proof -
  let ?s = "\<lparr>mc_max = 1, mc_states = [state_key ''a'' ''t'' \<mapsto> \<lparr>as_paused = False, as_pending = [instruction_create 1 ''old'' ''op'' SrcCli 60]\<rparr>]\<rparr>"
  have "1 \<le> mc_max ?s" "int (length (as_pending (state_at ?s (state_key ''a'' ''t'')))) \<le> mc_max ?s"
    by (simp_all add: state_at_def)
  from instruction_queue_bounded [OF this, of "instruction_create 2 ''new'' ''op'' SrcApi 60"] show ?thesis
    by (auto simp: case_prod_beta Let_def state_at_def instruction_create_def)
qed

text \<open>With a limit of zero the first instruction of an agent raises in memory; in the database it is stored.\<close>

lemma zero_limit_raises:
  "mc_max s = 0 \<Longrightarrow> as_pending (state_at s (state_key a t)) = [] \<Longrightarrow>
     fst (add_instruction_in_memory a t i s) = Some (IndexError ''pop from empty list'')"
  by (simp add: add_instruction_in_memory_def Let_def)

lemma zero_limit_db:
  "dc_max s = 0 \<Longrightarrow> open_rows a t s = [] \<Longrightarrow> db_pending (add_instruction_in_db u a t i s) (a, t) = (if pi_consumed i then [] else [i])"
  by (simp add: add_instruction_in_db_def db_pending_def open_rows_def delete_oldest_def Let_def row_of_def sort_asc_def)

text \<open>
  The two backends name agents differently: in memory the identifiers are stripped, in the
  database they are compared as they are.
\<close>

lemma backends_differ_on_spaces:
  "as_paused (fst (get_in_memory ''a'' ''t'' (set_paused_in_memory '' a'' ''t'' True \<lparr>mc_max = 1, mc_states = Map.empty\<rparr>))) = True"
  "as_paused (fst (get_from_db ''a'' ''t'' (set_paused_in_db '' a'' ''t'' True \<lparr>dc_max = 1, dc_agents = Map.empty, dc_rows = []\<rparr>))) = False"
  by code_simp+

end
