(* ===== verification/Signals.thy ===== *)
theory Signals
  imports SignalState Ledger
begin

section \<open>Signals: handlers, router, HTTP endpoint, MCP tools\<close>

text \<open>
  \<open>owlclaw/triggers/signal/handlers.py\<close>, \<open>router.py\<close>, \<open>api.py\<close> and \<open>mcp.py\<close>, over the
  in-memory state and the in-memory ledger. What a dispatch meets outside is in
  \<open>signal_env\<close>: the answer of the authorizer, the callbacks, governance, the agent runtime,
  the clock. The calls made to the runtime are kept in \<open>sw_events\<close>.
\<close>

record signal =
  sg_type :: signal_type
  sg_source :: signal_source
  sg_agent :: string
  sg_tenant :: string
  sg_operator :: string
  sg_message :: string
  sg_focus :: "string option"
  sg_ttl :: int
  sg_id :: uuid

record signal_result =
  sr_status :: string
  sr_message :: "string option"
  sr_run :: "string option"
  sr_code :: "string option"

definition plain_result :: "string \<Rightarrow> signal_result" where
  "plain_result status = \<lparr>sr_status = status, sr_message = None, sr_run = None, sr_code = None\<rparr>"

definition error_result :: "string \<Rightarrow> string \<Rightarrow> signal_result" where
  "error_result code message = \<lparr>sr_status = ''error'', sr_message = Some message, sr_run = None, sr_code = Some code\<rparr>"

record signal_env =
  se_authorizer :: "(py_error + bool \<times> string option) option"
  se_registered :: "signal_type list"
  se_on_pause :: "py_error option"
  se_on_resume :: "py_error option"
  se_governance :: "(py_error + bool) option"
  se_runtime :: "py_error + string option"
  se_default_ttl :: int
  se_now :: micros
  se_rec_id :: uuid
  se_rec_time :: micros

record signal_world =
  sw_control :: mem_control
  sw_ledger :: "memory_ledger option"
  sw_events :: "(string \<times> string \<times> string option \<times> string) list"

fun source_value :: "signal_source \<Rightarrow> string" where
  "source_value SrcCli = ''cli''"
| "source_value SrcApi = ''api''"
| "source_value SrcMcp = ''mcp''"

fun type_value :: "signal_type \<Rightarrow> string" where
  "type_value SigPause = ''pause''"
| "type_value SigResume = ''resume''"
| "type_value SigTrigger = ''trigger''"
| "type_value SigInstruct = ''instruct''"

subsection \<open>Handlers\<close>

text \<open>A callback may raise after the state has changed.\<close>

definition pause_handle :: "signal_env \<Rightarrow> signal \<Rightarrow> signal_world \<Rightarrow> (py_error + signal_result) \<times> signal_world" where
  "pause_handle env sg w =
     (let (current, c1) = get_in_memory (sg_agent sg) (sg_tenant sg) (sw_control w) in
      if as_paused current then (Inr (plain_result ''already_paused''), w\<lparr>sw_control := c1\<rparr>)
      else (case se_on_pause env of
          Some e \<Rightarrow> (Inl e, w\<lparr>sw_control := set_paused_in_memory (sg_agent sg) (sg_tenant sg) True c1\<rparr>)
        | None \<Rightarrow> (Inr (plain_result ''paused''),
                   w\<lparr>sw_control := set_paused_in_memory (sg_agent sg) (sg_tenant sg) True c1\<rparr>)))"

definition resume_handle :: "signal_env \<Rightarrow> signal \<Rightarrow> signal_world \<Rightarrow> (py_error + signal_result) \<times> signal_world" where
  "resume_handle env sg w =
     (let (current, c1) = get_in_memory (sg_agent sg) (sg_tenant sg) (sw_control w) in
      if \<not> as_paused current then (Inr (plain_result ''already_running''), w\<lparr>sw_control := c1\<rparr>)
      else (case se_on_resume env of
          Some e \<Rightarrow> (Inl e, w\<lparr>sw_control := set_paused_in_memory (sg_agent sg) (sg_tenant sg) False c1\<rparr>)
        | None \<Rightarrow> (Inr (plain_result ''resumed''),
                   w\<lparr>sw_control := set_paused_in_memory (sg_agent sg) (sg_tenant sg) False c1\<rparr>)))"

definition trigger_handle :: "signal_env \<Rightarrow> signal \<Rightarrow> signal_world \<Rightarrow> (py_error + signal_result) \<times> signal_world" where
  "trigger_handle env sg w =
     (case (case se_governance env of None \<Rightarrow> Inr True | Some answer \<Rightarrow> answer) of
        Inl e \<Rightarrow> (Inl e, w)
      | Inr allowed \<Rightarrow>
          if \<not> allowed then (Inr (error_result ''rate_limited'' ''governance_blocked''), w)
          else (let w1 = w\<lparr>sw_events := sw_events w @ [(sg_message sg, source_value (sg_source sg), sg_focus sg, sg_tenant sg)]\<rparr>
            in case se_runtime env of
                 Inl e \<Rightarrow> (Inl e, w1)
               | Inr run_id \<Rightarrow> (Inr ((plain_result ''triggered'')\<lparr>sr_run := run_id\<rparr>), w1)))"

definition instruct_handle :: "signal_env \<Rightarrow> signal \<Rightarrow> signal_world \<Rightarrow> (py_error + signal_result) \<times> signal_world" where
  "instruct_handle env sg w =
     (let ttl_seconds = (if sg_ttl sg > 0 then sg_ttl sg else se_default_ttl env);
          instruction = instruction_create (se_now env) (sg_message sg) (sg_operator sg) (sg_source sg) ttl_seconds
      in case add_instruction_in_memory (sg_agent sg) (sg_tenant sg) instruction (sw_control w) of
           (Some e, c1) \<Rightarrow> (Inl e, w\<lparr>sw_control := c1\<rparr>)
         | (None, c1) \<Rightarrow> (Inr (plain_result ''instruction_queued''), w\<lparr>sw_control := c1\<rparr>))"

fun run_handler :: "signal_env \<Rightarrow> signal \<Rightarrow> signal_type \<Rightarrow> signal_world \<Rightarrow> (py_error + signal_result) \<times> signal_world" where
  "run_handler env sg SigPause w = pause_handle env sg w"
| "run_handler env sg SigResume w = resume_handle env sg w"
| "run_handler env sg SigTrigger w = trigger_handle env sg w"
| "run_handler env sg SigInstruct w = instruct_handle env sg w"

subsection \<open>Router\<close>

definition opt_text :: "string option \<Rightarrow> pyval" where
  "opt_text o1 = (case o1 of None \<Rightarrow> PNone | Some s \<Rightarrow> PStr s)"

definition signal_call :: "signal \<Rightarrow> signal_result \<Rightarrow> string \<Rightarrow> exec_call" where
  "signal_call sg res status =
     \<lparr>xc_tenant = PStr (sg_tenant sg), xc_agent = PStr (sg_agent sg), xc_run = PStr (''signal-'' @ sg_id sg),
      xc_capability = PStr (''signal.'' @ type_value (sg_type sg)), xc_task = PStr ''signal'',
      xc_input = PDict [(PStr ''source'', PStr (source_value (sg_source sg))), (PStr ''operator'', PStr (sg_operator sg)),
        (PStr ''message'', PStr (sg_message sg)), (PStr ''focus'', opt_text (sg_focus sg))],
      xc_output = PDict [(PStr ''status'', PStr (sr_status res)), (PStr ''message'', opt_text (sr_message res)),
        (PStr ''run_id'', opt_text (sr_run res)), (PStr ''error_code'', opt_text (sr_code res))],
      xc_reasoning = Some ''manual_signal_operation'', xc_time_ms = 0, xc_model = [], xc_tokens_in = 0, xc_tokens_out = 0,
      xc_cost = 0, xc_status = status, xc_error = (if status = ''failed'' then sr_message res else None),
      xc_weight = None, xc_mode = None, xc_risk = None, xc_approver = None, xc_approved_at = None\<rparr>"

text \<open>An exception of the ledger is suppressed.\<close>

definition signal_record :: "signal_env \<Rightarrow> signal \<Rightarrow> signal_result \<Rightarrow> string \<Rightarrow> signal_world \<Rightarrow> signal_world" where
  "signal_record env sg res status w =
     (case sw_ledger w of
        None \<Rightarrow> w
      | Some l \<Rightarrow>
          (case mem_record_execution (se_rec_id env) (se_rec_time env) (signal_call sg res status) l of
             Inl e \<Rightarrow> w
           | Inr l' \<Rightarrow> w\<lparr>sw_ledger := Some l'\<rparr>))"

definition dispatch :: "signal_env \<Rightarrow> signal \<Rightarrow> signal_world \<Rightarrow> (py_error + signal_result) \<times> signal_world" where
  "dispatch env sg w =
     (case (case se_authorizer env of None \<Rightarrow> Inr (True, None) | Some answer \<Rightarrow> answer) of
        Inl e \<Rightarrow> (Inl e, w)
      | Inr (allowed, reason) \<Rightarrow>
          if \<not> allowed then
            (let res = error_result ''unauthorized''
                   (case reason of Some m \<Rightarrow> if m \<noteq> [] then m else ''unauthorized'' | None \<Rightarrow> ''unauthorized'')
             in (Inr res, signal_record env sg res ''blocked'' w))
          else if sg_type sg \<notin> set (se_registered env) then
            (let res = error_result ''bad_request'' ''unsupported_signal''
             in (Inr res, signal_record env sg res ''failed'' w))
          else (case run_handler env sg (sg_type sg) w of
             (Inr res, w1) \<Rightarrow> (Inr res, signal_record env sg res ''success'' w1)
           | (Inl e, w1) \<Rightarrow>
               (let res = error_result ''bad_request'' ''Operation failed.''
                in (Inr res, signal_record env sg res ''failed'' w1))))"

subsection \<open>HTTP endpoint\<close>

text \<open>
  The body as the request model validates it (\<open>None\<close> when it refuses the body), the answer
  of the authentication provider (\<open>None\<close> when there is no provider), and the tenant header.
\<close>

record api_payload =
  ap_type :: signal_type
  ap_agent :: string
  ap_tenant :: string
  ap_operator :: "string option"
  ap_message :: string
  ap_focus :: "string option"
  ap_ttl :: int

record auth_answer =
  aa_ok :: bool
  aa_identity :: "string option"
  aa_reason :: "string option"

datatype api_response = ApiError int string string | ApiResult int signal_result | ApiRaised py_error

definition or_text :: "string option \<Rightarrow> string \<Rightarrow> string" where
  "or_text o1 d = (case o1 of None \<Rightarrow> d | Some s \<Rightarrow> if s \<noteq> [] then s else d)"

definition api_signal :: "uuid \<Rightarrow> api_payload \<Rightarrow> string \<Rightarrow> string \<Rightarrow> signal" where
  "api_signal i p operator tenant_id =
     \<lparr>sg_type = ap_type p, sg_source = SrcApi, sg_agent = ap_agent p, sg_tenant = tenant_id, sg_operator = operator,
      sg_message = ap_message p, sg_focus = ap_focus p, sg_ttl = ap_ttl p, sg_id = i\<rparr>"

definition api_dispatch :: "signal_env \<Rightarrow> signal \<Rightarrow> signal_world \<Rightarrow> api_response \<times> signal_world" where
  "api_dispatch env sg w =
     (case dispatch env sg w of
        (Inl e, w1) \<Rightarrow> (ApiRaised e, w1)
      | (Inr res, w1) \<Rightarrow>
          (ApiResult (if sr_code res = Some ''unauthorized'' then 403 else if sr_code res = None then 200 else 400) res, w1))"

definition api_endpoint ::
  "signal_env \<Rightarrow> uuid \<Rightarrow> bool \<Rightarrow> auth_answer option \<Rightarrow> api_payload option \<Rightarrow> string \<Rightarrow> signal_world
     \<Rightarrow> api_response \<times> signal_world" where
  "api_endpoint env i require_auth auth body tenant_header0 w =
     (if require_auth \<and> auth = None then (ApiError 401 ''unauthorized'' ''auth_provider_missing'', w)
      else if require_auth \<and> \<not> aa_ok (the auth) then
        (ApiError 401 ''unauthorized'' (or_text (aa_reason (the auth)) ''auth_failed''), w)
      else (let auth_identity = (if require_auth then aa_identity (the auth) else None) in
        case body of
          None \<Rightarrow> (ApiError 400 ''bad_request'' ''invalid_request'', w)
        | Some p \<Rightarrow>
            (let operator = (if py_strip (or_text (ap_operator p) []) \<noteq> [] then py_strip (or_text (ap_operator p) [])
                    else or_text auth_identity ''api'');
                 tenant_header = py_strip tenant_header0
             in if ap_type p = SigInstruct \<and> py_strip (ap_message p) = []
                then (ApiError 400 ''bad_request'' ''message_required_for_instruct'', w)
                else if require_auth \<and> tenant_header = [] then (ApiError 403 ''unauthorized'' ''tenant_binding_required'', w)
                else if require_auth \<and> tenant_header \<noteq> ap_tenant p then (ApiError 403 ''unauthorized'' ''tenant_mismatch'', w)
                else api_dispatch env (api_signal i p operator (if require_auth then tenant_header else ap_tenant p)) w)))"

subsection \<open>MCP tools\<close>

definition mcp_signal :: "uuid \<Rightarrow> signal_type \<Rightarrow> string \<Rightarrow> string \<Rightarrow> string \<Rightarrow> string \<Rightarrow> string option \<Rightarrow> int \<Rightarrow> signal" where
  "mcp_signal i ty agent_id tenant_id operator message focus ttl =
     \<lparr>sg_type = ty, sg_source = SrcMcp, sg_agent = agent_id, sg_tenant = tenant_id, sg_operator = operator,
      sg_message = message, sg_focus = focus, sg_ttl = ttl, sg_id = i\<rparr>"

definition mcp_pause where
  "mcp_pause env i agent_id tenant_id operator w = dispatch env (mcp_signal i SigPause agent_id tenant_id operator [] None 3600) w"

definition mcp_resume where
  "mcp_resume env i agent_id tenant_id operator w = dispatch env (mcp_signal i SigResume agent_id tenant_id operator [] None 3600) w"

definition mcp_trigger where
  "mcp_trigger env i agent_id message focus tenant_id operator w =
     dispatch env (mcp_signal i SigTrigger agent_id tenant_id operator message focus 3600) w"

definition mcp_instruct where
  "mcp_instruct env i agent_id message ttl tenant_id operator w =
     (if py_strip message = [] then
        (Inr \<lparr>sr_status = ''error'', sr_message = Some ''message_required'', sr_run = None, sr_code = Some ''bad_request''\<rparr>, w)
      else dispatch env (mcp_signal i SigInstruct agent_id tenant_id operator message None ttl) w)"

subsection \<open>The audit record\<close>

definition signal_named :: "signal \<Rightarrow> bool" where
  "signal_named sg \<longleftrightarrow> py_strip (sg_tenant sg) \<noteq> [] \<and> py_strip (sg_agent sg) \<noteq> []"

lemma signal_record_named:
  assumes "signal_named sg" and "sw_ledger w = Some l"
  shows "\<exists>r. signal_record env sg res status w = w\<lparr>sw_ledger := Some (mem_append r l)\<rparr>
    \<and> lr_tenant r = py_strip (sg_tenant sg) \<and> lr_agent r = py_strip (sg_agent sg) \<and> lr_status r = status"
proof -
  let ?x = "signal_call sg res status"
  have "\<not> py_space CHR ''s''" by code_simp
  then have n: "py_strip (''signal-'' @ sg_id sg) \<noteq> []" "py_strip (''signal.'' @ type_value (sg_type sg)) \<noteq> []"
    "py_strip ''signal'' \<noteq> []"
    by (simp_all add: py_strip_Cons_nonempty)
  have "require_ids ?x = Inr (py_strip (sg_tenant sg), py_strip (sg_agent sg), py_strip (''signal-'' @ sg_id sg),
      py_strip (''signal.'' @ type_value (sg_type sg)), py_strip ''signal'')"
    using assms(1) n by (simp add: require_ids_def require_text_def signal_named_def Let_def signal_call_def)
  from mem_record_execution_Inr [OF this, of "se_rec_id env" "se_rec_time env" l] assms(2) show ?thesis
    unfolding signal_record_def
    by (intro exI conjI; (simp only: option.case sum.case; rule refl)?) (simp_all add: make_record_def signal_call_def)
qed

lemma handlers_keep_ledger: "sw_ledger (snd (run_handler env sg ty w)) = sw_ledger w"
  by (cases ty) (simp_all add: pause_handle_def resume_handle_def trigger_handle_def instruct_handle_def Let_def
      case_prod_beta split: option.split sum.split)

subsection \<open>Properties\<close>

text \<open>What the audit trail calls the outcome of a dispatch.\<close>

definition audit_status :: "signal_env \<Rightarrow> signal \<Rightarrow> signal_world \<Rightarrow> bool \<Rightarrow> string" where
  "audit_status env sg w allowed =
     (if \<not> allowed then ''blocked''
      else if sg_type sg \<notin> set (se_registered env) then ''failed''
      else (case fst (run_handler env sg (sg_type sg) w) of Inl e \<Rightarrow> ''failed'' | Inr r \<Rightarrow> ''success''))"


definition sample_signal :: signal where
  "sample_signal = \<lparr>sg_type = SigTrigger, sg_source = SrcApi, sg_agent = ''a'', sg_tenant = ''t'', sg_operator = ''op'',
     sg_message = ''m'', sg_focus = None, sg_ttl = 60, sg_id = ''1''\<rparr>"

definition sample_signal_env :: signal_env where
  "sample_signal_env = \<lparr>se_authorizer = None, se_registered = [SigPause, SigResume, SigTrigger, SigInstruct],
     se_on_pause = None, se_on_resume = None, se_governance = Some (Inr False), se_runtime = Inr None,
     se_default_ttl = 3600, se_now = 0, se_rec_id = ''r'', se_rec_time = 0\<rparr>"

definition sample_signal_world :: signal_world where
  "sample_signal_world = \<lparr>sw_control = \<lparr>mc_max = 10, mc_states = Map.empty\<rparr>, sw_ledger = Some (memory_ledger_new 10),
     sw_events = []\<rparr>"

lemma sample_signal_named: "signal_named sample_signal"
proof -
  have "py_strip ''a'' \<noteq> []" "py_strip ''t'' \<noteq> []" by code_simp+
  then show ?thesis by (simp add: signal_named_def sample_signal_def)
qed


text \<open>
  An authenticated endpoint binds signals to the caller's tenant: with authentication
  required, either nothing changes and the answer is an error of class 400, or the provider
  accepted the request, the stripped tenant header is not empty and equals the tenant of the
  body, and the signal dispatched carries that tenant.
\<close>

theorem api_binds_tenant:
  "(\<exists>code err why. api_endpoint env i True auth body header w = (ApiError code err why, w) \<and> code \<in> {400, 401, 403})
   \<or> (\<exists>a p op. auth = Some a \<and> aa_ok a \<and> body = Some p \<and> py_strip header \<noteq> [] \<and> py_strip header = ap_tenant p
        \<and> api_endpoint env i True auth body header w = api_dispatch env (api_signal i p op (ap_tenant p)) w)"
proof (cases "auth = None \<or> \<not> aa_ok (the auth) \<or> body = None")
  case True
  then show ?thesis by (auto simp: api_endpoint_def Let_def)
next
  case False
  then obtain a p where "auth = Some a" "aa_ok a" "body = Some p" by auto
  then show ?thesis by (auto simp: api_endpoint_def Let_def)
qed

text \<open>
  A trigger that governance refuses is an error for its caller but a success in the
  audit trail: the answer carries the code rate_limited, nothing is run, and the ledger
  record says success.
\<close>

theorem refused_trigger_audited_as_success:
  assumes "signal_named sg" and "sw_ledger w = Some l" and "se_authorizer env = None"
    and "sg_type sg = SigTrigger" and "SigTrigger \<in> set (se_registered env)" and "se_governance env = Some (Inr False)"
  shows "fst (dispatch env sg w) = Inr (error_result ''rate_limited'' ''governance_blocked'')
    \<and> sw_events (snd (dispatch env sg w)) = sw_events w
    \<and> (\<exists>r. sw_ledger (snd (dispatch env sg w)) = Some (mem_append r l) \<and> lr_status r = ''success'')"
  using signal_record_named [OF assms(1,2), of env "error_result ''rate_limited'' ''governance_blocked''" "''success''"] assms(2-)
  by (auto simp: dispatch_def trigger_handle_def)

theorem refused_trigger_audited_as_success_witness:
  "fst (dispatch sample_signal_env sample_signal sample_signal_world)
     = Inr (error_result ''rate_limited'' ''governance_blocked'')"
  by (rule refused_trigger_audited_as_success [OF sample_signal_named, THEN conjunct1])
    (simp_all add: sample_signal_world_def sample_signal_env_def sample_signal_def)

text \<open>
  An instruction reaches the agent: after an instruct signal is accepted, the agent's
  next consumption before the instruction expires ends with it, marked consumed, with the
  message and the operator of the signal; a lifetime that is not positive is the default.
\<close>

theorem instruction_delivered:
  assumes "fst (instruct_handle env sg w) = Inr res"
    and "now < se_now env + secs (if sg_ttl sg > 0 then sg_ttl sg else se_default_ttl env)"
  shows "let c = sw_control (snd (instruct_handle env sg w));
             out = fst (consume_in_memory now (sg_agent sg) (sg_tenant sg) c)
    in out \<noteq> [] \<and> pi_content (last out) = sg_message sg \<and> pi_operator (last out) = sg_operator sg \<and> pi_consumed (last out)"
proof -
  let ?i = "instruction_create (se_now env) (sg_message sg) (sg_operator sg) (sg_source sg)
      (if sg_ttl sg > 0 then sg_ttl sg else se_default_ttl env)"
  let ?k = "state_key (sg_agent sg) (sg_tenant sg)"
  have d: "deliverable now ?i" using assms(2) by (simp add: deliverable_def is_expired_def instruction_create_def)
  obtain ys where "as_pending (state_at (sw_control (snd (instruct_handle env sg w))) ?k) = ys @ [?i]"
    using assms(1)
    by (cases "as_pending (state_at (sw_control w) ?k)")
      (auto simp: instruct_handle_def add_instruction_in_memory_def Let_def split: if_splits)
  then show ?thesis
    using d by (simp add: consume_in_memory_eq Let_def last_map) (simp add: instruction_create_def)
qed

theorem instruction_delivered_witness:
  "pi_content (last (fst (consume_in_memory 5 ''a'' ''t''
      (sw_control (snd (instruct_handle sample_signal_env sample_signal sample_signal_world)))))) = ''m''"
proof -
  have "fst (instruct_handle sample_signal_env sample_signal sample_signal_world) = Inr (plain_result ''instruction_queued'')"
    by (simp add: instruct_handle_def sample_signal_env_def sample_signal_def sample_signal_world_def
        add_instruction_in_memory_def state_at_def agent_state_new_def Let_def)
  moreover have "5 < se_now sample_signal_env
      + secs (if sg_ttl sample_signal > 0 then sg_ttl sample_signal else se_default_ttl sample_signal_env)"
    by (simp add: sample_signal_env_def sample_signal_def secs_def)
  ultimately show ?thesis
    using instruction_delivered [of sample_signal_env sample_signal sample_signal_world "plain_result ''instruction_queued''" 5]
    by (simp add: Let_def) (simp add: sample_signal_def)
qed

end
