(* ===== verification/Regex.thy ===== *)
theory Regex
  imports Prelude
begin

section \<open>Regular expressions\<close>

text \<open>
  The part of Python's \<open>re\<close> that the sources use: a backtracking matcher that gives the matches
  at a position in the order in which \<open>re\<close> tries them, search, and substitution. A text is a
  pair of the character before the position and the rest of the string.
\<close>

subsection \<open>Substitution\<close>

text \<open>
  \<open>re.sub\<close> with a pattern whose match never is empty: \<open>match prev s\<close> is the replacement and
  the length of the match at the head of \<open>s\<close> when the character before it is \<open>prev\<close>. Matches
  are taken from left to right and do not overlap.
\<close>

fun sub_from :: "(char option \<Rightarrow> string \<Rightarrow> (string \<times> nat) option) \<Rightarrow> char option \<Rightarrow> nat \<Rightarrow> string \<Rightarrow> string" where
  "sub_from match prev skip [] = []"
| "sub_from match prev (Suc skip) (c # s) = sub_from match (Some c) skip s"
| "sub_from match prev 0 (c # s) =
     (case match prev (c # s) of
        None \<Rightarrow> c # sub_from match (Some c) 0 s
      | Some (replacement, n) \<Rightarrow> replacement @ sub_from match (Some c) (n - 1) s)"

definition re_sub :: "(char option \<Rightarrow> string \<Rightarrow> (string \<times> nat) option) \<Rightarrow> string \<Rightarrow> string" where
  "re_sub match s = sub_from match None 0 s"

text \<open>\<open>\w\<close> below code point 256, and \<open>\b\<close> between two characters.\<close>

definition word_char :: "char \<Rightarrow> bool" where
  "word_char c = (let n = of_char c :: nat in
     (48 \<le> n \<and> n \<le> 57) \<or> (65 \<le> n \<and> n \<le> 90) \<or> n = 95 \<or> (97 \<le> n \<and> n \<le> 122)
     \<or> n = 170 \<or> n = 178 \<or> n = 179 \<or> n = 181 \<or> (185 \<le> n \<and> n \<le> 186) \<or> (188 \<le> n \<and> n \<le> 190)
     \<or> (192 \<le> n \<and> n \<noteq> 215 \<and> n \<noteq> 247))"

definition opt_word :: "char option \<Rightarrow> bool" where
  "opt_word oc = (case oc of None \<Rightarrow> False | Some c \<Rightarrow> word_char c)"

definition head_char :: "string \<Rightarrow> char option" where
  "head_char s = (case s of [] \<Rightarrow> None | c # _ \<Rightarrow> Some c)"

definition boundary :: "char option \<Rightarrow> string \<Rightarrow> bool" where
  "boundary prev s = (opt_word prev \<noteq> opt_word (head_char s))"

subsection \<open>Patterns\<close>

text \<open>
  A set of characters, the empty pattern, a sequence, a choice, a greedy and a lazy repetition, a
  word boundary, and the beginning of a line of the multiline mode.
\<close>

datatype regex =
    Cls "char \<Rightarrow> bool"
  | Eps
  | Cat regex regex
  | Alt regex regex
  | Rep nat "nat option" regex
  | Lazy nat "nat option" regex
  | Wb
  | Bol

type_synonym re_pos = "char option \<times> string"

text \<open>
  At most \<open>hi\<close> repetitions. Without a bound in the pattern the length of the rest of the text is
  one, because no repeated pattern of the sources matches the empty text.
\<close>

fun iter_greedy :: "(re_pos \<Rightarrow> re_pos list) \<Rightarrow> nat \<Rightarrow> nat \<Rightarrow> re_pos \<Rightarrow> re_pos list" where
  "iter_greedy f lo 0 p = (if lo = 0 then [p] else [])"
| "iter_greedy f lo (Suc hi) p = concat (map (iter_greedy f (lo - 1) hi) (f p)) @ (if lo = 0 then [p] else [])"

fun iter_lazy :: "(re_pos \<Rightarrow> re_pos list) \<Rightarrow> nat \<Rightarrow> nat \<Rightarrow> re_pos \<Rightarrow> re_pos list" where
  "iter_lazy f lo 0 p = (if lo = 0 then [p] else [])"
| "iter_lazy f lo (Suc hi) p = (if lo = 0 then [p] else []) @ concat (map (iter_lazy f (lo - 1) hi) (f p))"

definition upper_bound :: "nat option \<Rightarrow> re_pos \<Rightarrow> nat" where
  "upper_bound hi p = (case hi of None \<Rightarrow> length (snd p) | Some n \<Rightarrow> n)"

primrec re_ends :: "regex \<Rightarrow> re_pos \<Rightarrow> re_pos list" where
  "re_ends (Cls P) p = (case snd p of [] \<Rightarrow> [] | c # s \<Rightarrow> if P c then [(Some c, s)] else [])"
| "re_ends Eps p = [p]"
| "re_ends (Cat a b) p = concat (map (re_ends b) (re_ends a p))"
| "re_ends (Alt a b) p = re_ends a p @ re_ends b p"
| "re_ends (Rep lo hi a) p = iter_greedy (re_ends a) lo (upper_bound hi p) p"
| "re_ends (Lazy lo hi a) p = iter_lazy (re_ends a) lo (upper_bound hi p) p"
| "re_ends Wb p = (if boundary (fst p) (snd p) then [p] else [])"
| "re_ends Bol p = (if fst p = None \<or> fst p = Some CHR 0x0A then [p] else [])"

text \<open>The length of the match at a position, and \<open>pattern.search\<close>.\<close>

definition re_match :: "regex \<Rightarrow> char option \<Rightarrow> string \<Rightarrow> nat option" where
  "re_match r prev s = (case re_ends r (prev, s) of [] \<Rightarrow> None | e # _ \<Rightarrow> Some (length s - length (snd e)))"

fun re_search_from :: "regex \<Rightarrow> char option \<Rightarrow> string \<Rightarrow> bool" where
  "re_search_from r prev [] = (re_match r prev [] \<noteq> None)"
| "re_search_from r prev (c # s) = (re_match r prev (c # s) \<noteq> None \<or> re_search_from r (Some c) s)"

definition re_search :: "regex \<Rightarrow> string \<Rightarrow> bool" where
  "re_search r s = re_search_from r None s"

definition re_replace :: "regex \<Rightarrow> string \<Rightarrow> string \<Rightarrow> string" where
  "re_replace r replacement s = re_sub (\<lambda>prev t. map_option (\<lambda>n. (replacement, n)) (re_match r prev t)) s"

text \<open>Substituting a pattern that the text does not contain changes nothing.\<close>

lemma re_sub_id_from:
  "\<not> re_search_from r prev s \<Longrightarrow> sub_from (\<lambda>prev t. map_option (\<lambda>n. (w, n)) (re_match r prev t)) prev 0 s = s"
  by (induction r prev s rule: re_search_from.induct) auto

lemma re_replace_id: "\<not> re_search r s \<Longrightarrow> re_replace r w s = s"
  by (simp add: re_replace_def re_sub_def re_search_def re_sub_id_from)

subsection \<open>Building patterns\<close>

definition digit_cls :: regex where
  "digit_cls = Cls is_digit"

definition space_cls :: regex where
  "space_cls = Cls py_space"

definition any_cls :: regex where
  "any_cls = Cls (\<lambda>c. c \<noteq> CHR 0x0A)"

definition ascii_letter :: "char \<Rightarrow> bool" where
  "ascii_letter c = (let n = of_char c :: nat in (65 \<le> n \<and> n \<le> 90) \<or> (97 \<le> n \<and> n \<le> 122))"

text \<open>A literal text, exactly and ignoring case; the text is given in lower case.\<close>

fun re_lit :: "string \<Rightarrow> regex" where
  "re_lit [] = Eps"
| "re_lit [c] = Cls (\<lambda>x. x = c)"
| "re_lit (c # s) = Cat (Cls (\<lambda>x. x = c)) (re_lit s)"

fun re_ilit :: "string \<Rightarrow> regex" where
  "re_ilit [] = Eps"
| "re_ilit [c] = Cls (\<lambda>x. lower_char x = c)"
| "re_ilit (c # s) = Cat (Cls (\<lambda>x. lower_char x = c)) (re_ilit s)"

fun re_seq :: "regex list \<Rightarrow> regex" where
  "re_seq [] = Eps"
| "re_seq [r] = r"
| "re_seq (r # rs) = Cat r (re_seq rs)"

fun re_any :: "regex list \<Rightarrow> regex" where
  "re_any [] = Cls (\<lambda>c. False)"
| "re_any [r] = r"
| "re_any (r # rs) = Alt r (re_any rs)"

abbreviation re_opt :: "regex \<Rightarrow> regex" where
  "re_opt \<equiv> Rep 0 (Some 1)"

abbreviation re_star :: "regex \<Rightarrow> regex" where
  "re_star \<equiv> Rep 0 None"

abbreviation re_plus :: "regex \<Rightarrow> regex" where
  "re_plus \<equiv> Rep 1 None"

end
