(* ===== verification/QueueConfig.thy ===== *)
theory QueueConfig
  imports Regex
begin

section \<open>Queue trigger: redaction, configuration, idempotency keys, envelopes\<close>

text \<open>
  \<open>owlclaw/triggers/queue/security.py\<close>, \<open>config.py\<close>, \<open>idempotency.py\<close>, \<open>parsers.py\<close> and
  \<open>models.py\<close>. The locale \<open>idempotency_store\<close> is what the trigger relies on when it asks
  whether a key was processed; it is interpreted on the in-memory store.
\<close>

subsection \<open>Redaction of texts\<close>

definition sensitive_words :: "string list" where
  "sensitive_words = [''password'', ''passwd'', ''pwd'', ''token'', ''api_key'', ''api-key'', ''apikey'', ''secret'']"

text \<open>The first alternative that matches at the head, whatever its case.\<close>

definition keyword_at :: "string \<Rightarrow> nat option" where
  "keyword_at s = map_option length (List.find (\<lambda>w. prefix w (py_lower s)) sensitive_words)"

definition secret_char :: "char \<Rightarrow> bool" where
  "secret_char c = (\<not> py_space c \<and> c \<noteq> CHR '','' \<and> c \<noteq> CHR '';'')"

text \<open>\<open>_KEY_VALUE_PATTERN\<close>: keyword, separator, value; the value becomes three stars.\<close>

definition match_key_value :: "char option \<Rightarrow> string \<Rightarrow> (string \<times> nat) option" where
  "match_key_value prev s =
     (if \<not> boundary prev s then None
      else (case keyword_at s of
         None \<Rightarrow> None
       | Some k \<Rightarrow>
           (let rest = drop k s; gap1 = takeWhile py_space rest; rest1 = dropWhile py_space rest
            in if \<not> boundary (Some (s ! (k - 1))) rest then None
               else if head_char rest1 \<noteq> Some CHR '':'' \<and> head_char rest1 \<noteq> Some CHR ''='' then None
               else (let gap2 = takeWhile py_space (drop 1 rest1); rest2 = dropWhile py_space (drop 1 rest1);
                         secret = takeWhile secret_char rest2
                     in if secret = [] then None
                        else Some (take k s @ take 1 rest1 @ ''***'',
                               k + length gap1 + 1 + length gap2 + length secret)))))"

definition match_bearer :: "char option \<Rightarrow> string \<Rightarrow> (string \<times> nat) option" where
  "match_bearer prev s =
     (if \<not> boundary prev s \<or> \<not> prefix ''bearer'' (py_lower s) then None
      else (let gap = takeWhile py_space (drop 6 s); rest = dropWhile py_space (drop 6 s);
                secret = takeWhile (\<lambda>c. \<not> py_space c) rest
            in if gap = [] \<or> secret = [] then None
               else Some (''Bearer ***'', 6 + length gap + length secret)))"

definition key_char :: "char \<Rightarrow> bool" where
  "key_char c = (let n = of_char c :: nat in
     (48 \<le> n \<and> n \<le> 57) \<or> (65 \<le> n \<and> n \<le> 90) \<or> (97 \<le> n \<and> n \<le> 122) \<or> n = 45)"

text \<open>
  \<open>_OPENAI_KEY_PATTERN\<close>: the longest run of at least eight key characters that ends at a
  word boundary.
\<close>

fun longest_key :: "string \<Rightarrow> nat \<Rightarrow> nat option" where
  "longest_key s n =
     (if n < 8 then None
      else if boundary (Some (s ! (n - 1))) (drop n s) then Some n
      else longest_key s (n - 1))"

declare longest_key.simps [simp del]

definition match_openai_key :: "char option \<Rightarrow> string \<Rightarrow> (string \<times> nat) option" where
  "match_openai_key prev s =
     (if \<not> boundary prev s \<or> \<not> prefix ''sk-'' s then None
      else (case longest_key (drop 3 s) (length (takeWhile key_char (drop 3 s))) of
         None \<Rightarrow> None
       | Some n \<Rightarrow> Some (''sk-***'', 3 + n)))"

definition redact_sensitive_text :: "string \<Rightarrow> string" where
  "redact_sensitive_text text =
     re_sub match_openai_key (re_sub match_bearer (re_sub match_key_value text))"

subsection \<open>Redaction of data\<close>

definition sensitive_keys :: "string list" where
  "sensitive_keys = [''password'', ''passwd'', ''pwd'', ''token'', ''api_key'', ''apikey'', ''secret'']"

definition sensitive_key :: "string \<Rightarrow> bool" where
  "sensitive_key key = list_ex (\<lambda>marker. py_in marker (py_lower key)) sensitive_keys"

text \<open>A key that is not a string has no \<open>lower\<close>.\<close>

fun redact_sensitive_data :: "pyval \<Rightarrow> py_error + pyval"
  and redact_items :: "pyval list \<Rightarrow> py_error + pyval list"
  and redact_entries :: "(pyval \<times> pyval) list \<Rightarrow> py_error + (pyval \<times> pyval) list" where
  "redact_sensitive_data (PDict kvs) = and_then (redact_entries kvs) (\<lambda>r. Inr (PDict r))"
| "redact_sensitive_data (PList xs) = and_then (redact_items xs) (\<lambda>r. Inr (PList r))"
| "redact_sensitive_data (PTuple xs) = and_then (redact_items xs) (\<lambda>r. Inr (PTuple r))"
| "redact_sensitive_data (PStr s) = Inr (PStr (redact_sensitive_text s))"
| "redact_sensitive_data v = Inr v"
| "redact_items [] = Inr []"
| "redact_items (x # xs) =
     and_then (redact_sensitive_data x) (\<lambda>y. and_then (redact_items xs) (\<lambda>ys. Inr (y # ys)))"
| "redact_entries [] = Inr []"
| "redact_entries ((PStr key, item) # kvs) =
     and_then (if sensitive_key key then Inr (PStr ''***'') else redact_sensitive_data item)
       (\<lambda>item'. and_then (redact_entries kvs) (\<lambda>r. Inr ((PStr key, item') # r)))"
| "redact_entries ((k, item) # kvs) = Inl (AttributeError ''lower'')"

subsection \<open>Configuration\<close>

record queue_config =
  qc_queue :: string
  qc_group :: string
  qc_concurrency :: int
  qc_ack_policy :: string
  qc_max_retries :: int
  qc_backoff_base :: rat
  qc_backoff_multiplier :: rat
  qc_window :: int
  qc_dedup :: bool
  qc_parser :: string
  qc_event_header :: string
  qc_default_tenant :: string
  qc_trust_tenant :: bool
  qc_tenant_header :: string
  qc_producer_header :: string
  qc_producers :: "string list option"
  qc_signature_header :: string
  qc_secret_env :: "string option"
  qc_secret_envs :: "string list option"
  qc_fail_open :: bool
  qc_focus :: "string option"
  qc_adapter :: "pyval option"

definition valid_ack_policies :: "string list" where
  "valid_ack_policies = [''ack'', ''nack'', ''requeue'', ''dlq'']"

definition valid_parser_types :: "string list" where
  "valid_parser_types = [''json'', ''text'', ''binary'']"

definition complain :: "bool \<Rightarrow> string \<Rightarrow> string list" where
  "complain bad message = (if bad then [message] else [])"

definition validate_config :: "queue_config \<Rightarrow> string list" where
  "validate_config c =
     complain (py_strip (qc_queue c) = []) ''queue_name is required''
     @ complain (py_strip (qc_group c) = []) ''consumer_group is required''
     @ complain (qc_concurrency c \<le> 0) ''concurrency must be positive''
     @ complain (qc_max_retries c < 0) ''max_retries must be non-negative''
     @ complain (qc_backoff_base c \<le> 0) ''retry_backoff_base must be positive''
     @ complain (qc_backoff_multiplier c < 1) ''retry_backoff_multiplier must be >= 1''
     @ complain (qc_window c \<le> 0) ''idempotency_window must be positive''
     @ complain (qc_ack_policy c \<notin> set valid_ack_policies) ''ack_policy must be one of ['ack', 'dlq', 'nack', 'requeue']''
     @ complain (qc_parser c \<notin> set valid_parser_types) ''parser_type must be one of ['binary', 'json', 'text']''
     @ complain (py_strip (qc_default_tenant c) = []) ''default_tenant_id is required''
     @ complain (py_strip (qc_tenant_header c) = []) ''tenant_header_name is required''
     @ complain (py_strip (qc_producer_header c) = []) ''trusted_producer_header is required''
     @ complain (py_strip (qc_signature_header c) = []) ''tenant_signature_header is required''
     @ complain (case qc_producers c of None \<Rightarrow> False | Some ps \<Rightarrow> list_ex (\<lambda>p. py_strip p = []) ps)
         ''trusted_producers entries must be non-empty strings''
     @ complain (case qc_secret_env c of None \<Rightarrow> False | Some e \<Rightarrow> py_strip e = [])
         ''tenant_signature_secret_env must be non-empty when provided''
     @ complain (case qc_secret_envs c of None \<Rightarrow> False | Some es \<Rightarrow> list_ex (\<lambda>e. py_strip e = []) es)
         ''tenant_signature_secret_envs entries must be non-empty strings''"

text \<open>\<open>${NAME}\<close> in a configured string is replaced by the environment variable, or nothing.\<close>

definition ident_start :: "char \<Rightarrow> bool" where
  "ident_start c = (let n = of_char c :: nat in (65 \<le> n \<and> n \<le> 90) \<or> n = 95 \<or> (97 \<le> n \<and> n \<le> 122))"

definition ident_char :: "char \<Rightarrow> bool" where
  "ident_char c = (ident_start c \<or> is_digit c)"

definition match_env :: "(string \<Rightarrow> string option) \<Rightarrow> char option \<Rightarrow> string \<Rightarrow> (string \<times> nat) option" where
  "match_env env prev s =
     (let name = takeWhile ident_char (drop 2 s); rest = dropWhile ident_char (drop 2 s)
      in if take 2 s = ''${'' \<and> name \<noteq> [] \<and> ident_start (hd name) \<and> head_char rest = Some CHR ''}''
         then Some (case env name of None \<Rightarrow> [] | Some v \<Rightarrow> v, 3 + length name) else None)"

fun replace_env_vars :: "(string \<Rightarrow> string option) \<Rightarrow> pyval \<Rightarrow> pyval" where
  "replace_env_vars env (PDict kvs) = PDict (map (\<lambda>(k, v). (k, replace_env_vars env v)) kvs)"
| "replace_env_vars env (PList xs) = PList (map (replace_env_vars env) xs)"
| "replace_env_vars env (PStr s) = PStr (re_sub (match_env env) s)"
| "replace_env_vars env v = v"

text \<open>\<open>str(v)\<close>; the texts of floats and containers are the argument \<open>repr\<close>.\<close>

fun py_str :: "(pyval \<Rightarrow> string) \<Rightarrow> pyval \<Rightarrow> string" where
  "py_str repr (PStr s) = s"
| "py_str repr (PInt i) = show_int i"
| "py_str repr (PBool b) = (if b then ''True'' else ''False'')"
| "py_str repr PNone = ''None''"
| "py_str repr v = repr v"

definition require_str :: "(pyval \<Rightarrow> string) \<Rightarrow> pyval \<Rightarrow> string \<Rightarrow> string \<Rightarrow> string" where
  "require_str repr config_map key dflt =
     (let v = dict_get_or config_map key (PStr dflt) in if v = PNone then dflt else py_str repr v)"

definition require_int :: "pyval \<Rightarrow> string \<Rightarrow> int \<Rightarrow> py_error + int" where
  "require_int config_map key dflt =
     (case py_int (dict_get_or config_map key (PInt dflt)) of
        Inl e \<Rightarrow> Inl (ValueError (key @ '' must be an integer'')) | Inr i \<Rightarrow> Inr i)"

definition require_float :: "pyval \<Rightarrow> string \<Rightarrow> rat \<Rightarrow> py_error + rat" where
  "require_float config_map key dflt =
     (case py_float (dict_get_or config_map key (PFloat dflt)) of
        Inl e \<Rightarrow> Inl (ValueError (key @ '' must be a number'')) | Inr r \<Rightarrow> Inr r)"

fun bool_value :: "pyval \<Rightarrow> bool option" where
  "bool_value (PBool b) = Some b"
| "bool_value (PInt i) = Some (i \<noteq> 0)"
| "bool_value (PFloat r) = Some (r \<noteq> 0)"
| "bool_value (PStr s) =
     (let lowered = strip_lower s in
      if lowered \<in> set [''1'', ''true'', ''yes'', ''on''] then Some True
      else if lowered \<in> set [''0'', ''false'', ''no'', ''off''] then Some False
      else None)"
| "bool_value v = None"

definition config_bool :: "pyval \<Rightarrow> string \<Rightarrow> bool \<Rightarrow> py_error + bool" where
  "config_bool config_map key dflt =
     (case bool_value (dict_get_or config_map key (PBool dflt)) of
        None \<Rightarrow> Inl (ValueError (key @ '' must be a boolean'')) | Some b \<Rightarrow> Inr b)"

fun stripped_strings :: "pyval list \<Rightarrow> string list option" where
  "stripped_strings [] = Some []"
| "stripped_strings (PStr s # items) =
     map_option (\<lambda>r. if py_strip s = [] then r else py_strip s # r) (stripped_strings items)"
| "stripped_strings (item # items) = None"

definition coerce_str_list :: "pyval \<Rightarrow> string \<Rightarrow> py_error + string list option" where
  "coerce_str_list config_map key =
     (case dict_get_or config_map key PNone of
        PNone \<Rightarrow> Inr None
      | PStr s \<Rightarrow> Inr (Some (filter (\<lambda>i. i \<noteq> []) (map py_strip (py_split CHR '','' s))))
      | PList xs \<Rightarrow>
          (case stripped_strings xs of
             None \<Rightarrow> Inl (ValueError (key @ '' must be a list of strings''))
           | Some ys \<Rightarrow> Inr (Some ys))
      | _ \<Rightarrow> Inl (ValueError (key @ '' must be a list of strings or comma-separated string'')))"

text \<open>
  \<open>load_queue_trigger_config\<close> on the value the YAML parser reads (\<open>None\<close> when the file does
  not exist); the fields are read in the order of the code.
\<close>

definition read_config :: "(pyval \<Rightarrow> string) \<Rightarrow> pyval option \<Rightarrow> pyval \<Rightarrow> py_error + queue_config" where
  "read_config repr adapter m =
     and_then (require_int m ''concurrency'' 1) (\<lambda>concurrency.
     and_then (require_int m ''max_retries'' 3) (\<lambda>max_retries.
     and_then (require_float m ''retry_backoff_base'' 1) (\<lambda>backoff_base.
     and_then (require_float m ''retry_backoff_multiplier'' 2) (\<lambda>multiplier.
     and_then (require_int m ''idempotency_window'' 3600) (\<lambda>window.
     and_then (config_bool m ''enable_dedup'' True) (\<lambda>dedup.
     and_then (config_bool m ''trust_tenant_header'' False) (\<lambda>trust.
     and_then (coerce_str_list m ''trusted_producers'') (\<lambda>producers.
     and_then (coerce_str_list m ''tenant_signature_secret_envs'') (\<lambda>secret_envs.
     and_then (config_bool m ''governance_fail_open'' False) (\<lambda>fail_open.
       Inr \<lparr>qc_queue = require_str repr m ''queue_name'' [], qc_group = require_str repr m ''consumer_group'' [],
            qc_concurrency = concurrency, qc_ack_policy = require_str repr m ''ack_policy'' ''ack'',
            qc_max_retries = max_retries, qc_backoff_base = backoff_base, qc_backoff_multiplier = multiplier,
            qc_window = window, qc_dedup = dedup, qc_parser = require_str repr m ''parser_type'' ''json'',
            qc_event_header = require_str repr m ''event_name_header'' ''x-event-name'',
            qc_default_tenant = require_str repr m ''default_tenant_id'' ''default'', qc_trust_tenant = trust,
            qc_tenant_header = require_str repr m ''tenant_header_name'' ''x-tenant-id'',
            qc_producer_header = require_str repr m ''trusted_producer_header'' ''x-producer-id'',
            qc_producers = producers,
            qc_signature_header = require_str repr m ''tenant_signature_header'' ''x-tenant-signature'',
            qc_secret_env = (if dict_get_or m ''tenant_signature_secret_env'' PNone = PNone then None
              else Some (require_str repr m ''tenant_signature_secret_env'' [])),
            qc_secret_envs = secret_envs, qc_fail_open = fail_open,
            qc_focus = (if dict_get_or m ''focus'' PNone = PNone then None
              else Some (py_str repr (dict_get_or m ''focus'' PNone))),
            qc_adapter = adapter\<rparr>))))))))))"

definition load_queue_trigger_config ::
  "(pyval \<Rightarrow> string) \<Rightarrow> (string \<Rightarrow> string option) \<Rightarrow> pyval option \<Rightarrow> py_error + queue_config" where
  "load_queue_trigger_config repr env file =
     (case file of
        None \<Rightarrow> Inl (RuntimeError ''Config file not found'')
      | Some loaded \<Rightarrow>
          (let raw = or_empty_dict loaded in
           if \<not> is_dict raw then Inl (ValueError ''Queue trigger config root must be a mapping'')
           else (let section = dict_get_or raw ''queue_trigger'' raw in
             if \<not> is_dict section then Inl (ValueError ''queue_trigger section must be a mapping'')
             else (let m = replace_env_vars env section; adapter = dict_get_or m ''adapter'' PNone in
               if adapter \<noteq> PNone \<and> \<not> is_dict adapter then Inl (ValueError ''adapter section must be a mapping'')
               else and_then (read_config repr (if adapter = PNone then None else Some adapter) m) (\<lambda>c.
                 if validate_config c \<noteq> []
                 then Inl (ValueError (''Invalid queue trigger config: '' @ py_join ''; '' (validate_config c)))
                 else Inr c)))))"

subsection \<open>Idempotency keys\<close>

type_synonym mock_store = "string \<rightharpoonup> (pyval \<times> seconds)"

definition purge_expired :: "seconds \<Rightarrow> string \<Rightarrow> mock_store \<Rightarrow> mock_store" where
  "purge_expired now key items =
     (case items key of
        None \<Rightarrow> items
      | Some (value, expires_at) \<Rightarrow> if now \<ge> expires_at then items(key := None) else items)"

definition mock_exists :: "seconds \<Rightarrow> string \<Rightarrow> mock_store \<Rightarrow> bool \<times> mock_store" where
  "mock_exists now key items = (let items1 = purge_expired now key items in (items1 key \<noteq> None, items1))"

definition mock_set :: "seconds \<Rightarrow> string \<Rightarrow> pyval \<Rightarrow> int \<Rightarrow> mock_store \<Rightarrow> mock_store" where
  "mock_set now key value ttl items = items(key \<mapsto> (value, now + rat_of_int (max 1 ttl)))"

definition mock_get :: "seconds \<Rightarrow> string \<Rightarrow> mock_store \<Rightarrow> pyval option \<times> mock_store" where
  "mock_get now key items =
     (let items1 = purge_expired now key items in (map_option fst (items1 key), items1))"

text \<open>
  The contract: a key is seen from the time it is set until its time to live is over, looking
  at a key changes no later answer, and neither operation touches another key.
\<close>

locale idempotency_store =
  fixes look :: "seconds \<Rightarrow> string \<Rightarrow> 's \<Rightarrow> bool \<times> 's"
    and put :: "seconds \<Rightarrow> string \<Rightarrow> pyval \<Rightarrow> int \<Rightarrow> 's \<Rightarrow> 's"
  assumes look_put: "fst (look now k (put t0 k v ttl s)) = (now < t0 + rat_of_int (max 1 ttl))"
    and look_put_other: "k' \<noteq> k \<Longrightarrow> fst (look now k' (put t0 k v ttl s)) = fst (look now k' s)"
    and look_keeps: "fst (look t0 k s) \<Longrightarrow> fst (look now k (snd (look t0 k s))) = fst (look now k s)"
    and look_keeps_other: "k' \<noteq> k \<Longrightarrow> fst (look now k' (snd (look t0 k s))) = fst (look now k' s)"
begin

text \<open>The key is seen at every time before \<open>until\<close>.\<close>

definition known :: "string \<Rightarrow> seconds \<Rightarrow> 's \<Rightarrow> bool" where
  "known k until s \<longleftrightarrow> (\<forall>now. now < until \<longrightarrow> fst (look now k s))"

lemma known_look: "known k until s \<Longrightarrow> now < until \<Longrightarrow> fst (look now k s)"
  by (simp add: known_def)

lemma known_put: "known k until s \<Longrightarrow> until \<le> t0 + rat_of_int (max 1 ttl) \<Longrightarrow> known k until (put t0 k' v ttl s)"
  by (cases "k' = k") (force simp: known_def look_put look_put_other)+

lemma put_known: "known k (t0 + rat_of_int (max 1 ttl)) (put t0 k v ttl s)"
  by (simp add: known_def look_put)

lemma known_after_look: "known k until s \<Longrightarrow> t0 < until \<Longrightarrow> known k until (snd (look t0 k' s))"
  by (cases "k' = k") (simp_all add: known_def look_keeps look_keeps_other)

end

lemma mock_exists_seen: "fst (mock_exists now k s) = (case s k of None \<Rightarrow> False | Some (v, e) \<Rightarrow> now < e)"
  by (auto simp: mock_exists_def purge_expired_def Let_def split: option.split)

lemma mock_exists_frame: "k' \<noteq> k \<Longrightarrow> snd (mock_exists t0 k s) k' = s k'"
  by (auto simp: mock_exists_def purge_expired_def Let_def split: option.split)

lemma mock_exists_same: "fst (mock_exists t0 k s) \<Longrightarrow> snd (mock_exists t0 k s) = s"
  by (auto simp: mock_exists_def purge_expired_def Let_def split: option.split)

interpretation mock: idempotency_store mock_exists mock_set
proof unfold_locales
  show "fst (mock_exists now k (mock_set t0 k v ttl s)) = (now < t0 + rat_of_int (max 1 ttl))" for now t0 k v ttl s
    by (simp add: mock_exists_seen mock_set_def)
  show "k' \<noteq> k \<Longrightarrow> fst (mock_exists now k' (mock_set t0 k v ttl s)) = fst (mock_exists now k' s)" for now t0 k k' v ttl s
    by (simp add: mock_exists_seen mock_set_def)
  show "fst (mock_exists t0 k s) \<Longrightarrow> fst (mock_exists now k (snd (mock_exists t0 k s))) = fst (mock_exists now k s)" for now t0 k s
    by (simp add: mock_exists_same)
  show "k' \<noteq> k \<Longrightarrow> fst (mock_exists now k' (snd (mock_exists t0 k s))) = fst (mock_exists now k' s)" for now t0 k k' s
    by (simp add: mock_exists_seen mock_exists_frame)
qed

subsection \<open>Messages and envelopes\<close>

text \<open>
  A body is a string of bytes. Header values are strings, as the type says; the keys of a
  message are as the broker delivers them. A timestamp without a zone is taken as UTC.
\<close>

record raw_message =
  rm_id :: string
  rm_body :: string
  rm_headers :: "(string \<times> string) list"
  rm_timestamp :: micros

datatype payload = Decoded pyval | Bytes string

record envelope =
  en_id :: string
  en_payload :: payload
  en_headers :: "(string \<times> string) list"
  en_received :: micros
  en_source :: string
  en_dedup :: "string option"
  en_event :: "string option"
  en_tenant :: "string option"

text \<open>
  The decoders: UTF-8 and JSON. A JSON text the decoder refuses is an error that the parser
  turns into a \<open>ParseError\<close>; \<open>json.loads\<close> can also fail in ways the parser does not catch (a
  number with too many digits raises a plain \<open>ValueError\<close>).
\<close>

datatype json_outcome = JsonValue pyval | JsonInvalid string | JsonFails py_error

datatype parse_failure = ParseError string | ParserRaised py_error

record decoders =
  dc_utf8 :: "string \<Rightarrow> string + string"
  dc_json :: "string \<Rightarrow> json_outcome"

datatype parser_kind = JSONParser | TextParser | BinaryParser

fun parse_body :: "decoders \<Rightarrow> parser_kind \<Rightarrow> string \<Rightarrow> parse_failure + payload" where
  "parse_body dc JSONParser body =
     (case dc_utf8 dc body of
        Inl why \<Rightarrow> Inl (ParseError (''Failed to parse JSON payload: '' @ why))
      | Inr t \<Rightarrow>
          (case dc_json dc t of
             JsonInvalid why \<Rightarrow> Inl (ParseError (''Failed to parse JSON payload: '' @ why))
           | JsonFails e \<Rightarrow> Inl (ParserRaised e)
           | JsonValue v \<Rightarrow>
               if is_dict v then Inr (Decoded v)
               else Inl (ParseError ''JSON payload must decode to an object'')))"
| "parse_body dc TextParser body =
     (case dc_utf8 dc body of
        Inl why \<Rightarrow> Inl (ParseError (''Failed to parse text payload: '' @ why))
      | Inr t \<Rightarrow> Inr (Decoded (PStr t)))"
| "parse_body dc BinaryParser body = Inr (Bytes body)"

definition create_parser :: "string \<Rightarrow> parser_kind" where
  "create_parser parser_type =
     (let t = py_strip (py_lower parser_type) in
      if t = ''text'' then TextParser else if t = ''binary'' then BinaryParser else JSONParser)"

definition from_raw_message :: "decoders \<Rightarrow> raw_message \<Rightarrow> string \<Rightarrow> parser_kind \<Rightarrow> parse_failure + envelope" where
  "from_raw_message dc raw source parser =
     and_then (parse_body dc parser (rm_body raw)) (\<lambda>payload.
       Inr \<lparr>en_id = rm_id raw, en_payload = payload, en_headers = rm_headers raw, en_received = rm_timestamp raw,
            en_source = source, en_dedup = map_of (rm_headers raw) ''x-dedup-key'',
            en_event = map_of (rm_headers raw) ''x-event-name'', en_tenant = map_of (rm_headers raw) ''x-tenant-id''\<rparr>)"

subsection \<open>Properties\<close>

text \<open>Every entry under a sensitive key, at any depth of dicts, lists and tuples, is three stars.\<close>

fun hides_secrets :: "pyval \<Rightarrow> bool"
  and hides_items :: "pyval list \<Rightarrow> bool"
  and hides_entries :: "(pyval \<times> pyval) list \<Rightarrow> bool" where
  "hides_secrets (PDict kvs) = hides_entries kvs"
| "hides_secrets (PList xs) = hides_items xs"
| "hides_secrets (PTuple xs) = hides_items xs"
| "hides_secrets v = True"
| "hides_items [] = True"
| "hides_items (x # xs) = (hides_secrets x \<and> hides_items xs)"
| "hides_entries [] = True"
| "hides_entries ((PStr key, v) # kvs) =
     ((if sensitive_key key then v = PStr ''***'' else hides_secrets v) \<and> hides_entries kvs)"
| "hides_entries ((k, v) # kvs) = False"

lemma redact_hides:
  "redact_sensitive_data v = Inr w \<Longrightarrow> hides_secrets w"
  "redact_items xs = Inr ys \<Longrightarrow> hides_items ys \<and> length ys = length xs"
  "redact_entries kvs = Inr out \<Longrightarrow> hides_entries out \<and> dict_keys out = dict_keys kvs"
  by (induction v and xs and kvs arbitrary: w and ys and out
        rule: redact_sensitive_data_redact_items_redact_entries.induct)
    (auto simp: and_then_Inr_iff split: if_splits)

text \<open>
  Redacted data shows no value under a sensitive key: whatever the nesting of dicts, lists
  and tuples, every key whose lower-case text contains one of the markers has the value
  \<open>***\<close>, and the keys of the outer dict are those of the input, in their order.
\<close>

theorem redact_hides_keys:
  assumes "redact_sensitive_data (PDict kvs) = Inr w"
  shows "hides_secrets w \<and> dict_keys (dict_entries w) = dict_keys kvs"
  using assms redact_hides by (auto simp: and_then_Inr_iff)

theorem redact_hides_keys_witness:
  "hides_secrets (PDict [(PStr ''db'', PDict [(PStr ''Password'', PStr ''***'')])])"
proof -
  have "redact_sensitive_data (PDict [(PStr ''db'', PDict [(PStr ''Password'', PStr ''x'')])])
      = Inr (PDict [(PStr ''db'', PDict [(PStr ''Password'', PStr ''***'')])])"
    by code_simp
  from redact_hides_keys [OF this] show ?thesis by simp
qed

text \<open>A key spelled \<open>api-key\<close> is no marker of the data redaction, though the text redaction knows it.\<close>

lemma api_dash_key_shown:
  "redact_sensitive_data (PDict [(PStr ''api-key'', PStr ''abc'')]) = Inr (PDict [(PStr ''api-key'', PStr ''abc'')])"
  "redact_sensitive_text ''api-key=abc'' = ''api-key=***''"
  by code_simp+

lemma complain_Nil [simp]: "complain bad m = [] \<longleftrightarrow> \<not> bad"
  by (simp add: complain_def)

definition config_usable :: "queue_config \<Rightarrow> bool" where
  "config_usable c \<longleftrightarrow> py_strip (qc_queue c) \<noteq> [] \<and> 1 \<le> qc_concurrency c \<and> 0 \<le> qc_max_retries c
     \<and> 0 < qc_backoff_base c \<and> 1 \<le> qc_backoff_multiplier c \<and> 1 \<le> qc_window c
     \<and> qc_ack_policy c \<in> {''ack'', ''nack'', ''requeue'', ''dlq''} \<and> py_strip (qc_default_tenant c) \<noteq> []"

lemma validate_config_usable: "validate_config c = [] \<Longrightarrow> config_usable c"
  by (simp add: validate_config_def config_usable_def valid_ack_policies_def)


definition sample_yaml :: pyval where
  "sample_yaml = PDict [(PStr ''queue_trigger'', PDict [(PStr ''queue_name'', PStr ''orders-${ENV}''),
     (PStr ''consumer_group'', PStr ''g''), (PStr ''max_retries'', PStr ''2''),
     (PStr ''trusted_producers'', PStr ''billing, shop'')])]"

definition sample_getenv :: "string \<Rightarrow> string option" where
  "sample_getenv name = (if name = ''ENV'' then Some ''eu'' else None)"

lemma sample_config_loads:
  "map_sum id (\<lambda>c. (qc_queue c, qc_max_retries c, qc_producers c))
     (load_queue_trigger_config (\<lambda>v. []) sample_getenv (Some sample_yaml))
   = Inr (''orders-eu'', 2, Some [''billing'', ''shop''])"
  by code_simp


end
