(* ===== verification/QueueTrigger.thy ===== *)
theory QueueTrigger
  imports QueueConfig Ledger
begin

section \<open>Queue trigger: one message from the broker to its settlement\<close>

text \<open>
  \<open>owlclaw/triggers/queue/trigger.py\<close> over the in-memory idempotency store and the in-memory
  ledger. What one message meets outside is in \<open>queue_env\<close>: the decoders, the environment
  variables, the keyed hash, the governance hook, failures of the store, the answer of the
  agent runtime to each attempt, a failure of the broker, the clocks. The calls made to the
  broker and to the runtime and the delays slept are kept in the state. A worker runs one
  message at a time; two workers interleave between the lookup of a key and the rest of the
  message, which is why the two are separate definitions.
\<close>

subsection \<open>Metrics\<close>

text \<open>The in-process counters; the optional Prometheus mirrors are left out.\<close>

record queue_metrics =
  qm_processed :: int
  qm_failed :: int
  qm_retries :: int
  qm_dedup :: int
  qm_latency_sum :: rat
  qm_latency_count :: int

definition metrics_new :: queue_metrics where
  "metrics_new = \<lparr>qm_processed = 0, qm_failed = 0, qm_retries = 0, qm_dedup = 0, qm_latency_sum = 0, qm_latency_count = 0\<rparr>"

definition metric_success :: "rat \<Rightarrow> queue_metrics \<Rightarrow> queue_metrics" where
  "metric_success duration_ms m = m\<lparr>qm_processed := qm_processed m + 1,
     qm_latency_sum := qm_latency_sum m + duration_ms, qm_latency_count := qm_latency_count m + 1\<rparr>"

definition metric_failure :: "queue_metrics \<Rightarrow> queue_metrics" where
  "metric_failure m = m\<lparr>qm_failed := qm_failed m + 1\<rparr>"

definition metric_retry :: "queue_metrics \<Rightarrow> queue_metrics" where
  "metric_retry m = m\<lparr>qm_retries := qm_retries m + 1\<rparr>"

definition metric_dedup_hit :: "queue_metrics \<Rightarrow> queue_metrics" where
  "metric_dedup_hit m = m\<lparr>qm_dedup := qm_dedup m + 1\<rparr>"

definition metrics_average :: "queue_metrics \<Rightarrow> rat" where
  "metrics_average m = (if qm_latency_count m > 0 then qm_latency_sum m / rat_of_int (qm_latency_count m) else 0)"

subsection \<open>State and environment\<close>

datatype broker_action = Ack raw_message | Nack raw_message bool | Dlq raw_message string

record agent_call =
  ac_event :: string
  ac_payload :: payload
  ac_headers :: "(string \<times> string) list"
  ac_source :: string
  ac_message :: string
  ac_received :: micros
  ac_trace :: string
  ac_focus :: "string option"
  ac_tenant :: string

datatype agent_answer = AnswerValue pyval | AnswerObject pyval pyval

datatype gov_answer = GovBool bool | GovDict "(pyval \<times> pyval) list" | GovObject "pyval option" "pyval option"

record queue_decision =
  gd_allowed :: bool
  gd_reason :: string

record queue_env =
  qe_decoders :: decoders
  qe_repr :: "pyval \<Rightarrow> string"
  qe_getenv :: "string \<Rightarrow> string option"
  qe_hmac :: "string \<Rightarrow> string \<Rightarrow> string"
  qe_governance :: "(pyval \<Rightarrow> py_error + gov_answer) option"
  qe_look_error :: "py_error option"
  qe_put_error :: "py_error option"
  qe_look_time :: seconds
  qe_put_time :: seconds
  qe_agent :: "(nat \<Rightarrow> string + agent_answer) option"
  qe_broker :: "py_error option"
  qe_started :: seconds
  qe_finished :: seconds
  qe_rec_id :: uuid
  qe_rec_time :: micros

record queue_state =
  qs_running :: bool
  qs_paused :: bool
  qs_workers :: nat
  qs_processed :: int
  qs_failed :: int
  qs_dedup :: int
  qs_metrics :: queue_metrics
  qs_store :: "mock_store option"
  qs_ledger :: "memory_ledger option"
  qs_actions :: "broker_action list"
  qs_calls :: "agent_call list"
  qs_slept :: "rat list"

definition queue_new :: "queue_config \<Rightarrow> mock_store option \<Rightarrow> memory_ledger option \<Rightarrow> py_error + queue_state" where
  "queue_new cfg store ledger =
     (if validate_config cfg \<noteq> []
      then Inl (ValueError (''Invalid QueueTriggerConfig: '' @ py_join ''; '' (validate_config cfg)))
      else Inr \<lparr>qs_running = False, qs_paused = False, qs_workers = 0, qs_processed = 0, qs_failed = 0, qs_dedup = 0,
             qs_metrics = metrics_new, qs_store = store, qs_ledger = ledger, qs_actions = [], qs_calls = [], qs_slept = []\<rparr>)"

definition count_failure :: "queue_state \<Rightarrow> queue_state" where
  "count_failure s = s\<lparr>qs_failed := qs_failed s + 1, qs_metrics := metric_failure (qs_metrics s)\<rparr>"

text \<open>A call to the broker; it may raise.\<close>

definition settle :: "queue_env \<Rightarrow> broker_action \<Rightarrow> queue_state \<Rightarrow> (py_error + unit) \<times> queue_state" where
  "settle env a s =
     (case qe_broker env of None \<Rightarrow> Inr () | Some e \<Rightarrow> Inl e, s\<lparr>qs_actions := qs_actions s @ [a]\<rparr>)"

subsection \<open>The tenant of a message\<close>

fun add_env_names :: "string list \<Rightarrow> string list \<Rightarrow> string list" where
  "add_env_names names [] = names"
| "add_env_names names (item # items) =
     (let normalized = py_strip item
      in add_env_names (if normalized \<noteq> [] \<and> normalized \<notin> set names then names @ [normalized] else names) items)"

definition signature_secret_env_names :: "queue_config \<Rightarrow> string list" where
  "signature_secret_env_names cfg =
     (let first = (case qc_secret_env cfg of None \<Rightarrow> []
            | Some e \<Rightarrow> if py_strip e \<noteq> [] then [py_strip e] else [])
      in case qc_secret_envs cfg of None \<Rightarrow> first | Some items \<Rightarrow> add_env_names first items)"

definition ascii :: "string \<Rightarrow> bool" where
  "ascii s = list_all (\<lambda>c. (of_char c :: nat) < 128) s"

text \<open>\<open>hmac.compare_digest\<close> refuses texts that are not ASCII.\<close>

fun check_secrets :: "queue_env \<Rightarrow> string \<Rightarrow> string \<Rightarrow> string list \<Rightarrow> py_error + bool" where
  "check_secrets env signature payload [] = Inr False"
| "check_secrets env signature payload (name # names) =
     (let secret = py_strip (case qe_getenv env name of None \<Rightarrow> [] | Some v \<Rightarrow> v) in
      if secret = [] then check_secrets env signature payload names
      else if \<not> ascii signature \<or> \<not> ascii (qe_hmac env secret payload)
        then Inl (TypeError ''comparing strings with non-ASCII characters is not supported'')
      else if signature = qe_hmac env secret payload then Inr True
      else check_secrets env signature payload names)"

definition header_of :: "(string \<times> string) list \<Rightarrow> string \<Rightarrow> string" where
  "header_of headers name = (case map_of headers name of None \<Rightarrow> [] | Some v \<Rightarrow> v)"

definition header_name :: "string \<Rightarrow> string \<Rightarrow> string" where
  "header_name configured dflt = (let n = strip_lower configured in if n \<noteq> [] then n else dflt)"

definition signed_text :: "envelope \<Rightarrow> string \<Rightarrow> string \<Rightarrow> string" where
  "signed_text en tenant_id producer_id = en_id en @ '':'' @ tenant_id @ '':'' @ producer_id"

definition is_valid_tenant_signature ::
  "queue_env \<Rightarrow> queue_config \<Rightarrow> envelope \<Rightarrow> string \<Rightarrow> string \<Rightarrow> py_error + bool" where
  "is_valid_tenant_signature env cfg en tenant_id producer_id =
     (let env_names = signature_secret_env_names cfg in
      if env_names = [] then Inr True
      else (let signature = py_strip (header_of (en_headers en) (header_name (qc_signature_header cfg) ''x-tenant-signature''))
        in if signature = [] then Inr False
           else check_secrets env signature (signed_text en tenant_id producer_id) env_names))"

definition default_tenant :: "queue_config \<Rightarrow> string" where
  "default_tenant cfg = (let t = py_strip (qc_default_tenant cfg) in if t \<noteq> [] then t else ''default'')"

definition producer_of :: "queue_config \<Rightarrow> envelope \<Rightarrow> string" where
  "producer_of cfg en = py_strip (header_of (en_headers en) (header_name (qc_producer_header cfg) ''x-producer-id''))"

definition resolve_tenant_id :: "queue_env \<Rightarrow> queue_config \<Rightarrow> envelope \<Rightarrow> py_error + string" where
  "resolve_tenant_id env cfg en =
     (if \<not> qc_trust_tenant cfg then Inr (default_tenant cfg)
      else if (case qc_producers cfg of None \<Rightarrow> False
               | Some trusted \<Rightarrow> trusted \<noteq> [] \<and> producer_of cfg en \<notin> set trusted) then Inr (default_tenant cfg)
      else (let candidate = py_strip (header_of (en_headers en) (header_name (qc_tenant_header cfg) ''x-tenant-id'')) in
        if candidate = [] then Inr (default_tenant cfg)
        else and_then (is_valid_tenant_signature env cfg en candidate (producer_of cfg en)) (\<lambda>valid.
          Inr (if valid then candidate else default_tenant cfg))))"

subsection \<open>Governance\<close>

definition or_queue_message :: "string option \<Rightarrow> string" where
  "or_queue_message e = (case e of None \<Rightarrow> ''queue_message'' | Some n \<Rightarrow> if n \<noteq> [] then n else ''queue_message'')"

definition gov_context :: "queue_config \<Rightarrow> envelope \<Rightarrow> string \<Rightarrow> pyval" where
  "gov_context cfg en tenant_id = PDict
     [(PStr ''source'', PStr ''queue''), (PStr ''queue'', PStr (qc_queue cfg)), (PStr ''message_id'', PStr (en_id en)),
      (PStr ''tenant_id'', PStr tenant_id), (PStr ''event_name'', PStr (or_queue_message (en_event en)))]"

text \<open>The policies of a decision are never read; they are left out.\<close>

definition check_governance :: "queue_env \<Rightarrow> queue_config \<Rightarrow> envelope \<Rightarrow> string \<Rightarrow> queue_decision" where
  "check_governance env cfg en tenant_id =
     (case qe_governance env of
        None \<Rightarrow> \<lparr>gd_allowed = True, gd_reason = []\<rparr>
      | Some hook \<Rightarrow>
          (case hook (gov_context cfg en tenant_id) of
             Inl e \<Rightarrow> \<lparr>gd_allowed = qc_fail_open cfg, gd_reason = ''governance_unavailable''\<rparr>
           | Inr (GovBool b) \<Rightarrow> \<lparr>gd_allowed = b, gd_reason = []\<rparr>
           | Inr (GovDict kvs) \<Rightarrow>
               \<lparr>gd_allowed = truthy (dict_get_or (PDict kvs) ''allowed'' (PBool True)),
                gd_reason = py_str (qe_repr env) (dict_get_or (PDict kvs) ''reason'' (PStr []))\<rparr>
           | Inr (GovObject allowed reason) \<Rightarrow>
               \<lparr>gd_allowed = (case allowed of None \<Rightarrow> True | Some v \<Rightarrow> truthy v),
                gd_reason = (case reason of None \<Rightarrow> [] | Some v \<Rightarrow> py_str (qe_repr env) v)\<rparr>))"

definition opt_str :: "string option \<Rightarrow> pyval" where
  "opt_str o1 = (case o1 of None \<Rightarrow> PNone | Some s \<Rightarrow> PStr s)"

definition queue_call :: "string \<Rightarrow> string \<Rightarrow> pyval \<Rightarrow> pyval \<Rightarrow> string \<Rightarrow> int \<Rightarrow> string \<Rightarrow> string option \<Rightarrow> exec_call" where
  "queue_call tenant_id trace_id input output reasoning time_ms status err =
     \<lparr>xc_tenant = PStr tenant_id, xc_agent = PStr ''queue-trigger'', xc_run = PStr trace_id,
      xc_capability = PStr ''queue_trigger'', xc_task = PStr ''queue_trigger'', xc_input = input, xc_output = output,
      xc_reasoning = Some reasoning, xc_time_ms = time_ms, xc_model = ''none'', xc_tokens_in = 0, xc_tokens_out = 0,
      xc_cost = 0, xc_status = status, xc_error = err, xc_weight = None, xc_mode = None, xc_risk = None,
      xc_approver = None, xc_approved_at = None\<rparr>"

text \<open>An exception of the ledger is logged and forgotten.\<close>

definition queue_record :: "queue_env \<Rightarrow> exec_call \<Rightarrow> queue_state \<Rightarrow> queue_state" where
  "queue_record env x s =
     (case qs_ledger s of
        None \<Rightarrow> s
      | Some l \<Rightarrow> (case mem_record_execution (qe_rec_id env) (qe_rec_time env) x l of
            Inl e \<Rightarrow> s | Inr l' \<Rightarrow> s\<lparr>qs_ledger := Some l'\<rparr>))"

definition rejection_reason :: "queue_decision \<Rightarrow> string" where
  "rejection_reason d = (if gd_reason d \<noteq> [] then gd_reason d else ''governance_rejected'')"

definition record_governance_rejection ::
  "queue_env \<Rightarrow> queue_config \<Rightarrow> envelope \<Rightarrow> string \<Rightarrow> queue_decision \<Rightarrow> string \<Rightarrow> queue_state \<Rightarrow> queue_state" where
  "record_governance_rejection env cfg en tenant_id d trace_id s =
     queue_record env (queue_call tenant_id trace_id
       (PDict [(PStr ''message_id'', PStr (en_id en)), (PStr ''queue'', PStr (qc_queue cfg)),
          (PStr ''event_name'', opt_str (en_event en))]) PNone (rejection_reason d) 0 ''blocked'' (Some (rejection_reason d))) s"

definition handle_governance_rejection ::
  "queue_env \<Rightarrow> queue_config \<Rightarrow> raw_message \<Rightarrow> envelope \<Rightarrow> string \<Rightarrow> queue_decision \<Rightarrow> string \<Rightarrow> queue_state
     \<Rightarrow> (py_error + unit) \<times> queue_state" where
  "handle_governance_rejection env cfg raw en tenant_id d trace_id s =
     (let s1 = record_governance_rejection env cfg en tenant_id d trace_id (count_failure s);
          reason = rejection_reason d; policy = qc_ack_policy cfg
      in if policy = ''dlq'' then settle env (Dlq raw reason) s1
         else if policy = ''requeue'' then settle env (Nack raw True) s1
         else if policy = ''nack'' then settle env (Nack raw False) s1
         else settle env (Ack raw) s1)"

subsection \<open>Running the agent\<close>

definition compute_backoff_seconds :: "queue_config \<Rightarrow> nat \<Rightarrow> rat" where
  "compute_backoff_seconds cfg attempt = qc_backoff_base cfg * qc_backoff_multiplier cfg ^ attempt"

text \<open>
  The loop over \<open>range(max_retries + 1)\<close>, with the last error so far. An error of the agent
  is its text.
\<close>

fun trigger_loop ::
  "(nat \<Rightarrow> string + agent_answer) \<Rightarrow> queue_config \<Rightarrow> agent_call \<Rightarrow> nat list \<Rightarrow> string option \<Rightarrow> queue_state
     \<Rightarrow> (string + agent_answer option) \<times> queue_state" where
  "trigger_loop agent cfg call [] last_error s =
     (case last_error of Some e \<Rightarrow> (Inl e, s) | None \<Rightarrow> (Inr None, s))"
| "trigger_loop agent cfg call (attempt # attempts) last_error s =
     (let s1 = s\<lparr>qs_calls := qs_calls s @ [call]\<rparr> in
      case agent attempt of
        Inr answer \<Rightarrow> (Inr (Some answer), s1)
      | Inl e \<Rightarrow>
          if int attempt \<ge> qc_max_retries cfg then (Inl e, s1)
          else trigger_loop agent cfg call attempts (Some e)
                 (s1\<lparr>qs_metrics := metric_retry (qs_metrics s1),
                     qs_slept := qs_slept s1 @ [compute_backoff_seconds cfg attempt]\<rparr>))"

definition agent_call_of :: "queue_config \<Rightarrow> envelope \<Rightarrow> string \<Rightarrow> string \<Rightarrow> agent_call" where
  "agent_call_of cfg en trace_id tenant_id =
     \<lparr>ac_event = or_queue_message (en_event en), ac_payload = en_payload en, ac_headers = en_headers en,
      ac_source = en_source en, ac_message = en_id en, ac_received = en_received en, ac_trace = trace_id,
      ac_focus = qc_focus cfg, ac_tenant = tenant_id\<rparr>"

definition trigger_agent_with_retry ::
  "queue_env \<Rightarrow> queue_config \<Rightarrow> envelope \<Rightarrow> string \<Rightarrow> string \<Rightarrow> queue_state
     \<Rightarrow> (string + agent_answer option) \<times> queue_state" where
  "trigger_agent_with_retry env cfg en trace_id tenant_id s =
     (case qe_agent env of
        None \<Rightarrow> (Inr None, s)
      | Some agent \<Rightarrow>
          trigger_loop agent cfg (agent_call_of cfg en trace_id tenant_id) [0..<nat (qc_max_retries cfg + 1)] None s)"

definition or_value :: "pyval \<Rightarrow> pyval \<Rightarrow> pyval" where
  "or_value a b = (if truthy a then a else b)"

fun extract_agent_run_id :: "(pyval \<Rightarrow> string) \<Rightarrow> agent_answer option \<Rightarrow> string option" where
  "extract_agent_run_id repr None = None"
| "extract_agent_run_id repr (Some (AnswerValue v)) =
     (let run_id = (if is_dict v then or_value (dict_get_or v ''run_id'' PNone) (dict_get_or v ''agent_run_id'' PNone) else PNone)
      in if run_id \<noteq> PNone then Some (py_str repr run_id) else None)"
| "extract_agent_run_id repr (Some (AnswerObject run_id agent_run_id)) =
     (let v = or_value run_id agent_run_id in if v \<noteq> PNone then Some (py_str repr v) else None)"

definition handle_processing_error ::
  "queue_env \<Rightarrow> queue_config \<Rightarrow> raw_message \<Rightarrow> string \<Rightarrow> queue_state \<Rightarrow> (py_error + unit) \<times> queue_state" where
  "handle_processing_error env cfg raw err s =
     (let policy = qc_ack_policy cfg in
      if policy = ''ack'' then settle env (Ack raw) s
      else if policy = ''nack'' then settle env (Nack raw False) s
      else if policy = ''requeue'' then settle env (Nack raw True) s
      else settle env (Dlq raw (redact_sensitive_text err)) s)"

subsection \<open>One envelope\<close>

definition dedup_key_of :: "envelope \<Rightarrow> string" where
  "dedup_key_of en = (case en_dedup en of None \<Rightarrow> en_id en | Some k \<Rightarrow> if k \<noteq> [] then k else en_id en)"

text \<open>A store that raises has not seen the key.\<close>

definition dedup_lookup :: "queue_env \<Rightarrow> queue_config \<Rightarrow> envelope \<Rightarrow> queue_state \<Rightarrow> bool \<times> queue_state" where
  "dedup_lookup env cfg en s =
     (case qs_store s of
        None \<Rightarrow> (False, s)
      | Some store \<Rightarrow>
          if \<not> qc_dedup cfg \<or> qe_look_error env \<noteq> None then (False, s)
          else (case mock_exists (qe_look_time env) (dedup_key_of en) store of
              (seen, store') \<Rightarrow> (seen, s\<lparr>qs_store := Some store'\<rparr>)))"

definition dedup_remember :: "queue_env \<Rightarrow> queue_config \<Rightarrow> envelope \<Rightarrow> string \<Rightarrow> queue_state \<Rightarrow> queue_state" where
  "dedup_remember env cfg en trace_id s =
     (case qs_store s of
        None \<Rightarrow> s
      | Some store \<Rightarrow>
          if \<not> qc_dedup cfg \<or> qe_put_error env \<noteq> None then s
          else s\<lparr>qs_store := Some (mock_set (qe_put_time env) (dedup_key_of en)
                  (PDict [(PStr ''trace_id'', PStr trace_id), (PStr ''status'', PStr ''processed'')]) (qc_window cfg) store)\<rparr>)"

type_synonym envelope_outcome = "(py_error + string \<times> string option \<times> string) \<times> queue_state"

definition finish_with :: "string \<Rightarrow> string option \<Rightarrow> string \<Rightarrow> (py_error + unit) \<times> queue_state \<Rightarrow> envelope_outcome" where
  "finish_with status run_id tenant_id r = (map_sum id (\<lambda>_. (status, run_id, tenant_id)) (fst r), snd r)"

text \<open>After the lookup: a duplicate is acknowledged, any other message runs the agent.\<close>

definition run_and_settle ::
  "queue_env \<Rightarrow> queue_config \<Rightarrow> raw_message \<Rightarrow> envelope \<Rightarrow> string \<Rightarrow> string \<Rightarrow> bool \<Rightarrow> queue_state \<Rightarrow> envelope_outcome" where
  "run_and_settle env cfg raw en trace_id tenant_id seen s =
     (if seen then finish_with ''deduplicated'' None tenant_id
        (settle env (Ack raw) (s\<lparr>qs_dedup := qs_dedup s + 1, qs_metrics := metric_dedup_hit (qs_metrics s)\<rparr>))
      else (case trigger_agent_with_retry env cfg en trace_id tenant_id s of
          (Inl e, s1) \<Rightarrow> finish_with ''processing_error'' None tenant_id (handle_processing_error env cfg raw e (count_failure s1))
        | (Inr answer, s1) \<Rightarrow>
            finish_with ''processed'' (extract_agent_run_id (qe_repr env) answer) tenant_id
              (settle env (Ack raw) (dedup_remember env cfg en trace_id s1))))"

definition process_envelope ::
  "queue_env \<Rightarrow> queue_config \<Rightarrow> raw_message \<Rightarrow> envelope \<Rightarrow> string \<Rightarrow> queue_state \<Rightarrow> envelope_outcome" where
  "process_envelope env cfg raw en trace_id s =
     (case resolve_tenant_id env cfg en of
        Inl e \<Rightarrow> (Inl e, s)
      | Inr tenant_id \<Rightarrow>
          (let d = check_governance env cfg en tenant_id in
           if \<not> gd_allowed d then finish_with ''governance_rejected'' None tenant_id
             (handle_governance_rejection env cfg raw en tenant_id d trace_id s)
           else (case dedup_lookup env cfg en s of
               (seen, s1) \<Rightarrow> run_and_settle env cfg raw en trace_id tenant_id seen s1)))"

subsection \<open>One message\<close>

record process_result =
  pr_message :: string
  pr_status :: string
  pr_trace :: string
  pr_detail :: "string option"

definition record_success_execution ::
  "queue_env \<Rightarrow> queue_config \<Rightarrow> envelope \<Rightarrow> string \<Rightarrow> string \<Rightarrow> rat \<Rightarrow> string option \<Rightarrow> queue_state \<Rightarrow> queue_state" where
  "record_success_execution env cfg en tenant_id trace_id duration_ms run_id s =
     queue_record env (queue_call tenant_id trace_id
       (PDict [(PStr ''trace_id'', PStr trace_id), (PStr ''message_id'', PStr (en_id en)),
          (PStr ''queue'', PStr (qc_queue cfg)), (PStr ''event_name'', PStr (or_queue_message (en_event en))),
          (PStr ''tenant_id'', PStr tenant_id)])
       (PDict [(PStr ''status'', PStr ''success''), (PStr ''duration_ms'', PInt (trunc_rat duration_ms)),
          (PStr ''agent_run_id'', opt_str run_id)])
       ''queue_trigger_execution'' (max 0 (trunc_rat duration_ms)) ''success'' None) s"

definition process_message ::
  "queue_env \<Rightarrow> queue_config \<Rightarrow> raw_message \<Rightarrow> queue_state \<Rightarrow> (py_error + process_result) \<times> queue_state" where
  "process_message env cfg raw s =
     (let trace_id = ''queue-'' @ rm_id raw;
          result = (\<lambda>status detail. \<lparr>pr_message = rm_id raw, pr_status = status, pr_trace = trace_id, pr_detail = detail\<rparr>)
      in case from_raw_message (qe_decoders env) raw (qc_queue cfg) (create_parser (qc_parser cfg)) of
           Inl (ParserRaised e) \<Rightarrow> (Inl e, s)
         | Inl (ParseError why) \<Rightarrow>
             (let safe_error = redact_sensitive_text why in
              case settle env (Dlq raw safe_error) (count_failure s) of
                (Inl e, s1) \<Rightarrow> (Inl e, s1)
              | (Inr _, s1) \<Rightarrow> (Inr (result ''parse_error'' (Some safe_error)), s1))
         | Inr en \<Rightarrow>
             (case process_envelope env cfg raw en trace_id s of
                (Inl e, s1) \<Rightarrow> (Inl e, s1)
              | (Inr (status, run_id, tenant_id), s1) \<Rightarrow>
                  if status = ''processed'' then
                    (let duration_ms = (qe_finished env - qe_started env) * 1000;
                         s2 = record_success_execution env cfg en tenant_id trace_id duration_ms run_id s1
                     in (Inr (result ''processed'' None),
                         s2\<lparr>qs_processed := qs_processed s2 + 1, qs_metrics := metric_success duration_ms (qs_metrics s2)\<rparr>))
                  else (Inr (result status None), s1)))"

subsection \<open>Workers and life cycle\<close>

text \<open>
  The body of the loop of one worker on the next message: it leaves the loop when the trigger
  is stopped, sleeps while it is paused, and counts an exception that escapes.
\<close>

datatype worker_turn = Leaves | Sleeps | Done

definition consume_turn :: "queue_env \<Rightarrow> queue_config \<Rightarrow> raw_message \<Rightarrow> queue_state \<Rightarrow> worker_turn \<times> queue_state" where
  "consume_turn env cfg raw s =
     (if \<not> qs_running s then (Leaves, s)
      else if qs_paused s then (Sleeps, s)
      else (case process_message env cfg raw s of
          (Inl e, s1) \<Rightarrow> (Done, count_failure s1)
        | (Inr r, s1) \<Rightarrow> (Done, s1)))"

definition queue_start :: "py_error option \<Rightarrow> queue_config \<Rightarrow> queue_state \<Rightarrow> (py_error + unit) \<times> queue_state" where
  "queue_start connect cfg s =
     (if qs_running s then (Inl (RuntimeError ''QueueTrigger already running''), s)
      else (let s1 = s\<lparr>qs_running := True, qs_paused := False\<rparr> in
        case connect of
          Some e \<Rightarrow> (Inl e, s1)
        | None \<Rightarrow> (Inr (), s1\<lparr>qs_workers := nat (qc_concurrency cfg)\<rparr>)))"

definition queue_stop :: "py_error option \<Rightarrow> queue_state \<Rightarrow> (py_error + unit) \<times> queue_state" where
  "queue_stop close s =
     (let s1 = s\<lparr>qs_running := False, qs_paused := False\<rparr> in
      case close of Some e \<Rightarrow> (Inl e, s1) | None \<Rightarrow> (Inr (), s1\<lparr>qs_workers := 0\<rparr>))"

definition queue_pause :: "queue_state \<Rightarrow> queue_state" where
  "queue_pause s = s\<lparr>qs_paused := True\<rparr>"

definition queue_resume :: "queue_state \<Rightarrow> queue_state" where
  "queue_resume s = s\<lparr>qs_paused := False\<rparr>"

definition health_check :: "bool \<Rightarrow> queue_state \<Rightarrow> pyval" where
  "health_check adapter_healthy s =
     (let m = qs_metrics s in PDict
      [(PStr ''status'', PStr (if qs_running s \<and> adapter_healthy then ''healthy'' else ''unhealthy'')),
       (PStr ''running'', PBool (qs_running s)), (PStr ''paused'', PBool (qs_paused s)),
       (PStr ''adapter_healthy'', PBool adapter_healthy), (PStr ''active_workers'', PInt (int (qs_workers s))),
       (PStr ''processed_count'', PInt (qs_processed s)), (PStr ''failed_count'', PInt (qs_failed s)),
       (PStr ''dedup_hits'', PInt (qs_dedup s)),
       (PStr ''metrics'', PDict
         [(PStr ''processed_total'', PInt (qm_processed m)), (PStr ''failed_total'', PInt (qm_failed m)),
          (PStr ''retries_total'', PInt (qm_retries m)), (PStr ''dedup_hits_total'', PInt (qm_dedup m)),
          (PStr ''latency_count'', PInt (qm_latency_count m)), (PStr ''latency_avg_ms'', PFloat (metrics_average m))])])"

subsection \<open>Facts about settlement\<close>

definition tally :: "queue_state \<Rightarrow> int" where
  "tally s = qs_processed s + qs_failed s + qs_dedup s"

definition broker_result :: "queue_env \<Rightarrow> py_error + unit" where
  "broker_result env = (case qe_broker env of None \<Rightarrow> Inr () | Some e \<Rightarrow> Inl e)"

text \<open>The action an acknowledgement policy asks for.\<close>

definition policy_action :: "string \<Rightarrow> raw_message \<Rightarrow> broker_action \<Rightarrow> bool" where
  "policy_action policy raw a =
     (case a of
        Ack m \<Rightarrow> m = raw \<and> policy \<notin> {''nack'', ''requeue'', ''dlq''}
      | Nack m requeue \<Rightarrow> m = raw \<and> policy = (if requeue then ''requeue'' else ''nack'')
      | Dlq m why \<Rightarrow> m = raw \<and> policy \<notin> {''ack'', ''nack'', ''requeue''})"

definition settles :: "queue_config \<Rightarrow> raw_message \<Rightarrow> string \<Rightarrow> broker_action \<Rightarrow> bool" where
  "settles cfg raw status a =
     (if status \<in> {''processed'', ''deduplicated''} then a = Ack raw
      else if status = ''parse_error'' then (case a of Dlq m why \<Rightarrow> m = raw | _ \<Rightarrow> False)
      else status \<in> {''governance_rejected'', ''processing_error''} \<and> policy_action (qc_ack_policy cfg) raw a)"

lemma settle_parts [simp]:
  "fst (settle env a s) = broker_result env"
  "snd (settle env a s) = s\<lparr>qs_actions := qs_actions s @ [a]\<rparr>"
  by (simp_all add: settle_def broker_result_def)

lemma finish_with_parts [simp]:
  "fst (finish_with status run_id tenant r) = map_sum id (\<lambda>_. (status, run_id, tenant)) (fst r)"
  "snd (finish_with status run_id tenant r) = snd r"
  by (simp_all add: finish_with_def)

lemma count_failure_frame [simp, frame_simps]:
  "qs_actions (count_failure s) = qs_actions s" "tally (count_failure s) = tally s + 1"
  "qs_calls (count_failure s) = qs_calls s" "qs_store (count_failure s) = qs_store s"
  "qs_ledger (count_failure s) = qs_ledger s" "qs_slept (count_failure s) = qs_slept s"
  by (simp_all add: count_failure_def tally_def)

lemma queue_record_frame [simp, frame_simps]:
  "qs_actions (queue_record env x s) = qs_actions s" "tally (queue_record env x s) = tally s"
  "qs_calls (queue_record env x s) = qs_calls s" "qs_store (queue_record env x s) = qs_store s"
  "qs_slept (queue_record env x s) = qs_slept s"
  by (simp_all add: queue_record_def tally_def split: option.split sum.split)

lemma tally_update [simp]:
  "tally (s\<lparr>qs_actions := x\<rparr>) = tally s" "tally (s\<lparr>qs_store := st\<rparr>) = tally s"
  "tally (s\<lparr>qs_calls := c\<rparr>) = tally s"
  "tally (s\<lparr>qs_metrics := m, qs_slept := d\<rparr>) = tally s"
  "tally (s\<lparr>qs_dedup := qs_dedup s + 1, qs_metrics := m\<rparr>) = tally s + 1"
  by (simp_all add: tally_def)

text \<open>One run of the retry loop, and what it leaves alone.\<close>

lemma trigger_loop_frame:
  "qs_actions (snd (trigger_loop agent cfg call ks last_error s)) = qs_actions s"
  "tally (snd (trigger_loop agent cfg call ks last_error s)) = tally s"
  "qs_store (snd (trigger_loop agent cfg call ks last_error s)) = qs_store s"
  "qs_ledger (snd (trigger_loop agent cfg call ks last_error s)) = qs_ledger s"
  by (induction ks arbitrary: last_error s) (simp_all add: Let_def tally_def split: option.split sum.split)

lemma trigger_frame [simp]:
  "qs_actions (snd (trigger_agent_with_retry env cfg en tr tn s)) = qs_actions s"
  "tally (snd (trigger_agent_with_retry env cfg en tr tn s)) = tally s"
  "qs_store (snd (trigger_agent_with_retry env cfg en tr tn s)) = qs_store s"
  by (simp_all add: trigger_agent_with_retry_def trigger_loop_frame split: option.split)

lemma dedup_frame [simp, frame_simps]:
  "qs_actions (snd (dedup_lookup env cfg en s)) = qs_actions s" "tally (snd (dedup_lookup env cfg en s)) = tally s"
  "qs_calls (snd (dedup_lookup env cfg en s)) = qs_calls s"
  "qs_actions (dedup_remember env cfg en tr s) = qs_actions s" "tally (dedup_remember env cfg en tr s) = tally s"
  "qs_calls (dedup_remember env cfg en tr s) = qs_calls s"
  by (simp_all add: dedup_lookup_def dedup_remember_def tally_def case_prod_beta split: option.split)

text \<open>What a step that settles its message does: one action that fits, one count more.\<close>

definition settled :: "queue_config \<Rightarrow> raw_message \<Rightarrow> string \<Rightarrow> queue_state \<Rightarrow> queue_state \<Rightarrow> bool" where
  "settled cfg raw status s s' \<longleftrightarrow>
     (\<exists>a. qs_actions s' = qs_actions s @ [a] \<and> settles cfg raw status a) \<and> tally s' = tally s + (if status = ''processed'' then 0 else 1)"

lemma rejection_settles:
  "fst (handle_governance_rejection env cfg raw en tn d tr s) = broker_result env"
  "settled cfg raw ''governance_rejected'' s (snd (handle_governance_rejection env cfg raw en tn d tr s))"
  by (simp_all add: handle_governance_rejection_def record_governance_rejection_def Let_def settled_def settles_def
      policy_action_def)

lemma processing_error_settles:
  "fst (handle_processing_error env cfg raw e s) = broker_result env"
  "settled cfg raw ''processing_error'' s (snd (handle_processing_error env cfg raw e (count_failure s)))"
  by (simp_all add: handle_processing_error_def Let_def settled_def settles_def policy_action_def)

lemma acknowledged_settles:
  "settles cfg raw ''processed'' (Ack raw)" "settles cfg raw ''deduplicated'' (Ack raw)"
  by (simp_all add: settles_def)

lemma run_and_settle_settles:
  "\<exists>status run_id. fst (run_and_settle env cfg raw en tr tn seen s) = map_sum id (\<lambda>_. (status, run_id, tn)) (broker_result env)
     \<and> settled cfg raw status s (snd (run_and_settle env cfg raw en tr tn seen s))"
proof (cases seen)
  case True
  then show ?thesis
    by (intro exI [of _ "''deduplicated''"] exI [of _ None]) (simp add: run_and_settle_def settled_def acknowledged_settles)
next
  case False
  obtain r s1 where t: "trigger_agent_with_retry env cfg en tr tn s = (r, s1)"
    by (cases "trigger_agent_with_retry env cfg en tr tn s")
  then have f: "qs_actions s1 = qs_actions s" "tally s1 = tally s"
    using trigger_frame [of env cfg en tr tn s] by simp_all
  show ?thesis
  proof (cases r)
    case (Inl e)
    have "settled cfg raw ''processing_error'' s (snd (handle_processing_error env cfg raw e (count_failure s1)))"
      using processing_error_settles(2) [of cfg raw s1 env e] unfolding settled_def f .
    with False t Inl show ?thesis
      by (intro exI [of _ "''processing_error''"] exI [of _ None]) (simp add: run_and_settle_def processing_error_settles(1))
  next
    case (Inr answer)
    with False t f show ?thesis
      by (intro exI [of _ "''processed''"] exI [of _ "extract_agent_run_id (qe_repr env) answer"])
        (simp add: run_and_settle_def settled_def acknowledged_settles)
  qed
qed

lemma process_envelope_settles:
  "(\<exists>e. resolve_tenant_id env cfg en = Inl e \<and> process_envelope env cfg raw en tr s = (Inl e, s))
   \<or> (\<exists>status run_id tn. resolve_tenant_id env cfg en = Inr tn
        \<and> fst (process_envelope env cfg raw en tr s) = map_sum id (\<lambda>_. (status, run_id, tn)) (broker_result env)
        \<and> settled cfg raw status s (snd (process_envelope env cfg raw en tr s)))"
proof (cases "resolve_tenant_id env cfg en")
  case (Inl e)
  then show ?thesis by (simp add: process_envelope_def)
next
  case (Inr tn)
  let ?d = "check_governance env cfg en tn"
  show ?thesis
  proof (cases "gd_allowed ?d")
    case False
    with Inr show ?thesis using rejection_settles(1) [of env cfg raw en tn ?d tr s] rejection_settles(2) [of cfg raw s env en tn ?d tr]
      by (intro disjI2 exI [of _ "''governance_rejected''"] exI [of _ None] exI [of _ tn])
        (simp add: process_envelope_def Let_def)
  next
    case True
    obtain seen s1 where l: "dedup_lookup env cfg en s = (seen, s1)" by (cases "dedup_lookup env cfg en s")
    then have f: "qs_actions s1 = qs_actions s" "tally s1 = tally s" using dedup_frame(1,2) [of env cfg en s] by simp_all
    obtain status run_id where
      r: "fst (run_and_settle env cfg raw en tr tn seen s1) = map_sum id (\<lambda>_. (status, run_id, tn)) (broker_result env)"
      "settled cfg raw status s1 (snd (run_and_settle env cfg raw en tr tn seen s1))"
      using run_and_settle_settles by blast
    with Inr True l f show ?thesis
      by (intro disjI2 exI [of _ status] exI [of _ run_id] exI [of _ tn]) (simp add: process_envelope_def Let_def settled_def)
  qed
qed

subsection \<open>Facts about the retry loop\<close>

definition attempts_of :: "(nat \<Rightarrow> string + agent_answer) \<Rightarrow> nat \<Rightarrow> nat option" where
  "attempts_of agent m = List.find (\<lambda>k. isl (agent k) = False) [0..<Suc m]"

definition retried :: "queue_config \<Rightarrow> agent_call \<Rightarrow> nat \<Rightarrow> nat \<Rightarrow> queue_state \<Rightarrow> queue_state \<Rightarrow> bool" where
  "retried cfg call a n s s' \<longleftrightarrow> qs_calls s' = qs_calls s @ replicate (Suc n - a) call
     \<and> qs_slept s' = qs_slept s @ map (compute_backoff_seconds cfg) [a..<n]
     \<and> qm_retries (qs_metrics s') = qm_retries (qs_metrics s) + int (n - a)"

lemma trigger_loop_spec:
  assumes "qc_max_retries cfg = int m" and "a \<le> m"
  shows "case List.find (\<lambda>k. isl (agent k) = False) [a..<Suc m] of
      Some k \<Rightarrow> fst (trigger_loop agent cfg call [a..<Suc m] e s) = Inr (Some (projr (agent k)))
        \<and> retried cfg call a k s (snd (trigger_loop agent cfg call [a..<Suc m] e s))
    | None \<Rightarrow> fst (trigger_loop agent cfg call [a..<Suc m] e s) = Inl (projl (agent m))
        \<and> retried cfg call a m s (snd (trigger_loop agent cfg call [a..<Suc m] e s))"
  using assms(2)
proof (induction "m - a" arbitrary: a e s)
  case 0
  with assms(1) show ?case by (cases "agent a") (auto simp: retried_def)
next
  case (Suc d)
  then have u: "[a..<Suc m] = a # [Suc a..<Suc m]" and lt: "a < m" by (simp_all add: upt_rec)
  show ?case
  proof (cases "agent a")
    case (Inr r)
    then show ?thesis using assms(1) by (simp add: u retried_def del: upt_Suc)
  next
    case (Inl err)
    let ?s1 = "s\<lparr>qs_calls := qs_calls s @ [call], qs_metrics := metric_retry (qs_metrics s),
       qs_slept := qs_slept s @ [compute_backoff_seconds cfg a]\<rparr>"
    have step: "trigger_loop agent cfg call [a..<Suc m] e s = trigger_loop agent cfg call [Suc a..<Suc m] (Some err) ?s1"
      using lt assms(1) Inl by (simp add: u del: upt_Suc)
    have more: "retried cfg call a k s s'" if "retried cfg call (Suc a) k ?s1 s'" "Suc a \<le> k" for k s'
    proof -
      have "[a..<k] = a # [Suc a..<k]" "replicate (Suc k - a) call = call # replicate (Suc k - Suc a) call"
        "int (k - a) = int (k - Suc a) + 1"
        using that(2) by (simp_all add: upt_rec Suc_diff_le flip: replicate_Suc)
      with that(1) show ?thesis by (simp add: retried_def metric_retry_def)
    qed
    have le: "Suc a \<le> k" if "List.find (\<lambda>k. isl (agent k) = False) [Suc a..<Suc m] = Some k" for k
      using that by (auto simp: find_Some_iff simp del: upt_Suc)
    have ih: "case List.find (\<lambda>k. isl (agent k) = False) [Suc a..<Suc m] of
        Some k \<Rightarrow> fst (trigger_loop agent cfg call [Suc a..<Suc m] (Some err) ?s1) = Inr (Some (projr (agent k)))
          \<and> retried cfg call (Suc a) k ?s1 (snd (trigger_loop agent cfg call [Suc a..<Suc m] (Some err) ?s1))
      | None \<Rightarrow> fst (trigger_loop agent cfg call [Suc a..<Suc m] (Some err) ?s1) = Inl (projl (agent m))
          \<and> retried cfg call (Suc a) m ?s1 (snd (trigger_loop agent cfg call [Suc a..<Suc m] (Some err) ?s1))"
      using Suc.hyps(1) [of "Suc a" "Some err" ?s1] Suc.hyps(2) lt by simp
    have fd: "List.find (\<lambda>k. isl (agent k) = False) [a..<Suc m] = List.find (\<lambda>k. isl (agent k) = False) [Suc a..<Suc m]"
      using Inl by (simp add: u del: upt_Suc)
    show ?thesis
    proof (cases "List.find (\<lambda>k. isl (agent k) = False) [Suc a..<Suc m]")
      case None
      with ih more lt show ?thesis unfolding fd step by (simp only: option.case)
    next
      case (Some k)
      with ih more le [OF Some] show ?thesis unfolding fd step by (simp only: option.case)
    qed
  qed
qed

subsection \<open>Facts about keys\<close>

definition store_knows :: "string \<Rightarrow> seconds \<Rightarrow> queue_state \<Rightarrow> bool" where
  "store_knows k until s = (case qs_store s of None \<Rightarrow> False | Some st \<Rightarrow> mock.known k until st)"

lemma store_knows_cong: "qs_store s' = qs_store s \<Longrightarrow> store_knows k until s' = store_knows k until s"
  by (simp add: store_knows_def)

lemma lookup_knows:
  "store_knows k until s \<Longrightarrow> qe_look_time env < until \<Longrightarrow> store_knows k until (snd (dedup_lookup env cfg en s))"
  by (auto simp: store_knows_def dedup_lookup_def case_prod_beta split: option.splits intro: mock.known_after_look)

lemma remember_knows:
  "store_knows k until s \<Longrightarrow> until \<le> qe_put_time env + rat_of_int (max 1 (qc_window cfg))
     \<Longrightarrow> store_knows k until (dedup_remember env cfg en tr s)"
  by (auto simp: store_knows_def dedup_remember_def split: option.splits intro: mock.known_put)

lemma remember_own_key:
  "qs_store s \<noteq> None \<Longrightarrow> qc_dedup cfg \<Longrightarrow> qe_put_error env = None
     \<Longrightarrow> store_knows (dedup_key_of en) (qe_put_time env + rat_of_int (max 1 (qc_window cfg))) (dedup_remember env cfg en tr s)"
  by (auto simp: store_knows_def dedup_remember_def intro: mock.put_known)

lemma seen_known:
  assumes "store_knows (dedup_key_of en) until s" and "qe_look_time env < until"
    and "qc_dedup cfg" and "qe_look_error env = None"
  shows "fst (dedup_lookup env cfg en s)"
  using assms by (auto simp: store_knows_def dedup_lookup_def case_prod_beta mock.known_look split: option.splits)

lemma processing_error_store [simp]: "qs_store (snd (handle_processing_error env cfg raw e s)) = qs_store s"
  by (simp add: handle_processing_error_def Let_def)

lemma remember_store_cong:
  "qs_store s' = qs_store s \<Longrightarrow> qs_store (dedup_remember env cfg en tr s') = qs_store (dedup_remember env cfg en tr s)"
  by (simp add: dedup_remember_def split: option.split)

lemma run_and_settle_store:
  "qs_store (snd (run_and_settle env cfg raw en tr tn seen s)) = qs_store s
   \<or> qs_store (snd (run_and_settle env cfg raw en tr tn seen s)) = qs_store (dedup_remember env cfg en tr s)"
proof (cases seen)
  case True
  then show ?thesis by (simp add: run_and_settle_def)
next
  case False
  obtain r s1 where t: "trigger_agent_with_retry env cfg en tr tn s = (r, s1)"
    by (cases "trigger_agent_with_retry env cfg en tr tn s")
  then have f: "qs_store s1 = qs_store s" using trigger_frame(3) [of env cfg en tr tn s] by simp
  with False t remember_store_cong [OF f] show ?thesis by (cases r) (simp_all add: run_and_settle_def)
qed

lemma process_envelope_knows:
  assumes "store_knows k until s" and "qe_look_time env < until"
    and "until \<le> qe_put_time env + rat_of_int (max 1 (qc_window cfg))"
  shows "store_knows k until (snd (process_envelope env cfg raw en tr s))"
proof -
  let ?s1 = "snd (dedup_lookup env cfg en s)"
  have l: "store_knows k until ?s1" using lookup_knows assms(1,2) .
  then have r: "store_knows k until (dedup_remember env cfg en tr ?s1)" using remember_knows assms(3) by blast
  have run: "store_knows k until (snd (run_and_settle env cfg raw en tr tn seen ?s1))" for tn seen
    using run_and_settle_store [of env cfg raw en tr tn seen ?s1] l r by (auto dest: store_knows_cong)
  have rej: "qs_store (snd (handle_governance_rejection env cfg raw en tn d tr s)) = qs_store s" for tn d
    by (simp add: handle_governance_rejection_def record_governance_rejection_def Let_def)
  show ?thesis
    using run assms(1) store_knows_cong [OF rej]
    by (simp add: process_envelope_def Let_def case_prod_beta split: sum.split)
qed

lemma process_message_store:
  "(\<exists>en. from_raw_message (qe_decoders env) raw (qc_queue cfg) (create_parser (qc_parser cfg)) = Inr en
      \<and> qs_store (snd (process_message env cfg raw s)) = qs_store (snd (process_envelope env cfg raw en (''queue-'' @ rm_id raw) s)))
   \<or> qs_store (snd (process_message env cfg raw s)) = qs_store s"
  by (auto simp: process_message_def Let_def record_success_execution_def case_prod_beta settle_def
      split: sum.splits parse_failure.splits option.splits)

lemma process_message_knows:
  assumes "store_knows k until s" and "qe_look_time env < until"
    and "until \<le> qe_put_time env + rat_of_int (max 1 (qc_window cfg))"
  shows "store_knows k until (snd (process_message env cfg raw s))"
  using process_message_store [of env raw cfg s] process_envelope_knows [OF assms] assms(1)
  by (auto dest: store_knows_cong)

text \<open>What a worker does with a list of messages.\<close>

fun consume_all :: "queue_config \<Rightarrow> (queue_env \<times> raw_message) list \<Rightarrow> queue_state \<Rightarrow> queue_state" where
  "consume_all cfg [] s = s"
| "consume_all cfg ((env, raw) # msgs) s = consume_all cfg msgs (snd (consume_turn env cfg raw s))"

definition handled_between :: "seconds \<Rightarrow> seconds \<Rightarrow> queue_env \<times> raw_message \<Rightarrow> bool" where
  "handled_between t0 until = (\<lambda>(env, raw). qe_look_time env < until \<and> t0 \<le> qe_put_time env)"

lemma consume_turn_store:
  "qs_store (snd (consume_turn env cfg raw s)) \<in> {qs_store s, qs_store (snd (process_message env cfg raw s))}"
  by (simp add: consume_turn_def case_prod_beta split: sum.split)

lemma consume_turn_knows:
  assumes "store_knows k until s" and "qe_look_time env < until"
    and "until \<le> qe_put_time env + rat_of_int (max 1 (qc_window cfg))"
  shows "store_knows k until (snd (consume_turn env cfg raw s))"
  using consume_turn_store [of env cfg raw s] process_message_knows [OF assms, of raw] assms(1)
  by (auto dest: store_knows_cong)

lemma consume_all_knows:
  "store_knows k (t0 + rat_of_int (max 1 (qc_window cfg))) s
     \<Longrightarrow> list_all (handled_between t0 (t0 + rat_of_int (max 1 (qc_window cfg)))) msgs
     \<Longrightarrow> store_knows k (t0 + rat_of_int (max 1 (qc_window cfg))) (consume_all cfg msgs s)"
proof (induction msgs arbitrary: s)
  case (Cons m msgs)
  obtain env raw where m: "m = (env, raw)" by (cases m)
  with Cons.prems(2) have "qe_look_time env < t0 + rat_of_int (max 1 (qc_window cfg))" "t0 \<le> qe_put_time env"
    by (simp_all add: handled_between_def)
  from consume_turn_knows [OF Cons.prems(1) this(1)] this(2) Cons show ?case by (simp add: m)
qed simp

lemma run_processed:
  assumes "run_and_settle env cfg raw en tr tn seen s = (Inr (''processed'', run_id, tn'), s')"
  shows "qs_store s' = qs_store (dedup_remember env cfg en tr s)"
proof -
  obtain r s1 where t: "trigger_agent_with_retry env cfg en tr tn s = (r, s1)"
    by (cases "trigger_agent_with_retry env cfg en tr tn s")
  then have f: "qs_store s1 = qs_store s" using trigger_frame(3) [of env cfg en tr tn s] by simp
  have ns: "\<not> seen" using assms by (cases seen) (auto simp: run_and_settle_def finish_with_def broker_result_def split: option.splits)
  have "isl r = False"
    using assms ns t by (cases r) (auto simp: run_and_settle_def finish_with_def processing_error_settles(1) broker_result_def split: option.splits)
  then obtain ans where "r = Inr ans" by (cases r) simp_all
  with ns t have "snd (run_and_settle env cfg raw en tr tn seen s)
      = (dedup_remember env cfg en tr s1)\<lparr>qs_actions := qs_actions (dedup_remember env cfg en tr s1) @ [Ack raw]\<rparr>"
    by (simp add: run_and_settle_def)
  with assms have "qs_store s' = qs_store (dedup_remember env cfg en tr s1)" by simp
  with remember_store_cong [OF f] show ?thesis by simp
qed

lemma envelope_processed:
  assumes "process_envelope env cfg raw en tr s = (Inr (''processed'', run_id, tn), s')"
  shows "qs_store s' = qs_store (dedup_remember env cfg en tr (snd (dedup_lookup env cfg en s)))"
proof -
  obtain t where r: "resolve_tenant_id env cfg en = Inr t"
    using assms by (cases "resolve_tenant_id env cfg en") (simp_all add: process_envelope_def)
  have "gd_allowed (check_governance env cfg en t)"
  proof (rule ccontr)
    assume "\<not> gd_allowed (check_governance env cfg en t)"
    with assms r show False
      by (auto simp: process_envelope_def Let_def finish_with_def rejection_settles(1) broker_result_def split: option.splits)
  qed
  with assms r show ?thesis
    by (auto simp: process_envelope_def Let_def case_prod_beta dest: run_processed)
qed

lemma processed_remembers:
  assumes "process_message env cfg raw s = (Inr r, s')" and "pr_status r = ''processed''"
    and "from_raw_message (qe_decoders env) raw (qc_queue cfg) (create_parser (qc_parser cfg)) = Inr en"
    and "qs_store s \<noteq> None" and "qc_dedup cfg" and "qe_put_error env = None"
  shows "store_knows (dedup_key_of en) (qe_put_time env + rat_of_int (max 1 (qc_window cfg))) s'"
proof -
  let ?tr = "''queue-'' @ rm_id raw"
  obtain status run_id tn s2 where e: "process_envelope env cfg raw en ?tr s = (Inr (status, run_id, tn), s2)"
    using assms(1,3) by (cases "process_envelope env cfg raw en ?tr s"; cases "fst (process_envelope env cfg raw en ?tr s)")
      (auto simp: process_message_def Let_def)
  have st: "status = ''processed''" using assms(1-3) e by (auto simp: process_message_def Let_def split: if_splits)
  have "qs_store s' = qs_store s2"
    using assms(1,3) e st by (auto simp: process_message_def Let_def record_success_execution_def)
  moreover have "qs_store (snd (dedup_lookup env cfg en s)) \<noteq> None"
    using assms(4) by (auto simp: dedup_lookup_def case_prod_beta)
  ultimately show ?thesis
    using remember_own_key [OF _ assms(5,6), of "snd (dedup_lookup env cfg en s)" en ?tr]
      envelope_processed [OF e [unfolded st]] store_knows_cong by metis
qed

lemma known_key_skipped:
  assumes "from_raw_message (qe_decoders env) raw (qc_queue cfg) (create_parser (qc_parser cfg)) = Inr en"
    and "store_knows (dedup_key_of en) until s" and "qe_look_time env < until"
    and "qc_dedup cfg" and "qe_look_error env = None"
  shows "qs_calls (snd (process_message env cfg raw s)) = qs_calls s"
proof -
  have seen: "fst (dedup_lookup env cfg en s)" using seen_known assms(2-5) .
  have "qs_calls (snd (handle_governance_rejection env cfg raw en tn d tr s)) = qs_calls s" for tn d tr
    by (simp add: handle_governance_rejection_def record_governance_rejection_def Let_def)
  with seen have "qs_calls (snd (process_envelope env cfg raw en tr s)) = qs_calls s" for tr
    by (simp add: process_envelope_def Let_def case_prod_beta run_and_settle_def split: sum.split)
  then show ?thesis
    using assms(1) by (simp add: process_message_def Let_def record_success_execution_def case_prod_beta split: sum.split)
qed

subsection \<open>Samples\<close>

definition sample_queue_config :: queue_config where
  "sample_queue_config = \<lparr>qc_queue = ''orders'', qc_group = ''g'', qc_concurrency = 1, qc_ack_policy = ''dlq'', qc_max_retries = 2,
     qc_backoff_base = 1, qc_backoff_multiplier = 2, qc_window = 3600, qc_dedup = True, qc_parser = ''text'',
     qc_event_header = ''x-event-name'', qc_default_tenant = ''default'', qc_trust_tenant = True,
     qc_tenant_header = ''x-tenant-id'', qc_producer_header = ''x-producer-id'', qc_producers = None,
     qc_signature_header = ''x-tenant-signature'', qc_secret_env = Some ''KEY'', qc_secret_envs = None,
     qc_fail_open = False, qc_focus = None, qc_adapter = None\<rparr>"

definition sample_queue_env :: "seconds \<Rightarrow> queue_env" where
  "sample_queue_env t = \<lparr>qe_decoders = \<lparr>dc_utf8 = Inr, dc_json = (\<lambda>s. JsonInvalid [])\<rparr>, qe_repr = (\<lambda>v. []),
     qe_getenv = (\<lambda>n. if n = ''KEY'' then Some ''k'' else None), qe_hmac = (\<lambda>secret text. ''00''),
     qe_governance = None, qe_look_error = None, qe_put_error = None, qe_look_time = t, qe_put_time = t,
     qe_agent = Some (\<lambda>k. if k = 0 then Inl ''timeout'' else Inr (AnswerValue PNone)), qe_broker = None,
     qe_started = t, qe_finished = t, qe_rec_id = ''r'', qe_rec_time = 0\<rparr>"

definition sample_message :: "string \<Rightarrow> (string \<times> string) list \<Rightarrow> raw_message" where
  "sample_message i headers = \<lparr>rm_id = i, rm_body = ''hello'', rm_headers = headers, rm_timestamp = 0\<rparr>"

definition sample_envelope :: envelope where
  "sample_envelope = \<lparr>en_id = ''1'', en_payload = Decoded (PStr ''hello''),
     en_headers = [(''x-tenant-id'', ''acme''), (''x-tenant-signature'', ''00'')], en_received = 0,
     en_source = ''orders'', en_dedup = None, en_event = None, en_tenant = Some ''acme''\<rparr>"

definition sample_queue_state :: queue_state where
  "sample_queue_state = \<lparr>qs_running = True, qs_paused = False, qs_workers = 1, qs_processed = 0, qs_failed = 0, qs_dedup = 0,
     qs_metrics = metrics_new, qs_store = Some Map.empty, qs_ledger = None, qs_actions = [], qs_calls = [], qs_slept = []\<rparr>"

text \<open>
  C14. A message that was processed is not run again within the window: after it, whatever a
  worker consumes before the window ends, a message with the same deduplication key runs no
  agent, as long as the store answers.
\<close>

theorem queue_dedup_window:
  assumes "process_message env cfg raw s = (Inr r, s1)" and "pr_status r = ''processed''"
    and "from_raw_message (qe_decoders env) raw (qc_queue cfg) (create_parser (qc_parser cfg)) = Inr en"
    and "qs_store s \<noteq> None" and "qc_dedup cfg" and "qe_put_error env = None"
    and "list_all (handled_between (qe_put_time env) (qe_put_time env + rat_of_int (max 1 (qc_window cfg)))) msgs"
    and "from_raw_message (qe_decoders env') raw' (qc_queue cfg) (create_parser (qc_parser cfg)) = Inr en'"
    and "dedup_key_of en' = dedup_key_of en"
    and "qe_look_time env' < qe_put_time env + rat_of_int (max 1 (qc_window cfg))" and "qe_look_error env' = None"
  shows "qs_calls (snd (process_message env' cfg raw' (consume_all cfg msgs s1))) = qs_calls (consume_all cfg msgs s1)"
  using known_key_skipped [OF assms(8) _ assms(10) assms(5) assms(11)]
    consume_all_knows [OF processed_remembers [OF assms(1-6)] assms(7)]
  unfolding assms(9) by blast

subsection \<open>Facts about counters, secrets and calls\<close>

lemma tally_processed: "tally (s\<lparr>qs_processed := qs_processed s + 1, qs_metrics := m\<rparr>) = tally s + 1"
  by (simp add: tally_def)

lemma check_secrets_True:
  "check_secrets env signature text names = Inr True \<Longrightarrow>
     \<exists>name v. name \<in> set names \<and> qe_getenv env name = Some v \<and> py_strip v \<noteq> [] \<and> signature = qe_hmac env (py_strip v) text"
proof (induction names)
  case (Cons name names)
  show ?case
  proof (cases "qe_getenv env name")
    case None
    with Cons show ?thesis by auto
  next
    case (Some v)
    with Cons show ?thesis by (auto simp: Let_def split: if_splits)
  qed
qed simp

lemma run_calls:
  assumes "qe_agent env = Some agent" and "qc_max_retries cfg = int m"
  shows "length (qs_calls (snd (run_and_settle env cfg raw en tr tn False s))) \<ge> length (qs_calls s) + 1"
proof -
  have grow: "length (qs_calls s') \<le> length (qs_calls (snd (trigger_loop agent cfg call ks e s')))" for call ks e s'
  proof (induction ks arbitrary: e s')
    case (Cons k ks)
    show ?case
    proof (cases "agent k")
      case (Inl err)
      with Cons [of "s'\<lparr>qs_calls := qs_calls s' @ [call], qs_metrics := metric_retry (qs_metrics s'),
          qs_slept := qs_slept s' @ [compute_backoff_seconds cfg k]\<rparr>" "Some err"]
      show ?thesis by (simp add: Let_def)
    qed simp
  qed (simp split: option.split)
  obtain ks where ks: "[0..<nat (qc_max_retries cfg + 1)] = 0 # ks" using assms(2) by (simp add: upt_rec)
  have t: "length (qs_calls s) + 1 \<le> length (qs_calls (snd (trigger_agent_with_retry env cfg en tr tn s)))"
    using grow [of "s\<lparr>qs_calls := qs_calls s @ [agent_call_of cfg en tr tn], qs_metrics := metric_retry (qs_metrics s),
        qs_slept := qs_slept s @ [compute_backoff_seconds cfg 0]\<rparr>"]
    by (auto simp: trigger_agent_with_retry_def assms(1) ks Let_def split: sum.split)
  have "qs_calls (snd (handle_processing_error env cfg raw e s')) = qs_calls s'" for e s'
    by (simp add: handle_processing_error_def Let_def)
  with t show ?thesis
    by (cases "trigger_agent_with_retry env cfg en tr tn s") (auto simp: run_and_settle_def split: sum.split)
qed

subsection \<open>Properties\<close>

theorem queue_dedup_window_witness:
  "length (qs_calls (snd (process_message (sample_queue_env 10) sample_queue_config (sample_message ''1'' [])
     (snd (process_message (sample_queue_env 0) sample_queue_config (sample_message ''1'' []) sample_queue_state))))) = 2"
proof -
  let ?en = "\<lparr>en_id = ''1'', en_payload = Decoded (PStr ''hello''), en_headers = [], en_received = 0,
     en_source = ''orders'', en_dedup = None, en_event = None, en_tenant = None\<rparr>"
  let ?p = "process_message (sample_queue_env 0) sample_queue_config (sample_message ''1'' []) sample_queue_state"
  have st: "map_sum id pr_status (fst ?p) = Inr ''processed''" and n: "length (qs_calls (snd ?p)) = 2"
    by code_simp+
  then obtain r s1 where p: "?p = (Inr r, s1)" and r: "pr_status r = ''processed''"
    by (cases ?p; cases "fst ?p") auto
  have raw: "from_raw_message (qe_decoders (sample_queue_env t)) (sample_message ''1'' []) (qc_queue sample_queue_config)
      (create_parser (qc_parser sample_queue_config)) = Inr ?en" for t
  proof -
    have "create_parser (qc_parser sample_queue_config) = TextParser" by code_simp
    then show ?thesis
      by (simp add: from_raw_message_def sample_queue_env_def sample_message_def sample_queue_config_def)
  qed
  have "qs_calls (snd (process_message (sample_queue_env 10) sample_queue_config (sample_message ''1'' []) (consume_all sample_queue_config [] s1)))
      = qs_calls (consume_all sample_queue_config [] s1)"
    by (rule queue_dedup_window [OF p r raw _ _ _ _ raw])
      (simp_all add: sample_queue_state_def sample_queue_config_def sample_queue_env_def)
  with n p show ?thesis by simp
qed

text \<open>
  C9. A message is settled exactly once: when processing returns, exactly one call was made to
  the broker, for this message, and it is the one its outcome asks for (an acknowledgement for
  processed and duplicate messages, the dead-letter queue for a message that does not parse,
  the configured policy after a refusal or an error), and exactly one of the counters
  processed, failed and duplicate has grown by one. When it raises, at most one call was made,
  and one only if that call is what failed.
\<close>

theorem queue_message_settled:
  "case process_message env cfg raw s of
     (Inr r, s') \<Rightarrow> (\<exists>a. qs_actions s' = qs_actions s @ [a] \<and> settles cfg raw (pr_status r) a) \<and> tally s' = tally s + 1
   | (Inl e, s') \<Rightarrow> qs_actions s' = qs_actions s \<or> qe_broker env = Some e \<and> (\<exists>a. qs_actions s' = qs_actions s @ [a])"
proof (cases "from_raw_message (qe_decoders env) raw (qc_queue cfg) (create_parser (qc_parser cfg))")
  case (Inl f)
  then show ?thesis
    by (cases f) (auto simp: process_message_def Let_def settle_def settles_def split: option.split)
next
  case (Inr en)
  let ?tr = "''queue-'' @ rm_id raw"
  consider e where "process_envelope env cfg raw en ?tr s = (Inl e, s)"
    | status run_id tn where "fst (process_envelope env cfg raw en ?tr s) = map_sum id (\<lambda>_. (status, run_id, tn)) (broker_result env)"
        "settled cfg raw status s (snd (process_envelope env cfg raw en ?tr s))"
    using process_envelope_settles [of env cfg en raw ?tr s] by blast
  then show ?thesis
  proof cases
    case 1
    with Inr show ?thesis by (simp add: process_message_def Let_def)
  next
    case 2
    obtain out s1 where p: "process_envelope env cfg raw en ?tr s = (out, s1)"
      by (cases "process_envelope env cfg raw en ?tr s")
    from 2(2) p obtain a where a: "qs_actions s1 = qs_actions s @ [a]" "settles cfg raw status a"
      and t: "tally s1 = tally s + (if status = ''processed'' then 0 else 1)"
      by (auto simp: settled_def)
    show ?thesis
    proof (cases "qe_broker env")
      case (Some e)
      with 2(1) p a Inr show ?thesis by (simp add: process_message_def Let_def broker_result_def)
    next
      case None
      with 2(1) p have out: "out = Inr (status, run_id, tn)" by (simp add: broker_result_def)
      show ?thesis
      proof (cases "status = ''processed''")
        case True
        with out p a t Inr show ?thesis
          by (simp add: process_message_def Let_def record_success_execution_def tally_processed)
      next
        case False
        with out p a t Inr show ?thesis by (simp add: process_message_def Let_def)
      qed
    qed
  qed
qed

text \<open>
  C20. The agent is tried until its first success, at most \<open>max_retries + 1\<close> times: the calls
  are that many copies of one call, the delays slept are the configured backoff of each failed
  attempt but the last, and the outcome is the first success, or the last error when there is
  none.
\<close>

theorem queue_retries_exact:
  assumes "qc_max_retries cfg = int m" and "qe_agent env = Some agent"
  shows "let (out, s') = trigger_agent_with_retry env cfg en tr tn s; call = agent_call_of cfg en tr tn in
    case attempts_of agent m of
      Some k \<Rightarrow> out = Inr (Some (projr (agent k))) \<and> qs_calls s' = qs_calls s @ replicate (Suc k) call
        \<and> qs_slept s' = qs_slept s @ map (compute_backoff_seconds cfg) [0..<k]
    | None \<Rightarrow> out = Inl (projl (agent m)) \<and> qs_calls s' = qs_calls s @ replicate (Suc m) call
        \<and> qs_slept s' = qs_slept s @ map (compute_backoff_seconds cfg) [0..<m]"
proof -
  let ?call = "agent_call_of cfg en tr tn"
  have n: "nat (qc_max_retries cfg + 1) = Suc m" using assms(1) by simp
  obtain out s' where t: "trigger_agent_with_retry env cfg en tr tn s = (out, s')"
    by (cases "trigger_agent_with_retry env cfg en tr tn s")
  then have l: "trigger_loop agent cfg ?call [0..<Suc m] None s = (out, s')"
    using assms(2) by (simp only: trigger_agent_with_retry_def option.case n)
  note spec = trigger_loop_spec [OF assms(1), of 0 agent ?call None s, folded attempts_of_def, unfolded l fst_conv snd_conv]
  show ?thesis
  proof (cases "attempts_of agent m")
    case None
    with spec t show ?thesis by (simp add: retried_def)
  next
    case (Some k)
    with spec t show ?thesis by (simp add: retried_def)
  qed
qed

theorem queue_retries_exact_witness:
  "map_prod (\<lambda>out. out) (\<lambda>s'. (length (qs_calls s'), qs_slept s'))
     (trigger_agent_with_retry (sample_queue_env 0) sample_queue_config sample_envelope ''t'' ''a'' sample_queue_state)
   = (Inr (Some (AnswerValue PNone)), 2, [1])"
proof -
  let ?agent = "\<lambda>k. if k = 0 then Inl ''timeout'' else Inr (AnswerValue PNone)"
  have "attempts_of ?agent 2 = Some 1" by (simp add: attempts_of_def upt_rec)
  moreover have "qc_max_retries sample_queue_config = int 2" "qe_agent (sample_queue_env 0) = Some ?agent"
    by (simp_all add: sample_queue_config_def sample_queue_env_def)
  ultimately show ?thesis
    using queue_retries_exact [of sample_queue_config 2 "sample_queue_env 0" ?agent sample_envelope "''t''" "''a''" sample_queue_state]
    by (auto simp: Let_def compute_backoff_seconds_def sample_queue_config_def sample_queue_state_def)
qed

text \<open>
  C19. A tenant other than the default is only taken from a header when the configuration
  trusts the header, the producer is one of the trusted ones if there are any, and, if a
  signature secret is configured, one of the secrets signs the message, the tenant and the
  producer with the signature of the message.
\<close>

theorem queue_tenant_trusted:
  assumes "resolve_tenant_id env cfg en = Inr tenant" and "tenant \<noteq> default_tenant cfg"
  shows "qc_trust_tenant cfg
    \<and> tenant = py_strip (header_of (en_headers en) (header_name (qc_tenant_header cfg) ''x-tenant-id'')) \<and> tenant \<noteq> []
    \<and> (case qc_producers cfg of None \<Rightarrow> True | Some trusted \<Rightarrow> trusted = [] \<or> producer_of cfg en \<in> set trusted)
    \<and> (signature_secret_env_names cfg = []
       \<or> (\<exists>name v. name \<in> set (signature_secret_env_names cfg) \<and> qe_getenv env name = Some v \<and> py_strip v \<noteq> []
            \<and> py_strip (header_of (en_headers en) (header_name (qc_signature_header cfg) ''x-tenant-signature''))
              = qe_hmac env (py_strip v) (signed_text en tenant (producer_of cfg en))))"
proof -
  let ?c = "py_strip (header_of (en_headers en) (header_name (qc_tenant_header cfg) ''x-tenant-id''))"
  have "qc_trust_tenant cfg" and p: "\<not> (case qc_producers cfg of None \<Rightarrow> False
      | Some trusted \<Rightarrow> trusted \<noteq> [] \<and> producer_of cfg en \<notin> set trusted)"
    and "?c \<noteq> []" and v: "is_valid_tenant_signature env cfg en ?c (producer_of cfg en) = Inr True" and t: "tenant = ?c"
    using assms by (auto simp: resolve_tenant_id_def Let_def and_then_Inr_iff split: if_splits)
  moreover have "signature_secret_env_names cfg = [] \<or> (\<exists>name v. name \<in> set (signature_secret_env_names cfg)
      \<and> qe_getenv env name = Some v \<and> py_strip v \<noteq> []
      \<and> py_strip (header_of (en_headers en) (header_name (qc_signature_header cfg) ''x-tenant-signature''))
        = qe_hmac env (py_strip v) (signed_text en tenant (producer_of cfg en)))"
    using v check_secrets_True unfolding t by (simp add: is_valid_tenant_signature_def Let_def split: if_splits)
  ultimately show ?thesis by (simp split: option.splits)
qed

theorem queue_tenant_trusted_witness:
  "producer_of sample_queue_config sample_envelope = []
   \<and> (\<exists>name v. name \<in> set (signature_secret_env_names sample_queue_config)
        \<and> qe_getenv (sample_queue_env 0) name = Some v \<and> py_strip v \<noteq> []
        \<and> ''00'' = qe_hmac (sample_queue_env 0) (py_strip v) ''1:acme:'')"
proof -
  have "resolve_tenant_id (sample_queue_env 0) sample_queue_config sample_envelope = Inr ''acme''"
    and "''acme'' \<noteq> default_tenant sample_queue_config"
    and n: "signature_secret_env_names sample_queue_config \<noteq> []"
    and p: "producer_of sample_queue_config sample_envelope = []"
    and "py_strip (header_of (en_headers sample_envelope)
        (header_name (qc_signature_header sample_queue_config) ''x-tenant-signature'')) = ''00''"
    and "signed_text sample_envelope ''acme'' [] = ''1:acme:''"
    by code_simp+
  with queue_tenant_trusted [of "sample_queue_env 0" sample_queue_config sample_envelope "''acme''"] show ?thesis by auto
qed

text \<open>
  Two workers can run the same message twice: when both look a key up before either has
  finished, and neither sees it, both run the agent, although each remembers the key
  afterwards.
\<close>

theorem dedup_lookup_races:
  assumes "dedup_lookup env1 cfg en1 s = (False, s1)" and "dedup_lookup env2 cfg en2 s1 = (False, s2)"
    and "qe_agent env1 = Some agent1" and "qe_agent env2 = Some agent2" and "qc_max_retries cfg = int m"
  shows "length (qs_calls (snd (run_and_settle env2 cfg raw2 en2 tr2 tn2 False
      (snd (run_and_settle env1 cfg raw1 en1 tr1 tn1 False s2))))) \<ge> length (qs_calls s) + 2"
proof -
  have one: "length (qs_calls (snd (run_and_settle env cfg raw en tr tn False s'))) \<ge> length (qs_calls s') + 1"
    if "qe_agent env = Some agent" for env raw en tr tn s' agent
    by (rule run_calls [OF that assms(5)])
  have "length (qs_calls s2) = length (qs_calls s)"
    using dedup_frame(3) [of env1 cfg en1 s] dedup_frame(3) [of env2 cfg en2 s1] assms(1,2) by simp
  with one [OF assms(3), of s2 raw1 en1 tr1 tn1]
    one [OF assms(4), of "snd (run_and_settle env1 cfg raw1 en1 tr1 tn1 False s2)" raw2 en2 tr2 tn2]
  show ?thesis by linarith
qed

theorem dedup_lookup_races_witness:
  "2 \<le> length (qs_calls (snd (run_and_settle (sample_queue_env 0) sample_queue_config (sample_message ''1'' []) sample_envelope ''t'' ''a'' False
      (snd (run_and_settle (sample_queue_env 0) sample_queue_config (sample_message ''1'' []) sample_envelope ''t'' ''a'' False
        (snd (dedup_lookup (sample_queue_env 0) sample_queue_config sample_envelope
          (snd (dedup_lookup (sample_queue_env 0) sample_queue_config sample_envelope sample_queue_state)))))))))"
proof -
  let ?look = "dedup_lookup (sample_queue_env 0) sample_queue_config sample_envelope"
  have "fst (?look sample_queue_state) = False" "fst (?look (snd (?look sample_queue_state))) = False"
    by code_simp+
  then have a: "?look sample_queue_state = (False, snd (?look sample_queue_state))"
    and b: "?look (snd (?look sample_queue_state)) = (False, snd (?look (snd (?look sample_queue_state))))"
    by (metis prod.collapse)+
  have ag: "qe_agent (sample_queue_env 0) = Some (\<lambda>k. if k = 0 then Inl ''timeout'' else Inr (AnswerValue PNone))"
    and mr: "qc_max_retries sample_queue_config = int 2" and "qs_calls sample_queue_state = []"
    by (simp_all add: sample_queue_env_def sample_queue_config_def sample_queue_state_def)
  with dedup_lookup_races [OF a b ag ag mr, of "sample_message ''1'' []" "''t''" "''a''" "sample_message ''1'' []" "''t''" "''a''"]
  show ?thesis by simp
qed

text \<open>
  A signature with a character outside ASCII leaves its message unsettled: with a secret
  configured, the comparison raises before anything is done with the message, so the broker
  gets no acknowledgement and no dead letter, and only the failure counters grow.
\<close>

theorem non_ascii_signature_unsettled:
  assumes "from_raw_message (qe_decoders env) raw (qc_queue cfg) (create_parser (qc_parser cfg)) = Inr en"
    and "qc_trust_tenant cfg" and "qc_producers cfg = None"
    and "py_strip (header_of (en_headers en) (header_name (qc_tenant_header cfg) ''x-tenant-id'')) \<noteq> []"
    and "\<not> ascii (py_strip (header_of (en_headers en) (header_name (qc_signature_header cfg) ''x-tenant-signature'')))"
    and "signature_secret_env_names cfg = name # names" and "qe_getenv env name = Some v" and "py_strip v \<noteq> []"
    and "qs_running s" and "\<not> qs_paused s"
  shows "consume_turn env cfg raw s = (Done, count_failure s)"
proof -
  have ne: "py_strip (header_of (en_headers en) (header_name (qc_signature_header cfg) ''x-tenant-signature'')) \<noteq> []"
    using assms(5) by (auto simp: ascii_def)
  have "resolve_tenant_id env cfg en = Inl (TypeError ''comparing strings with non-ASCII characters is not supported'')"
    using assms ne by (simp add: resolve_tenant_id_def is_valid_tenant_signature_def Let_def)
  with assms(1,9,10) show ?thesis
    by (simp add: consume_turn_def process_message_def process_envelope_def Let_def)
qed

theorem non_ascii_signature_unsettled_witness:
  "consume_turn (sample_queue_env 0) sample_queue_config
     (sample_message ''1'' [(''x-tenant-id'', ''acme''), (''x-tenant-signature'', [CHR 0xE9])]) sample_queue_state
   = (Done, count_failure sample_queue_state)"
proof -
  let ?m = "sample_message ''1'' [(''x-tenant-id'', ''acme''), (''x-tenant-signature'', [CHR 0xE9])]"
  let ?en = "\<lparr>en_id = ''1'', en_payload = Decoded (PStr ''hello''), en_headers = rm_headers ?m, en_received = 0,
     en_source = ''orders'', en_dedup = None, en_event = None, en_tenant = Some ''acme''\<rparr>"
  show ?thesis
  proof (rule non_ascii_signature_unsettled)
    show "from_raw_message (qe_decoders (sample_queue_env 0)) ?m (qc_queue sample_queue_config)
        (create_parser (qc_parser sample_queue_config)) = Inr ?en"
      by code_simp
    show "py_strip (header_of (en_headers ?en) (header_name (qc_tenant_header sample_queue_config) ''x-tenant-id'')) \<noteq> []"
      by code_simp
    show "\<not> ascii (py_strip (header_of (en_headers ?en) (header_name (qc_signature_header sample_queue_config) ''x-tenant-signature'')))"
      by code_simp
    show "signature_secret_env_names sample_queue_config = ''KEY'' # []" by code_simp
    show "py_strip ''k'' \<noteq> []" by code_simp
  qed (simp_all add: sample_queue_config_def sample_queue_env_def sample_queue_state_def)
qed

text \<open>
  When the connection fails, \<open>start\<close> raises but leaves the trigger marked as running, without
  workers, so that a second \<open>start\<close> is refused until \<open>stop\<close> is called.
\<close>

lemma failed_connect_blocks_start:
  assumes "\<not> qs_running s" and "queue_start (Some e) cfg s = (out, s')"
  shows "out = Inl e \<and> qs_workers s' = qs_workers s
    \<and> queue_start connect cfg s' = (Inl (RuntimeError ''QueueTrigger already running''), s')"
  using assms by (auto simp: queue_start_def)

text \<open>The configured event header has no influence: the name of an event is always read from \<open>x-event-name\<close>.\<close>

lemma trigger_loop_event_header:
  "trigger_loop agent (cfg\<lparr>qc_event_header := h\<rparr>) call ks e s = trigger_loop agent cfg call ks e s"
  by (induction ks arbitrary: e s) (simp_all add: compute_backoff_seconds_def Let_def split: sum.split)

lemma event_header_frame:
  "qc_queue (cfg\<lparr>qc_event_header := h\<rparr>) = qc_queue cfg"
  "qc_fail_open (cfg\<lparr>qc_event_header := h\<rparr>) = qc_fail_open cfg"
  "qc_dedup (cfg\<lparr>qc_event_header := h\<rparr>) = qc_dedup cfg"
  "qc_window (cfg\<lparr>qc_event_header := h\<rparr>) = qc_window cfg"
  "qc_focus (cfg\<lparr>qc_event_header := h\<rparr>) = qc_focus cfg"
  "qc_ack_policy (cfg\<lparr>qc_event_header := h\<rparr>) = qc_ack_policy cfg"
  "qc_max_retries (cfg\<lparr>qc_event_header := h\<rparr>) = qc_max_retries cfg"
  "qc_parser (cfg\<lparr>qc_event_header := h\<rparr>) = qc_parser cfg"
  "qc_default_tenant (cfg\<lparr>qc_event_header := h\<rparr>) = qc_default_tenant cfg"
  "qc_trust_tenant (cfg\<lparr>qc_event_header := h\<rparr>) = qc_trust_tenant cfg"
  "qc_tenant_header (cfg\<lparr>qc_event_header := h\<rparr>) = qc_tenant_header cfg"
  "qc_producer_header (cfg\<lparr>qc_event_header := h\<rparr>) = qc_producer_header cfg"
  "qc_producers (cfg\<lparr>qc_event_header := h\<rparr>) = qc_producers cfg"
  "qc_signature_header (cfg\<lparr>qc_event_header := h\<rparr>) = qc_signature_header cfg"
  "qc_secret_env (cfg\<lparr>qc_event_header := h\<rparr>) = qc_secret_env cfg"
  "qc_secret_envs (cfg\<lparr>qc_event_header := h\<rparr>) = qc_secret_envs cfg"
  by simp_all

lemma process_envelope_event_header:
  "process_envelope env (cfg\<lparr>qc_event_header := h\<rparr>) raw en tr s = process_envelope env cfg raw en tr s"
proof -
  let ?c = "cfg\<lparr>qc_event_header := h\<rparr>"
  have names: "signature_secret_env_names ?c = signature_secret_env_names cfg" "default_tenant ?c = default_tenant cfg"
    by (simp_all only: signature_secret_env_names_def default_tenant_def event_header_frame)
  have producer: "producer_of ?c en' = producer_of cfg en'" for en'
    by (simp only: producer_of_def event_header_frame)
  have signature: "is_valid_tenant_signature env ?c en' t p = is_valid_tenant_signature env cfg en' t p" for en' t p
    by (simp only: is_valid_tenant_signature_def names event_header_frame)
  have tenant: "resolve_tenant_id env ?c en' = resolve_tenant_id env cfg en'" for en'
    by (simp only: resolve_tenant_id_def names producer signature event_header_frame)
  have gov: "check_governance env ?c en tn = check_governance env cfg en tn" for tn
    by (simp only: check_governance_def gov_context_def event_header_frame)
  have rej: "handle_governance_rejection env ?c raw en tn d tr s = handle_governance_rejection env cfg raw en tn d tr s" for tn d
    by (simp only: handle_governance_rejection_def record_governance_rejection_def event_header_frame)
  have look: "dedup_lookup env ?c en s = dedup_lookup env cfg en s" by (simp only: dedup_lookup_def event_header_frame)
  have run: "run_and_settle env ?c raw en tr tn seen s' = run_and_settle env cfg raw en tr tn seen s'" for tn seen s'
    by (simp only: run_and_settle_def trigger_agent_with_retry_def trigger_loop_event_header agent_call_of_def
        handle_processing_error_def dedup_remember_def event_header_frame)
  show ?thesis by (simp only: process_envelope_def tenant gov rej look run)
qed

lemma event_header_ignored:
  "process_message env (cfg\<lparr>qc_event_header := h\<rparr>) raw s = process_message env cfg raw s"
proof -
  have "record_success_execution env (cfg\<lparr>qc_event_header := h\<rparr>) en tn tr d r s'
      = record_success_execution env cfg en tn tr d r s'" for en tn tr d r s'
    by (simp only: record_success_execution_def event_header_frame)
  then show ?thesis by (simp only: process_message_def process_envelope_event_header event_header_frame)
qed

end
