(* ===== verification/MemoryStore.thy ===== *)
theory MemoryStore
  imports Prelude
begin

section \<open>Agent memory: entries and the in-memory store\<close>

text \<open>
  \<open>owlclaw/agent/memory/models.py\<close>, \<open>decay.py\<close> and \<open>store_inmemory.py\<close>. A dict is an
  association list in insertion order, because ties of the sorts depend on it. Embeddings and
  scores are reals: the norms, the cosine and the exponential decay are exact. The entries a
  search returns are copies, so nothing outside the store aliases its entries. The locale
  \<open>memory_backend\<close> is the part of the store interface that maintenance relies on.
\<close>

subsection \<open>Entries\<close>

datatype security_level = PUBLIC | INTERNAL | CONFIDENTIAL | RESTRICTED

record memory_entry =
  me_id :: uuid
  me_agent :: string
  me_tenant :: string
  me_content :: string
  me_embedding :: "real list option"
  me_tags :: "string list"
  me_level :: security_level
  me_version :: int
  me_created :: micros
  me_accessed :: "micros option"
  me_count :: int
  me_archived :: bool

type_synonym search_key = "string \<times> string \<times> real list \<times> int \<times> string list \<times> bool"

record mem_store =
  mt_entries :: "(uuid \<times> memory_entry) list"
  mt_norms :: "uuid \<rightharpoonup> real"
  mt_cache :: "search_key \<rightharpoonup> (uuid \<times> real) list"
  mt_half_life :: real
  mt_max :: int

definition mem_store_new :: "real \<Rightarrow> int \<Rightarrow> mem_store" where
  "mem_store_new half_life max_entries =
     \<lparr>mt_entries = [], mt_norms = Map.empty, mt_cache = Map.empty, mt_half_life = half_life, mt_max = max 1 max_entries\<rparr>"

definition entries_in :: "mem_store \<Rightarrow> memory_entry list" where
  "entries_in s = map snd (mt_entries s)"

definition in_scope :: "string \<Rightarrow> string \<Rightarrow> memory_entry \<Rightarrow> bool" where
  "in_scope agent_id tenant_id e = (me_agent e = agent_id \<and> me_tenant e = tenant_id)"

subsection \<open>Decay and similarity\<close>

definition time_decay :: "real \<Rightarrow> real \<Rightarrow> py_error + real" where
  "time_decay age_hours half_life_hours =
     (if half_life_hours \<le> 0 then Inl (ValueError ''half_life_hours must be > 0'')
      else if age_hours \<le> 0 then Inr 1
      else Inr (exp (- (693 / 1000) * age_hours / half_life_hours)))"

definition embedding_norm :: "real list \<Rightarrow> real" where
  "embedding_norm v = sqrt (sum_list (map (\<lambda>x. x * x) v))"

text \<open>\<open>zip(a, b, strict=True)\<close> refuses vectors of different lengths.\<close>

definition dot_product :: "real list \<Rightarrow> real list \<Rightarrow> py_error + real" where
  "dot_product a b =
     (if length a \<noteq> length b then Inl (ValueError ''zip() arguments have different lengths'')
      else Inr (sum_list (map (\<lambda>(x, y). x * y) (zip a b))))"

subsection \<open>Saving and eviction\<close>

definition touch_sort_key :: "memory_entry \<Rightarrow> micros" where
  "touch_sort_key e = (case me_accessed e of Some t \<Rightarrow> t | None \<Rightarrow> me_created e)"

definition drop_ids :: "uuid list \<Rightarrow> mem_store \<Rightarrow> mem_store" where
  "drop_ids ids s = s\<lparr>mt_entries := filter (\<lambda>p. fst p \<notin> set ids) (mt_entries s),
     mt_norms := mt_norms s |` (- set ids)\<rparr>"

definition evict_if_needed :: "mem_store \<Rightarrow> mem_store" where
  "evict_if_needed s =
     (let overflow = int (length (mt_entries s)) - mt_max s in
      if overflow \<le> 0 then s
      else drop_ids (map me_id (take (nat overflow) (sort_asc touch_sort_key (entries_in s)))) s)"

definition store_save :: "memory_entry \<Rightarrow> mem_store \<Rightarrow> uuid \<times> mem_store" where
  "store_save e s =
     (let norm = (case me_embedding e of None \<Rightarrow> 0 | Some v \<Rightarrow> if v \<noteq> [] then embedding_norm v else 0);
          s1 = s\<lparr>mt_entries := AList.update (me_id e) e (mt_entries s), mt_norms := (mt_norms s)(me_id e \<mapsto> norm)\<rparr>
      in (me_id e, (evict_if_needed s1)\<lparr>mt_cache := Map.empty\<rparr>))"

subsection \<open>Searching\<close>

definition search_candidates :: "string \<Rightarrow> string \<Rightarrow> string list \<Rightarrow> bool \<Rightarrow> mem_store \<Rightarrow> memory_entry list" where
  "search_candidates agent_id tenant_id tags include_archived s =
     filter (\<lambda>e. in_scope agent_id tenant_id e \<and> (include_archived \<or> \<not> me_archived e) \<and> set tags \<subseteq> set (me_tags e)) (entries_in s)"

text \<open>\<open>None\<close> for an entry that is passed over.\<close>

definition entry_score :: "micros \<Rightarrow> real list \<Rightarrow> mem_store \<Rightarrow> memory_entry \<Rightarrow> py_error + real option" where
  "entry_score now query s e =
     (case me_embedding e of
        None \<Rightarrow> Inr None
      | Some v \<Rightarrow>
          (let emb_norm = (case mt_norms s (me_id e) of None \<Rightarrow> 0 | Some n \<Rightarrow> n) in
           if v = [] \<or> emb_norm \<le> 0 then Inr None
           else and_then (dot_product query v) (\<lambda>dot.
             and_then (time_decay (of_int (now - me_created e) / 3600000000) (mt_half_life s)) (\<lambda>decay.
               Inr (Some (max 0 (min 1 (dot / (embedding_norm query * emb_norm))) * decay))))))"

fun score_loop :: "micros \<Rightarrow> real list \<Rightarrow> mem_store \<Rightarrow> memory_entry list \<Rightarrow> py_error + (memory_entry \<times> real) list" where
  "score_loop now query s [] = Inr []"
| "score_loop now query s (e # es) =
     and_then (entry_score now query s e) (\<lambda>score.
       and_then (score_loop now query s es) (\<lambda>rest.
         Inr (case score of None \<Rightarrow> rest | Some r \<Rightarrow> (e, r) # rest)))"

definition cache_key :: "(real \<Rightarrow> real) \<Rightarrow> string \<Rightarrow> string \<Rightarrow> real list \<Rightarrow> int \<Rightarrow> string list \<Rightarrow> bool \<Rightarrow> search_key" where
  "cache_key round6 agent_id tenant_id query limit tags include_archived =
     (agent_id, tenant_id, map round6 query, limit, sort tags, include_archived)"

text \<open>
  \<open>heapq.nlargest\<close> keeps the first of equal scores, as a stable sort does. \<open>round6\<close> is the
  rounding of a float to six digits.
\<close>

definition store_search ::
  "(real \<Rightarrow> real) \<Rightarrow> micros \<Rightarrow> string \<Rightarrow> string \<Rightarrow> real list option \<Rightarrow> int \<Rightarrow> string list \<Rightarrow> bool \<Rightarrow> mem_store
     \<Rightarrow> (py_error + (memory_entry \<times> real) list) \<times> mem_store" where
  "store_search round6 now agent_id tenant_id query_embedding limit tags include_archived s =
     (let candidates = search_candidates agent_id tenant_id tags include_archived s in
      case query_embedding of
        None \<Rightarrow> (Inr (map (\<lambda>e. (e, 1)) (py_upto limit (sort_desc me_created candidates))), s)
      | Some query \<Rightarrow>
          (let key = cache_key round6 agent_id tenant_id query limit tags include_archived in
           case mt_cache s key of
             Some cached \<Rightarrow>
               (Inr (List.map_filter (\<lambda>(i, score). map_option (\<lambda>e. (e, score)) (map_of (mt_entries s) i)) cached), s)
           | None \<Rightarrow>
               if embedding_norm query \<le> 0 then (Inr [], s)
               else (case score_loop now query s candidates of
                   Inl e \<Rightarrow> (Inl e, s)
                 | Inr scored \<Rightarrow>
                     (let top = take (nat limit) (sort_desc snd scored)
                      in (Inr top, s\<lparr>mt_cache := (mt_cache s)(key \<mapsto> map (\<lambda>(e, r). (me_id e, r)) top)\<rparr>)))))"

definition store_get_recent :: "micros \<Rightarrow> string \<Rightarrow> string \<Rightarrow> int \<Rightarrow> int \<Rightarrow> mem_store \<Rightarrow> memory_entry list" where
  "store_get_recent now agent_id tenant_id hours limit s =
     (let fresh = (\<lambda>e. if hours > 0 then now - secs (hours * 3600) \<le> me_created e else True)
      in py_upto limit (sort_desc me_created
           (filter (\<lambda>e. in_scope agent_id tenant_id e \<and> \<not> me_archived e \<and> fresh e) (entries_in s))))"

subsection \<open>Archiving, deleting, listing\<close>

definition present_ids :: "uuid list \<Rightarrow> mem_store \<Rightarrow> uuid list" where
  "present_ids ids s = filter (\<lambda>i. i \<in> fst ` set (mt_entries s)) ids"

text \<open>An identifier that occurs twice is counted twice.\<close>

definition store_archive :: "uuid list \<Rightarrow> mem_store \<Rightarrow> nat \<times> mem_store" where
  "store_archive ids s =
     (let n = length (present_ids ids s);
          s1 = s\<lparr>mt_entries := map (\<lambda>(i, e). (i, if i \<in> set ids then e\<lparr>me_archived := True\<rparr> else e)) (mt_entries s)\<rparr>
      in (n, if n \<noteq> 0 then s1\<lparr>mt_cache := Map.empty\<rparr> else s1))"

text \<open>A deleted identifier is not there a second time.\<close>

definition store_delete :: "uuid list \<Rightarrow> mem_store \<Rightarrow> nat \<times> mem_store" where
  "store_delete ids s =
     (let n = length (remdups (present_ids ids s)); s1 = drop_ids ids s
      in (n, if n \<noteq> 0 then s1\<lparr>mt_cache := Map.empty\<rparr> else s1))"

definition store_count :: "string \<Rightarrow> string \<Rightarrow> mem_store \<Rightarrow> nat" where
  "store_count agent_id tenant_id s = length (filter (\<lambda>e. in_scope agent_id tenant_id e \<and> \<not> me_archived e) (entries_in s))"

definition store_update_access :: "micros \<Rightarrow> string \<Rightarrow> string \<Rightarrow> uuid list \<Rightarrow> mem_store \<Rightarrow> mem_store" where
  "store_update_access now agent_id tenant_id ids s =
     s\<lparr>mt_entries := map (\<lambda>(i, e). (i, if i \<in> set ids \<and> in_scope agent_id tenant_id e
         then e\<lparr>me_accessed := Some now, me_count := me_count e + int (count_list ids i)\<rparr> else e)) (mt_entries s)\<rparr>"

definition store_list_entries :: "string \<Rightarrow> string \<Rightarrow> bool \<Rightarrow> int \<Rightarrow> bool \<Rightarrow> mem_store \<Rightarrow> memory_entry list" where
  "store_list_entries agent_id tenant_id order_created_asc limit include_archived s =
     (let candidates = filter (\<lambda>e. in_scope agent_id tenant_id e \<and> (include_archived \<or> \<not> me_archived e)) (entries_in s)
      in py_upto limit (if order_created_asc then sort_asc me_created candidates else sort_desc me_created candidates))"

definition store_get_expired :: "string \<Rightarrow> string \<Rightarrow> micros \<Rightarrow> int \<Rightarrow> mem_store \<Rightarrow> uuid list" where
  "store_get_expired agent_id tenant_id before max_access_count s =
     map me_id (filter (\<lambda>e. in_scope agent_id tenant_id e \<and> \<not> me_archived e \<and> me_created e < before
        \<and> me_count e \<le> max_access_count) (entries_in s))"

subsection \<open>The invariant of the store\<close>

definition keyed_by_id :: "mem_store \<Rightarrow> bool" where
  "keyed_by_id s \<longleftrightarrow> distinct (dict_keys (mt_entries s)) \<and> list_all (\<lambda>p. me_id (snd p) = fst p) (mt_entries s)"

definition key_fits :: "search_key \<Rightarrow> memory_entry \<Rightarrow> bool" where
  "key_fits key e = (case key of (agent_id, tenant_id, query, limit, tags, include_archived) \<Rightarrow>
     in_scope agent_id tenant_id e \<and> (include_archived \<or> \<not> me_archived e) \<and> set tags \<subseteq> set (me_tags e))"

definition hit_ok :: "mem_store \<Rightarrow> search_key \<Rightarrow> uuid \<times> real \<Rightarrow> bool" where
  "hit_ok s key h \<longleftrightarrow> 0 \<le> snd h \<and> snd h \<le> 1
     \<and> (case map_of (mt_entries s) (fst h) of None \<Rightarrow> True | Some e \<Rightarrow> key_fits key e)"

definition cache_ok :: "mem_store \<Rightarrow> bool" where
  "cache_ok s \<longleftrightarrow> (\<forall>key hits. mt_cache s key = Some hits \<longrightarrow> list_all (hit_ok s key) hits)"

definition store_inv :: "mem_store \<Rightarrow> bool" where
  "store_inv s \<longleftrightarrow> 1 \<le> mt_max s \<and> keyed_by_id s \<and> int (length (mt_entries s)) \<le> mt_max s \<and> cache_ok s"

lemma dict_keys_ids: "keyed_by_id s \<Longrightarrow> map me_id (entries_in s) = dict_keys (mt_entries s)"
  by (simp add: keyed_by_id_def entries_in_def list_all_iff)

lemma entries_inI: "(i, e) \<in> set (mt_entries s) \<Longrightarrow> e \<in> set (entries_in s)"
  by (force simp: entries_in_def)

lemma entries_iff: "keyed_by_id s \<Longrightarrow> e \<in> set (entries_in s) \<longleftrightarrow> (me_id e, e) \<in> set (mt_entries s)"
  using entries_inI by (auto simp: keyed_by_id_def entries_in_def list_all_iff)

lemma keyed_distinct: "keyed_by_id s \<Longrightarrow> distinct (map me_id (entries_in s))"
  by (simp add: dict_keys_ids keyed_by_id_def)

lemma keyed_lookup: "keyed_by_id s \<Longrightarrow> map_of (mt_entries s) i = Some e \<longleftrightarrow> e \<in> set (entries_in s) \<and> me_id e = i"
  by (auto simp: keyed_by_id_def entries_in_def list_all_iff) (force simp: image_iff)

lemma cache_ok_empty [simp]: "cache_ok (s\<lparr>mt_cache := Map.empty\<rparr>)"
  by (simp add: cache_ok_def)

lemma keyed_cache [simp]: "keyed_by_id (s\<lparr>mt_cache := c\<rparr>) = keyed_by_id s"
  by (simp add: keyed_by_id_def)

subsection \<open>Eviction\<close>

lemma drop_ids_entries [simp]: "entries_in (drop_ids ids s) = map snd (filter (\<lambda>p. fst p \<notin> set ids) (mt_entries s))"
  by (simp add: entries_in_def drop_ids_def)

lemma drop_ids_keyed: "keyed_by_id s \<Longrightarrow> keyed_by_id (drop_ids ids s)"
  by (auto simp: keyed_by_id_def drop_ids_def list_all_iff intro: distinct_map_filter)

lemma drop_ids_frame [simp, frame_simps]: "mt_max (drop_ids ids s) = mt_max s" "mt_half_life (drop_ids ids s) = mt_half_life s"
  "mt_cache (drop_ids ids s) = mt_cache s"
  by (simp_all add: drop_ids_def)

lemma length_drop_ids:
  assumes "keyed_by_id s" and "distinct ids" and "set ids \<subseteq> fst ` set (mt_entries s)"
  shows "length (mt_entries (drop_ids ids s)) = length (mt_entries s) - length ids"
proof -
  define ks where "ks = dict_keys (mt_entries s)"
  have d: "distinct ks" and sub: "set ids \<subseteq> set ks"
    using assms(1,3) by (simp_all add: keyed_by_id_def ks_def)
  have "length (filter (\<lambda>k. k \<notin> set ids) ks) = card (set ks - set ids)"
    using d by (simp add: distinct_card [symmetric] set_diff_eq)
  also have "\<dots> = length ks - length ids"
    using assms(2) d sub by (simp add: card_Diff_subset distinct_card)
  finally show ?thesis by (simp add: drop_ids_def ks_def filter_map comp_def)
qed

definition evicted_ids :: "mem_store \<Rightarrow> uuid list" where
  "evicted_ids s = map me_id (take (nat (int (length (mt_entries s)) - mt_max s)) (sort_asc touch_sort_key (entries_in s)))"

lemma evict_eq: "mt_entries (evict_if_needed s) = filter (\<lambda>p. fst p \<notin> set (evicted_ids s)) (mt_entries s)"
  by (auto simp: evict_if_needed_def Let_def evicted_ids_def drop_ids_def)

lemma evict_frame [simp, frame_simps]: "mt_max (evict_if_needed s) = mt_max s" "mt_half_life (evict_if_needed s) = mt_half_life s"
  by (simp_all add: evict_if_needed_def Let_def)

lemma evict_keyed: "keyed_by_id s \<Longrightarrow> keyed_by_id (evict_if_needed s)"
  by (simp add: evict_if_needed_def Let_def drop_ids_keyed)

lemma evict_length:
  assumes "keyed_by_id s" and "1 \<le> mt_max s"
  shows "int (length (mt_entries (evict_if_needed s))) \<le> mt_max s"
proof (cases "int (length (mt_entries s)) \<le> mt_max s")
  case True
  then show ?thesis by (simp add: evict_if_needed_def Let_def)
next
  case False
  let ?out = "take (nat (int (length (mt_entries s)) - mt_max s)) (sort_asc touch_sort_key (entries_in s))"
  have perm: "mset (map me_id (sort_asc touch_sort_key (entries_in s))) = mset (dict_keys (mt_entries s))"
    using dict_keys_ids [OF assms(1)] by (metis mset_map mset_sort_asc)
  then have "distinct (map me_id (sort_asc touch_sort_key (entries_in s)))"
    using assms(1) by (metis keyed_by_id_def mset_eq_imp_distinct_iff)
  then have d: "distinct (map me_id ?out)" by (metis distinct_take take_map)
  have "set (map me_id ?out) \<subseteq> set (map me_id (sort_asc touch_sort_key (entries_in s)))"
    by (auto dest: in_set_takeD)
  also have "\<dots> = fst ` set (mt_entries s)" using perm by (metis set_map set_mset_mset)
  finally have sub: "set (map me_id ?out) \<subseteq> fst ` set (mt_entries s)" .
  have "length ?out = nat (int (length (mt_entries s)) - mt_max s)"
    using assms(2) by (simp add: entries_in_def)
  then have "length (mt_entries (evict_if_needed s)) = length (mt_entries s) - nat (int (length (mt_entries s)) - mt_max s)"
    using False length_drop_ids [OF assms(1) d sub] by (simp add: evict_if_needed_def Let_def)
  then show ?thesis using False assms(2) by linarith
qed

subsection \<open>Every operation keeps the invariant\<close>

lemma save_keyed:
  assumes "keyed_by_id s"
  shows "keyed_by_id (s\<lparr>mt_entries := AList.update (me_id e) e (mt_entries s), mt_norms := n\<rparr>)"
proof -
  have d: "distinct (dict_keys (mt_entries s))" using assms by (simp add: keyed_by_id_def)
  have "me_id (snd p) = fst p" if "p \<in> set (AList.update (me_id e) e (mt_entries s))" for p
    using dict_update_mem [OF d, of "fst p" "snd p" "me_id e" e] assms that
    by (cases p) (auto simp: keyed_by_id_def list_all_iff split: if_splits)
  then show ?thesis using d by (simp add: keyed_by_id_def list_all_iff distinct_keys_update)
qed

lemma save_keeps: "store_inv s \<Longrightarrow> store_inv (snd (store_save e s))"
proof -
  assume inv: "store_inv s"
  let ?n = "case me_embedding e of None \<Rightarrow> 0 | Some v \<Rightarrow> if v \<noteq> [] then embedding_norm v else 0"
  let ?s1 = "s\<lparr>mt_entries := AList.update (me_id e) e (mt_entries s), mt_norms := (mt_norms s)(me_id e \<mapsto> ?n)\<rparr>"
  have k1: "keyed_by_id ?s1" using inv by (intro save_keyed) (simp add: store_inv_def)
  have "1 \<le> mt_max ?s1" using inv by (simp add: store_inv_def)
  with k1 show "store_inv (snd (store_save e s))"
    using evict_keyed [OF k1] evict_length [OF k1] by (simp add: store_save_def Let_def store_inv_def)
qed

lemma map_of_filter_keys: "map_of (filter (\<lambda>p. P (fst p)) xs) k = (if P k then map_of xs k else None)"
  by (induction xs) auto

lemma cache_hits: "store_inv s \<Longrightarrow> mt_cache s key = Some hits \<Longrightarrow> list_all (hit_ok s key) hits"
  by (simp only: store_inv_def cache_ok_def)

lemma keyed_mapped:
  assumes "keyed_by_id s" and "\<And>i e. me_id (f i e) = me_id e"
  shows "keyed_by_id (s\<lparr>mt_entries := map (\<lambda>(i, e). (i, f i e)) (mt_entries s)\<rparr>)"
proof -
  have "map fst (map (\<lambda>(i, e). (i, f i e)) xs) = map fst xs" for xs :: "(uuid \<times> memory_entry) list"
    by (induction xs) auto
  with assms show ?thesis by (auto simp: keyed_by_id_def list_all_iff simp del: map_map)
qed

lemma hit_ok_filtered: "keyed_by_id s \<Longrightarrow> hit_ok s key h \<Longrightarrow> hit_ok (drop_ids ids s) key h"
proof -
  assume k: "keyed_by_id s" and h: "hit_ok s key h"
  have "map_of (mt_entries (drop_ids ids s)) (fst h) = (if fst h \<in> set ids then None else map_of (mt_entries s) (fst h))"
    by (simp add: drop_ids_def map_of_filter_keys [of "\<lambda>k. k \<notin> set ids"])
  with h show ?thesis by (auto simp: hit_ok_def)
qed

lemma map_of_mapped: "map_of (map (\<lambda>(i, e). (i, f i e)) xs) k = map_option (f k) (map_of xs k)"
  by (induction xs) auto

text \<open>An update of the entries that keeps what a search looks at keeps the cache.\<close>

lemma mapped_inv:
  assumes inv: "store_inv s" and f: "\<And>i e. me_id (f i e) = me_id e"
    and keep: "\<And>i e key. key_fits key e \<Longrightarrow> key_fits key (f i e)"
  shows "store_inv (s\<lparr>mt_entries := map (\<lambda>(i, e). (i, f i e)) (mt_entries s)\<rparr>)"
proof -
  let ?s = "s\<lparr>mt_entries := map (\<lambda>(i, e). (i, f i e)) (mt_entries s)\<rparr>"
  have k: "keyed_by_id ?s" using keyed_mapped inv f by (simp add: store_inv_def)
  have h: "hit_ok ?s key h" if "hit_ok s key h" for key h
    using that keep by (auto simp: hit_ok_def map_of_mapped split: option.splits)
  have "cache_ok ?s"
    unfolding cache_ok_def
  proof (intro allI impI)
    fix key hits assume "mt_cache ?s key = Some hits"
    then have "list_all (hit_ok s key) hits" using cache_hits [OF inv] by simp
    then show "list_all (hit_ok ?s key) hits" by (rule list.pred_mono_strong) (rule h)
  qed
  with k inv show ?thesis by (simp add: store_inv_def)
qed

lemma update_access_keeps: "store_inv s \<Longrightarrow> store_inv (store_update_access now a t ids s)"
  unfolding store_update_access_def
  by (rule mapped_inv) (auto simp: key_fits_def in_scope_def)

lemma clear_inv: "store_inv (s\<lparr>mt_cache := Map.empty\<rparr>) \<longleftrightarrow> 1 \<le> mt_max s \<and> keyed_by_id s \<and> int (length (mt_entries s)) \<le> mt_max s"
  by (simp add: store_inv_def)

lemma absent_map_id: "present_ids ids s = [] \<Longrightarrow> map (\<lambda>(i, e). (i, if i \<in> set ids then g e else e)) (mt_entries s) = mt_entries s"
  by (rule map_idI) (auto simp: present_ids_def filter_empty_conv image_iff)

lemma archive_keeps: "store_inv s \<Longrightarrow> store_inv (snd (store_archive ids s))"
proof (cases "present_ids ids s = []")
  case True
  assume "store_inv s"
  with True show ?thesis by (simp add: store_archive_def absent_map_id)
next
  case False
  assume inv: "store_inv s"
  have "keyed_by_id (s\<lparr>mt_entries := map (\<lambda>(i, e). (i, if i \<in> set ids then e\<lparr>me_archived := True\<rparr> else e)) (mt_entries s)\<rparr>)"
    using inv by (intro keyed_mapped) (simp_all add: store_inv_def)
  with inv False show ?thesis by (simp add: store_archive_def Let_def store_inv_def)
qed

lemma drop_inv: "store_inv s \<Longrightarrow> store_inv (drop_ids ids s)"
proof -
  assume inv: "store_inv s"
  have "cache_ok (drop_ids ids s)"
    unfolding cache_ok_def
  proof (intro allI impI)
    fix key hits assume "mt_cache (drop_ids ids s) key = Some hits"
    then have "list_all (hit_ok s key) hits" using cache_hits [OF inv] by simp
    then show "list_all (hit_ok (drop_ids ids s) key) hits"
      by (rule list.pred_mono_strong) (use inv in \<open>simp add: hit_ok_filtered store_inv_def\<close>)
  qed
  moreover have "length (mt_entries (drop_ids ids s)) \<le> length (mt_entries s)" by (simp add: drop_ids_def)
  ultimately show ?thesis using inv by (simp add: store_inv_def drop_ids_keyed)
qed

lemma delete_keeps: "store_inv s \<Longrightarrow> store_inv (snd (store_delete ids s))"
  using drop_inv [of s ids] by (auto simp: store_delete_def Let_def store_inv_def)

lemma new_inv: "store_inv (mem_store_new half_life n)"
  by (simp add: mem_store_new_def store_inv_def keyed_by_id_def cache_ok_def)

subsection \<open>What a search returns\<close>

lemma time_decay_bounds: "time_decay a h = Inr d \<Longrightarrow> 0 \<le> d \<and> d \<le> 1"
  by (auto simp: time_decay_def split: if_splits)

lemma entry_score_bounds: "entry_score now q s e = Inr (Some r) \<Longrightarrow> 0 \<le> r \<and> r \<le> 1"
proof -
  assume a: "entry_score now q s e = Inr (Some r)"
  then obtain x d where r: "r = max 0 (min 1 x) * d" and d: "0 \<le> d" "d \<le> 1"
    by (auto simp: entry_score_def Let_def and_then_Inr_iff dest!: time_decay_bounds split: option.splits if_splits)
  have "0 \<le> max 0 (min 1 x)" "max 0 (min 1 x) \<le> 1" by simp_all
  with d show ?thesis unfolding r by (simp add: mult_le_one)
qed

lemma score_loop_hits:
  "score_loop now q s es = Inr scored \<Longrightarrow> p \<in> set scored \<Longrightarrow> fst p \<in> set es \<and> 0 \<le> snd p \<and> snd p \<le> 1"
proof (induction es arbitrary: scored)
  case (Cons e es)
  then obtain sc rest where "entry_score now q s e = Inr sc" "score_loop now q s es = Inr rest"
    "scored = (case sc of None \<Rightarrow> rest | Some r \<Rightarrow> (e, r) # rest)"
    by (auto simp: and_then_Inr_iff)
  with Cons entry_score_bounds show ?case by (cases sc) auto
qed simp

lemma candidate_fits:
  "e \<in> set (search_candidates a t tags arch s) \<Longrightarrow> e \<in> set (entries_in s) \<and> key_fits (cache_key r6 a t q limit tags arch) e"
  by (simp add: search_candidates_def key_fits_def cache_key_def)

lemma scored_hit_ok:
  assumes "store_inv s" and "score_loop now q s (search_candidates a t tags arch s) = Inr scored" and "p \<in> set scored"
  shows "hit_ok s (cache_key r6 a t q limit tags arch) (me_id (fst p), snd p)"
proof -
  have "fst p \<in> set (search_candidates a t tags arch s)" and b: "0 \<le> snd p" "snd p \<le> 1"
    using score_loop_hits [OF assms(2,3)] by simp_all
  note c = candidate_fits [OF this(1)]
  then have "map_of (mt_entries s) (me_id (fst p)) = Some (fst p)"
    using assms(1) by (simp add: keyed_lookup store_inv_def)
  with b c show ?thesis by (simp add: hit_ok_def)
qed

lemma search_keeps: "store_inv s \<Longrightarrow> store_inv (snd (store_search r6 now a t qe limit tags arch s))"
proof -
  assume inv: "store_inv s"
  show ?thesis
  proof (cases "\<exists>q scored. qe = Some q \<and> mt_cache s (cache_key r6 a t q limit tags arch) = None \<and> \<not> embedding_norm q \<le> 0
      \<and> score_loop now q s (search_candidates a t tags arch s) = Inr scored")
    case False
    with inv show ?thesis by (auto simp: store_search_def Let_def split: option.split sum.split)
  next
    case True
    then obtain q scored where q: "qe = Some q" "mt_cache s (cache_key r6 a t q limit tags arch) = None"
      "\<not> embedding_norm q \<le> 0" and sc: "score_loop now q s (search_candidates a t tags arch s) = Inr scored"
      by blast
    let ?key = "cache_key r6 a t q limit tags arch"
    let ?hits = "map (\<lambda>(e, r). (me_id e, r)) (take (nat limit) (sort_desc snd scored))"
    let ?s' = "s\<lparr>mt_cache := (mt_cache s)(?key \<mapsto> ?hits)\<rparr>"
    have s': "snd (store_search r6 now a t qe limit tags arch s) = ?s'"
      using q sc by (simp add: store_search_def Let_def)
    have "list_all (hit_ok s ?key) ?hits"
      using scored_hit_ok [OF inv sc] by (auto simp: list_all_iff dest!: in_set_takeD)
    then have "list_all (hit_ok ?s' key) hits" if "mt_cache ?s' key = Some hits" for key hits
      using that cache_hits [OF inv, of key hits] by (auto simp: hit_ok_def [abs_def] split: if_splits)
    then have "cache_ok ?s'" unfolding cache_ok_def by blast
    with inv show ?thesis unfolding s' by (simp add: store_inv_def)
  qed
qed

inductive store_reach :: "mem_store \<Rightarrow> bool" where
  start: "store_reach (mem_store_new half_life max_entries)"
| save: "store_reach s \<Longrightarrow> store_reach (snd (store_save e s))"
| find: "store_reach s \<Longrightarrow> store_reach (snd (store_search r6 now a t qe limit tags arch s))"
| touch: "store_reach s \<Longrightarrow> store_reach (store_update_access now a t ids s)"
| archive: "store_reach s \<Longrightarrow> store_reach (snd (store_archive ids s))"
| delete: "store_reach s \<Longrightarrow> store_reach (snd (store_delete ids s))"

lemma reach_inv: "store_reach s \<Longrightarrow> store_inv s"
  by (induction rule: store_reach.induct)
    (simp_all add: new_inv save_keeps search_keeps update_access_keeps archive_keeps delete_keeps)

subsection \<open>Facts about eviction order\<close>

lemma sorted_take_drop: "sorted (map k xs) \<Longrightarrow> x \<in> set (take n xs) \<Longrightarrow> y \<in> set (drop n xs) \<Longrightarrow> k x \<le> k y"
proof -
  assume s: "sorted (map k xs)" and x: "x \<in> set (take n xs)" and y: "y \<in> set (drop n xs)"
  have "sorted (map k (take n xs) @ map k (drop n xs))" using s by (simp flip: map_append)
  with x y show ?thesis by (auto simp: sorted_append)
qed

lemma evict_order:
  assumes k: "keyed_by_id s" and old: "old \<in> set (entries_in s)" and gone: "old \<notin> set (entries_in (evict_if_needed s))"
    and kept: "kept \<in> set (entries_in (evict_if_needed s))"
  shows "touch_sort_key old \<le> touch_sort_key kept"
proof -
  define srt n where "srt = sort_asc touch_sort_key (entries_in s)" and "n = nat (int (length (mt_entries s)) - mt_max s)"
  have ev: "set (evicted_ids s) = me_id ` set (take n srt)" by (simp add: evicted_ids_def srt_def n_def)
  have stays: "e \<in> set (entries_in (evict_if_needed s)) \<longleftrightarrow> e \<in> set (entries_in s) \<and> me_id e \<notin> set (evicted_ids s)" for e
    by (simp add: entries_iff [OF k] entries_iff [OF evict_keyed [OF k]] evict_eq)
  have mem: "set srt = set (entries_in s)" by (simp add: srt_def)
  obtain old' where o': "old' \<in> set (take n srt)" "me_id old' = me_id old"
    using old gone stays ev by auto
  then have "old' \<in> set (entries_in s)" using mem by (metis in_set_takeD)
  with o'(2) old keyed_lookup [OF k] have eq: "old' = old" by (metis option.inject)
  have "kept \<in> set srt" "kept \<notin> set (take n srt)" using kept stays ev mem by auto
  then have "kept \<in> set (drop n srt)" by (metis Un_iff append_take_drop_id set_append)
  moreover have "sorted (map touch_sort_key srt)" unfolding srt_def by (rule sorted_sort_asc)
  ultimately show ?thesis using sorted_take_drop [of touch_sort_key srt old n kept] o'(1) eq by simp
qed

lemma cached_hits:
  assumes "p \<in> set (List.map_filter (\<lambda>(i, r). map_option (\<lambda>e. (e, r)) (m i)) cached)"
  shows "\<exists>i. (i, snd p) \<in> set cached \<and> m i = Some (fst p)"
  using assms by (induction cached) (auto simp: List.map_filter_simps split: option.splits)

lemma candidate_good:
  assumes "e \<in> set (search_candidates a t tags arch s)"
  shows "e \<in> set (entries_in s) \<and> in_scope a t e \<and> (arch \<or> \<not> me_archived e) \<and> set tags \<subseteq> set (me_tags e)"
  using assms by (simp add: search_candidates_def)

lemma search_hits:
  assumes inv: "store_inv s" and r: "store_search r6 now a t qe limit tags arch s = (Inr hits, s')" and p: "p \<in> set hits"
  shows "fst p \<in> set (entries_in s) \<and> in_scope a t (fst p) \<and> (arch \<or> \<not> me_archived (fst p))
      \<and> set tags \<subseteq> set (me_tags (fst p)) \<and> 0 \<le> snd p \<and> snd p \<le> 1"
proof (cases qe)
  case None
  have "hits = map (\<lambda>e. (e, 1)) (py_upto limit (sort_desc me_created (search_candidates a t tags arch s)))"
    using r None by (auto simp: store_search_def Let_def)
  with p obtain e where e: "p = (e, 1)" "e \<in> set (py_upto limit (sort_desc me_created (search_candidates a t tags arch s)))"
    by auto
  from e(2) have "e \<in> set (search_candidates a t tags arch s)"
    using set_py_upto [of limit "sort_desc me_created (search_candidates a t tags arch s)"] by (simp add: subset_iff)
  from candidate_good [OF this] e(1) show ?thesis by simp
next
  case (Some q)
  let ?key = "cache_key r6 a t q limit tags arch"
  show ?thesis
  proof (cases "mt_cache s ?key")
    case (Some cached)
    with r \<open>qe = Some q\<close> have "hits = List.map_filter (\<lambda>(i, r). map_option (\<lambda>e. (e, r)) (map_of (mt_entries s) i)) cached"
      by (auto simp: store_search_def Let_def)
    with p cached_hits [of p "map_of (mt_entries s)" cached] obtain i where
      i: "(i, snd p) \<in> set cached" "map_of (mt_entries s) i = Some (fst p)" by blast
    have "hit_ok s ?key (i, snd p)" using cache_hits [OF inv Some] i(1) by (simp add: list_all_iff)
    then have h: "key_fits ?key (fst p) \<and> 0 \<le> snd p \<and> snd p \<le> 1" using i(2) by (simp add: hit_ok_def)
    have "fst p \<in> set (entries_in s)" using i(2) inv keyed_lookup [of s i "fst p"] by (simp add: store_inv_def)
    with h show ?thesis by (simp add: key_fits_def cache_key_def)
  next
    case None
    show ?thesis
    proof (cases "embedding_norm q \<le> 0")
      case True
      with r p \<open>qe = Some q\<close> None show ?thesis by (auto simp: store_search_def Let_def)
    next
      case False
      then obtain scored where sc: "score_loop now q s (search_candidates a t tags arch s) = Inr scored"
        and h: "hits = take (nat limit) (sort_desc snd scored)"
        using r \<open>qe = Some q\<close> None by (auto simp: store_search_def Let_def split: sum.splits)
      have "p \<in> set scored" using p h by (metis in_set_takeD set_sort_desc)
      from score_loop_hits [OF sc this] candidate_good show ?thesis by blast
    qed
  qed
qed

subsection \<open>Samples\<close>

definition sample_entry :: "uuid \<Rightarrow> string \<Rightarrow> micros \<Rightarrow> memory_entry" where
  "sample_entry i tenant created = \<lparr>me_id = i, me_agent = ''a'', me_tenant = tenant, me_content = i, me_embedding = Some [1],
     me_tags = [''x''], me_level = INTERNAL, me_version = 1, me_created = created, me_accessed = None, me_count = 0,
     me_archived = False\<rparr>"

definition sample_store :: "int \<Rightarrow> mem_store" where
  "sample_store n = snd (store_save (sample_entry ''1'' ''t'' 0) (mem_store_new 168 n))"

lemma sample_store_reach: "store_reach (sample_store n)"
  unfolding sample_store_def by (intro store_reach.intros)

lemma sample_store_entries: "1 \<le> n \<Longrightarrow> entries_in (sample_store n) = [sample_entry ''1'' ''t'' 0]"
  by (simp add: sample_store_def store_save_def mem_store_new_def evict_if_needed_def sample_entry_def Let_def entries_in_def)

subsection \<open>Properties\<close>

text \<open>
  Recall never crosses a scope: whatever was saved, searched, touched, archived and deleted
  before, a search, answered from its cache or not, returns entries that are in the store,
  belong to the agent and the tenant, carry every tag asked for, are not archived unless
  archived ones were asked for, and score between 0 and 1.
\<close>

theorem memory_search_isolated:
  assumes "store_reach s" and "store_search r6 now a t qe limit tags arch s = (Inr hits, s')"
  shows "list_all (\<lambda>(e, score). e \<in> set (entries_in s) \<and> in_scope a t e \<and> (arch \<or> \<not> me_archived e)
     \<and> set tags \<subseteq> set (me_tags e) \<and> 0 \<le> score \<and> score \<le> 1) hits"
proof -
  have inv: "store_inv s" using reach_inv assms(1) .
  have good: "fst p \<in> set (entries_in s) \<and> in_scope a t (fst p) \<and> (arch \<or> \<not> me_archived (fst p))
      \<and> set tags \<subseteq> set (me_tags (fst p)) \<and> 0 \<le> snd p \<and> snd p \<le> 1" if "p \<in> set hits" for p
    using search_hits [OF inv assms(2) that] .
  then show ?thesis by (simp add: list_all_iff case_prod_beta)
qed

theorem memory_search_isolated_witness:
  "fst (store_search (\<lambda>r. r) 5 ''a'' ''t'' None 3 [''x''] False (sample_store 2)) = Inr [(sample_entry ''1'' ''t'' 0, 1)]
   \<and> in_scope ''a'' ''t'' (sample_entry ''1'' ''t'' 0)"
proof -
  have r: "store_search (\<lambda>r. r) 5 ''a'' ''t'' None 3 [''x''] False (sample_store 2)
      = (Inr [(sample_entry ''1'' ''t'' 0, 1)], sample_store 2)"
    by (simp add: store_search_def search_candidates_def sample_store_entries in_scope_def py_upto_def sort_desc_def Let_def)
      (simp add: sample_entry_def)
  from memory_search_isolated [OF sample_store_reach r] r show ?thesis by simp
qed

text \<open>
  The store never holds more entries than its capacity, and no identifier twice.
\<close>

theorem memory_store_bounded:
  assumes "store_reach s"
  shows "int (length (mt_entries s)) \<le> mt_max s \<and> distinct (map me_id (entries_in s))"
  using reach_inv [OF assms] by (simp add: store_inv_def keyed_distinct)

theorem memory_store_bounded_witness:
  "length (mt_entries (snd (store_save (sample_entry ''2'' ''u'' 1) (sample_store 1)))) \<le> 1"
proof -
  have "store_reach (snd (store_save (sample_entry ''2'' ''u'' 1) (sample_store 1)))"
    using sample_store_reach by (rule store_reach.save)
  from memory_store_bounded [OF this] show ?thesis by (simp add: store_save_def sample_store_def mem_store_new_def Let_def)
qed

text \<open>
  Saving evicts the entries that were touched longest ago, of whatever tenant: every entry
  that a save removes was last touched no later than every entry that stays.
\<close>

theorem eviction_oldest_first:
  assumes "store_inv s" and "old \<in> set (entries_in s)" and "me_id old \<noteq> me_id e"
    and "old \<notin> set (entries_in (snd (store_save e s)))" and "kept \<in> set (entries_in (snd (store_save e s)))"
  shows "touch_sort_key old \<le> touch_sort_key kept"
proof -
  define s1 where "s1 = s\<lparr>mt_entries := AList.update (me_id e) e (mt_entries s), mt_norms := (mt_norms s)(me_id e \<mapsto>
      (case me_embedding e of None \<Rightarrow> 0 | Some v \<Rightarrow> if v \<noteq> [] then embedding_norm v else 0))\<rparr>"
  have after: "entries_in (snd (store_save e s)) = entries_in (evict_if_needed s1)"
    by (simp add: store_save_def Let_def s1_def entries_in_def)
  have k: "keyed_by_id s" and d: "distinct (dict_keys (mt_entries s))"
    using assms(1) by (simp_all add: store_inv_def keyed_by_id_def)
  have k1: "keyed_by_id s1" unfolding s1_def using k by (rule save_keyed)
  have "(me_id old, old) \<in> set (mt_entries s)"
    using k assms(2) by (auto simp: keyed_by_id_def entries_in_def list_all_iff)
  then have "(me_id old, old) \<in> set (mt_entries s1)"
    using dict_update_mem [OF d, of "me_id old" old "me_id e" e] assms(3) by (simp add: s1_def)
  from evict_order [OF k1 entries_inI [OF this]] assms(4,5) show ?thesis unfolding after by blast
qed

text \<open>Tenant \<open>u\<close> pushes out the entry of tenant \<open>t\<close>.\<close>

theorem eviction_oldest_first_witness:
  "touch_sort_key (sample_entry ''1'' ''t'' 0) \<le> touch_sort_key (sample_entry ''2'' ''u'' 1)
   \<and> entries_in (snd (store_save (sample_entry ''2'' ''u'' 1) (sample_store 1))) = [sample_entry ''2'' ''u'' 1]"
proof -
  have e: "entries_in (snd (store_save (sample_entry ''2'' ''u'' 1) (sample_store 1))) = [sample_entry ''2'' ''u'' 1]"
    by (simp add: store_save_def sample_store_def mem_store_new_def evict_if_needed_def entries_in_def drop_ids_def
        touch_sort_key_def sort_asc_def Let_def sample_entry_def)
  have "touch_sort_key (sample_entry ''1'' ''t'' 0) \<le> touch_sort_key (sample_entry ''2'' ''u'' 1)"
    by (rule eviction_oldest_first [OF reach_inv [OF sample_store_reach [of 1]], where e = "sample_entry ''2'' ''u'' 1"])
      (simp_all add: sample_store_entries e, simp_all add: sample_entry_def)
  with e show ?thesis by simp
qed

text \<open>
  A cached answer does not age: a search repeated at any later time, with nothing saved,
  archived or deleted in between, returns the scores of the first one, although the decay of
  its entries has moved on.
\<close>

theorem cached_scores_stale:
  assumes "store_reach s" and "0 < embedding_norm q"
    and "store_search r6 now1 a t (Some q) limit tags arch s = (Inr hits, s')"
  shows "store_search r6 now2 a t (Some q) limit tags arch s' = (Inr hits, s')"
proof -
  let ?key = "cache_key r6 a t q limit tags arch"
  have inv: "store_inv s" using reach_inv assms(1) .
  show ?thesis
  proof (cases "mt_cache s ?key")
    case (Some cached)
    with assms(3) show ?thesis by (auto simp: store_search_def Let_def)
  next
    case None
    then obtain scored where sc: "score_loop now1 q s (search_candidates a t tags arch s) = Inr scored"
      and h: "hits = take (nat limit) (sort_desc snd scored)"
      and s': "s' = s\<lparr>mt_cache := (mt_cache s)(?key \<mapsto> map (\<lambda>(e, r). (me_id e, r)) hits)\<rparr>"
      using assms(2,3) by (auto simp: store_search_def Let_def split: sum.splits)
    have "map_of (mt_entries s) (me_id (fst p)) = Some (fst p)" if "p \<in> set hits" for p
      using score_loop_hits [OF sc, of p] that h candidate_fits [of "fst p" a t tags arch s] inv
      by (auto simp: keyed_lookup store_inv_def dest: in_set_takeD)
    then have "List.map_filter (\<lambda>(i, r). map_option (\<lambda>e. (e, r)) (map_of (mt_entries s) i)) (map (\<lambda>(e, r). (me_id e, r)) hits) = hits"
    proof (induction hits)
      case (Cons p hits)
      have "map_of (mt_entries s) (me_id (fst p)) = Some (fst p)" using Cons.prems [of p] by simp
      with Cons show ?case by (cases p) (simp add: List.map_filter_simps)
    qed (simp add: List.map_filter_simps)
    then show ?thesis by (simp add: store_search_def Let_def s')
  qed
qed

theorem cached_scores_stale_witness:
  "\<exists>r. fst (store_search (\<lambda>r. r) 5 ''a'' ''t'' (Some [1]) 3 [] False (sample_store 2)) = Inr [(sample_entry ''1'' ''t'' 0, r)]
    \<and> fst (store_search (\<lambda>r. r) 9000000000000000 ''a'' ''t'' (Some [1]) 3 [] False
        (snd (store_search (\<lambda>r. r) 5 ''a'' ''t'' (Some [1]) 3 [] False (sample_store 2)))) = Inr [(sample_entry ''1'' ''t'' 0, r)]"
proof -
  let ?look = "store_search (\<lambda>r. r) 5 ''a'' ''t'' (Some [1]) 3 [] False (sample_store 2)"
  have n: "0 < embedding_norm [1]" by (simp add: embedding_norm_def)
  have "mt_cache (sample_store 2) = Map.empty" "mt_norms (sample_store 2) ''1'' = Some 1" "mt_half_life (sample_store 2) = 168"
    by (simp_all add: sample_store_def store_save_def mem_store_new_def evict_if_needed_def sample_entry_def Let_def embedding_norm_def)
  then obtain r where r: "fst ?look = Inr [(sample_entry ''1'' ''t'' 0, r)]"
    by (auto simp: store_search_def search_candidates_def sample_store_entries in_scope_def sort_desc_def Let_def
        entry_score_def dot_product_def time_decay_def sample_entry_def embedding_norm_def)
  then have p: "?look = (Inr [(sample_entry ''1'' ''t'' 0, r)], snd ?look)" by (metis prod.collapse)
  from cached_scores_stale [OF sample_store_reach n p, of 9000000000000000] r show ?thesis by auto
qed

end
