(* ===== verification/ShortTermMemory.thy ===== *)
theory ShortTermMemory
  imports MemoryStore
begin

section \<open>Agent memory: the short-term context and the snapshot\<close>

text \<open>
  \<open>owlclaw/agent/memory/stm.py\<close> and \<open>snapshot.py\<close>: the per-run context with its fixed zone,
  injected instructions and sliding window of rounds, compressed above a token limit; and the
  part of long-term memory that is loaded at the start of a run. Both print values with
  \<open>json.dumps\<close> and count tokens.
\<close>

subsection \<open>JSON\<close>

text \<open>
  \<open>json.dumps(v, default=str)\<close>. The text of a float and \<open>str\<close> of a value that JSON does not
  know are arguments; characters outside the printable ASCII range are escaped.
\<close>

definition hex_digit :: "nat \<Rightarrow> char" where
  "hex_digit n = (if n < 10 then char_of (n + 48) else char_of (n + 87))"

definition json_char :: "char \<Rightarrow> string" where
  "json_char c = (let n = of_char c :: nat in
     if c = CHR 0x22 then [CHR 0x5C, CHR 0x22] else if c = CHR 0x5C then [CHR 0x5C, CHR 0x5C]
     else if n = 10 then [CHR 0x5C, CHR ''n''] else if n = 13 then [CHR 0x5C, CHR ''r'']
     else if n = 9 then [CHR 0x5C, CHR ''t''] else if n = 8 then [CHR 0x5C, CHR ''b'']
     else if n = 12 then [CHR 0x5C, CHR ''f'']
     else if 32 \<le> n \<and> n \<le> 126 then [c]
     else [CHR 0x5C, CHR ''u'', CHR ''0'', CHR ''0'', hex_digit (n div 16), hex_digit (n mod 16)])"

definition json_str :: "string \<Rightarrow> string" where
  "json_str s = [CHR 0x22] @ concat (map json_char s) @ [CHR 0x22]"

definition json_key :: "(rat \<Rightarrow> string) \<Rightarrow> pyval \<Rightarrow> py_error + string" where
  "json_key float_text k = (case k of
     PStr s \<Rightarrow> Inr s | PFloat r \<Rightarrow> Inr (float_text r) | PBool b \<Rightarrow> Inr (if b then ''true'' else ''false'')
   | PNone \<Rightarrow> Inr ''null'' | PInt i \<Rightarrow> Inr (show_int i) | _ \<Rightarrow> Inl (TypeError ''keys must be str, int, float, bool or None''))"

fun json_dumps :: "(rat \<Rightarrow> string) \<Rightarrow> (pyval \<Rightarrow> string) \<Rightarrow> pyval \<Rightarrow> py_error + string"
  and json_items :: "(rat \<Rightarrow> string) \<Rightarrow> (pyval \<Rightarrow> string) \<Rightarrow> pyval list \<Rightarrow> py_error + string list"
  and json_entries :: "(rat \<Rightarrow> string) \<Rightarrow> (pyval \<Rightarrow> string) \<Rightarrow> (pyval \<times> pyval) list \<Rightarrow> py_error + string list" where
  "json_dumps fl st PNone = Inr ''null''"
| "json_dumps fl st (PBool b) = Inr (if b then ''true'' else ''false'')"
| "json_dumps fl st (PInt i) = Inr (show_int i)"
| "json_dumps fl st (PFloat r) = Inr (fl r)"
| "json_dumps fl st (PStr s) = Inr (json_str s)"
| "json_dumps fl st (PList xs) = and_then (json_items fl st xs) (\<lambda>ts. Inr (''['' @ py_join '', '' ts @ '']''))"
| "json_dumps fl st (PTuple xs) = and_then (json_items fl st xs) (\<lambda>ts. Inr (''['' @ py_join '', '' ts @ '']''))"
| "json_dumps fl st (PDict kvs) = and_then (json_entries fl st kvs) (\<lambda>ts. Inr (''{'' @ py_join '', '' ts @ ''}''))"
| "json_dumps fl st v = Inr (json_str (st v))"
| "json_items fl st [] = Inr []"
| "json_items fl st (x # xs) = and_then (json_dumps fl st x) (\<lambda>t. and_then (json_items fl st xs) (\<lambda>ts. Inr (t # ts)))"
| "json_entries fl st [] = Inr []"
| "json_entries fl st ((k, v) # kvs) =
     and_then (json_key fl k) (\<lambda>kt. and_then (json_dumps fl st v) (\<lambda>vt.
       and_then (json_entries fl st kvs) (\<lambda>ts. Inr ((json_str kt @ '': '' @ vt) # ts))))"

text \<open>What texts are made with; \<open>te_tokens\<close> is the \<open>tiktoken\<close> encoder, if it can be loaded.\<close>

record text_env =
  te_float :: "rat \<Rightarrow> string"
  te_str :: "pyval \<Rightarrow> string"
  te_tokens :: "(string \<Rightarrow> nat) option"

definition dumps :: "text_env \<Rightarrow> pyval \<Rightarrow> py_error + string" where
  "dumps env = json_dumps (te_float env) (te_str env)"

definition count_tokens :: "text_env \<Rightarrow> string \<Rightarrow> int" where
  "count_tokens env text =
     (if text = [] then 0
      else (case te_tokens env of Some enc \<Rightarrow> int (enc text) | None \<Rightarrow> max 1 ((int (length text) + 4 - 1) div 4)))"

definition newline :: string where
  "newline = [CHR 0x0A]"

subsection \<open>The manager\<close>

record stm_round =
  sr_name :: string
  sr_args :: pyval
  sr_result :: pyval
  sr_response :: string

text \<open>The trigger text is empty until a trigger was added.\<close>

record stm =
  stm_max :: int
  stm_trigger :: "(string \<times> pyval \<times> string) option"
  stm_trigger_text :: string
  stm_sliding :: "stm_round list"
  stm_injected :: "string list"
  stm_count :: int

definition stm_new :: "int \<Rightarrow> stm" where
  "stm_new max_tokens = \<lparr>stm_max = max_tokens, stm_trigger = None, stm_trigger_text = [], stm_sliding = [],
     stm_injected = [], stm_count = 0\<rparr>"

definition call_value :: "stm_round \<Rightarrow> pyval" where
  "call_value r = PDict [(PStr ''name'', PStr (sr_name r)), (PStr ''args'', sr_args r), (PStr ''result'', sr_result r)]"

text \<open>The count so far and the exception that stopped it, if one did.\<close>

fun recount_rounds :: "text_env \<Rightarrow> int \<Rightarrow> stm_round list \<Rightarrow> py_error option \<times> int" where
  "recount_rounds env n [] = (None, n)"
| "recount_rounds env n (r # rs) =
     (case dumps env (call_value r) of
        Inl e \<Rightarrow> (Some e, n)
      | Inr t \<Rightarrow> recount_rounds env (n + count_tokens env t + count_tokens env (sr_response r)) rs)"

definition recompute_token_count :: "text_env \<Rightarrow> stm \<Rightarrow> py_error option \<times> stm" where
  "recompute_token_count env s =
     (let n = count_tokens env (stm_trigger_text s) + sum_list (map (count_tokens env) (stm_injected s));
          (e, n') = recount_rounds env n (stm_sliding s)
      in (e, s\<lparr>stm_count := n'\<rparr>))"

definition sliding_keep_rounds :: nat where
  "sliding_keep_rounds = 3"

definition summary_round :: "nat \<Rightarrow> stm_round" where
  "summary_round n = \<lparr>sr_name = ''_summary'', sr_args = PDict [],
     sr_result = PDict [(PStr ''text'', PStr (''['' @ show_nat n @ '' earlier rounds summarized]''))], sr_response = []\<rparr>"

definition compress_if_needed :: "text_env \<Rightarrow> stm \<Rightarrow> py_error option \<times> stm" where
  "compress_if_needed env s =
     (if stm_count s \<le> stm_max s then (None, s)
      else if length (stm_sliding s) \<le> sliding_keep_rounds then (None, s)
      else (let n = length (stm_sliding s) - sliding_keep_rounds
            in recompute_token_count env (s\<lparr>stm_sliding := summary_round n # drop n (stm_sliding s)\<rparr>)))"

text \<open>An operation gives the exception it raises, if it does, and the state it leaves behind.\<close>

definition add_trigger :: "text_env \<Rightarrow> string \<Rightarrow> pyval \<Rightarrow> string option \<Rightarrow> stm \<Rightarrow> py_error option \<times> stm" where
  "add_trigger env trigger_type payload focus s =
     (let shown = (case focus of None \<Rightarrow> ''(none)'' | Some f \<Rightarrow> if f = [] then ''(none)'' else f);
          s1 = s\<lparr>stm_trigger := Some (trigger_type, payload, case focus of None \<Rightarrow> [] | Some f \<Rightarrow> f)\<rparr>
      in case dumps env payload of
           Inl e \<Rightarrow> (Some e, s1)
         | Inr t \<Rightarrow>
             (let text = ''Trigger: '' @ trigger_type @ newline @ ''Focus: '' @ shown @ newline @ ''Payload: '' @ take 500 t
              in compress_if_needed env (s1\<lparr>stm_trigger_text := text,
                   stm_count := stm_count s - count_tokens env (stm_trigger_text s) + count_tokens env text\<rparr>)))"

definition add_function_call :: "text_env \<Rightarrow> string \<Rightarrow> pyval \<Rightarrow> pyval \<Rightarrow> stm \<Rightarrow> py_error option \<times> stm" where
  "add_function_call env name args result s =
     (let s1 = s\<lparr>stm_sliding := stm_sliding s @ [\<lparr>sr_name = name, sr_args = args, sr_result = result, sr_response = []\<rparr>]\<rparr>
      in case dumps env args of
           Inl e \<Rightarrow> (Some e, s1)
         | Inr a \<Rightarrow> (case dumps env result of
               Inl e \<Rightarrow> (Some e, s1)
             | Inr r \<Rightarrow>
                 (let line = ''Call: '' @ name @ '' | args: '' @ take 200 a @ '' | result: '' @ take 300 r
                  in compress_if_needed env (s1\<lparr>stm_count := stm_count s + count_tokens env line\<rparr>))))"

definition set_response :: "string \<Rightarrow> stm_round list \<Rightarrow> stm_round list" where
  "set_response content rounds =
     (if rounds = [] then [\<lparr>sr_name = [], sr_args = PDict [], sr_result = PDict [], sr_response = content\<rparr>]
      else butlast rounds @ [(last rounds)\<lparr>sr_response := content\<rparr>])"

definition add_llm_response :: "text_env \<Rightarrow> string \<Rightarrow> stm \<Rightarrow> py_error option \<times> stm" where
  "add_llm_response env content s =
     compress_if_needed env (s\<lparr>stm_sliding := set_response content (stm_sliding s),
       stm_count := stm_count s + count_tokens env content\<rparr>)"

definition inject :: "text_env \<Rightarrow> string \<Rightarrow> stm \<Rightarrow> py_error option \<times> stm" where
  "inject env instruction s =
     compress_if_needed env (s\<lparr>stm_injected := stm_injected s @ [instruction], stm_count := stm_count s + count_tokens env instruction\<rparr>)"

subsection \<open>Rendering\<close>

text \<open>\<open>arrow\<close> is the character U+2192, which is outside the strings of the model.\<close>

definition ellipsis_after :: "nat \<Rightarrow> string \<Rightarrow> string" where
  "ellipsis_after n s = take n s @ (if length s > n then ''...'' else [])"

definition render_round :: "text_env \<Rightarrow> string \<Rightarrow> stm_round \<Rightarrow> py_error + string" where
  "render_round env arrow r =
     (let reply = (if sr_response r = [] then [] else ''  LLM: '' @ ellipsis_after 300 (sr_response r) @ newline) in
      if sr_name r = ''_summary''
      then and_then (py_get_or (sr_result r) ''text'' (PStr [])) (\<lambda>t.
             Inr (''- '' @ (case t of PStr x \<Rightarrow> x | _ \<Rightarrow> te_str env t) @ newline @ reply))
      else and_then (dumps env (sr_args r)) (\<lambda>a. and_then (dumps env (sr_result r)) (\<lambda>res.
             Inr (''- **'' @ sr_name r @ ''**: args `'' @ take 150 a @ ''` '' @ arrow @ '' result `'' @ take 200 res @ ''`'' @ newline @ reply))))"

fun render_rounds :: "text_env \<Rightarrow> string \<Rightarrow> stm_round list \<Rightarrow> py_error + string" where
  "render_rounds env arrow [] = Inr []"
| "render_rounds env arrow (r # rs) =
     and_then (render_round env arrow r) (\<lambda>t. and_then (render_rounds env arrow rs) (\<lambda>ts. Inr (t @ ts)))"

definition to_prompt_section :: "text_env \<Rightarrow> string \<Rightarrow> stm \<Rightarrow> py_error + string" where
  "to_prompt_section env arrow s =
     and_then (if stm_sliding s = [] then Inr []
               else and_then (render_rounds env arrow (stm_sliding s)) (\<lambda>t. Inr (''### Recent turns'' @ newline @ t @ newline)))
       (\<lambda>turns.
         (let out = py_strip (''## Short-term context'' @ newline
                @ (if stm_trigger_text s = [] then [] else ''### Trigger'' @ newline @ stm_trigger_text s @ newline @ newline)
                @ (if stm_injected s = [] then []
                   else ''### Injected instructions'' @ newline @ concat (map (\<lambda>i. ''- '' @ i @ newline) (stm_injected s)) @ newline)
                @ turns)
          in Inr (if out = [] \<or> out = ''## Short-term context'' then ''## Short-term context'' @ newline @ ''(empty)'' else out)))"

subsection \<open>Any sequence of operations\<close>

datatype stm_op =
    AddTrigger string pyval "string option"
  | AddCall string pyval pyval
  | AddResponse string
  | Inject string

fun stm_apply :: "text_env \<Rightarrow> stm_op \<Rightarrow> stm \<Rightarrow> py_error option \<times> stm" where
  "stm_apply env (AddTrigger t p f) s = add_trigger env t p f s"
| "stm_apply env (AddCall n a r) s = add_function_call env n a r s"
| "stm_apply env (AddResponse c) s = add_llm_response env c s"
| "stm_apply env (Inject i) s = inject env i s"

text \<open>A caller that catches the exceptions goes on with the state they leave.\<close>

definition stm_run :: "text_env \<Rightarrow> stm_op list \<Rightarrow> stm \<Rightarrow> stm" where
  "stm_run env ops s = fold (\<lambda>op s. snd (stm_apply env op s)) ops s"

text \<open>The rounds of a manager that never compresses.\<close>

fun all_rounds :: "stm_op \<Rightarrow> stm_round list \<Rightarrow> stm_round list" where
  "all_rounds (AddCall n a r) rounds = rounds @ [\<lparr>sr_name = n, sr_args = a, sr_result = r, sr_response = []\<rparr>]"
| "all_rounds (AddResponse c) rounds = set_response c rounds"
| "all_rounds op rounds = rounds"

definition same_tail :: "'a list \<Rightarrow> 'a list \<Rightarrow> bool" where
  "same_tail xs ys \<longleftrightarrow> take sliding_keep_rounds (rev xs) = take sliding_keep_rounds (rev ys)"

lemma same_tail_append: "same_tail xs ys \<Longrightarrow> same_tail (xs @ [x]) (ys @ [x])"
  by (simp add: same_tail_def sliding_keep_rounds_def take_Suc_conv_app_nth numeral_3_eq_3)
    (metis (no_types) Suc_1 diff_Suc_1 lessI less_imp_le_nat min_def numeral_2_eq_2 take_Suc take_take)

lemma same_tail_nil: "same_tail xs ys \<Longrightarrow> xs = [] \<longleftrightarrow> ys = []"
  by (cases xs; cases ys; simp add: same_tail_def sliding_keep_rounds_def)

lemma compress_frame [simp, frame_simps]: "stm_max (snd (compress_if_needed env s)) = stm_max s"
  by (simp add: compress_if_needed_def recompute_token_count_def Let_def case_prod_beta)

lemma compress_tail: "same_tail (stm_sliding (snd (compress_if_needed env s))) (stm_sliding s)"
  by (simp add: compress_if_needed_def recompute_token_count_def Let_def case_prod_beta same_tail_def sliding_keep_rounds_def rev_drop)

lemma same_tail_trans: "same_tail xs ys \<Longrightarrow> same_tail ys zs \<Longrightarrow> same_tail xs zs"
  by (simp add: same_tail_def)

lemma rev_set_response: "rounds \<noteq> [] \<Longrightarrow> rev (set_response c rounds) = (hd (rev rounds))\<lparr>sr_response := c\<rparr> # tl (rev rounds)"
  by (cases rounds rule: rev_cases) (simp_all add: set_response_def)

lemma same_tail_response: "same_tail xs ys \<Longrightarrow> same_tail (set_response c xs) (set_response c ys)"
proof -
  assume t: "same_tail xs ys"
  show ?thesis
  proof (cases "xs = []")
    case True
    with same_tail_nil [OF t] show ?thesis by (simp add: same_tail_def)
  next
    case False
    then have "ys \<noteq> []" using same_tail_nil [OF t] by simp
    obtain x xr y yr where r: "rev xs = x # xr" "rev ys = y # yr"
      using False \<open>ys \<noteq> []\<close> by (metis neq_Nil_conv rev_is_Nil_conv)
    then have "x = y" "take 2 xr = take 2 yr" using t by (simp_all add: same_tail_def sliding_keep_rounds_def)
    then show ?thesis using False \<open>ys \<noteq> []\<close> r by (simp add: same_tail_def sliding_keep_rounds_def rev_set_response)
  qed
qed

lemma step_tail:
  assumes "same_tail (stm_sliding s) rounds"
  shows "same_tail (stm_sliding (snd (stm_apply env op s))) (all_rounds op rounds)"
proof (cases op)
  case (AddTrigger t p f)
  then show ?thesis using assms same_tail_trans [OF compress_tail]
    by (auto simp: add_trigger_def Let_def split: sum.splits)
next
  case (AddCall n a r)
  have t: "same_tail (stm_sliding s @ [x]) (rounds @ [x])" for x using assms by (rule same_tail_append)
  show ?thesis using AddCall t same_tail_trans [OF compress_tail]
    by (auto simp: add_function_call_def Let_def split: sum.splits)
next
  case (AddResponse c)
  then show ?thesis using same_tail_response [OF assms] same_tail_trans [OF compress_tail]
    by (auto simp: add_llm_response_def)
next
  case (Inject i)
  then show ?thesis using assms same_tail_trans [OF compress_tail] by (auto simp: inject_def)
qed

lemma run_tail: "same_tail (stm_sliding s) rounds \<Longrightarrow> same_tail (stm_sliding (stm_run env ops s)) (fold all_rounds ops rounds)"
  unfolding stm_run_def by (induction ops arbitrary: s rounds) (simp_all add: step_tail)

text \<open>
  C34. Compression never touches the present: after any sequence of operations, whatever the
  limit, the encoder and the exceptions caught on the way, the last three rounds of the
  sliding zone are those of a manager that never compresses, word for word.
\<close>

theorem stm_keeps_recent_rounds:
  "take 3 (rev (stm_sliding (stm_run env ops (stm_new m)))) = take 3 (rev (fold all_rounds ops []))"
  using run_tail [of "stm_new m" "[]" env ops] by (simp add: same_tail_def sliding_keep_rounds_def stm_new_def)

lemma compress_post:
  "compress_if_needed env s = (r, s') \<Longrightarrow>
     stm_max s' = stm_max s \<and> (stm_count s' \<le> stm_max s' \<or> length (stm_sliding s') \<le> 4)"
  by (auto simp: compress_if_needed_def recompute_token_count_def Let_def case_prod_beta sliding_keep_rounds_def split: if_splits)

text \<open>
  Every operation that returns leaves the context within its token limit or with at most the
  summary and three rounds.
\<close>

theorem stm_bounded:
  assumes "stm_apply env op s = (None, s')"
  shows "stm_max s' = stm_max s \<and> (stm_count s' \<le> stm_max s' \<or> length (stm_sliding s') \<le> 4)"
proof (cases op)
  case (AddTrigger t p f)
  with assms show ?thesis by (auto simp: add_trigger_def Let_def split: sum.splits dest!: compress_post)
next
  case (AddCall n a r)
  with assms show ?thesis by (auto simp: add_function_call_def Let_def split: sum.splits dest!: compress_post)
next
  case (AddResponse c)
  with assms show ?thesis by (auto simp: add_llm_response_def dest!: compress_post)
next
  case (Inject i)
  with assms show ?thesis by (auto simp: inject_def dest!: compress_post)
qed

definition plain_text :: text_env where
  "plain_text = \<lparr>te_float = (\<lambda>r. ''0.0''), te_str = (\<lambda>v. ''?''), te_tokens = None\<rparr>"

definition busy_context :: stm where
  "busy_context = stm_run plain_text (replicate 5 (AddCall ''f'' (PDict []) (PDict []))) (stm_new 39)"

theorem stm_bounded_witness:
  "length (stm_sliding busy_context) = 4
   \<and> length (stm_sliding (snd (stm_apply plain_text (Inject ''please wait'') busy_context))) \<le> 4"
proof -
  have v: "length (stm_sliding busy_context) = 4"
    "fst (stm_apply plain_text (Inject ''please wait'') busy_context) = None"
    "stm_max busy_context < stm_count (snd (stm_apply plain_text (Inject ''please wait'') busy_context))"
    by code_simp+
  have "stm_apply plain_text (Inject ''please wait'') busy_context
      = (None, snd (stm_apply plain_text (Inject ''please wait'') busy_context))"
    using v(2) by (metis prod.collapse)
  from stm_bounded [OF this] v(1,3) show ?thesis by auto
qed

text \<open>
  A round whose arguments JSON cannot print is refused with an exception, but stays.
\<close>

lemma refused_round_stays:
  assumes "dumps env args = Inl e"
  shows "add_function_call env name args result s = (Some e, s\<lparr>stm_sliding := stm_sliding s
     @ [\<lparr>sr_name = name, sr_args = args, sr_result = result, sr_response = []\<rparr>]\<rparr>)"
  using assms by (simp add: add_function_call_def)

text \<open>A summary counts as one round when it is summarised again, so how many it stood for is lost.\<close>

lemma summary_forgets_count:
  assumes "stm_sliding s = summary_round n # rounds" and "length rounds = 3" and "stm_count s > stm_max s"
  shows "stm_sliding (snd (compress_if_needed env s)) = summary_round 1 # rounds"
  using assms by (simp add: compress_if_needed_def recompute_token_count_def Let_def case_prod_beta sliding_keep_rounds_def)

text \<open>A response that replaces another is counted on top of it.\<close>

lemma replaced_response_counted:
  assumes "stm_count s + 2 * count_tokens env c \<le> stm_max s" and "0 \<le> count_tokens env c"
  shows "stm_count (snd (add_llm_response env c (snd (add_llm_response env c s)))) = stm_count s + 2 * count_tokens env c"
  using assms by (simp add: add_llm_response_def compress_if_needed_def)

section \<open>The snapshot of long-term memory\<close>

record memory_snapshot =
  sn_prompt :: string
  sn_ids :: "uuid list"

fun dedup_entries :: "uuid list \<Rightarrow> memory_entry list \<Rightarrow> memory_entry list" where
  "dedup_entries seen [] = []"
| "dedup_entries seen (e # es) =
     (if me_id e \<in> set seen then dedup_entries seen es else e # dedup_entries (me_id e # seen) es)"

definition memory_line :: "memory_entry \<Rightarrow> string" where
  "memory_line e = ''- '' @ me_content e @ newline"

text \<open>The first entry that does not fit ends the list, whatever comes after it.\<close>

fun fit_lines :: "text_env \<Rightarrow> int \<Rightarrow> int \<Rightarrow> memory_entry list \<Rightarrow> memory_entry list" where
  "fit_lines env max_tokens used [] = []"
| "fit_lines env max_tokens used (e # es) =
     (let need = count_tokens env (memory_line e) in
      if used + need > max_tokens then [] else e # fit_lines env max_tokens (used + need) es)"

definition snapshot_header :: string where
  "snapshot_header = ''## Long-term memory'' @ newline @ newline"

definition assemble :: "text_env \<Rightarrow> (memory_entry \<times> real) list \<Rightarrow> memory_entry list \<Rightarrow> (memory_entry \<times> real) list \<Rightarrow> int \<Rightarrow> memory_snapshot" where
  "assemble env semantic_hits recent pinned max_tokens =
     (let ordered = dedup_entries [] (map fst semantic_hits @ recent @ map fst pinned);
          chosen = fit_lines env max_tokens (count_tokens env snapshot_header) ordered;
          fragment = (if chosen \<noteq> [] then snapshot_header @ concat (map memory_line chosen)
                      else snapshot_header @ ''(no memories)'' @ newline)
      in \<lparr>sn_prompt = py_strip fragment, sn_ids = map me_id chosen\<rparr>)"

text \<open>Two readings of the clock: one for the search, one for the recent window.\<close>

definition build_snapshot ::
  "text_env \<Rightarrow> (real \<Rightarrow> real) \<Rightarrow> (string \<Rightarrow> py_error + real list) \<Rightarrow> micros \<Rightarrow> micros \<Rightarrow> string \<Rightarrow> string \<Rightarrow> string \<Rightarrow> string option
     \<Rightarrow> int \<Rightarrow> int \<Rightarrow> int \<Rightarrow> int \<Rightarrow> int \<Rightarrow> mem_store \<Rightarrow> (py_error + memory_snapshot) \<times> mem_store" where
  "build_snapshot env round6 embedder now1 now2 agent_id tenant_id trigger_event focus max_tokens semantic_limit recent_hours
     recent_limit pinned_limit s =
     (let event = py_strip trigger_event;
          query = (case focus of None \<Rightarrow> event
                   | Some f \<Rightarrow> if f = [] then event else event @ newline @ ''focus: '' @ py_strip f)
      in case embedder query of
           Inl e \<Rightarrow> (Inl e, s)
         | Inr q \<Rightarrow>
             (case store_search round6 now1 agent_id tenant_id (Some q) semantic_limit [] False s of
                (Inl e, s1) \<Rightarrow> (Inl e, s1)
              | (Inr semantic_hits, s1) \<Rightarrow>
                  (let recent = store_get_recent now2 agent_id tenant_id recent_hours recent_limit s1 in
                   case store_search round6 now2 agent_id tenant_id None pinned_limit [''pinned''] False s1 of
                     (Inl e, s2) \<Rightarrow> (Inl e, s2)
                   | (Inr pinned, s2) \<Rightarrow> (Inr (assemble env semantic_hits recent pinned max_tokens), s2))))"

lemma dedup_set: "set (dedup_entries seen es) \<subseteq> set es"
  by (induction seen es rule: dedup_entries.induct) auto

lemma dedup_distinct: "distinct (map me_id (dedup_entries seen es)) \<and> set (map me_id (dedup_entries seen es)) \<inter> set seen = {}"
  by (induction seen es rule: dedup_entries.induct) auto

lemma fit_prefix: "\<exists>rest. es = fit_lines env m used es @ rest"
  by (induction es arbitrary: used) (auto simp: Let_def)

lemma fit_bounded:
  "fit_lines env m used es = [] \<or> used + sum_list (map (\<lambda>e. count_tokens env (memory_line e)) (fit_lines env m used es)) \<le> m"
proof (induction es arbitrary: used)
  case (Cons e es)
  show ?case using Cons.IH [of "used + count_tokens env (memory_line e)"] by (auto simp: Let_def algebra_simps)
qed simp

text \<open>Searching and reading change no entry.\<close>

lemma search_entries: "entries_in (snd (store_search round6 now a t qe n tags arch s)) = entries_in s"
  by (auto simp: store_search_def Let_def entries_in_def split: option.split sum.split)

lemma recent_good:
  assumes "e \<in> set (store_get_recent now a t hours n s)"
  shows "e \<in> set (entries_in s) \<and> in_scope a t e \<and> \<not> me_archived e"
  using subsetD [OF set_py_upto assms [unfolded store_get_recent_def Let_def]] by simp

text \<open>
  A snapshot stays inside its scope and its budget: whatever state the store was brought to,
  the identifiers a snapshot names are distinct, each belongs to an entry of the agent and the
  tenant that is in the store and not archived, and the tokens of the header and of the lines
  of these entries together are within the limit, if there is any line.
\<close>

theorem snapshot_isolated:
  assumes "store_reach s"
    and "build_snapshot env round6 embedder now1 now2 a t trigger focus m sl hours rl pl s = (Inr snap, s')"
  shows "\<exists>es. sn_ids snap = map me_id es \<and> distinct (sn_ids snap)
     \<and> list_all (\<lambda>e. e \<in> set (entries_in s) \<and> in_scope a t e \<and> \<not> me_archived e) es
     \<and> (es = [] \<or> count_tokens env snapshot_header + sum_list (map (\<lambda>e. count_tokens env (memory_line e)) es) \<le> m)"
proof -
  from assms(2) obtain q hits s1 pinned where
    h: "store_search round6 now1 a t (Some q) sl [] False s = (Inr hits, s1)" and
    p: "store_search round6 now2 a t None pl [''pinned''] False s1 = (Inr pinned, s')" and
    snap: "snap = assemble env hits (store_get_recent now2 a t hours rl s1) pinned m"
    by (auto simp: build_snapshot_def Let_def split: sum.splits prod.splits)
  have s1: "entries_in s1 = entries_in s" using search_entries [of round6 now1 a t "Some q" sl "[]" False s] h by simp
  have inv: "store_inv s" using reach_inv assms(1) .
  have inv1: "store_inv s1" using search_keeps [OF inv, of round6 now1 a t "Some q" sl "[]" False] h by simp
  define ordered where "ordered = dedup_entries [] (map fst hits @ store_get_recent now2 a t hours rl s1 @ map fst pinned)"
  define es where "es = fit_lines env m (count_tokens env snapshot_header) ordered"
  have ids: "sn_ids snap = map me_id es" by (simp add: snap assemble_def Let_def es_def ordered_def)
  obtain rest where split: "ordered = es @ rest" using fit_prefix es_def by blast
  have "distinct (map me_id ordered)" using dedup_distinct ordered_def by simp
  then have d: "distinct (sn_ids snap)" by (simp add: ids split)
  have good: "e \<in> set (entries_in s) \<and> in_scope a t e \<and> \<not> me_archived e" if "e \<in> set ordered" for e
  proof -
    have "e \<in> set (map fst hits @ store_get_recent now2 a t hours rl s1 @ map fst pinned)"
      using that dedup_set unfolding ordered_def by (rule subsetD [rotated])
    then consider x where "x \<in> set hits" "e = fst x" | "e \<in> set (store_get_recent now2 a t hours rl s1)"
      | x where "x \<in> set pinned" "e = fst x" by auto
    then show ?thesis
    proof cases
      case (1 x)
      with search_hits [OF inv h 1(1)] show ?thesis by simp
    next
      case 2
      from recent_good [OF this] s1 show ?thesis by simp
    next
      case (3 x)
      with search_hits [OF inv1 p 3(1)] s1 show ?thesis by simp
    qed
  qed
  have "es = [] \<or> count_tokens env snapshot_header + sum_list (map (\<lambda>e. count_tokens env (memory_line e)) es) \<le> m"
    using fit_bounded unfolding es_def .
  moreover have "list_all (\<lambda>e. e \<in> set (entries_in s) \<and> in_scope a t e \<and> \<not> me_archived e) es"
    using good by (simp add: list_all_iff split)
  ultimately show ?thesis using ids d by blast
qed

theorem snapshot_isolated_witness:
  "\<exists>snap. fst (build_snapshot plain_text (\<lambda>r. r) (\<lambda>x. Inr [1]) 5 5 ''a'' ''t'' ''wake'' None 500 3 24 5 10 (sample_store 2)) = Inr snap
     \<and> distinct (sn_ids snap) \<and> set (sn_ids snap) \<subseteq> {''1''}"
proof -
  let ?b = "build_snapshot plain_text (\<lambda>r. r) (\<lambda>x. Inr [1]) 5 5 ''a'' ''t'' ''wake'' None 500 3 24 5 10 (sample_store 2)"
  have "mt_cache (sample_store 2) = Map.empty" "mt_norms (sample_store 2) ''1'' = Some 1" "mt_half_life (sample_store 2) = 168"
    by (simp_all add: sample_store_def store_save_def mem_store_new_def evict_if_needed_def sample_entry_def Let_def embedding_norm_def)
  then obtain snap where snap: "fst ?b = Inr snap"
    by (auto simp: build_snapshot_def store_search_def search_candidates_def sample_store_entries in_scope_def sort_desc_def Let_def
        entry_score_def dot_product_def time_decay_def sample_entry_def embedding_norm_def)
  then have b: "?b = (Inr snap, snd ?b)" by (metis prod.collapse)
  from snapshot_isolated [OF sample_store_reach b] obtain es where es: "sn_ids snap = map me_id es" "distinct (sn_ids snap)"
      "list_all (\<lambda>e. e \<in> set (entries_in (sample_store 2)) \<and> in_scope ''a'' ''t'' e \<and> \<not> me_archived e) es" by blast
  then have "set es \<subseteq> {sample_entry ''1'' ''t'' 0}" by (auto simp: list_all_iff sample_store_entries)
  then have "set (sn_ids snap) \<subseteq> {''1''}" by (auto simp: es(1) sample_entry_def)
  with snap es(2) show ?thesis by blast
qed

end
