(* ===== verification/MemoryLifecycle.thy ===== *)
theory MemoryLifecycle
  imports MemoryStore Ledger
begin

section \<open>Agent memory: maintenance\<close>

text \<open>
  \<open>owlclaw/agent/memory/lifecycle.py\<close>: archive the entries of a scope above the limit, least
  used first, then delete expired ones. The manager works on any \<open>MemoryStore\<close>, so one pass is
  a function of the store's operations; the locale \<open>memory_backend\<close> states what it relies on
  and is interpreted on the in-memory store.
\<close>

subsection \<open>One pass\<close>

type_synonym scope = "string \<times> string"

record maintenance_result =
  mr_agent :: string
  mr_tenant :: string
  mr_archived :: nat
  mr_deleted :: nat
  mr_duration :: int
  mr_error :: "string option"

definition normalize_scope :: "string \<Rightarrow> string \<Rightarrow> py_error + scope" where
  "normalize_scope agent_id tenant_id =
     (if py_strip agent_id = [] then Inl (ValueError ''agent_id must not be empty'')
      else if py_strip tenant_id = [] then Inl (ValueError ''tenant_id must not be empty'')
      else Inr (py_strip agent_id, py_strip tenant_id))"

definition least_used :: "int \<Rightarrow> nat \<Rightarrow> memory_entry list \<Rightarrow> memory_entry list" where
  "least_used max_entries n candidates =
     (let overflow = max 1 (int n - max_entries) in py_upto overflow (sort_asc (\<lambda>e. (me_count e, me_created e)) candidates))"

definition maintenance_pass ::
  "(scope \<Rightarrow> 's \<Rightarrow> nat) \<Rightarrow> (scope \<Rightarrow> int \<Rightarrow> 's \<Rightarrow> memory_entry list) \<Rightarrow> (uuid list \<Rightarrow> 's \<Rightarrow> nat \<times> 's)
     \<Rightarrow> (scope \<Rightarrow> micros \<Rightarrow> int \<Rightarrow> 's \<Rightarrow> uuid list) \<Rightarrow> (uuid list \<Rightarrow> 's \<Rightarrow> nat \<times> 's)
     \<Rightarrow> int \<Rightarrow> micros \<Rightarrow> scope \<Rightarrow> 's \<Rightarrow> (nat \<times> nat) \<times> 's" where
  "maintenance_pass live_count list_oldest archive expired delete max_entries cutoff scope s =
     (let n = live_count scope s;
          (archived, s1) =
            (if int n > max_entries
             then (let to_archive = least_used max_entries n (list_oldest scope (int n) s)
                   in if to_archive \<noteq> [] then archive (map me_id to_archive) s else (0, s))
             else (0, s));
          expired_ids = expired scope cutoff 2 s1;
          (deleted, s2) = (if expired_ids \<noteq> [] then delete expired_ids s1 else (0, s1))
      in ((archived, deleted), s2))"

text \<open>The pass on the in-memory store; none of its operations raises.\<close>

definition memory_maintenance :: "int \<Rightarrow> micros \<Rightarrow> scope \<Rightarrow> mem_store \<Rightarrow> (nat \<times> nat) \<times> mem_store" where
  "memory_maintenance =
     maintenance_pass (\<lambda>(a, t). store_count a t) (\<lambda>(a, t) n s. store_list_entries a t True n False s) store_archive
       (\<lambda>(a, t). store_get_expired a t) store_delete"

definition maintenance_call :: "maintenance_result \<Rightarrow> exec_call" where
  "maintenance_call r =
     \<lparr>xc_tenant = PStr (mr_tenant r), xc_agent = PStr (mr_agent r), xc_run = PStr ''memory-maintenance'',
      xc_capability = PStr ''memory.maintenance'', xc_task = PStr ''lifecycle'',
      xc_input = PDict [(PStr ''agent_id'', PStr (mr_agent r)), (PStr ''tenant_id'', PStr (mr_tenant r))],
      xc_output = PDict [(PStr ''archived_count'', PInt (int (mr_archived r))), (PStr ''deleted_count'', PInt (int (mr_deleted r))),
        (PStr ''duration_ms'', PInt (mr_duration r))],
      xc_reasoning = None, xc_time_ms = mr_duration r, xc_model = [], xc_tokens_in = 0, xc_tokens_out = 0, xc_cost = 0,
      xc_status = (if mr_error r = None then ''success'' else ''error''), xc_error = mr_error r,
      xc_weight = None, xc_mode = None, xc_risk = None, xc_approver = None, xc_approved_at = None\<rparr>"

record maintenance_env =
  mv_now :: micros
  mv_started :: seconds
  mv_finished :: seconds
  mv_rec_id :: uuid
  mv_rec_time :: micros

text \<open>A scope with a blank name is reported, not raised; an exception of the ledger is logged.\<close>

definition run_maintenance ::
  "maintenance_env \<Rightarrow> int \<Rightarrow> int \<Rightarrow> string \<Rightarrow> string \<Rightarrow> mem_store \<times> memory_ledger option
     \<Rightarrow> maintenance_result \<times> mem_store \<times> memory_ledger option" where
  "run_maintenance env max_entries retention_days agent_id tenant_id w =
     (case normalize_scope agent_id tenant_id of
        Inl e \<Rightarrow> (\<lparr>mr_agent = agent_id, mr_tenant = tenant_id, mr_archived = 0, mr_deleted = 0, mr_duration = 0,
            mr_error = Some (if py_strip agent_id = [] then ''agent_id must not be empty'' else ''tenant_id must not be empty'')\<rparr>, w)
      | Inr (agent, tenant) \<Rightarrow>
          (let ((archived, deleted), s') =
                 memory_maintenance max_entries (mv_now env - retention_days * day_micros) (agent, tenant) (fst w);
               r = \<lparr>mr_agent = agent, mr_tenant = tenant, mr_archived = archived, mr_deleted = deleted,
                  mr_duration = trunc_rat ((mv_finished env - mv_started env) * 1000), mr_error = None\<rparr>
           in (r, s', (case snd w of None \<Rightarrow> None
                | Some l \<Rightarrow> (case mem_record_execution (mv_rec_id env) (mv_rec_time env) (maintenance_call r) l of
                      Inl e \<Rightarrow> Some l | Inr l' \<Rightarrow> Some l')))))"

fun run_maintenance_for_agents ::
  "(scope \<Rightarrow> maintenance_env) \<Rightarrow> int \<Rightarrow> int \<Rightarrow> scope list \<Rightarrow> mem_store \<times> memory_ledger option
     \<Rightarrow> maintenance_result list \<times> mem_store \<times> memory_ledger option" where
  "run_maintenance_for_agents env max_entries retention_days [] w = ([], w)"
| "run_maintenance_for_agents env max_entries retention_days ((agent, tenant) # agents) w =
     (case run_maintenance (env (agent, tenant)) max_entries retention_days agent tenant w of
        (r, w1) \<Rightarrow> (case run_maintenance_for_agents env max_entries retention_days agents w1 of
            (rs, w2) \<Rightarrow> (r # rs, w2)))"

subsection \<open>What maintenance relies on\<close>

text \<open>
  \<open>live\<close> are the entries of a scope that are not archived. Counting, listing and the selection
  of expired entries are determined by them; archiving and deleting remove entries from them by
  identifier, and identifiers are unique in a store that is \<open>ok\<close>.
\<close>

locale memory_backend =
  fixes ok :: "'s \<Rightarrow> bool"
    and live :: "scope \<Rightarrow> 's \<Rightarrow> memory_entry list"
    and live_count :: "scope \<Rightarrow> 's \<Rightarrow> nat"
    and list_oldest :: "scope \<Rightarrow> int \<Rightarrow> 's \<Rightarrow> memory_entry list"
    and archive :: "uuid list \<Rightarrow> 's \<Rightarrow> nat \<times> 's"
    and expired :: "scope \<Rightarrow> micros \<Rightarrow> int \<Rightarrow> 's \<Rightarrow> uuid list"
    and delete :: "uuid list \<Rightarrow> 's \<Rightarrow> nat \<times> 's"
  assumes live_distinct: "ok s \<Longrightarrow> distinct (map me_id (live k s))"
    and live_apart: "ok s \<Longrightarrow> e \<in> set (live k s) \<Longrightarrow> e' \<in> set (live k' s) \<Longrightarrow> me_id e = me_id e' \<Longrightarrow> k = k'"
    and count_live: "live_count k s = length (live k s)"
    and list_live: "list_oldest k (int (live_count k s)) s = sort_asc me_created (live k s)"
    and expired_live: "expired k before n s = map me_id (filter (\<lambda>e. me_created e < before \<and> me_count e \<le> n) (live k s))"
    and archive_live: "ok s \<Longrightarrow> live k (snd (archive ids s)) = filter (\<lambda>e. me_id e \<notin> set ids) (live k s)"
    and archive_ok: "ok s \<Longrightarrow> ok (snd (archive ids s))"
    and delete_live: "ok s \<Longrightarrow> live k (snd (delete ids s)) = filter (\<lambda>e. me_id e \<notin> set ids) (live k s)"
    and delete_ok: "ok s \<Longrightarrow> ok (snd (delete ids s))"
begin

abbreviation pass where
  "pass \<equiv> maintenance_pass live_count list_oldest archive expired delete"

text \<open>The entries the first half of a pass archives, and the store after it.\<close>

definition chosen :: "int \<Rightarrow> scope \<Rightarrow> 's \<Rightarrow> memory_entry list" where
  "chosen m k s = (if int (live_count k s) > m then least_used m (live_count k s) (sort_asc me_created (live k s)) else [])"

definition kept :: "int \<Rightarrow> scope \<Rightarrow> 's \<Rightarrow> memory_entry list" where
  "kept m k s = filter (\<lambda>e. me_id e \<notin> me_id ` set (chosen m k s)) (live k s)"

lemma chosen_sub: "set (chosen m k s) \<subseteq> set (live k s)"
  using set_py_upto by (fastforce simp: chosen_def least_used_def Let_def)

definition middle :: "int \<Rightarrow> scope \<Rightarrow> 's \<Rightarrow> 's" where
  "middle m k s = (if chosen m k s \<noteq> [] then snd (archive (map me_id (chosen m k s)) s) else s)"

lemma middle_ok: "ok s \<Longrightarrow> ok (middle m k s)"
  by (simp add: middle_def archive_ok)

lemma middle_live: "ok s \<Longrightarrow> live k (middle m k s) = kept m k s"
  by (simp add: middle_def kept_def archive_live)

lemma pass_eq:
  "snd (pass m cutoff k s) =
     (let ids = expired k cutoff 2 (middle m k s) in if ids \<noteq> [] then snd (delete ids (middle m k s)) else middle m k s)"
  by (auto simp: maintenance_pass_def Let_def middle_def chosen_def list_live case_prod_beta)

lemma unique_in: "ok s \<Longrightarrow> e \<in> set (live k s) \<Longrightarrow> e' \<in> set (live k s) \<Longrightarrow> me_id e = me_id e' \<Longrightarrow> e = e'"
  using live_distinct by (auto simp: distinct_map inj_on_def)

lemma expired_mem:
  assumes "ok s" and "e \<in> set (live k s)"
  shows "(me_id e \<notin> set (expired k cutoff n s)) = (\<not> (me_created e < cutoff \<and> me_count e \<le> n))"
proof -
  have "me_id e \<in> set (expired k cutoff n s) \<longleftrightarrow> me_created e < cutoff \<and> me_count e \<le> n"
  proof
    assume "me_id e \<in> set (expired k cutoff n s)"
    then obtain e' where e': "e' \<in> set (live k s)" "me_id e = me_id e'" "me_created e' < cutoff" "me_count e' \<le> n"
      by (auto simp: expired_live)
    then show "me_created e < cutoff \<and> me_count e \<le> n" using unique_in [OF assms e'(1,2)] by simp
  next
    assume "me_created e < cutoff \<and> me_count e \<le> n"
    then show "me_id e \<in> set (expired k cutoff n s)" using assms(2) by (simp add: expired_live)
  qed
  then show ?thesis by simp
qed

lemma pass_live:
  assumes "ok s"
  shows "live k (snd (pass m cutoff k s)) = filter (\<lambda>e. \<not> (me_created e < cutoff \<and> me_count e \<le> 2)) (kept m k s)"
proof -
  have "live k (snd (pass m cutoff k s)) = filter (\<lambda>e. me_id e \<notin> set (expired k cutoff 2 (middle m k s))) (live k (middle m k s))"
    by (cases "expired k cutoff 2 (middle m k s) = []") (simp_all add: pass_eq delete_live middle_ok assms)
  also have "\<dots> = filter (\<lambda>e. \<not> (me_created e < cutoff \<and> me_count e \<le> 2)) (live k (middle m k s))"
    by (rule filter_cong [OF refl]) (rule expired_mem [OF middle_ok [OF assms]])
  finally show ?thesis by (simp add: middle_live assms)
qed

lemma pass_other:
  assumes "ok s" and "k' \<noteq> k"
  shows "live k' (snd (pass m cutoff k s)) = live k' s"
proof -
  have apart: "filter (\<lambda>e. me_id e \<notin> me_id ` A) (live k' s') = live k' s'" if k': "ok s'" and sub: "A \<subseteq> set (live k s')" for A s'
  proof (rule filter_True, intro ballI notI)
    fix e assume e: "e \<in> set (live k' s')" and "me_id e \<in> me_id ` A"
    then obtain e' where "e' \<in> set (live k s')" "me_id e = me_id e'" using sub by auto
    from live_apart [OF k' e this] assms(2) show False by simp
  qed
  have m: "live k' (middle m k s) = live k' s"
    using apart [OF assms(1) chosen_sub [of m k s]] by (simp add: middle_def archive_live assms(1))
  have "live k' (snd (pass m cutoff k s)) = live k' (middle m k s)"
    using apart [OF middle_ok [OF assms(1)], of "set (filter (\<lambda>e. me_created e < cutoff \<and> me_count e \<le> 2) (live k (middle m k s)))" m k]
    by (simp add: pass_eq delete_live expired_live Let_def middle_ok assms(1))
  with m show ?thesis by simp
qed

lemma kept_length:
  assumes "ok s" and "0 \<le> m"
  shows "int (length (kept m k s)) \<le> m"
proof (cases "int (live_count k s) > m")
  case False
  then show ?thesis by (simp add: kept_def chosen_def count_live)
next
  case True
  have d: "distinct (map me_id (live k s))" using assms(1) by (rule live_distinct)
  have dl: "distinct (live k s)" using d by (rule distinct_map [THEN iffD1, THEN conjunct1])
  have inj: "inj_on me_id (set (live k s))" using d by (simp add: distinct_map)
  let ?srt = "sort_asc (\<lambda>e. (me_count e, me_created e)) (sort_asc me_created (live k s))"
  have ch: "chosen m k s = take (nat (int (length (live k s)) - m)) ?srt"
    using True assms(2) by (simp add: chosen_def least_used_def Let_def count_live py_upto_def)
  have "distinct ?srt" using dl by (simp add: sort_asc_def)
  then have dc: "distinct (chosen m k s)" unfolding ch by (rule distinct_take)
  have lc: "length (chosen m k s) = nat (int (length (live k s)) - m)" using assms(2) by (simp add: ch)
  have "set (kept m k s) = set (live k s) - set (chosen m k s)"
    using inj chosen_sub [of m k s] by (auto simp: kept_def inj_on_def)
  moreover have "distinct (kept m k s)" using dl by (simp add: kept_def)
  ultimately have "length (kept m k s) = length (live k s) - length (chosen m k s)"
    using dl dc chosen_sub [of m k s] by (simp add: card_Diff_subset flip: distinct_card)
  then show ?thesis using lc True assms(2) by (simp add: count_live)
qed

lemma chosen_least:
  assumes "ok s" and "e \<in> set (chosen m k s)" and "e' \<in> set (kept m k s)"
  shows "(me_count e, me_created e) \<le> (me_count e', me_created e')"
proof -
  let ?key = "\<lambda>e. (me_count e, me_created e)"
  let ?srt = "sort_asc ?key (sort_asc me_created (live k s))"
  obtain n where n: "chosen m k s = take n ?srt"
    by (cases "int (live_count k s) > m") (auto simp: chosen_def least_used_def Let_def py_upto_def intro: that [of 0])
  have "e' \<in> set ?srt" "e' \<notin> set (chosen m k s)" using assms(3) by (auto simp: kept_def)
  then have "e' \<in> set (drop n ?srt)" unfolding n by (metis Un_iff append_take_drop_id set_append)
  moreover have "e \<in> set (take n ?srt)" using assms(2) by (simp add: n)
  ultimately show ?thesis using sorted_take_drop [of ?key ?srt e n e', OF sorted_sort_asc] by simp
qed

lemma pass_bounded:
  assumes "ok s" and "0 \<le> m"
  shows "int (live_count k (snd (pass m cutoff k s))) \<le> m"
proof -
  have "length (live k (snd (pass m cutoff k s))) \<le> length (kept m k s)"
    by (simp add: pass_live assms(1) del: filter_filter)
  with kept_length [OF assms, of k] show ?thesis by (simp add: count_live)
qed

text \<open>An entry of the scope that a pass removes was expired, or archived before every one that stays.\<close>

lemma pass_removes:
  assumes "ok s" and "e \<in> set (live k s)" and "e \<notin> set (live k (snd (pass m cutoff k s)))"
    and "e' \<in> set (live k (snd (pass m cutoff k s)))"
  shows "me_created e < cutoff \<and> me_count e \<le> 2 \<or> (me_count e, me_created e) \<le> (me_count e', me_created e')"
proof (cases "e \<in> set (kept m k s)")
  case True
  with assms(1,3) show ?thesis by (simp add: pass_live)
next
  case False
  then obtain c where c: "c \<in> set (chosen m k s)" "me_id c = me_id e" using assms(2) by (auto simp: kept_def)
  have "c = e" using unique_in [OF assms(1) subsetD [OF chosen_sub c(1)] assms(2) c(2)] .
  moreover have "e' \<in> set (kept m k s)" using assms(1,4) by (simp add: pass_live)
  ultimately show ?thesis using chosen_least [OF assms(1) c(1)] by simp
qed

end

subsection \<open>The in-memory store provides it\<close>

definition live_entries :: "scope \<Rightarrow> mem_store \<Rightarrow> memory_entry list" where
  "live_entries k s = filter (\<lambda>e. in_scope (fst k) (snd k) e \<and> \<not> me_archived e) (entries_in s)"

lemma archive_entries:
  "keyed_by_id s \<Longrightarrow> entries_in (snd (store_archive ids s))
     = map (\<lambda>e. if me_id e \<in> set ids then e\<lparr>me_archived := True\<rparr> else e) (entries_in s)"
  by (auto simp: store_archive_def Let_def entries_in_def keyed_by_id_def list_all_iff)

lemma delete_entries:
  "keyed_by_id s \<Longrightarrow> entries_in (snd (store_delete ids s)) = filter (\<lambda>e. me_id e \<notin> set ids) (entries_in s)"
proof -
  assume k: "keyed_by_id s"
  have "entries_in (snd (store_delete ids s)) = map snd (filter (\<lambda>p. fst p \<notin> set ids) (mt_entries s))"
    by (simp add: store_delete_def Let_def entries_in_def drop_ids_def)
  also have "\<dots> = map snd (filter (\<lambda>p. me_id (snd p) \<notin> set ids) (mt_entries s))"
    using k by (simp add: keyed_by_id_def list_all_iff cong: filter_cong)
  also have "\<dots> = filter (\<lambda>e. me_id e \<notin> set ids) (entries_in s)"
    by (simp add: entries_in_def filter_map comp_def)
  finally show ?thesis .
qed

lemma live_after_archive:
  "keyed_by_id s \<Longrightarrow> live_entries k (snd (store_archive ids s)) = filter (\<lambda>e. me_id e \<notin> set ids) (live_entries k s)"
proof -
  have "filter (\<lambda>e. in_scope a t e \<and> \<not> me_archived e) (map (\<lambda>e. if me_id e \<in> set ids then e\<lparr>me_archived := True\<rparr> else e) es)
      = filter (\<lambda>e. me_id e \<notin> set ids) (filter (\<lambda>e. in_scope a t e \<and> \<not> me_archived e) es)" for a t es
    by (induction es) (auto simp: in_scope_def)
  then show "keyed_by_id s \<Longrightarrow> ?thesis" unfolding live_entries_def by (simp only: archive_entries)
qed

lemma live_after_delete:
  "keyed_by_id s \<Longrightarrow> live_entries k (snd (store_delete ids s)) = filter (\<lambda>e. me_id e \<notin> set ids) (live_entries k s)"
  by (simp add: live_entries_def delete_entries conj_commute)

lemma live_unique:
  assumes "keyed_by_id s" and "e \<in> set (live_entries k s)" and "e' \<in> set (live_entries k' s)" and "me_id e = me_id e'"
  shows "k = k'"
proof -
  have "e \<in> set (entries_in s)" "e' \<in> set (entries_in s)" using assms(2,3) by (simp_all add: live_entries_def)
  then have "e = e'" using keyed_lookup [OF assms(1), of "me_id e'"] assms(4) by (metis option.inject)
  with assms(2,3) show ?thesis by (auto simp: live_entries_def in_scope_def prod_eq_iff)
qed

lemma archive_keyed: "keyed_by_id s \<Longrightarrow> keyed_by_id (snd (store_archive ids s))"
  by (auto simp: store_archive_def Let_def keyed_by_id_def list_all_iff comp_def case_prod_beta)

lemma delete_keyed: "keyed_by_id s \<Longrightarrow> keyed_by_id (snd (store_delete ids s))"
  by (simp add: store_delete_def Let_def drop_ids_keyed)

interpretation mem: memory_backend keyed_by_id live_entries "\<lambda>(a, t). store_count a t"
    "\<lambda>(a, t) n s. store_list_entries a t True n False s" store_archive "\<lambda>(a, t). store_get_expired a t" store_delete
proof
  show "distinct (map me_id (live_entries k s))" if "keyed_by_id s" for s k
    using keyed_distinct [OF that] by (simp add: live_entries_def distinct_map_filter)
  show "(case k of (a, t) \<Rightarrow> store_count a t) s = length (live_entries k s)" for k s
    by (simp add: store_count_def live_entries_def case_prod_beta)
  show "(case k of (a, t) \<Rightarrow> \<lambda>n s. store_list_entries a t True n False s) (int ((case k of (a, t) \<Rightarrow> store_count a t) s)) s
      = sort_asc me_created (live_entries k s)" for k s
    by (simp add: store_count_def live_entries_def store_list_entries_def case_prod_beta py_upto_def)
  show "(case k of (a, t) \<Rightarrow> store_get_expired a t) before n s
      = map me_id (filter (\<lambda>e. me_created e < before \<and> me_count e \<le> n) (live_entries k s))" for k before n s
    by (simp add: store_get_expired_def live_entries_def case_prod_beta conj_commute conj_left_commute)
qed (fact live_unique live_after_archive live_after_delete archive_keyed delete_keyed)+

subsection \<open>Properties of maintenance\<close>

lemma run_maintenance_store:
  assumes "normalize_scope agent tenant = Inr k" and "run_maintenance env m days agent tenant (s, l) = (r, s', l')"
  shows "s' = snd (memory_maintenance m (mv_now env - days * day_micros) k s)"
  using assms by (cases k) (auto simp: run_maintenance_def Let_def split: prod.splits)

definition sample_entries :: mem_store where
  "sample_entries = snd (store_save (sample_entry ''2'' ''u'' 1) (snd (store_save (sample_entry ''3'' ''t'' 2) (sample_store 9))))"

lemma sample_entries_keyed: "keyed_by_id sample_entries"
  using reach_inv [OF store_reach.save [OF store_reach.save [OF sample_store_reach [of 9]]]]
  by (simp add: store_inv_def sample_entries_def)

definition sample_maintenance :: maintenance_env where
  "sample_maintenance = \<lparr>mv_now = 5, mv_started = 0, mv_finished = 1, mv_rec_id = ''r'', mv_rec_time = 5\<rparr>"

text \<open>
  C35. After maintenance of a scope, the scope has at most \<open>max_entries\<close> entries that are not
  archived, and the entries of every other agent and tenant that are not archived are the same.
\<close>

theorem maintenance_bounds_scope:
  assumes "keyed_by_id s" and "0 \<le> m" and "normalize_scope agent tenant = Inr (a, t)"
    and "run_maintenance env m days agent tenant (s, l) = (r, s', l')"
  shows "int (store_count a t s') \<le> m \<and> (if k = (a, t) then True else live_entries k s' = live_entries k s)"
  using mem.pass_bounded [OF assms(1,2), of "(a, t)"] mem.pass_other [OF assms(1), of k "(a, t)"]
  by (simp add: run_maintenance_store [OF assms(3,4)] memory_maintenance_def)

theorem maintenance_bounds_scope_witness:
  "store_count ''a'' ''t'' sample_entries = 2
   \<and> store_count ''a'' ''t'' (fst (snd (run_maintenance sample_maintenance 1 1 '' a'' ''t'' (sample_entries, None)))) \<le> 1"
proof -
  obtain r s' l' where r: "run_maintenance sample_maintenance 1 1 '' a'' ''t'' (sample_entries, None) = (r, s', l')"
    by (metis prod.collapse)
  have n: "normalize_scope '' a'' ''t'' = Inr (''a'', ''t'')" by code_simp
  have "store_count ''a'' ''t'' sample_entries = 2"
    by (simp add: store_count_def sample_entries_def sample_store_def store_save_def mem_store_new_def evict_if_needed_def
        entries_in_def Let_def sample_entry_def in_scope_def)
  moreover have "int (store_count ''a'' ''t'' s') \<le> 1"
    using maintenance_bounds_scope [OF sample_entries_keyed _ n r, of "(''a'', ''t'')"] by simp
  ultimately show ?thesis by (simp add: r)
qed

text \<open>
  Maintenance takes away the entries worth least: an entry of the scope that it archives or
  deletes is older than the retention limit and was read at most twice, or it was read no more
  often than every entry that stays, and was created no later if it was read as often.
\<close>

theorem maintenance_removes_least_used:
  assumes "keyed_by_id s" and "e \<in> set (live_entries k s)"
    and "e \<notin> set (live_entries k (snd (memory_maintenance m cutoff k s)))"
    and "e' \<in> set (live_entries k (snd (memory_maintenance m cutoff k s)))"
  shows "me_created e < cutoff \<and> me_count e \<le> 2 \<or> (me_count e, me_created e) \<le> (me_count e', me_created e')"
  using mem.pass_removes [of s e k m cutoff e'] assms unfolding memory_maintenance_def by blast

text \<open>With room for one entry, the older of two unread ones is archived.\<close>

lemma sample_live: "live_entries (''a'', ''t'') sample_entries = [sample_entry ''1'' ''t'' 0, sample_entry ''3'' ''t'' 2]"
  by (simp add: live_entries_def sample_entries_def sample_store_def store_save_def mem_store_new_def evict_if_needed_def
      entries_in_def Let_def sample_entry_def in_scope_def)

lemma sample_maintained:
  "live_entries (''a'', ''t'') (snd (memory_maintenance 1 0 (''a'', ''t'') sample_entries)) = [sample_entry ''3'' ''t'' 2]"
proof -
  have "mem.chosen 1 (''a'', ''t'') sample_entries = [sample_entry ''1'' ''t'' 0]"
    using mem.count_live [of "(''a'', ''t'')" sample_entries]
    by (simp add: mem.chosen_def least_used_def py_upto_def sort_asc_def sample_live Let_def) (simp add: sample_entry_def)
  then show ?thesis
    by (simp add: memory_maintenance_def mem.pass_live [OF sample_entries_keyed] mem.kept_def sample_live) (simp add: sample_entry_def)
qed

theorem maintenance_removes_least_used_witness:
  "sample_entry ''1'' ''t'' 0 \<notin> set (live_entries (''a'', ''t'') (snd (memory_maintenance 1 0 (''a'', ''t'') sample_entries)))
   \<and> (me_count (sample_entry ''1'' ''t'' 0), me_created (sample_entry ''1'' ''t'' 0)) \<le> (0, 2)"
proof -
  have "sample_entry ''1'' ''t'' 0 \<noteq> sample_entry ''3'' ''t'' 2" by (simp add: sample_entry_def)
  then have gone: "sample_entry ''1'' ''t'' 0 \<notin> set (live_entries (''a'', ''t'') (snd (memory_maintenance 1 0 (''a'', ''t'') sample_entries)))"
    by (simp add: sample_maintained)
  from maintenance_removes_least_used [OF sample_entries_keyed _ this, of "sample_entry ''3'' ''t'' 2"] gone
  show ?thesis by (simp add: sample_maintained sample_live) (simp add: sample_entry_def)
qed

text \<open>
  Maintenance never frees what it has archived: an archived entry is still in the store after
  every pass over every scope, however old it is and whatever the retention limit.
\<close>

theorem archived_never_deleted:
  assumes "keyed_by_id s" and "e \<in> set (entries_in s)" and "me_archived e"
  shows "e \<in> set (entries_in (snd (memory_maintenance m cutoff k s)))"
proof -
  have own: "me_id e \<notin> me_id ` A" if ok: "keyed_by_id s'" and mem: "e \<in> set (entries_in s')" and sub: "A \<subseteq> set (live_entries k s')" for A s'
  proof
    assume "me_id e \<in> me_id ` A"
    then obtain e' where e': "e' \<in> A" "me_id e' = me_id e" by auto
    then have "e' \<in> set (entries_in s')" and live: "\<not> me_archived e'" using sub by (auto simp: live_entries_def)
    then have "e' = e" using keyed_lookup [OF ok, of "me_id e"] mem e'(2) by (metis option.inject)
    with live assms(3) show False by simp
  qed
  let ?mid = "mem.middle m k s"
  have mid: "e \<in> set (entries_in ?mid)"
    using own [OF assms(1,2) mem.chosen_sub [of m k s]] assms(1,2)
    by (auto simp: mem.middle_def archive_entries image_iff)
  have "me_id e \<notin> set ((case k of (a, t) \<Rightarrow> store_get_expired a t) cutoff 2 ?mid)"
    using own [OF mem.middle_ok [OF assms(1)] mid, of "set (filter (\<lambda>e. me_created e < cutoff \<and> me_count e \<le> 2) (live_entries k ?mid))"]
    by (simp add: mem.expired_live)
  with mid show ?thesis
    by (simp add: memory_maintenance_def mem.pass_eq Let_def delete_entries mem.middle_ok assms(1))
qed

text \<open>A million years later.\<close>

theorem archived_never_deleted_witness:
  "sample_entry ''1'' ''t'' 0\<lparr>me_archived := True\<rparr>
     \<in> set (entries_in (snd (memory_maintenance 0 (1000000 * 365 * day_micros) (''a'', ''t'') (snd (store_archive [''1''] sample_entries)))))"
proof -
  have k: "keyed_by_id (snd (store_archive [''1''] sample_entries))" using sample_entries_keyed by (rule archive_keyed)
  have "sample_entry ''1'' ''t'' 0 \<in> set (entries_in sample_entries)"
    using sample_live by (metis (no_types, lifting) filter_is_subset list.set_intros(1) live_entries_def subsetD)
  then have "sample_entry ''1'' ''t'' 0\<lparr>me_archived := True\<rparr> \<in> set (entries_in (snd (store_archive [''1''] sample_entries)))"
    unfolding archive_entries [OF sample_entries_keyed] set_map by (rule rev_image_eqI) (simp add: sample_entry_def)
  then show ?thesis by (rule archived_never_deleted [OF k]) simp
qed

end
