(* ===== verification/Masking.thy ===== *)
theory Masking
  imports Regex Security
begin

section \<open>Masking of sensitive values and sanitising of untrusted texts\<close>

text \<open>
  \<open>owlclaw/security/data_masker.py\<close>, \<open>sanitizer.py\<close> and the sanitising rules of \<open>rules.py\<close>. A
  pattern is a \<open>regex\<close>; a custom pattern that does not compile is \<open>None\<close>.
\<close>

subsection \<open>Masking\<close>

record mask_rule =
  mk_field :: regex
  mk_type :: string
  mk_replacement :: string

definition dash_opt :: regex where
  "dash_opt = re_opt (Cls (\<lambda>c. c = CHR ''_'' \<or> c = CHR ''-''))"

definition default_rules :: "mask_rule list" where
  "default_rules =
     [\<lparr>mk_field = re_any [re_ilit ''phone'', re_ilit ''mobile''], mk_type = ''partial'', mk_replacement = ''[REDACTED]''\<rparr>,
      \<lparr>mk_field = re_any [re_seq [re_ilit ''id'', dash_opt, re_ilit ''card''], re_ilit ''identity''],
        mk_type = ''partial'', mk_replacement = ''[REDACTED]''\<rparr>,
      \<lparr>mk_field = re_any [re_seq [re_ilit ''bank'', dash_opt, re_ilit ''card''], re_seq [re_ilit ''card'', dash_opt, re_ilit ''number'']],
        mk_type = ''partial'', mk_replacement = ''[REDACTED]''\<rparr>,
      \<lparr>mk_field = re_ilit ''email'', mk_type = ''partial'', mk_replacement = ''[REDACTED]''\<rparr>,
      \<lparr>mk_field = re_any [re_ilit ''password'', re_ilit ''token'', re_ilit ''secret'', re_seq [re_ilit ''api'', dash_opt, re_ilit ''key'']],
        mk_type = ''full'', mk_replacement = ''[REDACTED]''\<rparr>]"

definition local_char :: "char \<Rightarrow> bool" where
  "local_char c = (ascii_letter c \<or> is_digit c \<or> c \<in> set ''._%+-'')"

definition domain_char :: "char \<Rightarrow> bool" where
  "domain_char c = (ascii_letter c \<or> is_digit c \<or> c = CHR ''.'' \<or> c = CHR ''-'')"

text \<open>An e-mail address, a phone number, a card number, a named secret.\<close>

definition text_patterns :: "regex list" where
  "text_patterns =
     [re_seq [Wb, re_plus (Cls local_char), re_lit ''@'', re_plus (Cls domain_char), re_lit ''.'', Rep 2 None (Cls ascii_letter), Wb],
      re_seq [Wb, re_opt (re_lit ''+''), digit_cls, Rep 7 None (Cls (\<lambda>c. is_digit c \<or> c = CHR ''-'' \<or> py_space c)), digit_cls, Wb],
      re_seq [Wb, Rep 13 (Some 19) (Cat digit_cls (re_opt (Cls (\<lambda>c. c = CHR '' '' \<or> c = CHR ''-'')))), Wb],
      re_seq [Wb, re_any [re_seq [re_ilit ''api'', dash_opt, re_ilit ''key''], re_ilit ''token'', re_ilit ''secret'', re_ilit ''password''],
        re_star space_cls, Cls (\<lambda>c. c = CHR '':'' \<or> c = CHR ''=''), re_star space_cls,
        re_plus (Cls (\<lambda>c. \<not> py_space c \<and> c \<noteq> CHR '','' \<and> c \<noteq> CHR '';''))]]"

definition mask_text :: "string \<Rightarrow> string" where
  "mask_text text = fold (\<lambda>p t. re_replace p ''[REDACTED]'' t) text_patterns text"

definition apply_mask :: "string \<Rightarrow> mask_rule \<Rightarrow> string" where
  "apply_mask value rule =
     (if mk_type rule = ''partial'' \<and> 4 < length value then take 2 value @ ''***'' @ drop (length value - 2) value
      else mk_replacement rule)"

definition field_rule :: "mask_rule list \<Rightarrow> string \<Rightarrow> mask_rule option" where
  "field_rule rules key = List.find (\<lambda>rule. re_search (mk_field rule) key) rules"

text \<open>\<open>re.search\<close> refuses a key that is not a string.\<close>

fun mask_internal :: "mask_rule list \<Rightarrow> pyval \<Rightarrow> py_error + pyval"
  and mask_items :: "mask_rule list \<Rightarrow> pyval list \<Rightarrow> py_error + pyval list"
  and mask_entries :: "mask_rule list \<Rightarrow> (pyval \<times> pyval) list \<Rightarrow> py_error + (pyval \<times> pyval) list" where
  "mask_internal rules (PStr s) = Inr (PStr (mask_text s))"
| "mask_internal rules (PDict kvs) = and_then (mask_entries rules kvs) (\<lambda>r. Inr (PDict r))"
| "mask_internal rules (PList xs) = and_then (mask_items rules xs) (\<lambda>r. Inr (PList r))"
| "mask_internal rules (PTuple xs) = and_then (mask_items rules xs) (\<lambda>r. Inr (PTuple r))"
| "mask_internal rules v = Inr v"
| "mask_items rules [] = Inr []"
| "mask_items rules (x # xs) =
     and_then (mask_internal rules x) (\<lambda>y. and_then (mask_items rules xs) (\<lambda>ys. Inr (y # ys)))"
| "mask_entries rules [] = Inr []"
| "mask_entries rules ((PStr key, value) # kvs) =
     and_then (case field_rule rules key of
         Some rule \<Rightarrow> Inr (PStr (case value of PStr s \<Rightarrow> apply_mask s rule | _ \<Rightarrow> mk_replacement rule))
       | None \<Rightarrow> mask_internal rules value)
       (\<lambda>v. and_then (mask_entries rules kvs) (\<lambda>r. Inr ((PStr key, v) # r)))"
| "mask_entries rules ((k, value) # kvs) = Inl (TypeError ''expected string or bytes-like object'')"

record data_masker =
  dm_rules :: "mask_rule list"
  dm_log :: "audit_log option"
  dm_source :: string

definition data_masker_new :: "mask_rule list \<Rightarrow> audit_log option \<Rightarrow> string \<Rightarrow> data_masker" where
  "data_masker_new rules lg source =
     \<lparr>dm_rules = (if rules = [] then default_rules else rules), dm_log = lg, dm_source = source\<rparr>"

text \<open>\<open>type_name\<close> is \<open>type(data).__name__\<close>.\<close>

fun type_name :: "pyval \<Rightarrow> string" where
  "type_name (PStr s) = ''str''"
| "type_name (PDict kvs) = ''dict''"
| "type_name (PList xs) = ''list''"
| "type_name (PTuple xs) = ''tuple''"
| "type_name (PSet xs) = ''set''"
| "type_name PNone = ''NoneType''"
| "type_name (PBool b) = ''bool''"
| "type_name (PInt i) = ''int''"
| "type_name (PFloat r) = ''float''"
| "type_name (PObject t) = t"

definition mask_data :: "pyval \<Rightarrow> data_masker \<Rightarrow> (py_error + pyval) \<times> data_masker" where
  "mask_data data dm =
     (case mask_internal (dm_rules dm) data of
        Inl e \<Rightarrow> (Inl e, dm)
      | Inr masked \<Rightarrow>
          (Inr masked, if masked \<noteq> data
             then dm\<lparr>dm_log := map_option (audit_record ''mask_applied'' (dm_source dm) [(''data_type'', PStr (type_name data))]) (dm_log dm)\<rparr>
             else dm))"

subsection \<open>Sanitising\<close>

record sanitize_rule =
  sz_pattern :: "regex option"
  sz_text :: string
  sz_action :: string
  sz_replacement :: string
  sz_description :: string

record sanitize_result =
  sz_original :: string
  sz_sanitized :: string
  sz_mods :: "string list"

definition changed :: "sanitize_result \<Rightarrow> bool" where
  "changed r = (sz_original r \<noteq> sz_sanitized r)"

definition remove_rule :: "regex \<Rightarrow> string \<Rightarrow> sanitize_rule" where
  "remove_rule p description =
     \<lparr>sz_pattern = Some p, sz_text = [], sz_action = ''remove'', sz_replacement = [], sz_description = description\<rparr>"

abbreviation sp_plus :: regex where "sp_plus \<equiv> re_plus space_cls"
abbreviation sp_star :: regex where "sp_star \<equiv> re_star space_cls"

text \<open>The rules in their order; every one of them has a description, so its pattern text is never shown.\<close>

definition default_sanitize_rules :: "sanitize_rule list" where
  "default_sanitize_rules =
     [remove_rule (re_seq [re_ilit ''ignore'', sp_plus, re_opt (Cat (re_ilit ''all'') sp_plus), re_ilit ''previous'', sp_plus,
        re_ilit ''instructions'']) ''Ignore previous'',
      remove_rule (re_seq [re_ilit ''disregard'', sp_plus, re_ilit ''the'', sp_plus, re_ilit ''above'', sp_plus,
        re_ilit ''instructions'']) ''Disregard above'',
      remove_rule (re_seq [re_ilit ''you'', sp_plus, re_ilit ''are'', sp_plus, re_ilit ''now'', sp_plus,
        re_any [re_ilit ''developer'', re_ilit ''system'']]) ''Role rewrite'',
      remove_rule (re_seq [Bol, sp_star, re_ilit ''system'', sp_star, re_lit '':'']) ''System prefix'',
      remove_rule (re_seq [Bol, sp_star, re_ilit ''assistant'', sp_star, re_lit '':'']) ''Assistant prefix'',
      remove_rule (re_seq [Cls (\<lambda>c. c = CHR 0x5C), re_ilit ''n'', sp_star,
        re_any [re_ilit ''system'', re_ilit ''assistant'', re_ilit ''developer''], sp_star, re_lit '':'']) ''Escaped role prefix'',
      remove_rule (re_seq [re_ilit ''reveal'', sp_plus, re_opt (Cat (re_ilit ''your'') sp_plus),
        re_any [re_seq [re_ilit ''system'', sp_plus, re_ilit ''prompt''], re_ilit ''instructions'']]) ''Prompt exfiltration'',
      remove_rule (re_seq [re_ilit ''print'', sp_plus, re_ilit ''hidden'', sp_plus, re_ilit ''prompt'']) ''Hidden prompt print'',
      remove_rule (re_seq [re_ilit ''tool'', sp_star, re_lit '':'', sp_star, re_star any_cls]) ''Tool spoofing'',
      \<lparr>sz_pattern = Some (Cat (re_lit ''```'') (re_any [re_ilit ''system'', re_ilit ''assistant'', re_ilit ''developer''])), sz_text = [],
        sz_action = ''replace'', sz_replacement = ''[filtered-block]'', sz_description = ''Role fenced block''\<rparr>,
      remove_rule (re_seq [re_lit ''<'', sp_star, re_ilit ''system'', sp_star, re_lit ''>'', Lazy 0 None any_cls,
        re_lit ''<'', sp_star, re_lit ''/'', sp_star, re_ilit ''system'', sp_star, re_lit ''>'']) ''XML system tag'']"

text \<open>
  One rule: the new text and whether it is reported. A replacement is taken literally, as it is
  by \<open>re.sub\<close> when it has no backslash.
\<close>

definition apply_rule :: "sanitize_rule \<Rightarrow> string \<Rightarrow> string \<times> bool" where
  "apply_rule rule text =
     (case sz_pattern rule of
        None \<Rightarrow> (text, False)
      | Some p \<Rightarrow>
          if \<not> re_search p text then (text, False)
          else if sz_action rule = ''replace''
          then (re_replace p (if sz_replacement rule = [] then ''[filtered]'' else sz_replacement rule) text, True)
          else if sz_action rule = ''flag'' then (text, True)
          else (re_replace p [] text, True))"

fun apply_rules :: "string \<Rightarrow> sanitize_rule list \<Rightarrow> string \<Rightarrow> string \<times> string list" where
  "apply_rules source [] text = (text, [])"
| "apply_rules source (rule # rules) text =
     (let (text', hit) = apply_rule rule text; (text'', mods) = apply_rules source rules text'
      in (text'', (if hit then [source @ '':'' @ (if sz_description rule = [] then sz_text rule else sz_description rule)] else []) @ mods))"

text \<open>\<open>nfkc\<close> is \<open>unicodedata.normalize("NFKC", _)\<close>.\<close>

definition sanitize :: "(string \<Rightarrow> string) \<Rightarrow> sanitize_rule list \<Rightarrow> string \<Rightarrow> string \<Rightarrow> sanitize_result" where
  "sanitize nfkc rules input_text source =
     (let normalized = nfkc input_text; (text, mods) = apply_rules source rules normalized
      in \<lparr>sz_original = input_text, sz_sanitized = text,
          sz_mods = (if normalized \<noteq> input_text then [source @ '':unicode-nfkc-normalized''] else []) @ mods\<rparr>)"

subsection \<open>What masking hides\<close>

text \<open>Nothing but the replacement, or the ends of a text of at least five characters, stands under a sensitive key.\<close>

definition hidden_by :: "mask_rule \<Rightarrow> pyval \<Rightarrow> bool" where
  "hidden_by rule v = (case v of
     PStr s \<Rightarrow> s = mk_replacement rule \<or> mk_type rule = ''partial'' \<and> length s = 7 \<and> take 3 (drop 2 s) = ''***''
   | _ \<Rightarrow> False)"

fun masked_deep :: "mask_rule list \<Rightarrow> pyval \<Rightarrow> bool"
  and masked_items :: "mask_rule list \<Rightarrow> pyval list \<Rightarrow> bool"
  and masked_entries :: "mask_rule list \<Rightarrow> (pyval \<times> pyval) list \<Rightarrow> bool" where
  "masked_deep rules (PDict kvs) = masked_entries rules kvs"
| "masked_deep rules (PList xs) = masked_items rules xs"
| "masked_deep rules (PTuple xs) = masked_items rules xs"
| "masked_deep rules v = True"
| "masked_items rules [] = True"
| "masked_items rules (x # xs) = (masked_deep rules x \<and> masked_items rules xs)"
| "masked_entries rules [] = True"
| "masked_entries rules ((PStr key, v) # kvs) =
     ((case field_rule rules key of None \<Rightarrow> masked_deep rules v | Some rule \<Rightarrow> hidden_by rule v) \<and> masked_entries rules kvs)"
| "masked_entries rules ((k, v) # kvs) = False"

lemma apply_mask_hidden: "hidden_by rule (PStr (apply_mask s rule))"
  by (simp add: hidden_by_def apply_mask_def)

lemma replacement_hidden: "hidden_by rule (PStr (mk_replacement rule))"
  by (simp add: hidden_by_def)

lemma mask_hides:
  "mask_internal rules v = Inr w \<Longrightarrow> masked_deep rules w"
  "mask_items rules xs = Inr ys \<Longrightarrow> masked_items rules ys \<and> length ys = length xs"
  "mask_entries rules kvs = Inr out \<Longrightarrow> masked_entries rules out \<and> dict_keys out = dict_keys kvs"
proof (induction rules v and rules xs and rules kvs arbitrary: w and ys and out
    rule: mask_internal_mask_items_mask_entries.induct)
  case (9 rules key v kvs)
  have h: "hidden_by rule (PStr (case v of PStr s \<Rightarrow> apply_mask s rule | _ \<Rightarrow> mk_replacement rule))" for rule
    by (cases v) (simp_all add: apply_mask_hidden replacement_hidden)
  from 9 show ?case by (cases "field_rule rules key") (auto simp: and_then_Inr_iff h)
qed (auto simp: and_then_Inr_iff)

lemma find_Some: "List.find P xs = Some x \<Longrightarrow> P x"
  by (induction xs) (auto split: if_splits)

text \<open>
  Masked data shows no value under a sensitive key: whatever the rules and the nesting of
  dicts, lists and tuples, a key that a rule matches has the replacement of the first such
  rule or, for a partial rule and a text of more than four characters, its two ends around
  three stars; the keys stay as they are. A change is reported to the audit log.
\<close>

theorem mask_hides_fields:
  assumes "mask_data (PDict kvs) dm = (Inr w, dm')"
  shows "masked_deep (dm_rules dm) w \<and> dict_keys (dict_entries w) = dict_keys kvs \<and> dm_rules dm' = dm_rules dm
     \<and> (case dm_log dm of None \<Rightarrow> dm_log dm' = None
        | Some lg \<Rightarrow> map_option al_events (dm_log dm') = Some (al_events lg @ (if w = PDict kvs then []
            else [\<lparr>ae_type = ''mask_applied'', ae_source = dm_source dm, ae_details = [(''data_type'', PStr ''dict'')]\<rparr>])))"
proof -
  have m: "mask_internal (dm_rules dm) (PDict kvs) = Inr w"
    and dm': "dm' = (if w \<noteq> PDict kvs then dm\<lparr>dm_log := map_option (audit_record ''mask_applied'' (dm_source dm)
        [(''data_type'', PStr ''dict'')]) (dm_log dm)\<rparr> else dm)"
    using assms by (auto simp: mask_data_def split: sum.splits)
  then obtain out where out: "mask_entries (dm_rules dm) kvs = Inr out" "w = PDict out" by (auto simp: and_then_Inr_iff)
  have "masked_deep (dm_rules dm) w" using mask_hides(1) [OF m] .
  moreover have "dict_keys (dict_entries w) = dict_keys kvs" using mask_hides(3) [OF out(1)] out(2) by simp
  ultimately show ?thesis
    by (simp add: dm' audit_record_def Let_def split: option.split)
qed

theorem mask_hides_fields_witness:
  "masked_deep [\<lparr>mk_field = re_ilit ''token'', mk_type = ''full'', mk_replacement = ''***''\<rparr>]
     (PDict [(PStr ''db'', PDict [(PStr ''Token'', PStr ''***'')])])"
proof -
  let ?dm = "data_masker_new [\<lparr>mk_field = re_ilit ''token'', mk_type = ''full'', mk_replacement = ''***''\<rparr>] None ''s''"
  have "mask_internal (dm_rules ?dm) (PDict [(PStr ''db'', PDict [(PStr ''Token'', PStr ''x'')])])
      = Inr (PDict [(PStr ''db'', PDict [(PStr ''Token'', PStr ''***'')])])" by code_simp
  then have "mask_data (PDict [(PStr ''db'', PDict [(PStr ''Token'', PStr ''x'')])]) ?dm
      = (Inr (PDict [(PStr ''db'', PDict [(PStr ''Token'', PStr ''***'')])]), ?dm)"
    by (simp add: mask_data_def data_masker_new_def)
  from mask_hides_fields [OF this] show ?thesis by (simp add: data_masker_new_def)
qed

subsection \<open>What sanitising does\<close>

lemma sub_from_subseq: "subseq (sub_from (\<lambda>prev t. map_option (\<lambda>n. ([], n)) (re_match r prev t)) prev k s) s"
proof (induction s arbitrary: prev k)
  case (Cons c s)
  have skip: "subseq xs s \<Longrightarrow> subseq xs (c # s)" for xs by auto
  show ?case
  proof (cases k)
    case (Suc j)
    then show ?thesis using skip [OF Cons.IH [of "Some c" j]] by simp
  next
    case 0
    then show ?thesis
    proof (cases "re_match r prev (c # s)")
      case None
      then show ?thesis using Cons.IH [of "Some c" 0] 0 by simp
    next
      case (Some n)
      then show ?thesis using skip [OF Cons.IH [of "Some c" "n - 1"]] 0 by simp
    qed
  qed
qed simp

lemma re_remove_subseq: "subseq (re_replace r [] s) s"
  by (simp add: re_replace_def re_sub_def sub_from_subseq)

lemma apply_rule_quiet: "\<not> snd (apply_rule rule text) \<Longrightarrow> fst (apply_rule rule text) = text"
  by (auto simp: apply_rule_def split: option.splits if_splits)

lemma apply_rule_subseq: "sz_action rule \<noteq> ''replace'' \<Longrightarrow> subseq (fst (apply_rule rule text)) text"
  by (auto simp: apply_rule_def re_remove_subseq split: option.split)

lemma apply_rules_quiet: "snd (apply_rules source rules t) = [] \<longleftrightarrow>
    list_all (\<lambda>rule. \<not> snd (apply_rule rule t)) rules"
proof (induction rules arbitrary: t)
  case (Cons rule rules)
  show ?case
  proof (cases "snd (apply_rule rule t)")
    case True
    then show ?thesis by (simp add: Let_def case_prod_beta)
  next
    case False
    with Cons.IH [of t] apply_rule_quiet [OF False] show ?thesis by (simp add: Let_def case_prod_beta)
  qed
qed simp

lemma quiet_text: "snd (apply_rules source rules t) = [] \<Longrightarrow> fst (apply_rules source rules t) = t"
proof (induction rules arbitrary: t)
  case (Cons rule rules)
  then have "\<not> snd (apply_rule rule t)" by (simp add: Let_def case_prod_beta split: if_splits)
  from apply_rule_quiet [OF this] Cons this show ?case by (simp add: Let_def case_prod_beta)
qed simp

lemma apply_rules_subseq: "list_all (\<lambda>rule. sz_action rule \<noteq> ''replace'') rules \<Longrightarrow> subseq (fst (apply_rules source rules t)) t"
proof (induction rules arbitrary: t)
  case (Cons rule rules)
  then have "subseq (fst (apply_rules source rules (fst (apply_rule rule t)))) (fst (apply_rule rule t))" by simp
  moreover have "subseq (fst (apply_rule rule t)) t" using Cons.prems apply_rule_subseq by simp
  ultimately show ?case by (simp add: Let_def case_prod_beta)
qed simp

text \<open>
  Sanitising is conservative: a text that is already normalised and that no rule matches comes
  back as it is with nothing reported, every change is reported, and rules without a replacement
  only take characters away: what is left is a subsequence of the normalised input.
\<close>

theorem sanitize_conservative:
  "(sz_mods (sanitize nfkc rules text source) = [])
     = (nfkc text = text \<and> list_all (\<lambda>rule. case sz_pattern rule of None \<Rightarrow> True | Some p \<Rightarrow> \<not> re_search p text) rules)
   \<and> (if sz_mods (sanitize nfkc rules text source) = [] then sz_sanitized (sanitize nfkc rules text source) = text else True)
   \<and> (list_ex (\<lambda>rule. sz_action rule = ''replace'') rules
      \<or> subseq (sz_sanitized (sanitize nfkc rules text source)) (nfkc text))"
proof -
  have quiet: "(\<not> snd (apply_rule rule text)) = (case sz_pattern rule of None \<Rightarrow> True | Some p \<Rightarrow> \<not> re_search p text)" for rule
    by (simp add: apply_rule_def split: option.split)
  have sub: "list_ex (\<lambda>rule. sz_action rule = ''replace'') rules \<or> subseq (fst (apply_rules source rules (nfkc text))) (nfkc text)"
  proof (cases "list_ex (\<lambda>rule. sz_action rule = ''replace'') rules")
    case False
    then have "list_all (\<lambda>rule. sz_action rule \<noteq> ''replace'') rules" by (simp add: list_ex_iff list_all_iff)
    from apply_rules_subseq [OF this] show ?thesis by simp
  qed simp
  have "(sz_mods (sanitize nfkc rules text source) = []) = (nfkc text = text \<and> snd (apply_rules source rules text) = [])"
    by (auto simp: sanitize_def Let_def case_prod_beta)
  with sub quiet_text [of source rules "text"] show ?thesis
    by (simp add: apply_rules_quiet quiet) (simp add: sanitize_def Let_def case_prod_beta)
qed

text \<open>
  One pass is not enough: taking a match away can leave another one behind. The rule that removes
  a system prefix leaves a system prefix.
\<close>

lemma sanitizer_reassembles:
  "apply_rule (default_sanitize_rules ! 3) ''system:system:'' = (''system:'', True)"
  by code_simp

end
