(* ===== verification/MemoryService.thy ===== *)
theory MemoryService
  imports ShortTermMemory MemoryLifecycle Masking
begin

section \<open>Agent memory: the service\<close>

text \<open>
  \<open>owlclaw/agent/memory/service.py\<close> and \<open>security.py\<close>: remember and recall with their fallbacks,
  classification and masking, compaction. The service works on any \<open>MemoryStore\<close>, given by the
  record \<open>store_ops\<close>; the locale \<open>scoped_store\<close> is what recall relies on, and is interpreted on
  the in-memory store. The embedders are arguments; the fallback file is its text.
\<close>

subsection \<open>Classification and masking\<close>

definition restricted_words :: "string list" where
  "restricted_words = [''ssn'', ''social security'', ''passport'', ''private key'', ''seed phrase'', ''card number'', ''credit card'', ''cvv'']"

definition confidential_patterns :: "regex list" where
  "confidential_patterns = [re_seq [re_ilit ''api'', dash_opt, re_ilit ''key''], re_ilit ''access token'', re_ilit ''refresh token'',
     re_ilit ''secret'', re_ilit ''password'', re_ilit ''customer email'', re_ilit ''phone number'', re_ilit ''bank account'']"

definition whole_word :: "regex list \<Rightarrow> regex" where
  "whole_word rs = re_seq [Wb, re_any rs, Wb]"

definition classify :: "string \<Rightarrow> security_level" where
  "classify content =
     (if re_search (whole_word (map re_ilit restricted_words)) content then RESTRICTED
      else if re_search (whole_word confidential_patterns) content then CONFIDENTIAL
      else INTERNAL)"

definition is_sensitive :: "security_level \<Rightarrow> bool" where
  "is_sensitive level = (level = CONFIDENTIAL \<or> level = RESTRICTED)"

definition normalize_channel :: "pyval \<Rightarrow> string" where
  "normalize_channel channel =
     (case channel of PStr s \<Rightarrow> if strip_lower s = [] then ''internal'' else strip_lower s | _ \<Rightarrow> ''internal'')"

text \<open>The default masker keeps no audit log; on a text it does not look at its rules.\<close>

definition for_channel :: "pyval \<Rightarrow> memory_entry \<Rightarrow> memory_entry" where
  "for_channel channel e =
     (if normalize_channel channel \<noteq> ''mcp'' \<and> normalize_channel channel \<noteq> ''langfuse'' then e
      else if \<not> is_sensitive (me_level e) then e
      else e\<lparr>me_content := mask_text (me_content e)\<rparr>)"

subsection \<open>The parts the service is built from\<close>

record 's store_ops =
  so_save :: "memory_entry \<Rightarrow> 's \<Rightarrow> (py_error + uuid) \<times> 's"
  so_search :: "string \<Rightarrow> string \<Rightarrow> real list option \<Rightarrow> int \<Rightarrow> string list \<Rightarrow> bool \<Rightarrow> 's
    \<Rightarrow> (py_error + (memory_entry \<times> real) list) \<times> 's"
  so_list :: "string \<Rightarrow> string \<Rightarrow> bool \<Rightarrow> int \<Rightarrow> bool \<Rightarrow> 's \<Rightarrow> py_error + memory_entry list"
  so_touch :: "string \<Rightarrow> string \<Rightarrow> uuid list \<Rightarrow> 's \<Rightarrow> py_error option \<times> 's"
  so_archive :: "uuid list \<Rightarrow> 's \<Rightarrow> (py_error + nat) \<times> 's"

definition in_memory_ops :: "(real \<Rightarrow> real) \<Rightarrow> micros \<Rightarrow> micros \<Rightarrow> mem_store store_ops" where
  "in_memory_ops round6 now1 now2 =
     \<lparr>so_save = (\<lambda>e s. (Inr (fst (store_save e s)), snd (store_save e s))),
      so_search = store_search round6 now1,
      so_list = (\<lambda>a t asc n arch s. Inr (store_list_entries a t asc n arch s)),
      so_touch = (\<lambda>a t ids s. (None, store_update_access now2 a t ids s)),
      so_archive = (\<lambda>ids s. (Inr (fst (store_archive ids s)), snd (store_archive ids s)))\<rparr>"

record service_env =
  sv_embed :: "string \<Rightarrow> py_error + real list"
  sv_tfidf :: "string \<Rightarrow> py_error + real list"
  sv_tfidf_on :: bool
  sv_keyword_on :: bool
  sv_file_on :: bool
  sv_path :: string
  sv_threshold :: int
  sv_ids :: "nat \<Rightarrow> uuid"
  sv_created :: "nat \<Rightarrow> micros"
  sv_file_id :: uuid
  sv_rec_id :: uuid
  sv_rec_time :: micros

record 's mem_world =
  mw_store :: 's
  mw_ledger :: "memory_ledger option"
  mw_file :: "string option"

definition degradation_call :: "string \<Rightarrow> pyval \<Rightarrow> exec_call" where
  "degradation_call event payload =
     \<lparr>xc_tenant = dict_get_or payload ''tenant_id'' (PStr ''default''), xc_agent = dict_get_or payload ''agent_id'' (PStr ''memory''),
      xc_run = PStr ''memory-degradation'', xc_capability = PStr (''memory.'' @ event), xc_task = PStr ''memory'',
      xc_input = payload, xc_output = PDict [(PStr ''event'', PStr event)], xc_reasoning = Some ''fallback activated'',
      xc_time_ms = 0, xc_model = [], xc_tokens_in = 0, xc_tokens_out = 0, xc_cost = 0, xc_status = ''success'', xc_error = None,
      xc_weight = None, xc_mode = None, xc_risk = None, xc_approver = None, xc_approved_at = None\<rparr>"

definition record_degradation :: "service_env \<Rightarrow> string \<Rightarrow> pyval \<Rightarrow> 's mem_world \<Rightarrow> 's mem_world" where
  "record_degradation env event payload w =
     (case mw_ledger w of
        None \<Rightarrow> w
      | Some l \<Rightarrow> (case mem_record_execution (sv_rec_id env) (sv_rec_time env) (degradation_call event payload) l of
            Inl e \<Rightarrow> w | Inr l' \<Rightarrow> w\<lparr>mw_ledger := Some l'\<rparr>))"

definition embed_with_fallback :: "service_env \<Rightarrow> string \<Rightarrow> 's mem_world \<Rightarrow> (py_error + real list) \<times> 's mem_world" where
  "embed_with_fallback env t w =
     (case sv_embed env t of
        Inr v \<Rightarrow> (Inr v, w)
      | Inl e \<Rightarrow>
          if \<not> sv_tfidf_on env then (Inl e, w)
          else (sv_tfidf env t,
                record_degradation env ''embedding_fallback_tfidf'' (PDict [(PStr ''text_size'', PInt (int (length t)))]) w))"

subsection \<open>Remembering\<close>

fun normalize_tags_from :: "string list \<Rightarrow> string list \<Rightarrow> string list" where
  "normalize_tags_from seen [] = []"
| "normalize_tags_from seen (raw # tags) =
     (let tag = py_strip raw in
      if tag = [] \<or> tag \<in> set seen then normalize_tags_from seen tags
      else tag # normalize_tags_from (tag # seen) tags)"

definition normalize_tags :: "string list option \<Rightarrow> string list" where
  "normalize_tags tags = (case tags of None \<Rightarrow> [] | Some ts \<Rightarrow> normalize_tags_from [] ts)"

definition resolve_security_level :: "string \<Rightarrow> string option \<Rightarrow> py_error + security_level" where
  "resolve_security_level content sensitivity =
     (case sensitivity of
        None \<Rightarrow> Inr (classify content)
      | Some s \<Rightarrow>
          (let normalized = strip_lower s in
           if normalized = ''public'' then Inr PUBLIC
           else if normalized = ''internal'' then Inr INTERNAL
           else if normalized = ''confidential'' then Inr CONFIDENTIAL
           else Inl (ValueError ''sensitivity must be one of: public, internal, confidential'')))"

fun level_value :: "security_level \<Rightarrow> string" where
  "level_value PUBLIC = ''public''"
| "level_value INTERNAL = ''internal''"
| "level_value CONFIDENTIAL = ''confidential''"
| "level_value RESTRICTED = ''restricted''"

definition py_replace :: "string \<Rightarrow> string \<Rightarrow> string \<Rightarrow> string" where
  "py_replace old new s = re_replace (re_lit old) new s"

text \<open>\<open>universal\<close> is the newline translation of \<open>read_text\<close>.\<close>

definition universal :: "string \<Rightarrow> string" where
  "universal s = py_replace [CHR 0x0D] newline (py_replace [CHR 0x0D, CHR 0x0A] newline s)"

definition fallback_line :: "uuid \<Rightarrow> string \<Rightarrow> string \<Rightarrow> string \<Rightarrow> string list \<Rightarrow> security_level \<Rightarrow> string" where
  "fallback_line memory_id agent_id tenant_id content tags level =
     (let sanitized = py_replace newline [CHR 0x5C, CHR ''n''] (universal content);
          safe_tags = map (\<lambda>tag. py_strip (py_replace '','' ''_'' tag)) (filter (\<lambda>tag. py_strip tag \<noteq> []) tags)
      in ''- id: '' @ memory_id @ newline @ ''  tenant_id: '' @ tenant_id @ newline @ ''  agent_id: '' @ agent_id @ newline
         @ ''  security_level: '' @ level_value level @ newline @ ''  tags: ['' @ py_join '', '' safe_tags @ '']'' @ newline
         @ ''  content: '' @ sanitized @ newline)"

definition append_file_fallback ::
  "service_env \<Rightarrow> string \<Rightarrow> string \<Rightarrow> string \<Rightarrow> string list \<Rightarrow> security_level \<Rightarrow> 's mem_world \<Rightarrow> uuid \<times> 's mem_world" where
  "append_file_fallback env agent_id tenant_id content tags level w =
     (let line = fallback_line (sv_file_id env) agent_id tenant_id content tags level
      in (sv_file_id env,
          record_degradation env ''store_fallback_file'' (PDict [(PStr ''path'', PStr (sv_path env))])
            (w\<lparr>mw_file := Some (case mw_file w of Some f \<Rightarrow> universal f @ line | None \<Rightarrow> line)\<rparr>)))"

definition new_entry :: "service_env \<Rightarrow> nat \<Rightarrow> string \<Rightarrow> string \<Rightarrow> string \<Rightarrow> real list \<Rightarrow> string list \<Rightarrow> security_level \<Rightarrow> memory_entry" where
  "new_entry env n agent_id tenant_id content embedding tags level =
     \<lparr>me_id = sv_ids env n, me_agent = agent_id, me_tenant = tenant_id, me_content = content, me_embedding = Some embedding,
      me_tags = tags, me_level = level, me_version = 1, me_created = sv_created env n, me_accessed = None, me_count = 0,
      me_archived = False\<rparr>"

definition remember ::
  "service_env \<Rightarrow> 's store_ops \<Rightarrow> string \<Rightarrow> string \<Rightarrow> string \<Rightarrow> string list option \<Rightarrow> string option \<Rightarrow> 's mem_world
     \<Rightarrow> (py_error + uuid) \<times> 's mem_world" where
  "remember env ops agent_id tenant_id content tags sensitivity w =
     (case normalize_scope agent_id tenant_id of
        Inl e \<Rightarrow> (Inl e, w)
      | Inr (agent, tenant) \<Rightarrow>
          (let normalized = py_strip content in
           if normalized = [] then (Inl (ValueError ''content must not be empty''), w)
           else if 2000 < length normalized then (Inl (ValueError ''content length must be <= 2000''), w)
           else (case embed_with_fallback env normalized w of
               (Inl e, w1) \<Rightarrow> (Inl e, w1)
             | (Inr embedding, w1) \<Rightarrow>
                 (case resolve_security_level normalized sensitivity of
                    Inl e \<Rightarrow> (Inl e, w1)
                  | Inr level \<Rightarrow>
                      (let e = new_entry env 0 agent tenant normalized embedding (normalize_tags tags) level in
                       case so_save ops e (mw_store w1) of
                         (Inr i, s) \<Rightarrow> (Inr i, w1\<lparr>mw_store := s\<rparr>)
                       | (Inl err, s) \<Rightarrow>
                           if \<not> sv_file_on env then (Inl err, w1\<lparr>mw_store := s\<rparr>)
                           else (case append_file_fallback env agent tenant normalized (me_tags e) level (w1\<lparr>mw_store := s\<rparr>) of
                               (i, w2) \<Rightarrow> (Inr i, w2)))))))"

subsection \<open>Recalling\<close>

text \<open>\<open>s.split()\<close>.\<close>

fun py_words_from :: "string \<Rightarrow> string \<Rightarrow> string list" where
  "py_words_from w [] = (if w = [] then [] else [w])"
| "py_words_from w (c # s) = (if py_space c then (if w = [] then [] else [w]) @ py_words_from [] s else py_words_from (w @ [c]) s)"

definition keyword_score :: "string \<Rightarrow> string \<Rightarrow> real" where
  "keyword_score query content =
     (let q_words = remdups (py_words_from [] (py_lower query)); c_words = py_words_from [] (py_lower content)
      in if q_words = [] then 0 else real (length (filter (\<lambda>x. x \<in> set c_words) q_words)) / real (length q_words))"

definition touched :: "(memory_entry \<times> real) list \<Rightarrow> pyval \<Rightarrow> py_error option \<times> 's \<Rightarrow> 's mem_world
    \<Rightarrow> (py_error + (memory_entry \<times> real) list) \<times> 's mem_world" where
  "touched pairs channel r w =
     (case r of
        (Some e, s) \<Rightarrow> (Inl e, w\<lparr>mw_store := s\<rparr>)
      | (None, s) \<Rightarrow> (Inr (map (\<lambda>(e, score). (for_channel channel e, score)) pairs), w\<lparr>mw_store := s\<rparr>))"

definition keyword_scored :: "string \<Rightarrow> string list \<Rightarrow> memory_entry list \<Rightarrow> (memory_entry \<times> real) list" where
  "keyword_scored query tags entries =
     filter (\<lambda>(e, score). 0 < score)
       (map (\<lambda>e. (e, keyword_score query (me_content e))) (filter (\<lambda>e. tags = [] \<or> set tags \<subseteq> set (me_tags e)) entries))"

definition keyword_recall_fallback ::
  "'s store_ops \<Rightarrow> string \<Rightarrow> string \<Rightarrow> string \<Rightarrow> int \<Rightarrow> string list \<Rightarrow> pyval \<Rightarrow> 's mem_world
     \<Rightarrow> (py_error + (memory_entry \<times> real) list) \<times> 's mem_world" where
  "keyword_recall_fallback ops agent_id tenant_id query limit tags channel w =
     (case so_list ops agent_id tenant_id False 5000 False (mw_store w) of
        Inl e \<Rightarrow> (Inl e, w)
      | Inr entries \<Rightarrow>
          (let chosen = py_upto limit (sort_desc snd (keyword_scored query tags entries)) in
           if chosen = [] then (Inr [], w)
           else touched chosen channel (so_touch ops agent_id tenant_id (map (\<lambda>(e, score). me_id e) chosen) (mw_store w)) w))"

definition recall ::
  "service_env \<Rightarrow> 's store_ops \<Rightarrow> string \<Rightarrow> string \<Rightarrow> string \<Rightarrow> int \<Rightarrow> string list option \<Rightarrow> pyval \<Rightarrow> 's mem_world
     \<Rightarrow> (py_error + (memory_entry \<times> real) list) \<times> 's mem_world" where
  "recall env ops agent_id tenant_id query limit tags channel w =
     (case normalize_scope agent_id tenant_id of
        Inl e \<Rightarrow> (Inl e, w)
      | Inr (agent, tenant) \<Rightarrow>
          (let normalized = py_strip query; safe_limit = max 1 (min limit 20); ts = normalize_tags tags in
           if normalized = [] then (Inl (ValueError ''query must not be empty''), w)
           else (case embed_with_fallback env normalized w of
               (Inl e, w1) \<Rightarrow> (Inl e, w1)
             | (Inr q, w1) \<Rightarrow>
                 (case so_search ops agent tenant (Some q) safe_limit ts False (mw_store w1) of
                    (Inl e, s) \<Rightarrow>
                      if \<not> sv_keyword_on env then (Inl e, w1\<lparr>mw_store := s\<rparr>)
                      else keyword_recall_fallback ops agent tenant normalized safe_limit ts channel
                        (record_degradation env ''vector_search_keyword_fallback''
                          (PDict [(PStr ''agent_id'', PStr agent), (PStr ''tenant_id'', PStr tenant)]) (w1\<lparr>mw_store := s\<rparr>))
                  | (Inr pairs, s) \<Rightarrow>
                      if pairs = [] then (Inr [], w1\<lparr>mw_store := s\<rparr>)
                      else touched pairs channel (so_touch ops agent tenant (map (\<lambda>(e, score). me_id e) pairs) s) (w1\<lparr>mw_store := s\<rparr>)))))"

subsection \<open>Compaction\<close>

record compaction_result =
  cr_merged :: nat
  cr_archived :: nat
  cr_created :: nat

definition add_to_group :: "memory_entry \<Rightarrow> string \<Rightarrow> (string \<times> memory_entry list) list \<Rightarrow> (string \<times> memory_entry list) list" where
  "add_to_group e tag groups =
     AList.update tag ((case map_of groups tag of None \<Rightarrow> [] | Some g \<Rightarrow> g) @ [e]) groups"

definition group_by_tag :: "memory_entry list \<Rightarrow> (string \<times> memory_entry list) list" where
  "group_by_tag entries = fold (\<lambda>e groups. fold (add_to_group e) (me_tags e) groups) entries []"

definition summary_fallback :: "memory_entry list \<Rightarrow> nat \<Rightarrow> string" where
  "summary_fallback entries max_chars =
     (let joined = py_join '' | '' (filter (\<lambda>t. t \<noteq> []) (map (\<lambda>e. py_strip (me_content e)) entries))
      in if length joined \<le> max_chars then joined else take (max_chars - 3) joined @ ''...'')"

definition summary_entry :: "service_env \<Rightarrow> nat \<Rightarrow> string \<Rightarrow> string \<Rightarrow> string \<Rightarrow> memory_entry list \<Rightarrow> real list \<Rightarrow> memory_entry" where
  "summary_entry env n agent_id tenant_id tag members embedding =
     new_entry env n agent_id tenant_id (''[compaction:'' @ tag @ ''] '' @ summary_fallback members 600) embedding
       [tag, ''compacted''] INTERNAL"

text \<open>An exception ends the run with the groups merged so far.\<close>

fun compact_groups ::
  "service_env \<Rightarrow> 's store_ops \<Rightarrow> string \<Rightarrow> string \<Rightarrow> (string \<times> memory_entry list) list \<Rightarrow> compaction_result \<Rightarrow> 's mem_world
     \<Rightarrow> (py_error + compaction_result) \<times> 's mem_world" where
  "compact_groups env ops agent tenant [] r w = (Inr r, w)"
| "compact_groups env ops agent tenant ((tag, members) # groups) r w =
     (if int (length members) < sv_threshold env then compact_groups env ops agent tenant groups r w
      else (case embed_with_fallback env (summary_fallback members 600) w of
          (Inl e, w1) \<Rightarrow> (Inl e, w1)
        | (Inr v, w1) \<Rightarrow>
            (case so_save ops (summary_entry env (cr_created r) agent tenant tag members v) (mw_store w1) of
               (Inl e, s) \<Rightarrow> (Inl e, w1\<lparr>mw_store := s\<rparr>)
             | (Inr i, s) \<Rightarrow>
                 (case so_archive ops (map me_id members) s of
                    (Inl e, s') \<Rightarrow> (Inl e, w1\<lparr>mw_store := s'\<rparr>)
                  | (Inr archived, s') \<Rightarrow>
                      compact_groups env ops agent tenant groups
                        \<lparr>cr_merged = cr_merged r + 1, cr_archived = cr_archived r + archived, cr_created = cr_created r + 1\<rparr>
                        (w1\<lparr>mw_store := s'\<rparr>)))))"

definition compact ::
  "service_env \<Rightarrow> 's store_ops \<Rightarrow> string \<Rightarrow> string \<Rightarrow> 's mem_world \<Rightarrow> (py_error + compaction_result) \<times> 's mem_world" where
  "compact env ops agent_id tenant_id w =
     (case normalize_scope agent_id tenant_id of
        Inl e \<Rightarrow> (Inl e, w)
      | Inr (agent, tenant) \<Rightarrow>
          (case so_list ops agent tenant True 100000 False (mw_store w) of
             Inl e \<Rightarrow> (Inl e, w)
           | Inr entries \<Rightarrow>
               compact_groups env ops agent tenant (group_by_tag entries) \<lparr>cr_merged = 0, cr_archived = 0, cr_created = 0\<rparr> w))"

subsection \<open>The store of a service\<close>

datatype memory_backend_kind =
    InMemoryBackend mem_store
  | PgVectorBackend
  | QdrantBackend

text \<open>\<open>from_config\<close>, without the embedder: the in-memory store gets its default capacity.\<close>

definition service_store :: "string \<Rightarrow> real \<Rightarrow> bool \<Rightarrow> py_error + memory_backend_kind" where
  "service_store vector_backend half_life has_session_factory =
     (if vector_backend = ''inmemory'' then Inr (InMemoryBackend (mem_store_new half_life 10000))
      else if vector_backend = ''pgvector''
      then (if has_session_factory then Inr PgVectorBackend
            else Inl (ValueError ''session_factory is required when vector_backend is pgvector''))
      else if vector_backend = ''qdrant'' then Inr QdrantBackend
      else Inl (ValueError (''Unsupported vector_backend: '' @ vector_backend)))"

lemma record_store [simp, frame_simps]: "mw_store (record_degradation env event payload w) = mw_store w"
  "mw_file (record_degradation env event payload w) = mw_file w"
  by (simp_all add: record_degradation_def split: option.split sum.split)

lemma embed_store [simp, frame_simps]: "mw_store (snd (embed_with_fallback env t w)) = mw_store w"
  by (simp add: embed_with_fallback_def split: sum.split)

subsection \<open>What recall relies on\<close>

text \<open>
  Every answer of the store, by search or by listing, consists of live entries of the scope; the
  entries \<open>good a t\<close> are those a caller of the scope may see.
\<close>

locale scoped_store =
  fixes ops :: "'s store_ops"
    and inv :: "'s \<Rightarrow> bool"
    and good :: "string \<Rightarrow> string \<Rightarrow> 's \<Rightarrow> memory_entry \<Rightarrow> bool"
  assumes search_good: "inv s \<Longrightarrow> so_search ops a t qe n tags False s = (Inr pairs, s')
      \<Longrightarrow> p \<in> set pairs \<Longrightarrow> good a t s (fst p) \<and> set tags \<subseteq> set (me_tags (fst p))"
    and search_failed: "inv s \<Longrightarrow> so_search ops a t qe n tags False s = (Inl e, s') \<Longrightarrow> inv s' \<and> (good a t s' x \<longrightarrow> good a t s x)"
    and list_good: "inv s \<Longrightarrow> so_list ops a t asc n False s = Inr es \<Longrightarrow> x \<in> set es \<Longrightarrow> good a t s x"
begin

definition shown :: "string \<Rightarrow> string \<Rightarrow> string list \<Rightarrow> pyval \<Rightarrow> 's \<Rightarrow> memory_entry \<Rightarrow> bool" where
  "shown a t tags channel s e \<longleftrightarrow> (\<exists>x. good a t s x \<and> set tags \<subseteq> set (me_tags x) \<and> e = for_channel channel x)"

lemma touched_shown:
  assumes "touched pairs channel r w = (Inr res, w')" and "p \<in> set res"
    and "\<And>q. q \<in> set pairs \<Longrightarrow> good a t s (fst q) \<and> set tags \<subseteq> set (me_tags (fst q))"
  shows "shown a t tags channel s (fst p)"
proof -
  have "res = map (\<lambda>(e, score). (for_channel channel e, score)) pairs"
    using assms(1) by (auto simp: touched_def split: prod.splits option.splits)
  then obtain q where q: "q \<in> set pairs" "fst p = for_channel channel (fst q)" using assms(2) by auto
  from assms(3) [OF q(1)] q(2) show ?thesis unfolding shown_def by blast
qed

lemma fallback_shown:
  assumes "inv (mw_store w)" and "keyword_recall_fallback ops a t query n tags channel w = (Inr res, w')" and "p \<in> set res"
  shows "shown a t tags channel (mw_store w) (fst p)"
proof -
  from assms(2,3) obtain es where es: "so_list ops a t False 5000 False (mw_store w) = Inr es"
    by (auto simp: keyword_recall_fallback_def split: sum.splits)
  define chosen where "chosen = py_upto n (sort_desc snd (keyword_scored query tags es))"
  have res: "touched chosen channel (so_touch ops a t (map (\<lambda>(e, score). me_id e) chosen) (mw_store w)) w = (Inr res, w')"
    using assms(2,3) es by (auto simp: keyword_recall_fallback_def Let_def chosen_def split: if_splits)
  have ok: "good a t (mw_store w) (fst q) \<and> set tags \<subseteq> set (me_tags (fst q))" if "q \<in> set chosen" for q
  proof -
    have "q \<in> set (keyword_scored query tags es)" using that set_py_upto unfolding chosen_def by fastforce
    then have "fst q \<in> set es" "tags = [] \<or> set tags \<subseteq> set (me_tags (fst q))" by (auto simp: keyword_scored_def)
    with list_good [OF assms(1) es] show ?thesis by auto
  qed
  from touched_shown [OF res assms(3)] ok show ?thesis by blast
qed

lemma recall_shown:
  assumes "inv (mw_store w)" and "normalize_scope agent tenant = Inr (a, t)"
    and "recall env ops agent tenant query n tags channel w = (Inr res, w')" and "p \<in> set res"
  shows "shown a t (normalize_tags tags) channel (mw_store w) (fst p)"
proof -
  let ?ts = "normalize_tags tags" and ?n = "max 1 (min n 20)"
  obtain q w1 where em: "embed_with_fallback env (py_strip query) w = (Inr q, w1)"
    using assms(2-4) by (auto simp: recall_def Let_def split: prod.splits sum.splits if_splits)
  have st: "mw_store w1 = mw_store w" using embed_store [of env "py_strip query" w] em by simp
  have body: "(case so_search ops a t (Some q) ?n ?ts False (mw_store w) of
        (Inl e, s) \<Rightarrow>
          if \<not> sv_keyword_on env then (Inl e, w1\<lparr>mw_store := s\<rparr>)
          else keyword_recall_fallback ops a t (py_strip query) ?n ?ts channel
            (record_degradation env ''vector_search_keyword_fallback''
              (PDict [(PStr ''agent_id'', PStr a), (PStr ''tenant_id'', PStr t)]) (w1\<lparr>mw_store := s\<rparr>))
      | (Inr pairs, s) \<Rightarrow>
          if pairs = [] then (Inr [], w1\<lparr>mw_store := s\<rparr>)
          else touched pairs channel (so_touch ops a t (map (\<lambda>(e, score). me_id e) pairs) s) (w1\<lparr>mw_store := s\<rparr>)) = (Inr res, w')"
    using assms(2,3) em by (simp add: recall_def Let_def st split: if_splits)
  obtain found s where f: "so_search ops a t (Some q) ?n ?ts False (mw_store w) = (found, s)" by (cases "so_search ops a t (Some q) ?n ?ts False (mw_store w)")
  show ?thesis
  proof (cases found)
    case (Inl e)
    with f body have fb: "keyword_recall_fallback ops a t (py_strip query) ?n ?ts channel
        (record_degradation env ''vector_search_keyword_fallback''
          (PDict [(PStr ''agent_id'', PStr a), (PStr ''tenant_id'', PStr t)]) (w1\<lparr>mw_store := s\<rparr>)) = (Inr res, w')"
      by (simp split: if_splits)
    have sf: "inv s" "good a t s x \<Longrightarrow> good a t (mw_store w) x" for x
      using search_failed [OF assms(1) f [unfolded Inl]] by simp_all
    have "shown a t ?ts channel s (fst p)"
      using fallback_shown [OF _ fb assms(4)] sf(1) by (simp add: record_store)
    with sf(2) show ?thesis unfolding shown_def by blast
  next
    case (Inr pairs)
    with f body assms(4) have t: "touched pairs channel (so_touch ops a t (map (\<lambda>(e, score). me_id e) pairs) s) (w1\<lparr>mw_store := s\<rparr>) = (Inr res, w')"
      by (simp split: if_splits)
    show ?thesis using touched_shown [OF t assms(4)] search_good [OF assms(1) f [unfolded Inr]] by blast
  qed
qed

end

subsection \<open>The in-memory store provides it\<close>

definition visible_entry :: "string \<Rightarrow> string \<Rightarrow> mem_store \<Rightarrow> memory_entry \<Rightarrow> bool" where
  "visible_entry a t s e \<longleftrightarrow> e \<in> set (entries_in s) \<and> in_scope a t e \<and> \<not> me_archived e"

lemma in_memory_fields [simp]:
  "so_search (in_memory_ops r6 n1 n2) = store_search r6 n1"
  "so_list (in_memory_ops r6 n1 n2) = (\<lambda>a t asc n arch s. Inr (store_list_entries a t asc n arch s))"
  "so_save (in_memory_ops r6 n1 n2) = (\<lambda>e s. (Inr (fst (store_save e s)), snd (store_save e s)))"
  "so_touch (in_memory_ops r6 n1 n2) = (\<lambda>a t ids s. (None, store_update_access n2 a t ids s))"
  "so_archive (in_memory_ops r6 n1 n2) = (\<lambda>ids s. (Inr (fst (store_archive ids s)), snd (store_archive ids s)))"
  by (simp_all add: in_memory_ops_def)

interpretation recalled: scoped_store "in_memory_ops r6 n1 n2" store_inv visible_entry for r6 n1 n2
proof
  fix s a t qe n tags pairs s' p
  assume "store_inv s" "so_search (in_memory_ops r6 n1 n2) a t qe n tags False s = (Inr pairs, s')" "p \<in> set pairs"
  then show "visible_entry a t s (fst p) \<and> set tags \<subseteq> set (me_tags (fst p))"
    using search_hits [of s r6 n1 a t qe n tags False pairs s' p] by (simp add: visible_entry_def)
next
  fix s a t qe n tags e s' x
  assume "store_inv s" and f: "so_search (in_memory_ops r6 n1 n2) a t qe n tags False s = (Inl e, s')"
  then show "store_inv s' \<and> (visible_entry a t s' x \<longrightarrow> visible_entry a t s x)"
    using search_keeps [of s r6 n1 a t qe n tags False] search_entries [of r6 n1 a t qe n tags False s]
    by (simp add: visible_entry_def)
next
  fix s a t asc n es x
  assume "so_list (in_memory_ops r6 n1 n2) a t asc n False s = Inr es" "x \<in> set es"
  then have "x \<in> set (store_list_entries a t asc n False s)" by simp
  from subsetD [OF set_py_upto this [unfolded store_list_entries_def Let_def]] show "visible_entry a t s x"
    by (simp add: visible_entry_def split: if_splits)
qed

subsection \<open>Properties\<close>

definition sample_service :: service_env where
  "sample_service = \<lparr>sv_embed = (\<lambda>x. Inr [1]), sv_tfidf = (\<lambda>x. Inr [1, 0]), sv_tfidf_on = True, sv_keyword_on = True,
     sv_file_on = True, sv_path = ''MEMORY.md'', sv_threshold = 50, sv_ids = show_nat, sv_created = int, sv_file_id = ''f'',
     sv_rec_id = ''r'', sv_rec_time = 0\<rparr>"

definition sample_world :: "mem_store mem_world" where
  "sample_world = \<lparr>mw_store = sample_store 2, mw_ledger = None, mw_file = None\<rparr>"

lemma normalize_sample: "normalize_scope ''a'' ''t'' = Inr (''a'', ''t'')"
  by code_simp

text \<open>
  C25. Recall never crosses a scope, on the vector path and on the keyword path: each result is a
  live entry of the agent and the tenant that carries every tag asked for, as the channel may
  see it: for an external channel a sensitive entry comes with its text masked.
\<close>

theorem recall_isolated:
  assumes "store_reach (mw_store w)" and "normalize_scope agent tenant = Inr (a, t)"
    and "recall env (in_memory_ops r6 n1 n2) agent tenant query n tags channel w = (Inr res, w')"
  shows "list_all (\<lambda>p. list_ex (\<lambda>x. in_scope a t x \<and> \<not> me_archived x \<and> set (normalize_tags tags) \<subseteq> set (me_tags x)
     \<and> fst p = for_channel channel x) (entries_in (mw_store w))) res"
proof -
  have "list_ex (\<lambda>x. in_scope a t x \<and> \<not> me_archived x \<and> set (normalize_tags tags) \<subseteq> set (me_tags x)
      \<and> fst p = for_channel channel x) (entries_in (mw_store w))" if "p \<in> set res" for p
    using recalled.recall_shown [OF reach_inv [OF assms(1)] assms(2,3) that]
    unfolding recalled.shown_def visible_entry_def list_ex_iff by blast
  then show ?thesis by (simp add: list_all_iff)
qed

theorem recall_isolated_witness:
  "\<exists>r. fst (recall sample_service (in_memory_ops (\<lambda>r. r) 5 5) ''a'' ''t'' ''1'' 5 None (PStr ''mcp'') sample_world)
      = Inr [(sample_entry ''1'' ''t'' 0, r)] \<and> in_scope ''a'' ''t'' (sample_entry ''1'' ''t'' 0)"
proof -
  let ?call = "recall sample_service (in_memory_ops (\<lambda>r. r) 5 5) ''a'' ''t'' ''1'' 5 None (PStr ''mcp'') sample_world"
  have "mt_cache (sample_store 2) = Map.empty" "mt_norms (sample_store 2) ''1'' = Some 1" "mt_half_life (sample_store 2) = 168"
    by (simp_all add: sample_store_def store_save_def mem_store_new_def evict_if_needed_def sample_entry_def Let_def embedding_norm_def)
  then obtain s' r where f: "store_search (\<lambda>r. r) 5 ''a'' ''t'' (Some [1]) 5 [] False (sample_store 2)
      = (Inr [(sample_entry ''1'' ''t'' 0, r)], s')"
    by (auto simp: store_search_def search_candidates_def sample_store_entries in_scope_def sort_desc_def Let_def
        entry_score_def dot_product_def time_decay_def sample_entry_def embedding_norm_def)
  have q: "py_strip ''1'' = ''1''" by code_simp
  have "for_channel (PStr ''mcp'') (sample_entry ''1'' ''t'' 0) = sample_entry ''1'' ''t'' 0"
    by (simp add: for_channel_def is_sensitive_def sample_entry_def)
  then have c: "fst ?call = Inr [(sample_entry ''1'' ''t'' 0, r)]"
    by (simp add: recall_def normalize_sample q Let_def embed_with_fallback_def sample_service_def sample_world_def
        normalize_tags_def f touched_def)
  have "?call = (Inr [(sample_entry ''1'' ''t'' 0, r)], snd ?call)" using c by (metis prod.collapse)
  from recall_isolated [OF _ normalize_sample this] sample_store_reach have "in_scope ''a'' ''t'' (sample_entry ''1'' ''t'' 0)"
    by (simp add: sample_world_def sample_store_entries sample_entry_def in_scope_def)
  with c show ?thesis by blast
qed

lemma insort_last: "k x \<le> k e \<Longrightarrow> insort_key k x (ys @ [e]) = insort_key k x ys @ [e]"
  by (induction ys) auto

lemma sort_last: "list_all (\<lambda>x. k x \<le> k e) xs \<Longrightarrow> sort_key k (xs @ [e]) = sort_key k xs @ [e]"
  by (induction xs) (simp_all add: insort_last)

lemma update_fresh: "k \<notin> set (dict_keys d) \<Longrightarrow> AList.update k v d = d @ [(k, v)]"
  by (induction d) auto

lemma saved_latest:
  assumes "store_inv s" and "me_id e \<notin> set (dict_keys (mt_entries s))"
    and "list_all (\<lambda>x. touch_sort_key x \<le> touch_sort_key e) (entries_in s)"
  shows "map_of (mt_entries (snd (store_save e s))) (me_id e) = Some e"
proof -
  define s1 where "s1 = s\<lparr>mt_entries := mt_entries s @ [(me_id e, e)], mt_norms := (mt_norms s)(me_id e \<mapsto>
      (case me_embedding e of None \<Rightarrow> 0 | Some v \<Rightarrow> if v \<noteq> [] then embedding_norm v else 0))\<rparr>"
  have up: "AList.update (me_id e) e (mt_entries s) = mt_entries s @ [(me_id e, e)]"
    using assms(2) by (rule update_fresh)
  have after: "mt_entries (snd (store_save e s)) = mt_entries (evict_if_needed s1)"
    by (simp add: store_save_def Let_def up s1_def)
  have inv: "1 \<le> mt_max s" "keyed_by_id s" using assms(1) by (simp_all add: store_inv_def)
  have "sort_asc touch_sort_key (entries_in s1) = sort_asc touch_sort_key (entries_in s) @ [e]"
    using sort_last [OF assms(3)] by (simp add: sort_asc_def s1_def entries_in_def)
  moreover have "nat (int (length (mt_entries s1)) - mt_max s1) \<le> length (entries_in s)"
    using inv(1) by (simp add: s1_def entries_in_def)
  ultimately have ev: "set (evicted_ids s1) \<subseteq> me_id ` set (entries_in s)"
    by (auto simp: evicted_ids_def dest: in_set_takeD)
  have "me_id e \<notin> set (evicted_ids s1)"
    using ev assms(2) by (auto simp flip: dict_keys_ids [OF inv(2)])
  moreover have "map_of (mt_entries s) (me_id e) = None" using assms(2) by (simp add: map_of_eq_None_iff)
  then have "map_of (mt_entries s1) (me_id e) = Some e" by (simp add: s1_def map_add_def)
  ultimately show ?thesis
    by (simp add: after evict_eq map_of_filter_keys [where P = "\<lambda>k. k \<notin> set (evicted_ids s1)"])
qed

text \<open>
  What is remembered is there: with a fresh identifier and a clock that does not run behind
  the entries of the store, \<open>remember\<close> on the in-memory store either raises or leaves an entry
  of the scope under the identifier it returns, with the stripped text, the cleaned tags and the
  security level the caller named or the classifier found, even if the store was full.
\<close>

theorem remembered_is_stored:
  assumes "store_inv (mw_store w)" and "sv_ids env 0 \<notin> set (dict_keys (mt_entries (mw_store w)))"
    and "list_all (\<lambda>x. touch_sort_key x \<le> sv_created env 0) (entries_in (mw_store w))"
    and "normalize_scope agent tenant = Inr (a, t)"
    and "remember env (in_memory_ops r6 n1 n2) agent tenant content tags sensitivity w = (Inr i, w')"
  shows "case map_of (mt_entries (mw_store w')) i of None \<Rightarrow> False | Some e \<Rightarrow>
     in_scope a t e \<and> me_content e = py_strip content \<and> me_tags e = normalize_tags tags
     \<and> resolve_security_level (py_strip content) sensitivity = Inr (me_level e) \<and> \<not> me_archived e"
proof -
  obtain v w1 level where em: "embed_with_fallback env (py_strip content) w = (Inr v, w1)"
    and lv: "resolve_security_level (py_strip content) sensitivity = Inr level"
    and out: "i = sv_ids env 0" "mw_store w' = snd (store_save (new_entry env 0 a t (py_strip content) v (normalize_tags tags) level) (mw_store w1))"
    using assms(4,5) by (auto simp: remember_def Let_def store_save_def new_entry_def split: if_splits sum.splits prod.splits)
  let ?e = "new_entry env 0 a t (py_strip content) v (normalize_tags tags) level"
  have w1: "mw_store w1 = mw_store w" using embed_store [of env "py_strip content" w] em by simp
  have key: "me_id ?e = sv_ids env 0" "touch_sort_key ?e = sv_created env 0"
    by (simp_all add: new_entry_def touch_sort_key_def)
  have "map_of (mt_entries (snd (store_save ?e (mw_store w)))) (me_id ?e) = Some ?e"
    by (rule saved_latest [OF assms(1)]) (use assms(2,3) in \<open>simp_all add: key\<close>)
  then show ?thesis unfolding out w1 key using lv by (simp add: new_entry_def in_scope_def)
qed

theorem remembered_is_stored_witness:
  "\<exists>w'. remember sample_service (in_memory_ops (\<lambda>r. r) 5 5) ''a'' ''t'' '' cvv '' None None sample_world = (Inr ''0'', w')
     \<and> map_option me_level (map_of (mt_entries (mw_store w')) ''0'') = Some RESTRICTED"
proof -
  let ?call = "remember sample_service (in_memory_ops (\<lambda>r. r) 5 5) ''a'' ''t'' '' cvv '' None None sample_world"
  have c: "py_strip '' cvv '' = ''cvv''" by code_simp
  have k: "classify ''cvv'' = RESTRICTED" by code_simp
  have z: "show_nat 0 = ''0''" by code_simp
  have "fst ?call = Inr ''0''"
    by (simp add: remember_def normalize_sample c Let_def embed_with_fallback_def sample_service_def sample_world_def
        resolve_security_level_def store_save_def new_entry_def z)
  then have call: "?call = (Inr ''0'', snd ?call)" by (metis prod.collapse)
  have e: "entries_in (mw_store sample_world) = [sample_entry ''1'' ''t'' 0]"
    by (simp add: sample_world_def sample_store_entries)
  have inv: "store_inv (mw_store sample_world)" using reach_inv [OF sample_store_reach] by (simp add: sample_world_def)
  have "dict_keys (mt_entries (mw_store sample_world)) = [''1'']"
    using inv e dict_keys_ids [of "mw_store sample_world"] by (simp add: store_inv_def sample_entry_def)
  with remembered_is_stored [OF inv _ _ normalize_sample call] e k c have
    "map_option me_level (map_of (mt_entries (mw_store (snd ?call))) ''0'') = Some RESTRICTED"
    by (auto simp: sample_service_def z sample_entry_def touch_sort_key_def resolve_security_level_def split: option.splits)
  with call show ?thesis by blast
qed

subsection \<open>Where the service goes wrong\<close>

text \<open>
  A vector of another length in the scope stops every vector search there: the search raises as
  soon as it reaches an entry whose embedding is not as long as the query. The fallback embedder
  makes such vectors, because its dimension is configured apart from the main one.
\<close>

lemma score_loop_stops:
  assumes "e \<in> set es" and "entry_score now q s e = Inl err"
  shows "\<exists>err. score_loop now q s es = Inl err"
  using assms(1)
proof (induction es)
  case (Cons x es)
  show ?case
  proof (cases "x = e")
    case True
    with assms(2) show ?thesis by simp
  next
    case False
    with Cons obtain err where "score_loop now q s es = Inl err" by auto
    then show ?thesis by (cases "entry_score now q s x") auto
  qed
qed simp

text \<open>
  One embedding of another length fails every vector search of its scope.
\<close>

theorem mixed_dimensions_break_search:
  assumes "e \<in> set (search_candidates a t tags arch s)" and "me_embedding e = Some v" and "v \<noteq> []"
    and "mt_norms s (me_id e) = Some n" and "0 < n" and "length q \<noteq> length v" and "0 < embedding_norm q"
    and "mt_cache s (cache_key r6 a t q limit tags arch) = None"
  shows "isl (fst (store_search r6 now a t (Some q) limit tags arch s))"
proof -
  have "entry_score now q s e = Inl (ValueError ''zip() arguments have different lengths'')"
    using assms(2-6) by (simp add: entry_score_def dot_product_def)
  from score_loop_stops [OF assms(1) this] obtain err where "score_loop now q s (search_candidates a t tags arch s) = Inl err" ..
  with assms(7,8) show ?thesis by (simp add: store_search_def Let_def)
qed

theorem mixed_dimensions_break_search_witness:
  "isl (fst (store_search (\<lambda>r. r) 5 ''a'' ''t'' (Some [1, 0]) 3 [] False (sample_store 2)))"
proof (rule mixed_dimensions_break_search [where e = "sample_entry ''1'' ''t'' 0" and v = "[1]" and n = 1])
  show "mt_norms (sample_store 2) (me_id (sample_entry ''1'' ''t'' 0)) = Some 1"
    by (simp add: sample_store_def store_save_def mem_store_new_def evict_if_needed_def sample_entry_def Let_def embedding_norm_def)
  show "mt_cache (sample_store 2) (cache_key (\<lambda>r. r) ''a'' ''t'' [1, 0] 3 [] False) = None"
    by (simp add: sample_store_def store_save_def)
  show "sample_entry ''1'' ''t'' 0 \<in> set (search_candidates ''a'' ''t'' [] False (sample_store 2))"
    by (simp add: search_candidates_def sample_store_entries in_scope_def) (simp add: sample_entry_def)
qed (simp_all add: sample_entry_def embedding_norm_def)

text \<open>
  The summary of a compaction is \<open>INTERNAL\<close> whatever its members were, so an external channel
  gets the texts of restricted entries unmasked.
\<close>

lemma compaction_declassifies:
  "for_channel channel (summary_entry env n a t tag members v) = summary_entry env n a t tag members v"
  by (simp add: for_channel_def summary_entry_def new_entry_def is_sensitive_def)

text \<open>A tag with a line break forges an entry of the fallback file.\<close>

lemma fallback_line_forged:
  "fallback_line ''1'' ''a'' ''t'' ''c'' [''x]'' @ newline @ ''- id: 2''] PUBLIC
   = ''- id: 1'' @ newline @ ''  tenant_id: t'' @ newline @ ''  agent_id: a'' @ newline @ ''  security_level: public'' @ newline
     @ ''  tags: [x]'' @ newline @ ''- id: 2]'' @ newline @ ''  content: c'' @ newline"
  by code_simp

text \<open>The configured capacity never reaches the in-memory store.\<close>

lemma service_store_capacity: "service_store ''inmemory'' h sf = Inr (InMemoryBackend s) \<Longrightarrow> mt_max s = 10000"
  by (auto simp: service_store_def mem_store_new_def)

end
