(* ===== verification/Heartbeat.thy ===== *)
theory Heartbeat
  imports Ledger
begin

section \<open>Heartbeat: is there anything to do?\<close>

text \<open>
  \<open>owlclaw/agent/runtime/heartbeat.py\<close>. A heartbeat run calls the language model only if one of
  the configured event sources has events: recent failures in the ledger table or a scheduled
  task that is due; the other three sources are hooks that never report anything. The answers
  of the database and of the scheduler client are arguments.
\<close>

subsection \<open>Configuration\<close>

definition default_event_sources :: "string list" where
  "default_event_sources = [''webhook'', ''queue'', ''database'', ''schedule'', ''external_api'']"

definition normalize_enabled :: "pyval \<Rightarrow> bool" where
  "normalize_enabled raw =
     (case raw of
        PStr s \<Rightarrow>
          if strip_lower s \<in> {''false'', ''0'', ''no'', ''off''} then False
          else if strip_lower s \<in> {''true'', ''1'', ''yes'', ''on''} then True
          else truthy raw
      | _ \<Rightarrow> truthy raw)"

text \<open>The cleaned strings of a list, each once, that satisfy \<open>P\<close>.\<close>

fun clean_strings :: "(string \<Rightarrow> bool) \<Rightarrow> string list \<Rightarrow> pyval list \<Rightarrow> string list" where
  "clean_strings P done [] = done"
| "clean_strings P done (PStr item # items) =
     (let t = strip_lower item in clean_strings P (if t \<noteq> [] \<and> P t \<and> t \<notin> set done then done @ [t] else done) items)"
| "clean_strings P done (item # items) = clean_strings P done items"

fun list_items :: "pyval \<Rightarrow> pyval list option" where
  "list_items (PList xs) = Some xs"
| "list_items (PTuple xs) = Some xs"
| "list_items (PSet xs) = Some xs"
| "list_items (PStr s) = Some [PStr s]"
| "list_items v = None"

definition normalize_event_sources :: "pyval \<Rightarrow> string list" where
  "normalize_event_sources raw =
     (case list_items raw of
        None \<Rightarrow> default_event_sources
      | Some items \<Rightarrow>
          if items = [] then []
          else (let sources = clean_strings (\<lambda>s. s \<in> set default_event_sources) [] items
                in if sources = [] then default_event_sources else sources))"

definition normalize_positive_number :: "pyval \<Rightarrow> rat \<Rightarrow> rat" where
  "normalize_positive_number raw d =
     (case raw of
        PInt i \<Rightarrow> if 0 \<le> i then of_int i else d
      | PFloat r \<Rightarrow> if 0 \<le> r then r else d
      | PStr s \<Rightarrow> (case float_of_str (py_strip s) of None \<Rightarrow> d | Some r \<Rightarrow> if 0 \<le> r then r else d)
      | _ \<Rightarrow> d)"

definition normalize_pending_statuses :: "pyval \<Rightarrow> string list" where
  "normalize_pending_statuses raw =
     (let items = (case list_items raw of Some xs \<Rightarrow> xs | None \<Rightarrow> [PStr ''error'', PStr ''timeout'', PStr ''pending'']);
          statuses = clean_strings (\<lambda>s. True) [] items
      in if statuses = [] then [''error'', ''timeout'', ''pending''] else statuses)"

text \<open>\<open>v * 60\<close>: a number is multiplied, a string or list is repeated.\<close>

definition times60 :: "pyval \<Rightarrow> py_error + pyval" where
  "times60 v =
     (case v of
        PInt i \<Rightarrow> Inr (PInt (i * 60))
      | PBool b \<Rightarrow> Inr (PInt (if b then 60 else 0))
      | PFloat r \<Rightarrow> Inr (PFloat (r * 60))
      | PStr s \<Rightarrow> Inr (PStr (concat (replicate 60 s)))
      | PList xs \<Rightarrow> Inr (PList (concat (replicate 60 xs)))
      | PTuple xs \<Rightarrow> Inr (PTuple (concat (replicate 60 xs)))
      | _ \<Rightarrow> Inl (TypeError ''unsupported operand type(s) for *''))"

record heartbeat =
  hb_agent :: string
  hb_enabled :: bool
  hb_sources :: "string list"
  hb_lookback :: rat
  hb_query_timeout :: rat
  hb_min_interval_ms :: rat
  hb_webhook :: bool
  hb_queue :: bool
  hb_schedule :: bool
  hb_external :: bool
  hb_due_window :: rat
  hb_statuses :: "string list"
  hb_last_check :: "seconds option"
  hb_last_result :: bool

text \<open>\<open>interval\<close> is the value of \<open>OWLCLAW_HEARTBEAT_MIN_DB_INTERVAL_MS\<close>, if it is set.\<close>

definition heartbeat_new :: "string option \<Rightarrow> string \<Rightarrow> pyval \<Rightarrow> py_error + heartbeat" where
  "heartbeat_new interval agent_id config =
     (if py_strip agent_id = [] then Inl (ValueError ''agent_id must be a non-empty string'')
      else (let cfg = or_empty_dict config;
                sources = (case dict_get cfg ''event_sources'' of None \<Rightarrow> default_event_sources | Some v \<Rightarrow> normalize_event_sources v)
            in and_then (times60 (dict_get_or cfg ''database_lookback_minutes'' (PInt 5))) (\<lambda>minutes.
              Inr \<lparr>hb_agent = py_strip agent_id, hb_enabled = normalize_enabled (dict_get_or cfg ''enabled'' (PBool True)),
                   hb_sources = sources,
                   hb_lookback = normalize_positive_number (dict_get_or cfg ''database_lookback_seconds'' minutes) 300,
                   hb_query_timeout = normalize_positive_number (dict_get_or cfg ''database_query_timeout_seconds'' (PFloat (1 / 2))) (1 / 2),
                   hb_min_interval_ms = normalize_positive_number
                     (dict_get_or cfg ''database_min_interval_ms'' (PStr (case interval of None \<Rightarrow> ''500'' | Some s \<Rightarrow> s))) 500,
                   hb_webhook = normalize_enabled (dict_get_or cfg ''webhook_enabled'' (PBool False)),
                   hb_queue = normalize_enabled (dict_get_or cfg ''queue_enabled'' (PBool False)),
                   hb_schedule = normalize_enabled (dict_get_or cfg ''schedule_enabled'' (PBool True)),
                   hb_external = normalize_enabled (dict_get_or cfg ''external_api_enabled'' (PBool False)),
                   hb_due_window = normalize_positive_number (dict_get_or cfg ''schedule_due_window_seconds'' (PInt 0)) 0,
                   hb_statuses = normalize_pending_statuses (dict_get_or cfg ''database_pending_statuses''
                     (PList [PStr ''error'', PStr ''timeout'', PStr ''pending''])),
                   hb_last_check = None, hb_last_result = False\<rparr>)))"

subsection \<open>What one check meets\<close>

datatype db_answer =
    DbTimeout
  | DbFails
  | DbRows "ledger_record list"

datatype ledger_factory =
    NoFactory
  | FactoryRaises
  | FactoryGiven

text \<open>A due date as it comes from the scheduler: a \<open>datetime\<close>, a text, or something else.\<close>

datatype due_value =
    DueAt micros
  | DueText string
  | DueOther bool

type_synonym sched_task = "(string \<times> due_value) list"

text \<open>
  \<open>he_schedule\<close> is what listing the tasks gives, if there is a client; \<open>he_iso\<close> is
  \<open>datetime.fromisoformat\<close> with a missing zone read as UTC; the limits are those of \<open>datetime\<close>.
\<close>

record heartbeat_env =
  he_factory_configured :: bool
  he_ledger_factory :: ledger_factory
  he_db :: db_answer
  he_mono :: seconds
  he_mono_after :: seconds
  he_now :: micros
  he_schedule :: "(py_error + sched_task list) option"
  he_iso :: "string \<Rightarrow> micros option"

definition datetime_min :: micros where
  "datetime_min = -62135596800000000"

definition datetime_max :: micros where
  "datetime_max = 253402300799999999"

definition shifted :: "micros \<Rightarrow> rat \<Rightarrow> py_error + micros" where
  "shifted now seconds =
     (let t = now + round_half_even (seconds * 1000000)
      in if t < datetime_min \<or> datetime_max < t then Inl (ArithmeticError ''date value out of range'') else Inr t)"

subsection \<open>The sources\<close>

definition resolve_database_session_factory :: "heartbeat_env \<Rightarrow> bool" where
  "resolve_database_session_factory env = (he_factory_configured env \<or> he_ledger_factory env = FactoryGiven)"

definition pending_row :: "heartbeat \<Rightarrow> string \<Rightarrow> micros \<Rightarrow> ledger_record \<Rightarrow> bool" where
  "pending_row hb tenant window_start r =
     (lr_tenant r = tenant \<and> lr_agent r = hb_agent hb \<and> lr_status r \<in> set (hb_statuses hb) \<and> window_start \<le> lr_created r)"

definition checked :: "seconds \<Rightarrow> bool \<Rightarrow> heartbeat \<Rightarrow> heartbeat" where
  "checked t b hb = hb\<lparr>hb_last_check := Some t, hb_last_result := b\<rparr>"

definition check_database_events :: "heartbeat_env \<Rightarrow> string \<Rightarrow> heartbeat \<Rightarrow> (py_error + bool) \<times> heartbeat" where
  "check_database_events env tenant hb =
     (if \<not> resolve_database_session_factory env then (Inr False, hb)
      else if 0 < hb_min_interval_ms hb
              \<and> (case hb_last_check hb of None \<Rightarrow> False | Some t \<Rightarrow> he_mono env - t < hb_min_interval_ms hb / 1000)
      then (Inr (hb_last_result hb), hb)
      else (case shifted (he_now env) (- hb_lookback hb) of
          Inl e \<Rightarrow> (Inl e, hb)
        | Inr window_start \<Rightarrow>
            (case he_db env of
               DbTimeout \<Rightarrow> (Inr False, checked (he_mono_after env) False hb)
             | DbFails \<Rightarrow> (Inr False, checked (he_mono_after env) False hb)
             | DbRows rows \<Rightarrow>
                 (let b = list_ex (pending_row hb tenant window_start) rows in (Inr b, checked (he_mono_after env) b hb)))))"

definition coerce_datetime :: "heartbeat_env \<Rightarrow> due_value \<Rightarrow> micros option" where
  "coerce_datetime env v =
     (case v of
        DueAt t \<Rightarrow> Some t
      | DueText s \<Rightarrow>
          (let c = py_strip s in
           if c = [] then None else he_iso env (if last c = CHR ''Z'' then butlast c @ ''+00:00'' else c))
      | DueOther b \<Rightarrow> None)"

fun due_truthy :: "due_value \<Rightarrow> bool" where
  "due_truthy (DueAt t) = True"
| "due_truthy (DueText s) = (s \<noteq> [])"
| "due_truthy (DueOther b) = b"

text \<open>The first of the five fields with a true value; a task with none has no date.\<close>

definition due_raw :: "sched_task \<Rightarrow> due_value option" where
  "due_raw t = List.find due_truthy (List.map_filter (map_of t) [''due_at'', ''run_at'', ''scheduled_at'', ''next_run_at'', ''eta''])"

definition schedule_task_is_due :: "heartbeat_env \<Rightarrow> heartbeat \<Rightarrow> sched_task \<Rightarrow> py_error + bool" where
  "schedule_task_is_due env hb t =
     (case Option.bind (due_raw t) (coerce_datetime env) of
        None \<Rightarrow> Inr True
      | Some due_at \<Rightarrow> and_then (shifted (he_now env) (hb_due_window hb)) (\<lambda>horizon. Inr (due_at \<le> horizon)))"

fun any_due :: "heartbeat_env \<Rightarrow> heartbeat \<Rightarrow> sched_task list \<Rightarrow> py_error + bool" where
  "any_due env hb [] = Inr False"
| "any_due env hb (t # ts) = and_then (schedule_task_is_due env hb t) (\<lambda>b. if b then Inr True else any_due env hb ts)"

definition check_schedule_events :: "heartbeat_env \<Rightarrow> heartbeat \<Rightarrow> py_error + bool" where
  "check_schedule_events env hb =
     (if \<not> hb_schedule hb then Inr False
      else (case he_schedule env of
          None \<Rightarrow> Inr False
        | Some (Inl e) \<Rightarrow> Inr False
        | Some (Inr tasks) \<Rightarrow> if tasks = [] then Inr False else any_due env hb tasks))"

definition check_source :: "heartbeat_env \<Rightarrow> string \<Rightarrow> string \<Rightarrow> heartbeat \<Rightarrow> (py_error + bool) \<times> heartbeat" where
  "check_source env source tenant hb =
     (if source = ''database'' then check_database_events env tenant hb
      else if source = ''schedule'' then (check_schedule_events env hb, hb)
      else (Inr False, hb))"

text \<open>A source that raises is passed over.\<close>

fun check_sources :: "heartbeat_env \<Rightarrow> string \<Rightarrow> string list \<Rightarrow> heartbeat \<Rightarrow> bool \<times> heartbeat" where
  "check_sources env tenant [] hb = (False, hb)"
| "check_sources env tenant (source # sources) hb =
     (case check_source env source tenant hb of
        (Inr True, hb') \<Rightarrow> (True, hb')
      | (_, hb') \<Rightarrow> check_sources env tenant sources hb')"

definition check_events :: "heartbeat_env \<Rightarrow> string \<Rightarrow> heartbeat \<Rightarrow> bool \<times> heartbeat" where
  "check_events env tenant hb = (if \<not> hb_enabled hb then (False, hb) else check_sources env tenant (hb_sources hb) hb)"

subsection \<open>Facts about a check\<close>

lemma checked_frame [simp, frame_simps]: "hb_schedule (checked t b hb) = hb_schedule hb" "hb_due_window (checked t b hb) = hb_due_window hb"
  "hb_sources (checked t b hb) = hb_sources hb" "hb_enabled (checked t b hb) = hb_enabled hb"
  by (simp_all add: checked_def)

lemma task_frame: "schedule_task_is_due env (checked t b hb) = schedule_task_is_due env hb"
  by (rule ext) (simp add: schedule_task_is_due_def split: option.split)

lemma any_due_frame: "any_due env (checked t b hb) ts = any_due env hb ts"
proof (induction ts)
  case (Cons a ts)
  then show ?case by (cases "schedule_task_is_due env hb a") (simp_all add: task_frame)
qed simp

lemma schedule_frame: "check_schedule_events env (checked t b hb) = check_schedule_events env hb"
  by (simp add: check_schedule_events_def any_due_frame split: option.split sum.split)

lemma database_state: "snd (check_database_events env tenant hb) = hb \<or> (\<exists>t b. snd (check_database_events env tenant hb) = checked t b hb)"
  by (auto simp: check_database_events_def Let_def split: sum.splits db_answer.splits)

lemma other_source:
  assumes "source \<noteq> ''database''"
  shows "fst (check_source env source tenant (snd (check_database_events env tenant' hb))) = fst (check_source env source tenant hb)"
  using database_state [of env tenant' hb] assms schedule_frame by (auto simp: check_source_def)

lemma source_state: "source \<noteq> ''database'' \<Longrightarrow> snd (check_source env source tenant hb) = hb"
  by (simp add: check_source_def)

lemma check_sources_any:
  assumes "distinct sources"
  shows "fst (check_sources env tenant sources hb) = list_ex (\<lambda>source. fst (check_source env source tenant hb) = Inr True) sources"
  using assms
proof (induction sources arbitrary: hb)
  case (Cons source sources)
  define hb' where "hb' = snd (check_source env source tenant hb)"
  have same: "fst (check_source env s tenant hb') = fst (check_source env s tenant hb)" if "s \<in> set sources" for s
  proof (cases "source = ''database''")
    case True
    with that Cons.prems have "s \<noteq> ''database''" by auto
    from other_source [OF this] True show ?thesis by (simp add: hb'_def check_source_def)
  next
    case False
    with source_state show ?thesis by (simp add: hb'_def)
  qed
  have "list_ex (\<lambda>s. fst (check_source env s tenant hb') = Inr True) sources
      = list_ex (\<lambda>s. fst (check_source env s tenant hb) = Inr True) sources"
    using same by (simp add: list_ex_iff)
  then have ih: "fst (check_sources env tenant sources hb') = list_ex (\<lambda>s. fst (check_source env s tenant hb) = Inr True) sources"
    using Cons by simp
  obtain r where r: "check_source env source tenant hb = (r, hb')" by (metis hb'_def prod.collapse)
  show ?case
  proof (cases "r = Inr True")
    case True
    with r show ?thesis by simp
  next
    case False
    then have "check_sources env tenant (source # sources) hb = check_sources env tenant sources hb'"
      using r by (auto split: sum.splits bool.splits)
    with ih r False show ?thesis by simp
  qed
qed simp

lemma source_reports: "fst (check_source env source tenant hb) = Inr True
    \<longleftrightarrow> source = ''database'' \<and> fst (check_database_events env tenant hb) = Inr True
      \<or> source = ''schedule'' \<and> check_schedule_events env hb = Inr True"
  by (simp add: check_source_def)

text \<open>The interval since the last look at the table is over, or there was none.\<close>

definition looks_at_table :: "heartbeat_env \<Rightarrow> heartbeat \<Rightarrow> bool" where
  "looks_at_table env hb = (hb_min_interval_ms hb \<le> 0
     \<or> (case hb_last_check hb of None \<Rightarrow> True | Some t \<Rightarrow> hb_min_interval_ms hb / 1000 \<le> he_mono env - t))"

lemma database_exact:
  assumes "looks_at_table env hb" and "he_db env = DbRows rows" and "shifted (he_now env) (- hb_lookback hb) = Inr start"
  shows "(fst (check_database_events env tenant hb) = Inr True)
     = (resolve_database_session_factory env \<and> list_ex (pending_row hb tenant start) rows)"
  using assms by (auto simp: check_database_events_def looks_at_table_def Let_def split: option.splits)

subsection \<open>Properties\<close>


definition sample_heartbeat :: heartbeat where
  "sample_heartbeat = \<lparr>hb_agent = ''a'', hb_enabled = True, hb_sources = [''database'', ''schedule''], hb_lookback = 300,
     hb_query_timeout = 1 / 2, hb_min_interval_ms = 500, hb_webhook = False, hb_queue = False, hb_schedule = True,
     hb_external = False, hb_due_window = 0, hb_statuses = [''error''], hb_last_check = None, hb_last_result = False\<rparr>"

definition sample_beat :: "ledger_record list \<Rightarrow> seconds \<Rightarrow> heartbeat_env" where
  "sample_beat rows t = \<lparr>he_factory_configured = True, he_ledger_factory = NoFactory, he_db = DbRows rows, he_mono = t,
     he_mono_after = t, he_now = 1000000000, he_schedule = None, he_iso = (\<lambda>s. None)\<rparr>"

definition failed_row :: "string \<Rightarrow> ledger_record" where
  "failed_row tenant = \<lparr>lr_id = ''1'', lr_tenant = tenant, lr_agent = ''a'', lr_run = ''r'', lr_capability = ''c'', lr_task = ''x'',
     lr_input = PDict [], lr_output = PNone, lr_reasoning = None, lr_time_ms = 0, lr_model = [], lr_tokens_in = 0, lr_tokens_out = 0,
     lr_cost = 0, lr_status = ''error'', lr_error = None, lr_weight = None, lr_mode = None, lr_risk = None, lr_approver = None,
     lr_approved_at = None, lr_created = 999000000\<rparr>"

lemma sample_window: "shifted 1000000000 (- hb_lookback sample_heartbeat) = Inr 700000000"
  by code_simp


text \<open>
  Within the minimum interval the answer for one tenant is given to every other: after a look
  at the table for tenant \<open>t1\<close>, a check for any tenant \<open>t2\<close> that comes too early repeats the
  answer for \<open>t1\<close>, whatever rows \<open>t2\<close> has.
\<close>

theorem heartbeat_cache_crosses_tenants:
  assumes "hb_sources hb = [''database'']" and "hb_enabled hb" and "resolve_database_session_factory env2"
    and "check_database_events env1 t1 hb = (Inr b, checked (he_mono_after env1) b hb)"
    and "he_mono env2 - he_mono_after env1 < hb_min_interval_ms hb / 1000" and "0 < hb_min_interval_ms hb"
  shows "fst (check_events env2 t2 (snd (check_events env1 t1 hb))) = b"
proof -
  have "snd (check_events env1 t1 hb) = checked (he_mono_after env1) b hb"
    using assms(1,2,4) by (cases b) (simp_all add: check_events_def check_source_def)
  then show ?thesis using assms
    by (cases b) (simp_all add: check_events_def check_source_def check_database_events_def checked_def)
qed

theorem heartbeat_cache_crosses_tenants_witness:
  "fst (check_events (sample_beat [failed_row ''u''] (1 / 10)) ''u''
      (snd (check_events (sample_beat [failed_row ''u''] 0) ''t'' (sample_heartbeat\<lparr>hb_sources := [''database'']\<rparr>)))) = False"
proof -
  let ?hb = "sample_heartbeat\<lparr>hb_sources := [''database'']\<rparr>"
  have c: "check_database_events (sample_beat [failed_row ''u''] 0) ''t'' ?hb
      = (Inr False, checked (he_mono_after (sample_beat [failed_row ''u''] 0)) False ?hb)"
    using sample_window by (simp add: check_database_events_def sample_beat_def sample_heartbeat_def Let_def
        resolve_database_session_factory_def pending_row_def failed_row_def)
  show ?thesis
    by (rule heartbeat_cache_crosses_tenants [OF _ _ _ c])
      (simp_all add: sample_heartbeat_def sample_beat_def resolve_database_session_factory_def)
qed

text \<open>
  A lookback of five minutes written as a string becomes sixty digits, and the window starts
  before the first date there is: the database source raises and is passed over for good.
\<close>

lemma string_minutes_repeat: "times60 (PStr ''5'') = Inr (PStr (replicate 60 CHR ''5''))"
  by code_simp

lemma huge_lookback_silent:
  assumes "looks_at_table env hb" and "shifted (he_now env) (- hb_lookback hb) = Inl e" and "hb_sources hb = [''database'']"
  shows "check_events env tenant hb = (False, hb)"
  using assms by (auto simp: check_events_def check_source_def check_database_events_def looks_at_table_def split: option.splits)

end
