(* ===== verification/Cron.thy ===== *)
theory Cron
  imports Ledger
begin

section \<open>Cron triggers\<close>

text \<open>
  \<open>owlclaw/triggers/cron.py\<close>: registration and management of cron triggers, the governance checks
  before a run, the run with its fallback, the record it leaves in the ledger, and the circuit
  breaker that is fed from the ledger; and the helpers of the module (retry policy, priority
  queue, sample cache, notifier). The ledger is the in-memory one. A run is one step: its slot
  keeps a second run of the same trigger out. The agent runtime, the fallback handler, croniter
  and the scheduler service are arguments or logs of the calls made to them.
\<close>

subsection \<open>Statuses, configuration, executions\<close>

datatype execution_status =
    PENDING
  | RUNNING
  | SUCCESS
  | FAILED
  | SKIPPED
  | FALLBACK

fun status_value :: "execution_status \<Rightarrow> string" where
  "status_value PENDING = ''pending''"
| "status_value RUNNING = ''running''"
| "status_value SUCCESS = ''success''"
| "status_value FAILED = ''failed''"
| "status_value SKIPPED = ''skipped''"
| "status_value FALLBACK = ''fallback''"

record cron_config =
  cc_event :: string
  cc_expression :: string
  cc_description :: "string option"
  cc_focus :: "string option"
  cc_handler :: bool
  cc_strategy :: string
  cc_weight :: rat
  cc_max_run_cost :: "rat option"
  cc_max_daily_cost :: "rat option"
  cc_max_duration :: "int option"
  cc_cooldown :: int
  cc_max_daily_runs :: "int option"
  cc_retry :: bool
  cc_max_retries :: int
  cc_retry_delay :: int
  cc_priority :: int
  cc_tags :: "string list"
  cc_enabled :: bool

definition cron_config_new :: "string \<Rightarrow> string \<Rightarrow> string option \<Rightarrow> bool \<Rightarrow> cron_config" where
  "cron_config_new event_name expression focus handler =
     \<lparr>cc_event = event_name, cc_expression = expression, cc_description = None, cc_focus = focus, cc_handler = handler,
      cc_strategy = ''on_failure'', cc_weight = 1, cc_max_run_cost = None, cc_max_daily_cost = None, cc_max_duration = None,
      cc_cooldown = 0, cc_max_daily_runs = None, cc_retry = True, cc_max_retries = 3, cc_retry_delay = 60, cc_priority = 0,
      cc_tags = [], cc_enabled = True\<rparr>"

record cron_execution =
  ex_id :: uuid
  ex_event :: string
  ex_triggered :: micros
  ex_status :: execution_status
  ex_context :: pyval
  ex_mode :: string
  ex_started :: "micros option"
  ex_completed :: "micros option"
  ex_duration :: "rat option"
  ex_agent_run :: "string option"
  ex_llm_calls :: int
  ex_cost :: rat
  ex_checks :: "(string \<times> bool) list"
  ex_skip :: "string option"
  ex_error :: "string option"

subsection \<open>Retry policy\<close>

fun is_value_or_type_error :: "py_error \<Rightarrow> bool" where
  "is_value_or_type_error (ValueError m) = True"
| "is_value_or_type_error (TypeError m) = True"
| "is_value_or_type_error e = False"

definition should_retry :: "py_error \<Rightarrow> int \<Rightarrow> int \<Rightarrow> bool \<Rightarrow> bool" where
  "should_retry error retry_count max_retries retry_on_failure =
     (if \<not> retry_on_failure then False
      else if retry_count \<ge> max_retries then False
      else \<not> is_value_or_type_error error)"

definition calculate_delay :: "int \<Rightarrow> int \<Rightarrow> int \<Rightarrow> int" where
  "calculate_delay retry_count base_delay_seconds max_delay_seconds =
     (let delay = max 0 base_delay_seconds * 2 ^ nat (max 0 retry_count) in min delay (max 0 max_delay_seconds))"

subsection \<open>Circuit breaker\<close>

record cron_breaker =
  kb_threshold :: rat
  kb_window :: int
  kb_open :: "string set"
  kb_store :: "(string \<rightharpoonup> string) option"
  kb_prefix :: string

definition cron_breaker_new :: "rat \<Rightarrow> int \<Rightarrow> (string \<rightharpoonup> string) option \<Rightarrow> string \<Rightarrow> cron_breaker" where
  "cron_breaker_new threshold window store store_prefix =
     \<lparr>kb_threshold = max 0 (min threshold 1), kb_window = max 1 window, kb_open = {}, kb_store = store, kb_prefix = store_prefix\<rparr>"

definition store_key :: "cron_breaker \<Rightarrow> string \<Rightarrow> string" where
  "store_key kb event_name = kb_prefix kb @ '':'' @ event_name"

definition read_store :: "string \<Rightarrow> cron_breaker \<Rightarrow> bool option" where
  "read_store event_name kb =
     (case kb_store kb of
        None \<Rightarrow> None
      | Some st \<Rightarrow> (case st (store_key kb event_name) of
            None \<Rightarrow> Some False
          | Some v \<Rightarrow> Some (strip_lower v \<in> {''1'', ''true'', ''open'', ''yes''})))"

definition write_store :: "string \<Rightarrow> bool \<Rightarrow> cron_breaker \<Rightarrow> cron_breaker" where
  "write_store event_name opened kb =
     kb\<lparr>kb_store := map_option (\<lambda>st. st(store_key kb event_name := (if opened then Some ''1'' else None))) (kb_store kb)\<rparr>"

definition kb_open_event :: "string \<Rightarrow> cron_breaker \<Rightarrow> cron_breaker" where
  "kb_open_event event_name kb = write_store event_name True (kb\<lparr>kb_open := insert event_name (kb_open kb)\<rparr>)"

definition kb_close_event :: "string \<Rightarrow> cron_breaker \<Rightarrow> cron_breaker" where
  "kb_close_event event_name kb = write_store event_name False (kb\<lparr>kb_open := kb_open kb - {event_name}\<rparr>)"

definition kb_check :: "string \<Rightarrow> cron_breaker \<Rightarrow> (bool \<times> string) \<times> cron_breaker" where
  "kb_check event_name kb =
     (let kb' = (if read_store event_name kb = Some True then kb\<lparr>kb_open := insert event_name (kb_open kb)\<rparr> else kb)
      in (if event_name \<in> kb_open kb' then (False, ''Circuit breaker is open'') else (True, []), kb'))"

definition good_status :: "string \<Rightarrow> bool" where
  "good_status status = (strip_lower status \<in> {''success'', ''fallback''})"

definition kb_evaluate :: "string \<Rightarrow> ledger_record list \<Rightarrow> cron_breaker \<Rightarrow> bool \<times> cron_breaker" where
  "kb_evaluate event_name records kb =
     (if records = [] then (False, kb_close_event event_name kb)
      else (let statuses = map lr_status (py_upto (kb_window kb) records);
                failed = length (filter (\<lambda>s. \<not> good_status s) statuses)
            in if statuses = [] then (False, kb_close_event event_name kb)
               else if int (length statuses) \<ge> kb_window kb
                       \<and> of_nat failed / of_nat (length statuses) > kb_threshold kb
               then (True, kb_open_event event_name kb)
               else (False, kb_close_event event_name kb)))"

subsection \<open>Notifier\<close>

definition should_notify :: "int \<Rightarrow> bool" where
  "should_notify failure_count = (failure_count \<in> {1, 3, 5})"

definition failure_message :: "string \<Rightarrow> int \<Rightarrow> string \<Rightarrow> string" where
  "failure_message event_name failure_count error =
     ''Cron trigger '' @ [CHR 0x27] @ event_name @ [CHR 0x27] @ '' failed '' @ show_int failure_count @ '' times. ''
     @ ''Latest error: '' @ error"

text \<open>The messages given out, each with its channel; without channels it goes to the log.\<close>

definition notify_failure :: "string list \<Rightarrow> string \<Rightarrow> int \<Rightarrow> string \<Rightarrow> (string \<times> string) list" where
  "notify_failure channels event_name failure_count error =
     (if \<not> should_notify failure_count then []
      else if channels = [] then [(''log'', failure_message event_name failure_count error)]
      else map (\<lambda>c. (c, failure_message event_name failure_count error)) channels)"

subsection \<open>Priority queue\<close>

text \<open>A heap, seen as the list of its tasks; the smallest \<open>(-priority, sequence)\<close> comes out.\<close>

record prioritized_task =
  pt_priority :: int
  pt_sequence :: nat
  pt_id :: string

record priority_scheduler =
  ps_queue :: "prioritized_task list"
  ps_next :: nat

definition sort_index :: "prioritized_task \<Rightarrow> int \<times> nat" where
  "sort_index t = (- pt_priority t, pt_sequence t)"

definition ps_schedule :: "uuid \<Rightarrow> string \<Rightarrow> int \<Rightarrow> priority_scheduler \<Rightarrow> priority_scheduler" where
  "ps_schedule fresh task_id priority ps =
     \<lparr>ps_queue = \<lparr>pt_priority = priority, pt_sequence = ps_next ps,
        pt_id = (if py_strip task_id = [] then fresh else py_strip task_id)\<rparr> # ps_queue ps,
      ps_next = ps_next ps + 1\<rparr>"

definition ps_pop :: "priority_scheduler \<Rightarrow> prioritized_task option \<times> priority_scheduler" where
  "ps_pop ps =
     (case sort_asc sort_index (ps_queue ps) of
        [] \<Rightarrow> (None, ps)
      | t # rest \<Rightarrow> (Some t, ps\<lparr>ps_queue := remove1 t (ps_queue ps)\<rparr>))"

subsection \<open>Sample cache\<close>

record cron_cache =
  kc_ttl :: int
  kc_size :: int
  kc_records :: "string \<rightharpoonup> pyval list"
  kc_stats :: "string \<rightharpoonup> micros \<times> pyval"

definition cron_cache_new :: "int \<Rightarrow> int \<Rightarrow> cron_cache" where
  "cron_cache_new stats_ttl_seconds execution_cache_size =
     \<lparr>kc_ttl = max 1 stats_ttl_seconds, kc_size = max 1 execution_cache_size, kc_records = Map.empty, kc_stats = Map.empty\<rparr>"

text \<open>A bounded deque drops from the left.\<close>

definition bounded_append :: "nat \<Rightarrow> 'a list \<Rightarrow> 'a \<Rightarrow> 'a list" where
  "bounded_append n xs x = drop (length xs + 1 - n) (xs @ [x])"

definition kc_record :: "string \<Rightarrow> pyval \<Rightarrow> cron_cache \<Rightarrow> cron_cache" where
  "kc_record event_name r kc =
     (let key = py_strip event_name in
      if key = [] then kc
      else kc\<lparr>kc_records := (kc_records kc)(key \<mapsto>
        bounded_append (nat (kc_size kc)) (case kc_records kc key of None \<Rightarrow> [] | Some rs \<Rightarrow> rs) r)\<rparr>)"

definition kc_get :: "string \<Rightarrow> int \<Rightarrow> cron_cache \<Rightarrow> pyval list" where
  "kc_get event_name limit kc =
     (let key = py_strip event_name in
      if key = [] then []
      else rev (py_from (- max 1 limit) (case kc_records kc key of None \<Rightarrow> [] | Some rs \<Rightarrow> rs)))"

definition kc_set_stats :: "micros \<Rightarrow> string \<Rightarrow> pyval \<Rightarrow> int option \<Rightarrow> cron_cache \<Rightarrow> cron_cache" where
  "kc_set_stats now event_name stats ttl_seconds kc =
     (let key = py_strip event_name; ttl = (case ttl_seconds of None \<Rightarrow> kc_ttl kc | Some n \<Rightarrow> max 1 n) in
      if key = [] then kc
      else kc\<lparr>kc_stats := (kc_stats kc)(key \<mapsto> (now - now mod 1000000 + secs ttl, stats))\<rparr>)"

definition kc_get_stats :: "micros \<Rightarrow> string \<Rightarrow> cron_cache \<Rightarrow> pyval option \<times> cron_cache" where
  "kc_get_stats now event_name kc =
     (let key = py_strip event_name in
      if key = [] then (None, kc)
      else (case kc_stats kc key of
          None \<Rightarrow> (None, kc)
        | Some (expires_at, stats) \<Rightarrow>
            if expires_at < now then (None, kc\<lparr>kc_stats := (kc_stats kc)(key := None)\<rparr>) else (Some stats, kc)))"

definition kc_invalidate :: "string option \<Rightarrow> cron_cache \<Rightarrow> cron_cache" where
  "kc_invalidate event_name kc =
     (case event_name of
        None \<Rightarrow> kc\<lparr>kc_records := Map.empty, kc_stats := Map.empty\<rparr>
      | Some e \<Rightarrow>
          (let key = py_strip e in
           if key = [] then kc
           else kc\<lparr>kc_records := (kc_records kc)(key := None), kc_stats := (kc_stats kc)(key := None)\<rparr>))"

subsection \<open>Focus\<close>

record cron_skill =
  sk_name :: string
  sk_description :: string
  sk_focus :: pyval
  sk_metadata :: pyval

text \<open>\<open>str_of\<close> is \<open>str\<close> on the items of a list.\<close>

definition focus_values :: "(pyval \<Rightarrow> string) \<Rightarrow> pyval \<Rightarrow> string list" where
  "focus_values str_of v = (case v of PStr s \<Rightarrow> [s] | PList xs \<Rightarrow> map str_of xs | _ \<Rightarrow> [])"

definition has_focus :: "(pyval \<Rightarrow> string) \<Rightarrow> string \<Rightarrow> pyval \<Rightarrow> bool" where
  "has_focus str_of target v = list_ex (\<lambda>x. py_strip x \<noteq> [] \<and> strip_lower x = target) (focus_values str_of v)"

definition skill_matches_focus :: "(pyval \<Rightarrow> string) \<Rightarrow> cron_skill \<Rightarrow> string \<Rightarrow> bool" where
  "skill_matches_focus str_of skill focus =
     (let target = strip_lower focus in
      if target = [] then True
      else has_focus str_of target (sk_focus skill)
        \<or> is_dict (sk_metadata skill) \<and> has_focus str_of target (dict_get_or (sk_metadata skill) ''focus'' (PList [])))"

definition load_skills_for_focus :: "(pyval \<Rightarrow> string) \<Rightarrow> string option \<Rightarrow> cron_skill list \<Rightarrow> cron_skill list" where
  "load_skills_for_focus str_of focus skills =
     (case focus of
        None \<Rightarrow> skills
      | Some f \<Rightarrow> if strip_lower f = [] then skills else filter (\<lambda>s. skill_matches_focus str_of s (strip_lower f)) skills)"

definition build_agent_prompt :: "string option \<Rightarrow> cron_skill list \<Rightarrow> string" where
  "build_agent_prompt focus skills =
     (let line = [CHR 0x0A];
          head = (case focus of
              Some f \<Rightarrow> if py_strip f \<noteq> []
                then [''Current focus: '' @ py_strip f, ''You should prioritize actions related to '' @ py_strip f @ ''.'']
                else [''Current focus: none'']
            | None \<Rightarrow> [''Current focus: none'']);
          items = (if skills = [] then [''- (none)'']
            else map (\<lambda>s. ''- '' @ py_strip (sk_name s) @ '': '' @ py_strip (sk_description s))
                   (filter (\<lambda>s. py_strip (sk_name s) \<noteq> []) skills))
      in py_join line (head @ [[], ''Available skills:''] @ items))"

end
