(* ===== verification/CronRegistry.thy ===== *)
theory CronRegistry
  imports Cron
begin

section \<open>Cron triggers: the registry and a run\<close>

text \<open>
  \<open>CronTriggerRegistry\<close> with its governance adapter and health check. What one run meets outside
  is in \<open>cron_env\<close>; the calls made to the agent runtime and to the scheduler service, and the
  messages given out, are kept in the state.
\<close>

subsection \<open>State\<close>

record scheduled_job =
  sj_name :: string
  sj_cron :: "string option"
  sj_retries :: int
  sj_priority :: int

text \<open>A call of \<open>trigger_event\<close>: event, focus, payload and tenant.\<close>

type_synonym agent_call = "string \<times> string option \<times> pyval \<times> string"

datatype cron_setting =
    SMaxDailyRuns "int option"
  | SMaxDailyCost "rat option"
  | SCooldown int
  | SRetryOnFailure bool
  | SMaxRetries int
  | SRetryDelay int
  | SWeight pyval
  | SEnabled bool
  | SStrategy string
  | SMaxRunCost "rat option"
  | SMaxDuration "int option"
  | SPriority int
  | SDescription "string option"
  | STags "string list"

record cron_registry =
  cg_app :: string
  cg_triggers :: "(string \<times> cron_config) list"
  cg_started :: bool
  cg_runtime :: bool
  cg_ledger :: "memory_ledger option"
  cg_tenant :: string
  cg_recent :: "string \<rightharpoonup> (string \<times> rat option) list"
  cg_breaker :: cron_breaker
  cg_active_tasks :: int
  cg_active_runs :: "(string \<times> string) set"
  cg_defaults :: "cron_setting list"
  cg_enabled :: bool
  cg_channels :: "string list"
  cg_jobs :: "scheduled_job list"
  cg_agent_calls :: "agent_call list"
  cg_handled :: "string list"
  cg_notices :: "(string \<times> string) list"

definition cron_registry_new :: "string \<Rightarrow> cron_registry" where
  "cron_registry_new app =
     \<lparr>cg_app = app, cg_triggers = [], cg_started = False, cg_runtime = False, cg_ledger = None, cg_tenant = ''default'',
      cg_recent = Map.empty, cg_breaker = cron_breaker_new (1 / 2) 10 None ''cron:circuit_breaker'', cg_active_tasks = 0,
      cg_active_runs = {}, cg_defaults = [], cg_enabled = True, cg_channels = [], cg_jobs = [], cg_agent_calls = [],
      cg_handled = [], cg_notices = []\<rparr>"

subsection \<open>Settings and registration\<close>

definition normalize_name :: "string \<Rightarrow> pyval \<Rightarrow> py_error + string" where
  "normalize_name what v =
     (case v of
        PStr s \<Rightarrow> if py_strip s = [] then Inl (ValueError (what @ '' must not be empty'')) else Inr (py_strip s)
      | _ \<Rightarrow> Inl (ValueError (what @ '' must be a non-empty string'')))"

definition normalize_tenant_id :: "pyval \<Rightarrow> py_error + string" where
  "normalize_tenant_id v =
     (case v of
        PStr s \<Rightarrow> if py_strip s = [] then Inl (ValueError ''tenant_id must be a non-empty string'') else Inr (py_strip s)
      | _ \<Rightarrow> Inl (ValueError ''tenant_id must be a non-empty string''))"

definition quoted :: "string \<Rightarrow> string" where
  "quoted s = [CHR 0x27] @ s @ [CHR 0x27]"

text \<open>A setting of the configuration file, where its value has the declared type.\<close>

definition int_setting :: "pyval \<Rightarrow> int option" where
  "int_setting v = (case v of PInt i \<Rightarrow> Some i | _ \<Rightarrow> None)"

definition as_setting :: "string \<Rightarrow> pyval \<Rightarrow> cron_setting option" where
  "as_setting key v =
     (if key = ''max_daily_runs'' then (if v = PNone then Some (SMaxDailyRuns None) else map_option (\<lambda>i. SMaxDailyRuns (Some i)) (int_setting v))
      else if key = ''max_daily_cost''
      then (case v of PNone \<Rightarrow> Some (SMaxDailyCost None) | PInt i \<Rightarrow> Some (SMaxDailyCost (Some (of_int i)))
              | PFloat r \<Rightarrow> Some (SMaxDailyCost (Some r)) | _ \<Rightarrow> None)
      else if key = ''cooldown_seconds'' then map_option SCooldown (int_setting v)
      else if key = ''retry_on_failure'' then (case v of PBool b \<Rightarrow> Some (SRetryOnFailure b) | _ \<Rightarrow> None)
      else if key = ''max_retries'' then map_option SMaxRetries (int_setting v)
      else if key = ''retry_delay_seconds'' then map_option SRetryDelay (int_setting v)
      else None)"

definition section_of :: "pyval \<Rightarrow> string \<Rightarrow> pyval" where
  "section_of settings key = (case dict_get settings key of Some (PDict kvs) \<Rightarrow> PDict kvs | _ \<Rightarrow> PDict [])"

definition settings_from :: "pyval \<Rightarrow> string list \<Rightarrow> cron_setting list" where
  "settings_from cfg keys = List.map_filter (\<lambda>k. Option.bind (dict_get cfg k) (as_setting k)) keys"

definition apply_settings :: "pyval \<Rightarrow> cron_registry \<Rightarrow> cron_registry" where
  "apply_settings settings cg =
     (if \<not> is_dict settings then cg
      else cg\<lparr>cg_defaults := settings_from (section_of settings ''governance'') [''max_daily_runs'', ''max_daily_cost'', ''cooldown_seconds'']
               @ settings_from (section_of settings ''retry'') [''retry_on_failure'', ''max_retries'', ''retry_delay_seconds''],
             cg_enabled := truthy (dict_get_or (section_of settings ''cron'') ''enabled'' (PBool True)),
             cg_channels := (case dict_get_or (section_of settings ''notifications'') ''channels'' (PList []) of
                 PList cs \<Rightarrow> filter (\<lambda>c. c \<noteq> []) (List.map_filter (\<lambda>v. case v of PStr s \<Rightarrow> Some (py_strip s) | _ \<Rightarrow> None) cs)
               | _ \<Rightarrow> [])\<rparr>)"

fun apply_setting :: "cron_setting \<Rightarrow> cron_config \<Rightarrow> cron_config" where
  "apply_setting (SMaxDailyRuns v) c = c\<lparr>cc_max_daily_runs := v\<rparr>"
| "apply_setting (SMaxDailyCost v) c = c\<lparr>cc_max_daily_cost := v\<rparr>"
| "apply_setting (SCooldown v) c = c\<lparr>cc_cooldown := v\<rparr>"
| "apply_setting (SRetryOnFailure v) c = c\<lparr>cc_retry := v\<rparr>"
| "apply_setting (SMaxRetries v) c = c\<lparr>cc_max_retries := v\<rparr>"
| "apply_setting (SRetryDelay v) c = c\<lparr>cc_retry_delay := v\<rparr>"
| "apply_setting (SWeight v) c = c"
| "apply_setting (SEnabled v) c = c\<lparr>cc_enabled := v\<rparr>"
| "apply_setting (SStrategy v) c = c\<lparr>cc_strategy := v\<rparr>"
| "apply_setting (SMaxRunCost v) c = c\<lparr>cc_max_run_cost := v\<rparr>"
| "apply_setting (SMaxDuration v) c = c\<lparr>cc_max_duration := v\<rparr>"
| "apply_setting (SPriority v) c = c\<lparr>cc_priority := v\<rparr>"
| "apply_setting (SDescription v) c = c\<lparr>cc_description := v\<rparr>"
| "apply_setting (STags v) c = c\<lparr>cc_tags := v\<rparr>"

text \<open>The weight among merged keyword arguments: the last one given.\<close>

definition weight_of :: "cron_setting list \<Rightarrow> pyval" where
  "weight_of ss = fold (\<lambda>s w. case s of SWeight v \<Rightarrow> v | _ \<Rightarrow> w) ss (PFloat 1)"

definition valid_weight :: "pyval \<Rightarrow> rat option" where
  "valid_weight v =
     (case v of
        PInt i \<Rightarrow> if i < 0 \<or> 1 < i then None else Some (of_int i)
      | PFloat r \<Rightarrow> if r < 0 \<or> 1 < r then None else Some r
      | _ \<Rightarrow> None)"

definition register ::
  "(string \<Rightarrow> bool) \<Rightarrow> pyval \<Rightarrow> pyval \<Rightarrow> string option \<Rightarrow> bool \<Rightarrow> cron_setting list \<Rightarrow> cron_registry \<Rightarrow> py_error + cron_registry" where
  "register croniter_valid event_name expression focus handler kwargs cg =
     and_then (normalize_name ''event_name'' event_name) (\<lambda>event.
       and_then (normalize_name ''expression'' expression) (\<lambda>expr.
         (let focus' = (case focus of None \<Rightarrow> None | Some f \<Rightarrow> if py_strip f = [] then None else Some (py_strip f));
              merged = cg_defaults cg @ kwargs
          in if event \<in> set (dict_keys (cg_triggers cg))
             then Inl (ValueError (''Cron trigger '' @ quoted event @ '' is already registered''))
             else if \<not> croniter_valid expr then Inl (ValueError (''Invalid cron expression: '' @ quoted expr))
             else (case valid_weight (weight_of merged) of
                 None \<Rightarrow> Inl (ValueError ''migration_weight must be a float between 0.0 and 1.0'')
               | Some w \<Rightarrow>
                   (let config = (fold apply_setting merged (cron_config_new event expr focus' handler))\<lparr>cc_weight := w\<rparr>;
                        config = (if cg_enabled cg then config else config\<lparr>cc_enabled := False\<rparr>)
                    in Inr (cg\<lparr>cg_triggers := cg_triggers cg @ [(event, config)]\<rparr>))))))"

definition get_trigger :: "pyval \<Rightarrow> cron_registry \<Rightarrow> cron_config option" where
  "get_trigger event_name cg =
     (case normalize_name ''event_name'' event_name of Inl e \<Rightarrow> None | Inr event \<Rightarrow> map_of (cg_triggers cg) event)"

definition find_trigger :: "pyval \<Rightarrow> cron_registry \<Rightarrow> py_error + cron_config" where
  "find_trigger event_name cg =
     (case normalize_name ''event_name'' event_name of
        Inl e \<Rightarrow> Inl (KeyError (''Cron trigger '' @ quoted [] @ '' not found''))
      | Inr event \<Rightarrow> (case map_of (cg_triggers cg) event of None \<Rightarrow> Inl (KeyError (''Cron trigger '' @ quoted event @ '' not found''))
                       | Some c \<Rightarrow> Inr c))"

text \<open>A deque of at most fifty samples per event.\<close>

definition record_recent_execution :: "string \<Rightarrow> string \<Rightarrow> rat option \<Rightarrow> cron_registry \<Rightarrow> cron_registry" where
  "record_recent_execution event_name status duration cg =
     (let key = py_strip event_name in
      if key = [] then cg
      else cg\<lparr>cg_recent := (cg_recent cg)(key \<mapsto>
        bounded_append 50 (case cg_recent cg key of None \<Rightarrow> [] | Some xs \<Rightarrow> xs) (status, duration))\<rparr>)"

subsection \<open>Management\<close>

definition app_name_or :: "string \<Rightarrow> cron_registry \<Rightarrow> string" where
  "app_name_or event cg = (if cg_app cg = [] then event else cg_app cg)"

definition try_record :: "uuid \<Rightarrow> micros \<Rightarrow> exec_call \<Rightarrow> cron_registry \<Rightarrow> cron_registry" where
  "try_record i now call cg =
     (case cg_ledger cg of
        None \<Rightarrow> cg
      | Some l \<Rightarrow> (case mem_record_execution i now call l of Inl e \<Rightarrow> cg | Inr l' \<Rightarrow> cg\<lparr>cg_ledger := Some l'\<rparr>))"

definition cron_call :: "string \<Rightarrow> string \<Rightarrow> string \<Rightarrow> string \<Rightarrow> string \<Rightarrow> pyval \<Rightarrow> pyval \<Rightarrow> string option \<Rightarrow> int \<Rightarrow> rat \<Rightarrow> string
    \<Rightarrow> string option \<Rightarrow> exec_call" where
  "cron_call tenant agent run event task input_params output reasoning time_ms cost status err =
     \<lparr>xc_tenant = PStr tenant, xc_agent = PStr agent, xc_run = PStr run, xc_capability = PStr event, xc_task = PStr task,
      xc_input = input_params, xc_output = output, xc_reasoning = reasoning, xc_time_ms = time_ms, xc_model = [], xc_tokens_in = 0,
      xc_tokens_out = 0, xc_cost = cost, xc_status = status, xc_error = err, xc_weight = None, xc_mode = None, xc_risk = None,
      xc_approver = None, xc_approved_at = None\<rparr>"

definition management_call :: "uuid \<Rightarrow> string \<Rightarrow> string \<Rightarrow> cron_registry \<Rightarrow> exec_call" where
  "management_call run_id event action cg =
     cron_call (cg_tenant cg) (app_name_or event cg) run_id event ''cron_management''
       (PDict [(PStr ''action'', PStr action), (PStr ''trigger_type'', PStr ''management'')])
       (PDict [(PStr ''event_name'', PStr event), (PStr ''action'', PStr action)]) (Some (''trigger_'' @ action)) 0 0 ''success'' None"

definition set_enabled :: "bool \<Rightarrow> uuid \<Rightarrow> uuid \<Rightarrow> micros \<Rightarrow> pyval \<Rightarrow> cron_registry \<Rightarrow> py_error + cron_registry" where
  "set_enabled on run_id rec_id now event_name cg =
     and_then (find_trigger event_name cg) (\<lambda>c.
       Inr (try_record rec_id now (management_call run_id (cc_event c) (if on then ''resume'' else ''pause'') cg)
         (cg\<lparr>cg_triggers := AList.update (cc_event c) (c\<lparr>cc_enabled := on\<rparr>) (cg_triggers cg)\<rparr>)))"

definition pause_trigger :: "uuid \<Rightarrow> uuid \<Rightarrow> micros \<Rightarrow> pyval \<Rightarrow> cron_registry \<Rightarrow> py_error + cron_registry" where
  "pause_trigger = set_enabled False"

definition resume_trigger :: "uuid \<Rightarrow> uuid \<Rightarrow> micros \<Rightarrow> pyval \<Rightarrow> cron_registry \<Rightarrow> py_error + cron_registry" where
  "resume_trigger = set_enabled True"

text \<open>\<open>answer\<close> is what the scheduler service says to \<open>run_task_now\<close>.\<close>

definition trigger_now ::
  "py_error + string \<Rightarrow> uuid \<Rightarrow> micros \<Rightarrow> pyval \<Rightarrow> (pyval \<times> pyval) list \<Rightarrow> cron_registry \<Rightarrow> (py_error + string) \<times> cron_registry" where
  "trigger_now answer rec_id now event_name kwargs cg =
     (case find_trigger event_name cg of
        Inl e \<Rightarrow> (Inl e, cg)
      | Inr c \<Rightarrow>
          if \<not> cg_started cg then (Inl (RuntimeError ''trigger_now requires start() to be called with a Hatchet client''), cg)
          else (case (case map_of kwargs (PStr ''tenant_id'') of None \<Rightarrow> Inr (cg_tenant cg) | Some v \<Rightarrow> normalize_tenant_id v) of
              Inl e \<Rightarrow> (Inl e, cg)
            | Inr tenant \<Rightarrow>
                (case answer of
                   Inl e \<Rightarrow> (Inl e, cg)
                 | Inr run_id \<Rightarrow>
                     (let kw = AList.update (PStr ''tenant_id'') (PStr tenant) kwargs; event = cc_event c in
                      (Inr run_id,
                       try_record rec_id now
                         (cron_call tenant (app_name_or event cg) run_id event ''cron_manual_trigger''
                           (PDict [(PStr ''trigger_type'', PStr ''manual''), (PStr ''kwargs'', PDict kw)])
                           (PDict [(PStr ''run_id'', PStr run_id)]) (Some ''manual_trigger'') 0 0 ''success'' None)
                         (record_recent_execution event ''success'' (Some 0) cg))))))"

definition check_health :: "cron_registry \<Rightarrow> string \<times> bool \<times> nat \<times> nat \<times> nat \<times> nat" where
  "check_health cg =
     (let total = length (cg_triggers cg); on = length (filter (\<lambda>(e, c). cc_enabled c) (cg_triggers cg));
          open_breakers = card (kb_open (cg_breaker cg))
      in (if total = 0 then ''unhealthy'' else if \<not> cg_started cg \<or> 0 < open_breakers then ''degraded'' else ''healthy'',
          cg_started cg, total, on, total - on, open_breakers))"

definition cron_filters :: "string \<Rightarrow> int option \<Rightarrow> ledger_filters" where
  "cron_filters event limit = no_filters\<lparr>lf_capability := Some event, lf_order := Some ''created_at DESC'', lf_limit := limit\<rparr>"

definition day_filters :: "string \<Rightarrow> date \<Rightarrow> ledger_filters" where
  "day_filters event day = no_filters\<lparr>lf_capability := Some event, lf_start := Some day, lf_end := Some day\<rparr>"

text \<open>One line of the history: run, status, time, duration, agent run and a display text for an error.\<close>

definition history_line :: "ledger_record \<Rightarrow> string \<times> string \<times> micros \<times> int \<times> pyval \<times> string option" where
  "history_line r =
     (lr_run r, lr_status r, lr_created r, lr_time_ms r, dict_get_or (or_empty_dict (lr_output r)) ''agent_run_id'' PNone,
      case lr_error r of None \<Rightarrow> None | Some m \<Rightarrow> if py_strip m = [] then None else Some ''Execution failed.'')"

definition safe_limit :: "pyval \<Rightarrow> int" where
  "safe_limit limit =
     max 1 (min (case limit of PBool b \<Rightarrow> 10 | _ \<Rightarrow> (case py_int limit of Inl e \<Rightarrow> 10 | Inr n \<Rightarrow> n)) 100)"

definition get_execution_history ::
  "pyval \<Rightarrow> pyval \<Rightarrow> pyval option \<Rightarrow> cron_registry \<Rightarrow> py_error + (string \<times> string \<times> micros \<times> int \<times> pyval \<times> string option) list" where
  "get_execution_history event_name limit tenant_id cg =
     and_then (find_trigger event_name cg) (\<lambda>c.
       (case cg_ledger cg of
          None \<Rightarrow> Inl (RuntimeError ''get_execution_history requires start() to be called with a Ledger'')
        | Some l \<Rightarrow>
            and_then (case tenant_id of None \<Rightarrow> Inr (cg_tenant cg) | Some v \<Rightarrow> normalize_tenant_id v) (\<lambda>tid.
              Inr (map history_line (mem_query_records tid (cron_filters (cc_event c) (Some (safe_limit limit))) l)))))"

text \<open>Enabled, expression, focus, success rate, average duration and sample size; the next run is croniter's.\<close>

definition get_trigger_status :: "pyval \<Rightarrow> cron_registry \<Rightarrow> py_error + bool \<times> string \<times> string option \<times> rat option \<times> rat option \<times> nat" where
  "get_trigger_status event_name cg =
     and_then (find_trigger event_name cg) (\<lambda>c.
       (let samples = (case cg_recent cg (cc_event c) of None \<Rightarrow> [] | Some xs \<Rightarrow> xs); n = length samples;
            good = length (filter (\<lambda>(status, d). status = ''success'' \<or> status = ''fallback'') samples);
            durations = filter (\<lambda>d. 0 \<le> d) (List.map_filter snd samples)
        in Inr (cc_enabled c, cc_expression c, cc_focus c, if 0 < n then Some (of_nat good / of_nat n) else None,
                if durations = [] then None else Some (sum_list durations / of_nat (length durations)), n)))"

definition trigger_job :: "cron_config \<Rightarrow> scheduled_job" where
  "trigger_job c = \<lparr>sj_name = ''cron_'' @ cc_event c, sj_cron = Some (cc_expression c),
     sj_retries = (if cc_retry c then cc_max_retries c else 0), sj_priority = (if cc_priority c = 0 then 1 else cc_priority c)\<rparr>"

definition cron_start :: "bool \<Rightarrow> memory_ledger option \<Rightarrow> pyval \<Rightarrow> cron_registry \<Rightarrow> py_error + cron_registry" where
  "cron_start runtime ledger tenant_id cg =
     and_then (normalize_tenant_id tenant_id) (\<lambda>tenant.
       Inr (cg\<lparr>cg_started := True, cg_runtime := runtime, cg_ledger := ledger, cg_tenant := tenant,
               cg_jobs := cg_jobs cg @ map (\<lambda>(e, c). trigger_job c) (cg_triggers cg)
                 @ (if runtime then [\<lparr>sj_name = ''agent_scheduled_run'', sj_cron = None, sj_retries = 1, sj_priority = 0\<rparr>] else [])\<rparr>))"

end
