(* ===== verification/CronRun.thy ===== *)
theory CronRun
  imports CronRegistry
begin

section \<open>Cron triggers: one run\<close>

text \<open>
  \<open>CronTriggerRegistry._run_cron\<close> with the checks before it, both ways of executing it, what
  happens on a failure, and what is recorded at the end; \<open>CronGovernance\<close> with the update of the
  circuit breaker. \<open>cron_env\<close> is what one run meets outside: readings of the clock, the random
  draw, the answer of the agent runtime, the outcome of each call of the fallback handler.
\<close>

record cron_env =
  ce_id :: uuid
  ce_triggered :: micros
  ce_day :: date
  ce_cooldown_now :: micros
  ce_draw :: rat
  ce_started :: micros
  ce_completed :: micros
  ce_agent :: "py_error + pyval"
  ce_fallback :: "nat \<Rightarrow> py_error option"
  ce_rec_id :: uuid
  ce_rec_time :: micros
  ce_float :: "rat \<Rightarrow> string"

fun error_text :: "py_error \<Rightarrow> string" where
  "error_text (ValueError m) = m"
| "error_text (TypeError m) = m"
| "error_text (KeyError m) = m"
| "error_text (IndexError m) = m"
| "error_text (AttributeError m) = m"
| "error_text (ArithmeticError m) = m"
| "error_text (RuntimeError m) = m"

text \<open>\<open>f"{r:.nf}"\<close> for a number that is not negative.\<close>

definition fmt_fixed :: "nat \<Rightarrow> rat \<Rightarrow> string" where
  "fmt_fixed n r =
     (let v = nat (round_half_even (r * 10 ^ n)); frac = show_nat (v mod 10 ^ n)
      in show_nat (v div 10 ^ n) @ ''.'' @ replicate (n - length frac) CHR ''0'' @ frac)"

subsection \<open>Governance\<close>

definition get_last_successful_execution :: "memory_ledger \<Rightarrow> string \<Rightarrow> string \<Rightarrow> ledger_record option" where
  "get_last_successful_execution l tenant event =
     List.find (\<lambda>r. good_status (lr_status r)) (mem_query_records tenant (cron_filters event (Some 20)) l)"

definition count_today_executions :: "memory_ledger \<Rightarrow> string \<Rightarrow> string \<Rightarrow> date \<Rightarrow> int" where
  "count_today_executions l tenant event day = int (length (mem_query_records tenant (day_filters event day) l))"

definition sum_today_cost :: "memory_ledger \<Rightarrow> string \<Rightarrow> string \<Rightarrow> date \<Rightarrow> rat" where
  "sum_today_cost l tenant event day = sum_list (map lr_cost (mem_query_records tenant (day_filters event day) l))"

definition get_recent_executions :: "memory_ledger \<Rightarrow> string \<Rightarrow> string \<Rightarrow> int \<Rightarrow> ledger_record list" where
  "get_recent_executions l tenant event limit = mem_query_records tenant (cron_filters event (Some (max 1 (min limit 100)))) l"

definition elapsed_since :: "cron_env \<Rightarrow> ledger_record \<Rightarrow> rat" where
  "elapsed_since env r = of_int (ce_cooldown_now env - lr_created r) / 1000000"

text \<open>Each check gives the reason for which it blocks, if it does.\<close>

definition cooldown_block :: "cron_env \<Rightarrow> cron_config \<Rightarrow> memory_ledger \<Rightarrow> string \<Rightarrow> string option" where
  "cooldown_block env c l tenant =
     (case get_last_successful_execution l tenant (cc_event c) of
        None \<Rightarrow> None
      | Some r \<Rightarrow>
          if elapsed_since env r < of_int (cc_cooldown c)
          then Some (''Cooldown not satisfied: '' @ (if elapsed_since env r < 0 then ''-'' else []) @ fmt_fixed 1 \<bar>elapsed_since env r\<bar>
            @ ''s < '' @ show_int (cc_cooldown c) @ ''s'')
          else None)"

definition runs_block :: "cron_env \<Rightarrow> cron_config \<Rightarrow> memory_ledger \<Rightarrow> string \<Rightarrow> int \<Rightarrow> string option" where
  "runs_block env c l tenant n =
     (let today = count_today_executions l tenant (cc_event c) (ce_day env)
      in if n \<le> today then Some (''Daily run limit reached: '' @ show_int today @ '' >= '' @ show_int n) else None)"

definition cost_block :: "cron_env \<Rightarrow> cron_config \<Rightarrow> memory_ledger \<Rightarrow> string \<Rightarrow> rat \<Rightarrow> string option" where
  "cost_block env c l tenant m =
     (let today = sum_today_cost l tenant (cc_event c) (ce_day env)
      in if m \<le> today
         then Some (''Daily cost limit reached: $'' @ (if today < 0 then ''-'' else []) @ fmt_fixed 4 \<bar>today\<bar> @ '' >= $'' @ ce_float env m)
         else None)"

text \<open>Checks in order: one that does not apply leaves no mark, the first that blocks ends them.\<close>

fun apply_checks :: "(string \<times> string option option) list \<Rightarrow> (string \<times> bool) list \<Rightarrow> string option \<times> (string \<times> bool) list" where
  "apply_checks [] done = (None, done)"
| "apply_checks ((name, None) # rest) done = apply_checks rest done"
| "apply_checks ((name, Some None) # rest) done = apply_checks rest (done @ [(name, True)])"
| "apply_checks ((name, Some (Some reason)) # rest) done = (Some reason, done @ [(name, False)])"

definition ledger_checks :: "cron_env \<Rightarrow> cron_config \<Rightarrow> memory_ledger option \<Rightarrow> string \<Rightarrow> (string \<times> string option option) list" where
  "ledger_checks env c ledger tenant =
     (case ledger of
        None \<Rightarrow> []
      | Some l \<Rightarrow>
          [(''cooldown'', if 0 < cc_cooldown c then Some (cooldown_block env c l tenant) else None),
           (''daily_runs'', map_option (runs_block env c l tenant) (cc_max_daily_runs c)),
           (''daily_cost'', map_option (cost_block env c l tenant) (cc_max_daily_cost c))])"

definition check_constraints ::
  "cron_env \<Rightarrow> cron_config \<Rightarrow> memory_ledger option \<Rightarrow> string \<Rightarrow> cron_breaker
     \<Rightarrow> (bool \<times> string) \<times> (string \<times> bool) list \<times> cron_breaker" where
  "check_constraints env c ledger tenant kb =
     (case apply_checks (ledger_checks env c ledger tenant) [] of
        (Some reason, done) \<Rightarrow> ((False, reason), done, kb)
      | (None, done) \<Rightarrow>
          (case kb_check (cc_event c) kb of ((allowed, reason), kb') \<Rightarrow> ((allowed, reason), done @ [(''circuit_breaker'', allowed)], kb')))"

subsection \<open>Execution\<close>

definition should_use_agent :: "cron_env \<Rightarrow> cron_config \<Rightarrow> bool" where
  "should_use_agent env c = (ce_draw env < cc_weight c)"

definition llm_calls_of :: "pyval \<Rightarrow> int" where
  "llm_calls_of raw = (case raw of PBool b \<Rightarrow> 0 | _ \<Rightarrow> (case py_int raw of Inl e \<Rightarrow> 0 | Inr n \<Rightarrow> max 0 n))"

text \<open>The call names no tenant, so \<open>trigger_event\<close> takes its default.\<close>

definition execute_agent :: "cron_env \<Rightarrow> cron_config \<Rightarrow> cron_execution \<Rightarrow> cron_registry \<Rightarrow> py_error option \<times> cron_execution \<times> cron_registry" where
  "execute_agent env c ex cg =
     (let cg' = cg\<lparr>cg_agent_calls := cg_agent_calls cg @ [(cc_event c, cc_focus c, ex_context ex, ''default'')]\<rparr>
      in case ce_agent env of
           Inl e \<Rightarrow> (Some e, ex, cg')
         | Inr result \<Rightarrow>
             if \<not> is_dict result then (Some (RuntimeError ''agent_runtime.trigger_event must return a dictionary''), ex, cg')
             else (None,
               ex\<lparr>ex_agent_run := (case dict_get result ''run_id'' of
                      Some (PStr s) \<Rightarrow> if py_strip s = [] then None else Some (py_strip s) | _ \<Rightarrow> None),
                  ex_llm_calls := llm_calls_of (dict_get_or result ''tool_calls_total'' (PInt 0))\<rparr>, cg'))"

text \<open>\<open>n\<close> counts the calls of the handler in this run.\<close>

definition execute_fallback :: "cron_env \<Rightarrow> nat \<Rightarrow> cron_config \<Rightarrow> cron_execution \<Rightarrow> cron_registry
    \<Rightarrow> py_error option \<times> cron_execution \<times> cron_registry" where
  "execute_fallback env n c ex cg =
     (if \<not> cc_handler c then (None, ex\<lparr>ex_status := SKIPPED, ex_skip := Some ''no fallback handler''\<rparr>, cg)
      else (let ex' = ex\<lparr>ex_mode := ''fallback''\<rparr>; cg' = cg\<lparr>cg_handled := cg_handled cg @ [cc_event c]\<rparr>
            in case ce_fallback env n of
                 Some e \<Rightarrow> (Some e, ex', cg')
               | None \<Rightarrow> (None, ex'\<lparr>ex_status := FALLBACK\<rparr>, cg')))"

definition handle_failure :: "cron_env \<Rightarrow> nat \<Rightarrow> cron_config \<Rightarrow> cron_execution \<Rightarrow> cron_registry \<Rightarrow> cron_execution \<times> cron_registry" where
  "handle_failure env n c ex cg =
     (if cc_strategy c = ''never'' then (ex, cg)
      else if cc_strategy c = ''on_failure'' \<or> cc_strategy c = ''always''
      then (case execute_fallback env n c ex cg of (r, ex', cg') \<Rightarrow> (ex', cg'))
      else (ex, cg))"

definition execute_run :: "cron_env \<Rightarrow> cron_config \<Rightarrow> cron_execution \<Rightarrow> cron_registry \<Rightarrow> cron_execution \<times> cron_registry" where
  "execute_run env c ex cg =
     (let use_agent = should_use_agent env c; by_agent = use_agent \<and> cg_runtime cg;
          ex1 = ex\<lparr>ex_mode := (if use_agent then ''agent'' else ''fallback''), ex_status := RUNNING, ex_started := Some (ce_started env)\<rparr>
      in case (if by_agent then execute_agent env c ex1 cg else execute_fallback env 0 c ex1 cg) of
           (None, ex2, cg2) \<Rightarrow> (if ex_status ex2 = RUNNING then ex2\<lparr>ex_status := SUCCESS\<rparr> else ex2, cg2)
         | (Some e, ex2, cg2) \<Rightarrow>
             handle_failure env (if by_agent then 0 else 1) c (ex2\<lparr>ex_status := FAILED, ex_error := Some (error_text e)\<rparr>) cg2)"

subsection \<open>The end of a run\<close>

definition execution_call :: "string \<Rightarrow> string \<Rightarrow> cron_config \<Rightarrow> cron_execution \<Rightarrow> exec_call" where
  "execution_call tenant agent c ex =
     cron_call tenant agent (ex_id ex) (cc_event c) ''cron_execution'' (ex_context ex)
       (PDict [(PStr ''agent_run_id'', case ex_agent_run ex of None \<Rightarrow> PNone | Some s \<Rightarrow> PStr s)]) (ex_skip ex)
       (trunc_rat ((case ex_duration ex of None \<Rightarrow> 0 | Some d \<Rightarrow> d) * 1000)) (ex_cost ex) (status_value (ex_status ex)) (ex_error ex)"

definition update_circuit_breaker :: "cron_config \<Rightarrow> string \<Rightarrow> cron_registry \<Rightarrow> cron_registry" where
  "update_circuit_breaker c tenant cg =
     (case cg_ledger cg of
        None \<Rightarrow> cg
      | Some l \<Rightarrow>
          (let records = get_recent_executions l tenant (cc_event c) (kb_window (cg_breaker cg));
               (opened, kb) = kb_evaluate (cc_event c) records (cg_breaker cg);
               failed = int (length (filter (\<lambda>r. \<not> good_status (lr_status r)) records))
           in cg\<lparr>cg_breaker := kb,
                 cg_notices := cg_notices cg @ (if opened
                   then notify_failure [] (cc_event c) failed ''circuit breaker opened due to high failure rate'' else [])\<rparr>))"

definition exceeded :: "cron_config \<Rightarrow> cron_execution \<Rightarrow> (string \<times> bool) list" where
  "exceeded c ex =
     (case cc_max_run_cost c of None \<Rightarrow> [] | Some m \<Rightarrow> if m < ex_cost ex then [(''max_cost_per_run_exceeded'', True)] else [])
     @ (case cc_max_duration c of None \<Rightarrow> []
        | Some m \<Rightarrow> if of_int m < (case ex_duration ex of None \<Rightarrow> 0 | Some d \<Rightarrow> d) then [(''max_duration_exceeded'', True)] else [])"

definition finish_run :: "cron_env \<Rightarrow> cron_config \<Rightarrow> string \<Rightarrow> cron_execution \<Rightarrow> cron_registry \<Rightarrow> cron_execution \<times> cron_registry" where
  "finish_run env c tenant ex cg =
     (let ex1 = ex\<lparr>ex_completed := Some (ce_completed env),
                ex_duration := map_option (\<lambda>s. of_int (ce_completed env - s) / 1000000) (ex_started ex)\<rparr>;
          ex2 = ex1\<lparr>ex_checks := ex_checks ex1 @ exceeded c ex1\<rparr>;
          cg1 = record_recent_execution (cc_event c) (status_value (ex_status ex2)) (ex_duration ex2) cg;
          cg2 = try_record (ce_rec_id env) (ce_rec_time env) (execution_call tenant (app_name_or (cc_event c) cg) c ex2) cg1;
          cg3 = update_circuit_breaker c tenant cg2
      in (ex2, cg3\<lparr>cg_active_runs := cg_active_runs cg3 - {(tenant, cc_event c)}, cg_active_tasks := max 0 (cg_active_tasks cg3 - 1)\<rparr>))"

definition new_execution :: "cron_env \<Rightarrow> cron_config \<Rightarrow> cron_execution" where
  "new_execution env c =
     \<lparr>ex_id = ce_id env, ex_event = cc_event c, ex_triggered = ce_triggered env, ex_status = PENDING,
      ex_context = PDict [(PStr ''trigger_type'', PStr ''cron''), (PStr ''expression'', PStr (cc_expression c)),
        (PStr ''focus'', case cc_focus c of None \<Rightarrow> PNone | Some f \<Rightarrow> PStr f)],
      ex_mode = ''agent'', ex_started = None, ex_completed = None, ex_duration = None, ex_agent_run = None, ex_llm_calls = 0,
      ex_cost = 0, ex_checks = [], ex_skip = None, ex_error = None\<rparr>"

text \<open>What the checks let through is executed; the rest is skipped with its reason.\<close>

definition guarded_run :: "cron_env \<Rightarrow> cron_config \<Rightarrow> string \<Rightarrow> cron_execution \<Rightarrow> cron_registry \<Rightarrow> cron_execution \<times> cron_registry" where
  "guarded_run env c tenant ex cg =
     (if \<not> cc_enabled c then (ex\<lparr>ex_status := SKIPPED, ex_skip := Some ''trigger disabled''\<rparr>, cg)
      else (case check_constraints env c (cg_ledger cg) tenant (cg_breaker cg) of
          ((passed, reason), checks, kb) \<Rightarrow>
            (let ex1 = ex\<lparr>ex_checks := checks\<rparr>; cg1 = cg\<lparr>cg_breaker := kb\<rparr>
             in if \<not> passed then (ex1\<lparr>ex_status := SKIPPED, ex_skip := Some reason\<rparr>, cg1) else execute_run env c ex1 cg1)))"

definition acquire_run_slot :: "string \<Rightarrow> string \<Rightarrow> cron_registry \<Rightarrow> cron_registry option" where
  "acquire_run_slot tenant event cg =
     (if (tenant, event) \<in> cg_active_runs cg then None
      else Some (cg\<lparr>cg_active_runs := insert (tenant, event) (cg_active_runs cg)\<rparr>))"

definition run_cron :: "cron_env \<Rightarrow> cron_config \<Rightarrow> cron_registry \<Rightarrow> (string \<times> string option) \<times> cron_registry" where
  "run_cron env c cg =
     (let tenant = cg_tenant cg in
      case acquire_run_slot tenant (cc_event c) cg of
        None \<Rightarrow> ((''skipped'', Some ''cron run already in progress''), cg)
      | Some cg1 \<Rightarrow>
          (case guarded_run env c tenant (new_execution env c) (cg1\<lparr>cg_active_tasks := cg_active_tasks cg1 + 1\<rparr>) of
             (ex, cg2) \<Rightarrow> (case finish_run env c tenant ex cg2 of
                (ex', cg3) \<Rightarrow> ((status_value (ex_status ex'), if ex_started ex' = None then ex_skip ex' else None), cg3))))"

subsection \<open>What the parts leave alone\<close>

lemma kb_frame [simp, frame_simps]:
  "kb_window (kb_open_event e kb) = kb_window kb" "kb_window (kb_close_event e kb) = kb_window kb"
  "kb_threshold (kb_open_event e kb) = kb_threshold kb" "kb_threshold (kb_close_event e kb) = kb_threshold kb"
  "kb_open (kb_open_event e kb) = insert e (kb_open kb)" "kb_open (kb_close_event e kb) = kb_open kb - {e}"
  by (simp_all add: kb_open_event_def kb_close_event_def write_store_def)

lemma kb_check_open: "e \<in> kb_open kb \<Longrightarrow> kb_check e kb = ((False, ''Circuit breaker is open''), kb)"
  by (cases kb) (simp add: kb_check_def insert_absorb)

lemma try_record_frame [simp, frame_simps]:
  "cg_agent_calls (try_record i t x cg) = cg_agent_calls cg" "cg_handled (try_record i t x cg) = cg_handled cg"
  "cg_breaker (try_record i t x cg) = cg_breaker cg" "cg_tenant (try_record i t x cg) = cg_tenant cg"
  "cg_active_runs (try_record i t x cg) = cg_active_runs cg" "cg_active_tasks (try_record i t x cg) = cg_active_tasks cg"
  "cg_app (try_record i t x cg) = cg_app cg" "cg_triggers (try_record i t x cg) = cg_triggers cg"
  by (simp_all add: try_record_def split: option.split sum.split)

lemma recent_frame [simp, frame_simps]:
  "cg_agent_calls (record_recent_execution e s d cg) = cg_agent_calls cg" "cg_handled (record_recent_execution e s d cg) = cg_handled cg"
  "cg_breaker (record_recent_execution e s d cg) = cg_breaker cg" "cg_tenant (record_recent_execution e s d cg) = cg_tenant cg"
  "cg_active_runs (record_recent_execution e s d cg) = cg_active_runs cg" "cg_ledger (record_recent_execution e s d cg) = cg_ledger cg"
  "cg_active_tasks (record_recent_execution e s d cg) = cg_active_tasks cg" "cg_app (record_recent_execution e s d cg) = cg_app cg"
  by (simp_all add: record_recent_execution_def Let_def)

lemma update_frame [simp, frame_simps]:
  "cg_agent_calls (update_circuit_breaker c t cg) = cg_agent_calls cg" "cg_handled (update_circuit_breaker c t cg) = cg_handled cg"
  "cg_tenant (update_circuit_breaker c t cg) = cg_tenant cg" "cg_ledger (update_circuit_breaker c t cg) = cg_ledger cg"
  "cg_active_runs (update_circuit_breaker c t cg) = cg_active_runs cg" "cg_active_tasks (update_circuit_breaker c t cg) = cg_active_tasks cg"
  "cg_app (update_circuit_breaker c t cg) = cg_app cg"
  by (simp_all add: update_circuit_breaker_def Let_def case_prod_beta split: option.split)

lemma execute_agent_frame [simp, frame_simps]:
  "cg_tenant (snd (snd (execute_agent env c ex cg))) = cg_tenant cg" "cg_ledger (snd (snd (execute_agent env c ex cg))) = cg_ledger cg"
  "cg_active_runs (snd (snd (execute_agent env c ex cg))) = cg_active_runs cg"
  "cg_active_tasks (snd (snd (execute_agent env c ex cg))) = cg_active_tasks cg"
  by (simp_all add: execute_agent_def Let_def split: sum.split)

lemma execute_fallback_frame [simp, frame_simps]:
  "cg_tenant (snd (snd (execute_fallback env n c ex cg))) = cg_tenant cg" "cg_ledger (snd (snd (execute_fallback env n c ex cg))) = cg_ledger cg"
  "cg_active_runs (snd (snd (execute_fallback env n c ex cg))) = cg_active_runs cg"
  "cg_active_tasks (snd (snd (execute_fallback env n c ex cg))) = cg_active_tasks cg"
  "cg_agent_calls (snd (snd (execute_fallback env n c ex cg))) = cg_agent_calls cg"
  by (simp_all add: execute_fallback_def Let_def split: option.split)

lemma handle_failure_frame [simp, frame_simps]:
  "cg_tenant (snd (handle_failure env n c ex cg)) = cg_tenant cg" "cg_ledger (snd (handle_failure env n c ex cg)) = cg_ledger cg"
  "cg_active_runs (snd (handle_failure env n c ex cg)) = cg_active_runs cg"
  "cg_active_tasks (snd (handle_failure env n c ex cg)) = cg_active_tasks cg"
  "cg_agent_calls (snd (handle_failure env n c ex cg)) = cg_agent_calls cg"
  by (simp_all add: handle_failure_def case_prod_beta)

lemma execute_run_eq:
  "\<exists>ex'. execute_run env c ex cg = (ex', cg') \<Longrightarrow> cg_tenant cg' = cg_tenant cg \<and> cg_ledger cg' = cg_ledger cg
     \<and> cg_active_runs cg' = cg_active_runs cg \<and> cg_active_tasks cg' = cg_active_tasks cg"
proof -
  assume "\<exists>ex'. execute_run env c ex cg = (ex', cg')"
  then obtain ex' where run: "execute_run env c ex cg = (ex', cg')" ..
  let ?ex1 = "ex\<lparr>ex_mode := (if should_use_agent env c then ''agent'' else ''fallback''), ex_status := RUNNING, ex_started := Some (ce_started env)\<rparr>"
  define res where "res = (if should_use_agent env c \<and> cg_runtime cg then execute_agent env c ?ex1 cg else execute_fallback env 0 c ?ex1 cg)"
  have f: "cg_tenant (snd (snd res)) = cg_tenant cg \<and> cg_ledger (snd (snd res)) = cg_ledger cg
      \<and> cg_active_runs (snd (snd res)) = cg_active_runs cg \<and> cg_active_tasks (snd (snd res)) = cg_active_tasks cg"
    by (simp add: res_def)
  obtain r ex2 cg2 where r: "res = (r, ex2, cg2)" by (cases res)
  have "cg' = (case r of None \<Rightarrow> cg2 | Some e \<Rightarrow> snd (handle_failure env (if should_use_agent env c \<and> cg_runtime cg then 0 else 1) c
      (ex2\<lparr>ex_status := FAILED, ex_error := Some (error_text e)\<rparr>) cg2))"
    using run r unfolding execute_run_def Let_def res_def [symmetric] by (cases r) (simp_all add: res_def [symmetric] split: prod.splits)
  with f r show ?thesis by (cases r) simp_all
qed

lemma guarded_run_frame:
  "cg_tenant (snd (guarded_run env c t ex cg)) = cg_tenant cg" "cg_ledger (snd (guarded_run env c t ex cg)) = cg_ledger cg"
  "cg_active_runs (snd (guarded_run env c t ex cg)) = cg_active_runs cg"
  "cg_active_tasks (snd (guarded_run env c t ex cg)) = cg_active_tasks cg"
  using execute_run_eq
  by (simp_all add: guarded_run_def Let_def case_prod_beta) (metis (no_types, lifting) cron_registry.ext_inject cron_registry.surjective cron_registry.update_convs(8) prod.collapse)+

end
