(* ===== verification/CronProperties.thy ===== *)
theory CronProperties
  imports CronRun
begin

section \<open>Cron triggers: what a run guarantees\<close>

text \<open>
  What the runs of a trigger call and leave behind, when the checks let one through, what becomes
  of a failure, and that the circuit breaker, once it has opened on the records of the ledger, is
  kept open by the records of the runs it skips.
\<close>

subsection \<open>Slots and tasks\<close>

lemma guarded_run_cases:
  assumes "guarded_run env c t ex cg = (ex', cg')"
  shows "cg_tenant cg' = cg_tenant cg" "cg_ledger cg' = cg_ledger cg" "cg_active_runs cg' = cg_active_runs cg"
    "cg_active_tasks cg' = cg_active_tasks cg"
  using guarded_run_frame [of env c t ex cg] assms by simp_all

lemma finish_run_frame:
  assumes "finish_run env c t ex cg = (ex', cg')"
  shows "cg_active_runs cg' = cg_active_runs cg - {(t, cc_event c)}" "cg_active_tasks cg' = max 0 (cg_active_tasks cg - 1)"
    "cg_agent_calls cg' = cg_agent_calls cg" "cg_handled cg' = cg_handled cg" "cg_tenant cg' = cg_tenant cg"
    "ex_status ex' = ex_status ex" "ex_error ex' = ex_error ex" "ex_skip ex' = ex_skip ex" "ex_started ex' = ex_started ex"
  using assms by (auto simp: finish_run_def Let_def)

text \<open>
  A run leaves no trace in the registry's book-keeping: whatever happened in it (skipped,
  failed, answered by the agent or by the handler), the slot of the trigger is free again
  afterwards, and the number of active tasks is what it was before.
\<close>

theorem cron_run_releases:
  assumes "0 \<le> cg_active_tasks cg"
  shows "cg_active_runs (snd (run_cron env c cg)) = cg_active_runs cg
    \<and> cg_active_tasks (snd (run_cron env c cg)) = cg_active_tasks cg"
proof (cases "(cg_tenant cg, cc_event c) \<in> cg_active_runs cg")
  case True
  then show ?thesis by (simp add: run_cron_def acquire_run_slot_def)
next
  case False
  let ?cg1 = "cg\<lparr>cg_active_runs := insert (cg_tenant cg, cc_event c) (cg_active_runs cg), cg_active_tasks := cg_active_tasks cg + 1\<rparr>"
  obtain ex cg2 where g: "guarded_run env c (cg_tenant cg) (new_execution env c) ?cg1 = (ex, cg2)" by fastforce
  obtain ex' cg3 where f: "finish_run env c (cg_tenant cg) ex cg2 = (ex', cg3)" by fastforce
  have "cg_active_runs cg3 = cg_active_runs cg" "cg_active_tasks cg3 = cg_active_tasks cg"
    using finish_run_frame(1,2) [OF f] guarded_run_cases(3,4) [OF g] False assms by auto
  with False g f show ?thesis by (simp add: run_cron_def acquire_run_slot_def Let_def)
qed

subsection \<open>The calls of a run\<close>

text \<open>What the checks demand, said without the order in which they are made.\<close>

definition ledger_allows :: "cron_env \<Rightarrow> cron_config \<Rightarrow> memory_ledger \<Rightarrow> string \<Rightarrow> bool" where
  "ledger_allows env c l tenant =
     ((if 0 < cc_cooldown c
       then case get_last_successful_execution l tenant (cc_event c) of None \<Rightarrow> True
            | Some r \<Rightarrow> of_int (cc_cooldown c) \<le> elapsed_since env r
       else True)
      \<and> (case cc_max_daily_runs c of None \<Rightarrow> True | Some n \<Rightarrow> count_today_executions l tenant (cc_event c) (ce_day env) < n)
      \<and> (case cc_max_daily_cost c of None \<Rightarrow> True | Some m \<Rightarrow> sum_today_cost l tenant (cc_event c) (ce_day env) < m))"

definition run_allowed :: "cron_env \<Rightarrow> cron_config \<Rightarrow> cron_registry \<Rightarrow> bool" where
  "run_allowed env c cg =
     ((cg_tenant cg, cc_event c) \<notin> cg_active_runs cg \<and> cc_enabled c
      \<and> cc_event c \<notin> kb_open (cg_breaker cg) \<and> read_store (cc_event c) (cg_breaker cg) \<noteq> Some True
      \<and> (case cg_ledger cg of None \<Rightarrow> True | Some l \<Rightarrow> ledger_allows env c l (cg_tenant cg)))"

lemma apply_checks_iff: "fst (apply_checks cs done) = None \<longleftrightarrow> list_all (\<lambda>p. snd p = None \<or> snd p = Some None) cs"
  by (induction cs "done" rule: apply_checks.induct) simp_all

lemma map_block_iff: "(x = None \<or> map_option f x = Some None) \<longleftrightarrow> (case x of None \<Rightarrow> True | Some a \<Rightarrow> f a = None)"
  by (cases x) simp_all

lemma cooldown_block_iff: "cooldown_block env c l t = None \<longleftrightarrow>
    (case get_last_successful_execution l t (cc_event c) of None \<Rightarrow> True | Some r \<Rightarrow> of_int (cc_cooldown c) \<le> elapsed_since env r)"
  by (auto simp: cooldown_block_def split: option.splits)

lemma runs_block_iff: "runs_block env c l t n = None \<longleftrightarrow> count_today_executions l t (cc_event c) (ce_day env) < n"
  by (auto simp: runs_block_def Let_def)

lemma cost_block_iff: "cost_block env c l t m = None \<longleftrightarrow> sum_today_cost l t (cc_event c) (ce_day env) < m"
  by (auto simp: cost_block_def Let_def)

lemma ledger_checks_iff:
  "fst (apply_checks (ledger_checks env c (Some l) t) []) = None \<longleftrightarrow> ledger_allows env c l t"
  by (simp add: apply_checks_iff ledger_checks_def ledger_allows_def map_block_iff cooldown_block_iff runs_block_iff cost_block_iff
      del: map_option_eq_Some cong: option.case_cong)

lemma kb_check_allows: "fst (fst (kb_check e kb)) \<longleftrightarrow> e \<notin> kb_open kb \<and> read_store e kb \<noteq> Some True"
  by (simp add: kb_check_def Let_def)

lemma check_constraints_iff:
  "fst (fst (check_constraints env c led t kb)) \<longleftrightarrow>
     cc_event c \<notin> kb_open kb \<and> read_store (cc_event c) kb \<noteq> Some True
     \<and> (case led of None \<Rightarrow> True | Some l \<Rightarrow> ledger_allows env c l t)"
proof -
  obtain b ds where a: "apply_checks (ledger_checks env c led t) [] = (b, ds)" by fastforce
  have b: "(b = None) = (case led of None \<Rightarrow> True | Some l \<Rightarrow> ledger_allows env c l t)"
  proof (cases led)
    case None
    with a show ?thesis by (simp add: ledger_checks_def)
  next
    case (Some l)
    with a show ?thesis using ledger_checks_iff [of env c l t] by simp
  qed
  obtain ok reason kb' where k: "kb_check (cc_event c) kb = ((ok, reason), kb')" by (metis prod.collapse)
  have "fst (fst (check_constraints env c led t kb)) = (b = None \<and> ok)"
    using a k by (cases b) (simp_all add: check_constraints_def)
  with b kb_check_allows [of "cc_event c" kb] k show ?thesis by (simp add: conj_ac)
qed

text \<open>What one execution appends to the calls of the agent and of the handler.\<close>

definition by_agent :: "cron_env \<Rightarrow> cron_config \<Rightarrow> cron_registry \<Rightarrow> bool" where
  "by_agent env c cg = (ce_draw env < cc_weight c \<and> cg_runtime cg)"

definition agent_fails :: "cron_env \<Rightarrow> py_error option" where
  "agent_fails env =
     (case ce_agent env of Inl e \<Rightarrow> Some e
      | Inr v \<Rightarrow> if is_dict v then None else Some (RuntimeError ''agent_runtime.trigger_event must return a dictionary''))"

definition handler_runs :: "cron_env \<Rightarrow> cron_config \<Rightarrow> cron_registry \<Rightarrow> nat" where
  "handler_runs env c cg =
     (let again = (if cc_strategy c \<in> {''on_failure'', ''always''} then 1 else 0) in
      if \<not> cc_handler c then 0
      else if by_agent env c cg then (if agent_fails env = None then 0 else again)
      else (if ce_fallback env 0 = None then 1 else 1 + again))"

lemma execute_agent_eq:
  "fst (execute_agent env c ex cg) = agent_fails env"
  "snd (snd (execute_agent env c ex cg)) = cg\<lparr>cg_agent_calls := cg_agent_calls cg @ [(cc_event c, cc_focus c, ex_context ex, ''default'')]\<rparr>"
  "ex_status (fst (snd (execute_agent env c ex cg))) = ex_status ex"
  by (auto simp: execute_agent_def agent_fails_def Let_def split: sum.split)

lemma execute_fallback_eq:
  "fst (execute_fallback env n c ex cg) = (if cc_handler c then ce_fallback env n else None)"
  "cg_handled (snd (snd (execute_fallback env n c ex cg))) = cg_handled cg @ (if cc_handler c then [cc_event c] else [])"
  by (auto simp: execute_fallback_def Let_def split: option.split)

lemma handle_failure_handled:
  "cg_handled (snd (handle_failure env n c ex cg)) = cg_handled cg @
     (if cc_handler c \<and> cc_strategy c \<in> {''on_failure'', ''always''} then [cc_event c] else [])"
  by (auto simp: handle_failure_def case_prod_beta execute_fallback_eq)

lemma execute_run_calls:
  "cg_agent_calls (snd (execute_run env c ex cg)) = cg_agent_calls cg @
     (if by_agent env c cg then [(cc_event c, cc_focus c, ex_context ex, ''default'')] else [])"
  "cg_handled (snd (execute_run env c ex cg)) = cg_handled cg @ replicate (handler_runs env c cg) (cc_event c)"
proof -
  let ?ex1 = "ex\<lparr>ex_mode := (if should_use_agent env c then ''agent'' else ''fallback''), ex_status := RUNNING, ex_started := Some (ce_started env)\<rparr>"
  define res where "res = (if by_agent env c cg then execute_agent env c ?ex1 cg else execute_fallback env 0 c ?ex1 cg)"
  obtain r ex2 cg2 where r: "res = (r, ex2, cg2)" by (cases res)
  define ex3 where "ex3 = (\<lambda>e. ex2\<lparr>ex_status := FAILED, ex_error := Some (error_text e)\<rparr>)"
  have run: "snd (execute_run env c ex cg) =
      (case r of None \<Rightarrow> cg2 | Some e \<Rightarrow> snd (handle_failure env (if by_agent env c cg then 0 else 1) c (ex3 e) cg2))"
    using r unfolding res_def execute_run_def Let_def by_agent_def should_use_agent_def ex3_def by (cases r) simp_all
  have a: "by_agent env c cg \<Longrightarrow> r = agent_fails env \<and> cg_handled cg2 = cg_handled cg
      \<and> cg_agent_calls cg2 = cg_agent_calls cg @ [(cc_event c, cc_focus c, ex_context ex, ''default'')]"
    using r execute_agent_eq [of env c ?ex1 cg] by (simp add: res_def)
  have f: "\<not> by_agent env c cg \<Longrightarrow> r = (if cc_handler c then ce_fallback env 0 else None) \<and> cg_agent_calls cg2 = cg_agent_calls cg
      \<and> cg_handled cg2 = cg_handled cg @ (if cc_handler c then [cc_event c] else [])"
    using r execute_fallback_eq [of env 0 c ?ex1 cg] execute_fallback_frame(5) [of env 0 c ?ex1 cg] by (simp add: res_def)
  show "cg_agent_calls (snd (execute_run env c ex cg)) = cg_agent_calls cg @
     (if by_agent env c cg then [(cc_event c, cc_focus c, ex_context ex, ''default'')] else [])"
    using a f unfolding run by (cases "by_agent env c cg") (simp_all split: option.split)
  show "cg_handled (snd (execute_run env c ex cg)) = cg_handled cg @ replicate (handler_runs env c cg) (cc_event c)"
    using a f unfolding run handler_runs_def Let_def
    by (cases "by_agent env c cg"; cases "cc_handler c") (simp_all add: handle_failure_handled split: option.split)
qed

lemma run_cron_split:
  assumes "(cg_tenant cg, cc_event c) \<notin> cg_active_runs cg"
  obtains cg1 ex cg2 ex' cg3 where
    "cg1 = cg\<lparr>cg_active_runs := insert (cg_tenant cg, cc_event c) (cg_active_runs cg), cg_active_tasks := cg_active_tasks cg + 1\<rparr>"
    "guarded_run env c (cg_tenant cg) (new_execution env c) cg1 = (ex, cg2)"
    "finish_run env c (cg_tenant cg) ex cg2 = (ex', cg3)"
    "run_cron env c cg = ((status_value (ex_status ex), if ex_started ex = None then ex_skip ex else None), cg3)"
proof -
  let ?cg1 = "cg\<lparr>cg_active_runs := insert (cg_tenant cg, cc_event c) (cg_active_runs cg), cg_active_tasks := cg_active_tasks cg + 1\<rparr>"
  obtain ex cg2 where g: "guarded_run env c (cg_tenant cg) (new_execution env c) ?cg1 = (ex, cg2)" by fastforce
  obtain ex' cg3 where f: "finish_run env c (cg_tenant cg) ex cg2 = (ex', cg3)" by fastforce
  have "run_cron env c cg = ((status_value (ex_status ex), if ex_started ex = None then ex_skip ex else None), cg3)"
    using assms g f finish_run_frame(6,8,9) [OF f] by (simp add: run_cron_def acquire_run_slot_def Let_def)
  from that [OF refl g f this] show thesis .
qed

lemma guarded_run_blocked:
  assumes "\<not> (cc_enabled c \<and> fst (fst (check_constraints env c (cg_ledger cg) t (cg_breaker cg))))"
  shows "ex_status (fst (guarded_run env c t ex cg)) = SKIPPED"
    "cg_agent_calls (snd (guarded_run env c t ex cg)) = cg_agent_calls cg"
    "cg_handled (snd (guarded_run env c t ex cg)) = cg_handled cg"
    "ex_started (fst (guarded_run env c t ex cg)) = ex_started ex"
  using assms by (auto simp: guarded_run_def Let_def split: prod.splits)

lemma guarded_run_passed:
  assumes on: "cc_enabled c" and pass: "fst (fst (check_constraints env c (cg_ledger cg) t (cg_breaker cg)))"
  obtains checks kb where "guarded_run env c t ex cg = execute_run env c (ex\<lparr>ex_checks := checks\<rparr>) (cg\<lparr>cg_breaker := kb\<rparr>)"
proof -
  obtain ok reason checks kb where "check_constraints env c (cg_ledger cg) t (cg_breaker cg) = ((ok, reason), checks, kb)"
    by (metis prod.collapse)
  with on pass have "guarded_run env c t ex cg = execute_run env c (ex\<lparr>ex_checks := checks\<rparr>) (cg\<lparr>cg_breaker := kb\<rparr>)"
    by (simp add: guarded_run_def)
  then show thesis by (rule that)
qed


subsection \<open>What becomes of a failure\<close>

text \<open>The answer of an execution, and what it is after a failure before the \<open>n\<close>th call of the handler.\<close>

definition answer_after_failure :: "cron_env \<Rightarrow> cron_config \<Rightarrow> nat \<Rightarrow> string" where
  "answer_after_failure env c n =
     (if cc_strategy c \<notin> {''on_failure'', ''always''} then ''failed''
      else if \<not> cc_handler c then ''skipped''
      else if ce_fallback env n = None then ''fallback'' else ''failed'')"

definition run_answer :: "cron_env \<Rightarrow> cron_config \<Rightarrow> cron_registry \<Rightarrow> string" where
  "run_answer env c cg =
     (if by_agent env c cg then (if agent_fails env = None then ''success'' else answer_after_failure env c 0)
      else if \<not> cc_handler c then ''skipped''
      else if ce_fallback env 0 = None then ''fallback'' else answer_after_failure env c 1)"

lemma execute_agent_started: "ex_started (fst (snd (execute_agent env c ex cg))) = ex_started ex"
  by (auto simp: execute_agent_def Let_def split: sum.split)

lemma execute_fallback_status:
  "ex_status (fst (snd (execute_fallback env n c ex cg))) =
     (if \<not> cc_handler c then SKIPPED else if ce_fallback env n = None then FALLBACK else ex_status ex)"
  "ex_started (fst (snd (execute_fallback env n c ex cg))) = ex_started ex"
  by (auto simp: execute_fallback_def Let_def split: option.split)

lemma handle_failure_status:
  "status_value (ex_status (fst (handle_failure env n c (ex\<lparr>ex_status := FAILED, ex_error := t\<rparr>) cg))) = answer_after_failure env c n"
  "ex_started (fst (handle_failure env n c (ex\<lparr>ex_status := FAILED, ex_error := t\<rparr>) cg)) = ex_started ex"
  by (simp_all add: handle_failure_def case_prod_beta execute_fallback_status answer_after_failure_def)

lemma execute_run_status:
  "status_value (ex_status (fst (execute_run env c ex cg))) = run_answer env c cg"
  "ex_started (fst (execute_run env c ex cg)) = Some (ce_started env)"
proof -
  let ?ex1 = "ex\<lparr>ex_mode := (if should_use_agent env c then ''agent'' else ''fallback''), ex_status := RUNNING, ex_started := Some (ce_started env)\<rparr>"
  define res where "res = (if by_agent env c cg then execute_agent env c ?ex1 cg else execute_fallback env 0 c ?ex1 cg)"
  obtain r ex2 cg2 where r: "res = (r, ex2, cg2)" by (cases res)
  have run: "fst (execute_run env c ex cg) =
      (case r of None \<Rightarrow> (if ex_status ex2 = RUNNING then ex2\<lparr>ex_status := SUCCESS\<rparr> else ex2)
       | Some e \<Rightarrow> fst (handle_failure env (if by_agent env c cg then 0 else 1) c (ex2\<lparr>ex_status := FAILED, ex_error := Some (error_text e)\<rparr>) cg2))"
    using r unfolding res_def execute_run_def Let_def by_agent_def should_use_agent_def by (cases r) simp_all
  have a: "by_agent env c cg \<Longrightarrow> r = agent_fails env \<and> ex_status ex2 = RUNNING \<and> ex_started ex2 = Some (ce_started env)"
    using r execute_agent_eq(1,3) [of env c ?ex1 cg] execute_agent_started [of env c ?ex1 cg] by (simp add: res_def)
  have f: "\<not> by_agent env c cg \<Longrightarrow> r = (if cc_handler c then ce_fallback env 0 else None) \<and> ex_started ex2 = Some (ce_started env)
      \<and> ex_status ex2 = (if \<not> cc_handler c then SKIPPED else if ce_fallback env 0 = None then FALLBACK else RUNNING)"
    using r execute_fallback_eq(1) [of env 0 c ?ex1 cg] execute_fallback_status [of env 0 c ?ex1 cg] by (simp add: res_def)
  show "status_value (ex_status (fst (execute_run env c ex cg))) = run_answer env c cg"
    using a f unfolding run run_answer_def
    by (cases "by_agent env c cg"; cases "cc_handler c") (simp_all add: handle_failure_status split: option.split)
  show "ex_started (fst (execute_run env c ex cg)) = Some (ce_started env)"
    using a f unfolding run
    by (cases "by_agent env c cg"; cases "cc_handler c") (simp_all add: handle_failure_status split: option.split)
qed

lemma guarded_run_executes:
  assumes "(cg_tenant cg, cc_event c) \<notin> cg_active_runs cg" and "run_allowed env c cg"
    and "cg_ledger cg1 = cg_ledger cg" "cg_breaker cg1 = cg_breaker cg" "cg_runtime cg1 = cg_runtime cg"
  shows "status_value (ex_status (fst (guarded_run env c (cg_tenant cg) ex cg1))) = run_answer env c cg"
    "ex_started (fst (guarded_run env c (cg_tenant cg) ex cg1)) \<noteq> None"
proof -
  have "cc_enabled c" "fst (fst (check_constraints env c (cg_ledger cg1) (cg_tenant cg) (cg_breaker cg1)))"
    using assms by (simp_all add: run_allowed_def check_constraints_iff)
  then obtain checks kb where g: "guarded_run env c (cg_tenant cg) ex cg1 =
      execute_run env c (ex\<lparr>ex_checks := checks\<rparr>) (cg1\<lparr>cg_breaker := kb\<rparr>)" by (blast intro: guarded_run_passed)
  have "run_answer env c (cg1\<lparr>cg_breaker := kb\<rparr>) = run_answer env c cg" using assms(5) by (simp add: run_answer_def by_agent_def)
  then show "status_value (ex_status (fst (guarded_run env c (cg_tenant cg) ex cg1))) = run_answer env c cg"
    "ex_started (fst (guarded_run env c (cg_tenant cg) ex cg1)) \<noteq> None"
    by (simp_all add: g execute_run_status)
qed

text \<open>
  C30. The answer of a run, for every outcome of the agent and of the handler. A run the checks
  refuse is skipped. One they allow succeeds when the agent answers with a dictionary, and ends
  with \<open>fallback\<close> when the handler does the work without raising, in its own turn or after a
  failure. A failure is \<open>failed\<close> when the strategy is \<open>never\<close> or the handler raises as well; but
  when the agent raises and there is no handler to fall back to, the run that failed answers
  \<open>skipped\<close>, with no reason given, although it was started.
\<close>

theorem cron_run_answer_exact:
  "if run_allowed env c cg then fst (run_cron env c cg) = (run_answer env c cg, None)
   else fst (fst (run_cron env c cg)) = ''skipped''"
proof (cases "(cg_tenant cg, cc_event c) \<in> cg_active_runs cg")
  case True
  then show ?thesis by (simp add: run_cron_def acquire_run_slot_def run_allowed_def)
next
  case False
  then obtain cg1 ex cg2 ex' cg3 where cg1: "cg1 = cg\<lparr>cg_active_runs := insert (cg_tenant cg, cc_event c) (cg_active_runs cg),
        cg_active_tasks := cg_active_tasks cg + 1\<rparr>"
    and g: "guarded_run env c (cg_tenant cg) (new_execution env c) cg1 = (ex, cg2)"
    and r: "run_cron env c cg = ((status_value (ex_status ex), if ex_started ex = None then ex_skip ex else None), cg3)"
    by (rule run_cron_split)
  show ?thesis
  proof (cases "run_allowed env c cg")
    case True
    then show ?thesis using guarded_run_executes [OF False True, of cg1 "new_execution env c"] g by (auto simp: r cg1)
  next
    case no: False
    then have "\<not> (cc_enabled c \<and> fst (fst (check_constraints env c (cg_ledger cg1) (cg_tenant cg) (cg_breaker cg1))))"
      using False by (simp add: run_allowed_def check_constraints_iff cg1)
    from guarded_run_blocked(1) [OF this, of "new_execution env c"] no show ?thesis by (simp add: r g)
  qed
qed

subsection \<open>The breaker never closes\<close>

lemma insort_key_last: "list_all (\<lambda>x. k x < k r) ys \<Longrightarrow> insort_key k r ys = ys @ [r]"
  by (induction ys) auto

lemma sort_desc_newest:
  assumes "list_all (\<lambda>x. k x < k r) xs"
  shows "sort_desc k (xs @ [r]) = r # sort_desc k xs"
proof -
  have "list_all (\<lambda>x. k x < k r) (sort_key k (rev xs))" using assms by (simp add: list_all_iff)
  then show ?thesis by (simp add: sort_desc_def insort_key_last)
qed

text \<open>The evaluation, as a condition on the window.\<close>

definition bad_records :: "ledger_record list \<Rightarrow> nat" where
  "bad_records rs = length (filter (\<lambda>r. \<not> good_status (lr_status r)) rs)"

lemma kb_evaluate_opens_iff:
  assumes "0 < kb_window kb"
  shows "fst (kb_evaluate e rs kb) \<longleftrightarrow> (let w = take (nat (kb_window kb)) rs in
     rs \<noteq> [] \<and> kb_window kb \<le> int (length w) \<and> kb_threshold kb < of_nat (bad_records w) / of_nat (length w))"
  using assms by (auto simp: kb_evaluate_def Let_def py_upto_def bad_records_def filter_map o_def take_map)

lemma kb_evaluate_opened: "fst (kb_evaluate e rs kb) \<Longrightarrow> snd (kb_evaluate e rs kb) = kb_open_event e kb"
  by (simp add: kb_evaluate_def Let_def split: if_splits)

lemma bad_records_shift:
  assumes "\<not> good_status (lr_status r)"
  shows "bad_records (take n xs) \<le> bad_records (take n (r # xs))"
proof (cases n)
  case (Suc m)
  have "bad_records (take (Suc m) xs) \<le> Suc (bad_records (take m xs))"
    by (cases "m < length xs") (simp_all add: bad_records_def take_Suc_conv_app_nth)
  with Suc assms show ?thesis by (simp add: bad_records_def)
qed simp

definition window_opens :: "string \<Rightarrow> string \<Rightarrow> cron_breaker \<Rightarrow> memory_ledger \<Rightarrow> bool" where
  "window_opens e tenant kb l = fst (kb_evaluate e (get_recent_executions l tenant e (kb_window kb)) kb)"

lemma get_recent_eq:
  "get_recent_executions l t e n = take (nat (max 1 (min n 100)))
     (sort_desc lr_created (filter (filters_match t (cron_filters e None)) (ml_records l)))"
  by (simp add: get_recent_executions_def mem_query_eq cron_filters_def no_filters_def order_records_def py_upto_def
      filters_match_iff [abs_def])

lemma window_opens_append:
  assumes w: "0 < kb_window kb" and opens: "window_opens e t kb l"
    and l': "ml_records l' = ml_records l @ [r]"
    and newest: "list_all (\<lambda>x. lr_created x < lr_created r) (ml_records l)" and bad: "\<not> good_status (lr_status r)"
  shows "window_opens e t kb l'"
proof (cases "filters_match t (cron_filters e None) r")
  case False
  then have "get_recent_executions l' t e n = get_recent_executions l t e n" for n by (simp add: get_recent_eq l')
  with opens show ?thesis by (simp add: window_opens_def)
next
  case True
  define S where "S = sort_desc lr_created (filter (filters_match t (cron_filters e None)) (ml_records l))"
  define M where "M = nat (max 1 (min (kb_window kb) 100))"
  define W where "W = nat (kb_window kb)"
  have rec: "get_recent_executions l t e (kb_window kb) = take M S" by (simp add: get_recent_eq S_def M_def)
  have rec': "get_recent_executions l' t e (kb_window kb) = take M (r # S)"
    using True newest by (simp add: get_recent_eq l' S_def M_def sort_desc_newest list_all_iff)
  have o: "kb_window kb \<le> int (length (take W (take M S)))"
    "kb_threshold kb < of_nat (bad_records (take W (take M S))) / of_nat (length (take W (take M S)))"
    using opens by (simp_all add: window_opens_def rec kb_evaluate_opens_iff [OF w] W_def Let_def)
  then have WM: "W \<le> M" and WS: "W \<le> length S" and W0: "0 < W" using w by (simp_all add: W_def)
  have "of_nat (bad_records (take W S)) \<le> (of_nat (bad_records (take W (r # S))) :: rat)"
    using bad_records_shift [OF bad, of W S] by simp
  then have "of_nat (bad_records (take W S)) / of_nat W \<le> (of_nat (bad_records (take W (r # S))) / of_nat W :: rat)"
    by (rule divide_right_mono) simp
  moreover have "take W (take M S) = take W S" "length (take W S) = W" using WM WS by (simp_all add: min_absorb1)
  then have "kb_threshold kb < of_nat (bad_records (take W S)) / of_nat W" using o(2) by simp
  ultimately have "kb_threshold kb < of_nat (bad_records (take W (r # S))) / of_nat W" by simp
  moreover have "take M (r # S) \<noteq> []" using W0 WM by simp
  ultimately show ?thesis
    using W0 WM WS w by (simp add: window_opens_def rec' kb_evaluate_opens_iff Let_def W_def [symmetric] min_def) (simp add: W_def)
qed

lemma guarded_run_open:
  assumes "cc_event c \<in> kb_open (cg_breaker cg)"
  obtains ex' where "guarded_run env c t ex cg = (ex', cg)" "ex_status ex' = SKIPPED"
proof (cases "cc_enabled c")
  case False
  then have "guarded_run env c t ex cg = (ex\<lparr>ex_status := SKIPPED, ex_skip := Some ''trigger disabled''\<rparr>, cg)"
    by (simp add: guarded_run_def)
  then show thesis by (rule that) simp
next
  case True
  obtain b ds where a: "apply_checks (ledger_checks env c (cg_ledger cg) t) [] = (b, ds)" by fastforce
  obtain reason checks where "check_constraints env c (cg_ledger cg) t (cg_breaker cg) = ((False, reason), checks, cg_breaker cg)"
    using a kb_check_open [OF assms] by (cases b) (simp_all add: check_constraints_def)
  with True have "guarded_run env c t ex cg = (ex\<lparr>ex_checks := checks, ex_status := SKIPPED, ex_skip := Some reason\<rparr>, cg)"
    by (simp add: guarded_run_def)
  then show thesis by (rule that) simp
qed

lemma mem_append_room: "int (length (ml_records l)) + 1 \<le> ml_max l \<Longrightarrow> mem_append r l = l\<lparr>ml_records := ml_records l @ [r]\<rparr>"
  by (simp add: mem_append_def Let_def)

lemma try_record_cases:
  assumes "cg_ledger cg = Some l" "int (length (ml_records l)) + 1 \<le> ml_max l"
  obtains "try_record i now x cg = cg"
  | r where "try_record i now x cg = cg\<lparr>cg_ledger := Some (l\<lparr>ml_records := ml_records l @ [r]\<rparr>)\<rparr>"
      "lr_created r = now" "lr_status r = xc_status x"
proof (cases "require_ids x")
  case (Inl e)
  with assms that(1) show thesis by (simp add: try_record_def mem_record_execution_def)
next
  case (Inr ids)
  let ?r = "make_record i now (if is_dict (xc_input x) then xc_input x else PDict []) x ids"
  have "try_record i now x cg = cg\<lparr>cg_ledger := Some (l\<lparr>ml_records := ml_records l @ [?r]\<rparr>)\<rparr>"
    using Inr assms by (simp add: try_record_def mem_record_execution_def mem_append_room)
  moreover have "lr_created ?r = now" "lr_status ?r = xc_status x" by (simp_all add: make_record_def split: prod.splits)
  ultimately show thesis by (rule that(2))
qed

text \<open>A breaker that is open, and would open again on the present records.\<close>

definition stuck_open :: "cron_config \<Rightarrow> micros \<Rightarrow> cron_registry \<Rightarrow> bool" where
  "stuck_open c now cg =
     (0 < kb_window (cg_breaker cg) \<and> cc_event c \<in> kb_open (cg_breaker cg)
      \<and> (case cg_ledger cg of None \<Rightarrow> False
         | Some l \<Rightarrow> window_opens (cc_event c) (cg_tenant cg) (cg_breaker cg) l
             \<and> list_all (\<lambda>r. lr_created r \<le> now) (ml_records l)))"

definition ledger_room :: "nat \<Rightarrow> cron_registry \<Rightarrow> bool" where
  "ledger_room n cg = (case cg_ledger cg of None \<Rightarrow> True | Some l \<Rightarrow> int (length (ml_records l) + n) \<le> ml_max l)"

lemma window_opens_cong: "kb_window kb' = kb_window kb \<Longrightarrow> kb_threshold kb' = kb_threshold kb \<Longrightarrow>
    window_opens e t kb' l = window_opens e t kb l"
  by (simp add: window_opens_def kb_evaluate_def Let_def)

lemma update_stays_open:
  assumes "cg_ledger cg = Some l" "window_opens (cc_event c) t (cg_breaker cg) l"
  shows "cg_breaker (update_circuit_breaker c t cg) = kb_open_event (cc_event c) (cg_breaker cg)"
  using assms kb_evaluate_opened by (simp add: update_circuit_breaker_def window_opens_def Let_def case_prod_beta)

lemma finish_run_shape:
  obtains x d where "xc_status x = status_value (ex_status ex)"
    "snd (finish_run env c t ex cg) = (let cg3 = update_circuit_breaker c t (try_record (ce_rec_id env) (ce_rec_time env) x
         (record_recent_execution (cc_event c) (status_value (ex_status ex)) d cg))
       in cg3\<lparr>cg_active_runs := cg_active_runs cg3 - {(t, cc_event c)}, cg_active_tasks := max 0 (cg_active_tasks cg3 - 1)\<rparr>)"
proof -
  let ?ex1 = "ex\<lparr>ex_completed := Some (ce_completed env), ex_duration := map_option (\<lambda>s. of_int (ce_completed env - s) / 1000000) (ex_started ex)\<rparr>"
  let ?ex2 = "?ex1\<lparr>ex_checks := ex_checks ?ex1 @ exceeded c ?ex1\<rparr>"
  let ?cg1 = "record_recent_execution (cc_event c) (status_value (ex_status ex)) (ex_duration ?ex2) cg"
  have "xc_status (execution_call t (app_name_or (cc_event c) cg) c ?ex2) = status_value (ex_status ex)"
    by (simp add: execution_call_def cron_call_def)
  moreover have "snd (finish_run env c t ex cg) = (let cg3 = update_circuit_breaker c t (try_record (ce_rec_id env) (ce_rec_time env)
        (execution_call t (app_name_or (cc_event c) cg) c ?ex2) ?cg1)
      in cg3\<lparr>cg_active_runs := cg_active_runs cg3 - {(t, cc_event c)}, cg_active_tasks := max 0 (cg_active_tasks cg3 - 1)\<rparr>)"
    by (simp add: finish_run_def Let_def)
  ultimately show thesis by (rule that)
qed

lemma skipped_is_bad: "\<not> good_status ''skipped''"
  by code_simp

lemma finish_run_stuck:
  assumes stuck: "stuck_open c now cg" and room: "ledger_room (Suc n) cg" and now: "now < ce_rec_time env"
    and bad: "ex_status ex = SKIPPED"
  shows "stuck_open c (ce_rec_time env) (snd (finish_run env c (cg_tenant cg) ex cg))
    \<and> ledger_room n (snd (finish_run env c (cg_tenant cg) ex cg))"
proof -
  obtain l where l: "cg_ledger cg = Some l" and w: "0 < kb_window (cg_breaker cg)"
    and opens: "window_opens (cc_event c) (cg_tenant cg) (cg_breaker cg) l"
    and old: "list_all (\<lambda>r. lr_created r \<le> now) (ml_records l)"
    using stuck by (auto simp: stuck_open_def split: option.splits)
  obtain x d where x: "xc_status x = ''skipped''"
    and f: "snd (finish_run env c (cg_tenant cg) ex cg) = (let cg3 = update_circuit_breaker c (cg_tenant cg)
        (try_record (ce_rec_id env) (ce_rec_time env) x (record_recent_execution (cc_event c) ''skipped'' d cg))
        in cg3\<lparr>cg_active_runs := cg_active_runs cg3 - {(cg_tenant cg, cc_event c)}, cg_active_tasks := max 0 (cg_active_tasks cg3 - 1)\<rparr>)"
    using bad finish_run_shape [of ex env c "cg_tenant cg" cg] by (metis status_value.simps(5))
  define cg1 where "cg1 = record_recent_execution (cc_event c) ''skipped'' d cg"
  define cg2 where cg2: "cg2 = try_record (ce_rec_id env) (ce_rec_time env) x cg1"
  have l1: "cg_ledger cg1 = Some l" and r1: "int (length (ml_records l)) + 1 \<le> ml_max l"
    using l room by (simp_all add: cg1_def ledger_room_def)
  have fr: "cg_breaker cg2 = cg_breaker cg" "cg_tenant cg2 = cg_tenant cg" by (simp_all add: cg2 cg1_def)
  obtain l2 where l2: "cg_ledger cg2 = Some l2" "window_opens (cc_event c) (cg_tenant cg) (cg_breaker cg) l2"
      "list_all (\<lambda>r. lr_created r \<le> ce_rec_time env) (ml_records l2)" "int (length (ml_records l2) + n) \<le> ml_max l2"
    using try_record_cases [OF l1 r1, of "ce_rec_id env" "ce_rec_time env" x]
  proof cases
    case 1
    have "list_all (\<lambda>r. lr_created r \<le> ce_rec_time env) (ml_records l)" using old now by (auto simp: list_all_iff)
    with 1 l1 opens room l show thesis by (intro that [of l]) (simp_all add: cg2 ledger_room_def)
  next
    case (2 r)
    let ?l2 = "l\<lparr>ml_records := ml_records l @ [r]\<rparr>"
    have "list_all (\<lambda>x. lr_created x < lr_created r) (ml_records l)" using old now 2 by (auto simp: list_all_iff)
    moreover have "\<not> good_status (lr_status r)" using 2 x skipped_is_bad by simp
    ultimately have "window_opens (cc_event c) (cg_tenant cg) (cg_breaker cg) ?l2"
      by (intro window_opens_append [OF w opens, of _ r]) simp_all
    moreover have "list_all (\<lambda>r. lr_created r \<le> ce_rec_time env) (ml_records ?l2)" using old now 2 by (auto simp: list_all_iff)
    ultimately show thesis using 2 room l by (intro that [of ?l2]) (simp_all add: cg2 ledger_room_def)
  qed
  define cg3 where "cg3 = update_circuit_breaker c (cg_tenant cg) cg2"
  have b: "cg_breaker cg3 = kb_open_event (cc_event c) (cg_breaker cg)"
    unfolding cg3_def using update_stays_open [of cg2 l2 c "cg_tenant cg"] l2 fr by simp
  have "window_opens (cc_event c) (cg_tenant cg) (cg_breaker cg3) l2"
    using l2(2) window_opens_cong [of "cg_breaker cg3" "cg_breaker cg"] by (simp add: b)
  moreover have "cg_ledger cg3 = Some l2" "cg_tenant cg3 = cg_tenant cg" using l2(1) fr by (simp_all add: cg3_def)
  ultimately show ?thesis using l2 w by (simp add: f stuck_open_def ledger_room_def cg1_def [symmetric] cg2 [symmetric] cg3_def [symmetric] Let_def b)
qed

lemma run_cron_stuck:
  assumes stuck: "stuck_open c now cg" and room: "ledger_room (Suc n) cg" and now: "now < ce_rec_time env"
  shows "fst (fst (run_cron env c cg)) = ''skipped'' \<and> cg_agent_calls (snd (run_cron env c cg)) = cg_agent_calls cg
    \<and> cg_handled (snd (run_cron env c cg)) = cg_handled cg \<and> stuck_open c (ce_rec_time env) (snd (run_cron env c cg))
    \<and> ledger_room n (snd (run_cron env c cg))"
proof (cases "(cg_tenant cg, cc_event c) \<in> cg_active_runs cg")
  case True
  then have "run_cron env c cg = ((''skipped'', Some ''cron run already in progress''), cg)"
    by (simp add: run_cron_def acquire_run_slot_def)
  moreover have "stuck_open c (ce_rec_time env) cg" "ledger_room n cg"
    using stuck room now by (auto simp: stuck_open_def ledger_room_def list_all_iff split: option.splits)
  ultimately show ?thesis by simp
next
  case False
  then obtain cg1 ex cg2 ex' cg3 where cg1: "cg1 = cg\<lparr>cg_active_runs := insert (cg_tenant cg, cc_event c) (cg_active_runs cg),
        cg_active_tasks := cg_active_tasks cg + 1\<rparr>"
    and g: "guarded_run env c (cg_tenant cg) (new_execution env c) cg1 = (ex, cg2)"
    and f: "finish_run env c (cg_tenant cg) ex cg2 = (ex', cg3)"
    and r: "run_cron env c cg = ((status_value (ex_status ex), if ex_started ex = None then ex_skip ex else None), cg3)"
    by (rule run_cron_split)
  have "cc_event c \<in> kb_open (cg_breaker cg1)" using stuck by (simp add: stuck_open_def cg1)
  then have s: "ex_status ex = SKIPPED" "cg2 = cg1"
    using g guarded_run_open [of c cg1 env "cg_tenant cg" "new_execution env c"] by (metis prod.inject)+
  have "stuck_open c now cg1" "ledger_room (Suc n) cg1" "cg_tenant cg1 = cg_tenant cg"
    using stuck room by (simp_all add: stuck_open_def ledger_room_def cg1 cong: option.case_cong)
  then have "stuck_open c (ce_rec_time env) cg3 \<and> ledger_room n cg3"
    using finish_run_stuck [of c now cg1 n env ex] now s f by simp
  then show ?thesis
    using finish_run_frame(3,4) [OF f] s by (simp add: r cg1)
qed

text \<open>Runs of one trigger, one after the other, at increasing times.\<close>

fun run_all :: "cron_env list \<Rightarrow> cron_config \<Rightarrow> cron_registry \<Rightarrow> string list \<times> cron_registry" where
  "run_all [] c cg = ([], cg)"
| "run_all (env # envs) c cg =
     (case run_cron env c cg of (answer, cg') \<Rightarrow> (case run_all envs c cg' of (answers, cg'') \<Rightarrow> (fst answer # answers, cg'')))"

fun increasing :: "micros \<Rightarrow> cron_env list \<Rightarrow> bool" where
  "increasing now [] = True"
| "increasing now (env # envs) = (now < ce_rec_time env \<and> increasing (ce_rec_time env) envs)"


text \<open>A run that meets nothing unusual, and a breaker with a window of one failed record.\<close>

definition quiet_env :: "micros \<Rightarrow> cron_env" where
  "quiet_env now = \<lparr>ce_id = ''run'', ce_triggered = now, ce_day = (2026, 1, 1), ce_cooldown_now = now, ce_draw = 0, ce_started = now,
     ce_completed = now, ce_agent = Inr (PDict []), ce_fallback = (\<lambda>n. None), ce_rec_id = ''rec'', ce_rec_time = now,
     ce_float = (\<lambda>r. [])\<rparr>"

definition failed_record :: ledger_record where
  "failed_record = make_record ''i'' 0 PNone (cron_call ''t'' ''a'' ''r'' ''e'' ''cron_execution'' PNone PNone None 0 0 ''failed'' None)
     (''t'', ''a'', ''r'', ''e'', ''cron_execution'')"

definition broken_registry :: cron_registry where
  "broken_registry = (cron_registry_new ''app'')\<lparr>cg_tenant := ''t'', cg_ledger := Some \<lparr>ml_records = [failed_record], ml_max = 10\<rparr>,
     cg_runtime := True, cg_breaker := kb_open_event ''e'' (cron_breaker_new (1 / 2) 1 None ''cron:circuit_breaker'')\<rparr>"

lemma broken_registry_stuck: "stuck_open (cron_config_new ''e'' ''x'' None True) 0 broken_registry"
proof -
  have r: "lr_tenant failed_record = ''t''" "lr_capability failed_record = ''e''" "lr_status failed_record = ''failed''"
    "lr_created failed_record = 0"
    by (simp_all add: failed_record_def make_record_def cron_call_def)
  have b: "\<not> good_status ''failed''" by code_simp
  have "window_opens ''e'' ''t'' (kb_open_event ''e'' (cron_breaker_new (1 / 2) 1 None ''cron:circuit_breaker''))
      \<lparr>ml_records = [failed_record], ml_max = 10\<rparr>"
    using r b by (simp add: window_opens_def kb_evaluate_opens_iff cron_breaker_new_def get_recent_eq filters_match_iff
        cron_filters_def no_filters_def bad_records_def sort_desc_def)
  with r show ?thesis by (simp add: stuck_open_def broken_registry_def cron_config_new_def cron_breaker_new_def)
qed

theorem cron_run_releases_witness:
  "cg_active_runs (snd (run_cron (quiet_env 5) (cron_config_new ''e'' ''x'' None True) (cron_registry_new ''app''))) = {}"
  using cron_run_releases [of "cron_registry_new ''app''" "quiet_env 5" "cron_config_new ''e'' ''x'' None True"]
  by (simp add: cron_registry_new_def)


subsection \<open>The priority queue\<close>

text \<open>
  What a client of a queue relies on: \<open>content\<close> is what is in it, in any order, and a pop takes
  out the task with the least key, or answers that there is none.
\<close>

locale min_queue =
  fixes content :: "'s \<Rightarrow> 't list"
    and key :: "'t \<Rightarrow> 'k::linorder"
    and pop :: "'s \<Rightarrow> 't option \<times> 's"
  assumes pop_empty: "content s = [] \<Longrightarrow> pop s = (None, s)"
    and pop_min: "content s \<noteq> [] \<Longrightarrow> distinct (map key (content s)) \<Longrightarrow>
      \<exists>t s'. pop s = (Some t, s') \<and> mset (content s) = add_mset t (mset (content s')) \<and> (\<forall>x \<in> set (content s). key t \<le> key x)"
begin

primrec drain :: "nat \<Rightarrow> 's \<Rightarrow> 't list" where
  "drain 0 s = []"
| "drain (Suc n) s = (case pop s of (None, s') \<Rightarrow> [] | (Some t, s') \<Rightarrow> t # drain n s')"

text \<open>Taking tasks out until none is left gives them sorted.\<close>

lemma drain_sorts:
  "distinct (map key (content s)) \<Longrightarrow> n = length (content s) \<Longrightarrow> drain n s = sort_key key (content s)"
proof (induction n arbitrary: s)
  case 0
  then show ?case by simp
next
  case (Suc n)
  then have "content s \<noteq> []" by auto
  from pop_min [OF this Suc.prems(1)] obtain t s' where p: "pop s = (Some t, s')"
    and m: "mset (content s) = add_mset t (mset (content s'))" and least: "\<forall>x \<in> set (content s). key t \<le> key x" by blast
  have perm: "mset (map key (content s)) = add_mset (key t) (mset (map key (content s')))" using m by simp
  have d: "distinct (map key (content s'))" "key t \<notin> set (map key (content s'))"
    using Suc.prems(1) perm by (metis distinct.simps(2) mset.simps(2) mset_eq_imp_distinct_iff)+
  have len: "n = length (content s')" using Suc.prems(2) arg_cong [OF m, of size] by simp
  have "set (content s) = insert t (set (content s'))" using arg_cong [OF m, of set_mset] by simp
  with least have "sorted (map key (t # sort_key key (content s')))" by simp
  moreover have "mset (content s) = mset (t # sort_key key (content s'))" using m by simp
  moreover have "inj_on key (set (content s))" using Suc.prems(1) by (simp add: distinct_map)
  ultimately have "sort_key key (content s) = t # sort_key key (content s')" by (metis sort_key_inj_key_eq)
  with Suc.IH [OF d(1) len] p show ?case by simp
qed

end

interpretation tasks: min_queue "ps_queue :: priority_scheduler \<Rightarrow> prioritized_task list" sort_index ps_pop
proof unfold_locales
  fix s :: priority_scheduler assume "ps_queue s = []"
  then show "ps_pop s = (None, s)" by (simp add: ps_pop_def sort_asc_def)
next
  fix s :: priority_scheduler assume ne: "ps_queue s \<noteq> []" and "distinct (map sort_index (ps_queue s))"
  then have "sort_asc sort_index (ps_queue s) \<noteq> []" by (metis length_0_conv length_sort_asc)
  then obtain t rest where r: "sort_asc sort_index (ps_queue s) = t # rest" by (cases "sort_asc sort_index (ps_queue s)") simp_all
  have "t \<in> set (ps_queue s)" using set_sort_asc [of sort_index "ps_queue s"] r by auto
  moreover have "\<forall>x \<in> set (ps_queue s). sort_index t \<le> sort_index x"
    using sorted_sort_asc [of sort_index "ps_queue s"] set_sort_asc [of sort_index "ps_queue s"] r by auto
  moreover have "ps_pop s = (Some t, s\<lparr>ps_queue := remove1 t (ps_queue s)\<rparr>)" by (simp add: ps_pop_def r)
  ultimately show "\<exists>t s'. ps_pop s = (Some t, s') \<and> mset (ps_queue s) = add_mset t (mset (ps_queue s'))
      \<and> (\<forall>x \<in> set (ps_queue s). sort_index t \<le> sort_index x)"
    by (intro exI [of _ t] exI [of _ "s\<lparr>ps_queue := remove1 t (ps_queue s)\<rparr>"]) simp
qed

text \<open>Tasks scheduled one after the other, each an identifier and a priority.\<close>

definition schedule_all :: "uuid \<Rightarrow> (string \<times> int) list \<Rightarrow> priority_scheduler \<Rightarrow> priority_scheduler" where
  "schedule_all fresh ts ps = fold (\<lambda>(i, p). ps_schedule fresh i p) ts ps"

definition pop_all :: "priority_scheduler \<Rightarrow> prioritized_task list" where
  "pop_all ps = tasks.drain (length (ps_queue ps)) ps"

fun queued :: "uuid \<Rightarrow> nat \<Rightarrow> (string \<times> int) list \<Rightarrow> prioritized_task list" where
  "queued fresh n [] = []"
| "queued fresh n ((i, p) # ts) =
     \<lparr>pt_priority = p, pt_sequence = n, pt_id = (if py_strip i = [] then fresh else py_strip i)\<rparr> # queued fresh (Suc n) ts"

lemma schedule_all_queue: "ps_queue (schedule_all fresh ts ps) = rev (queued fresh (ps_next ps) ts) @ ps_queue ps"
  by (induction ts arbitrary: ps) (auto simp: schedule_all_def ps_schedule_def Let_def)

lemma queued_sequence: "list_all (\<lambda>t. n \<le> pt_sequence t) (queued fresh n ts)"
  by (induction fresh n ts rule: queued.induct) (auto simp: list_all_iff)

lemma queued_increasing: "sorted_wrt (\<lambda>a b. pt_sequence a < pt_sequence b) (queued fresh n ts)"
proof (induction fresh n ts rule: queued.induct)
  case (2 fresh n i p ts)
  then show ?case using queued_sequence [of "Suc n" fresh ts] by (auto simp: list_all_iff)
qed simp

lemma insort_stable:
  "sorted (map sort_index ys) \<Longrightarrow> \<forall>y \<in> set ys. pt_sequence x < pt_sequence y \<Longrightarrow>
    sorted (map sort_index (insort_key (\<lambda>t. - pt_priority t) x ys))"
proof (induction ys)
  case (Cons y ys)
  then show ?case by (auto simp: sort_index_def set_insort_key)
qed simp

lemma stable_sorted:
  "sorted_wrt (\<lambda>a b. pt_sequence a < pt_sequence b) xs \<Longrightarrow> sorted (map sort_index (sort_key (\<lambda>t. - pt_priority t) xs))"
  by (induction xs) (simp_all add: insort_stable)

lemma increasing_distinct:
  assumes "sorted_wrt (\<lambda>a b. pt_sequence a < pt_sequence b) xs"
  shows "distinct (map sort_index xs)"
  using assms by (induction xs) (auto simp: sort_index_def)

text \<open>
  The priority queue sorts, and sorts stably: taking out every task of a queue into which
  tasks were scheduled, gives them by descending priority, and tasks of equal priority in the order
  in which they were scheduled. It is the reference sort of the list of tasks, whatever the
  priorities are (negative ones and repeated ones included).
\<close>

theorem cron_queue_sorts_stably:
  "pop_all (schedule_all fresh ts \<lparr>ps_queue = [], ps_next = 0\<rparr>) = sort_key (\<lambda>t. - pt_priority t) (queued fresh 0 ts)"
proof -
  let ?q = "queued fresh 0 ts" and ?ps = "schedule_all fresh ts \<lparr>ps_queue = [], ps_next = 0\<rparr>"
  have q: "ps_queue ?ps = rev ?q" by (simp add: schedule_all_queue)
  have inc: "sorted_wrt (\<lambda>a b. pt_sequence a < pt_sequence b) ?q" by (rule queued_increasing)
  have d: "distinct (map sort_index (ps_queue ?ps))" using increasing_distinct [OF inc] by (simp add: q rev_map [symmetric])
  have "pop_all ?ps = sort_key sort_index (ps_queue ?ps)" unfolding pop_all_def by (rule tasks.drain_sorts [OF d refl])
  also have "\<dots> = sort_key (\<lambda>t. - pt_priority t) ?q"
  proof (rule sort_key_inj_key_eq)
    show "mset (ps_queue ?ps) = mset (sort_key (\<lambda>t. - pt_priority t) ?q)" by (simp add: q)
    show "inj_on sort_index (set (ps_queue ?ps))" using d by (simp add: distinct_map)
    show "sorted (map sort_index (sort_key (\<lambda>t. - pt_priority t) ?q))" by (rule stable_sorted [OF inc])
  qed
  finally show ?thesis .
qed

end
