(* ===== verification/WebhookEndpoints.thy ===== *)
theory WebhookEndpoints
  imports Prelude
begin

section \<open>Webhooks: endpoints and the validation of requests\<close>

text \<open>
  \<open>owlclaw/triggers/webhook/types.py\<close>, \<open>manager.py\<close> over the in-memory repository of
  \<open>persistence/repositories.py\<close>, and \<open>validator.py\<close>. The hashes and the base64 decoding are in
  \<open>webhook_crypto\<close>; an identifier is the canonical text of its UUID. A validation answers with
  the error it found, if any; a call that raises is an \<open>Inl\<close>. The repository gives out its own
  objects, so an update that raises half way leaves the first half behind: the update returns the
  repository on every path.
\<close>

subsection \<open>Data\<close>

record retry_policy =
  rp_attempts :: int
  rp_initial :: int
  rp_max :: int
  rp_multiplier :: rat

record auth_method =
  am_type :: string
  am_token :: "string option"
  am_secret :: "string option"
  am_algorithm :: "string option"
  am_username :: "string option"
  am_password :: "string option"

record endpoint_config =
  ec_name :: string
  ec_agent :: string
  ec_auth :: auth_method
  ec_rule :: "string option"
  ec_mode :: string
  ec_timeout :: "rat option"
  ec_retry :: "retry_policy option"
  ec_enabled :: bool

record webhook_endpoint =
  we_id :: uuid
  we_url :: string
  we_token :: string
  we_hash :: string
  we_config :: endpoint_config
  we_created :: micros
  we_updated :: micros
  we_tenant :: string

record validation_error =
  ve_code :: string
  ve_message :: string
  ve_status :: "int option"
  ve_details :: "(string \<times> pyval) list"

record http_request =
  hr_headers :: "(string \<times> string) list"
  hr_body :: string

text \<open>A row of the endpoint table: the authentication is a dictionary, the timeout whole seconds.\<close>

record endpoint_model =
  em_id :: uuid
  em_tenant :: string
  em_name :: string
  em_url :: string
  em_hash :: string
  em_agent :: string
  em_auth :: "(string \<times> string option) list"
  em_rule :: "string option"
  em_mode :: string
  em_timeout :: "int option"
  em_retry :: "retry_policy option"
  em_enabled :: bool
  em_created :: micros
  em_updated :: micros

record webhook_crypto =
  wc_sha256 :: "string \<Rightarrow> string"
  wc_hmac :: "string \<Rightarrow> string \<Rightarrow> string \<Rightarrow> string"
  wc_b64_text :: "string \<Rightarrow> string option"

definition verror :: "string \<Rightarrow> string \<Rightarrow> int option \<Rightarrow> validation_error" where
  "verror code message status = \<lparr>ve_code = code, ve_message = message, ve_status = status, ve_details = []\<rparr>"

text \<open>
  \<open>UUID(s)\<close> and its text: braces, hyphens and the words \<open>urn:\<close> and \<open>uuid:\<close> do not count, what is
  left must be 32 hexadecimal digits.
\<close>

fun remove_word :: "string \<Rightarrow> string \<Rightarrow> string" where
  "remove_word w [] = []"
| "remove_word w (c # cs) =
     (if w \<noteq> [] \<and> take (length w) (c # cs) = w then remove_word w (drop (length w) (c # cs)) else c # remove_word w cs)"

definition is_hex :: "char \<Rightarrow> bool" where
  "is_hex c = (is_digit c \<or> c \<in> set ''abcdefABCDEF'')"

definition strip_braces :: "string \<Rightarrow> string" where
  "strip_braces s = rev (dropWhile (\<lambda>c. c \<in> set ''{}'') (rev (dropWhile (\<lambda>c. c \<in> set ''{}'') s)))"

definition uuid_text :: "string \<Rightarrow> string" where
  "uuid_text h = take 8 h @ ''-'' @ take 4 (drop 8 h) @ ''-'' @ take 4 (drop 12 h) @ ''-'' @ take 4 (drop 16 h) @ ''-'' @ drop 20 h"

definition parse_uuid :: "string \<Rightarrow> py_error + uuid" where
  "parse_uuid s =
     (let h = filter (\<lambda>c. c \<noteq> CHR ''-'') (strip_braces (remove_word ''uuid:'' (remove_word ''urn:'' s)))
      in if length h = 32 \<and> list_all is_hex h then Inr (uuid_text (py_lower h))
         else Inl (ValueError ''badly formed hexadecimal UUID string''))"

subsection \<open>The manager\<close>

type_synonym endpoint_repo = "(uuid \<times> endpoint_model) list"

definition present :: "string option \<Rightarrow> bool" where
  "present v = (case v of None \<Rightarrow> False | Some s \<Rightarrow> py_strip s \<noteq> [])"

definition invalid_config :: "string \<Rightarrow> validation_error option" where
  "invalid_config message = Some (verror ''INVALID_CONFIG'' message None)"

definition validate_endpoint_config :: "endpoint_config \<Rightarrow> validation_error option" where
  "validate_endpoint_config c =
     (let a = ec_auth c in
      if py_strip (ec_name c) = [] then invalid_config ''name is required''
      else if py_strip (ec_agent c) = [] then invalid_config ''target_agent_id is required''
      else if am_type a = ''bearer'' \<and> \<not> present (am_token a) then invalid_config ''bearer token is required''
      else if am_type a = ''hmac'' \<and> (\<not> present (am_secret a) \<or> am_algorithm a \<notin> {Some ''sha256'', Some ''sha512''})
      then invalid_config ''hmac secret and algorithm are required''
      else if am_type a = ''basic'' \<and> (\<not> present (am_username a) \<or> \<not> present (am_password a))
      then invalid_config ''basic auth username/password required''
      else if (case ec_timeout c of None \<Rightarrow> False | Some t \<Rightarrow> t \<le> 0) then invalid_config ''timeout_seconds must be positive''
      else (case ec_retry c of
          None \<Rightarrow> None
        | Some r \<Rightarrow>
            if rp_attempts r \<le> 0 then invalid_config ''retry max_attempts must be positive''
            else if rp_initial r < 0 \<or> rp_max r < 0 then invalid_config ''retry delays must be non-negative''
            else if rp_multiplier r < 1 then invalid_config ''backoff_multiplier must be >= 1''
            else None))"

definition sanitize_auth_method :: "auth_method \<Rightarrow> (string \<times> string option) list" where
  "sanitize_auth_method a =
     (if am_type a = ''bearer'' then [(''type'', Some (am_type a))]
      else if am_type a = ''hmac''
      then [(''type'', Some (am_type a)), (''secret'', am_secret a), (''algorithm'', am_algorithm a)]
      else [(''type'', Some (am_type a)), (''username'', am_username a), (''password'', am_password a)])"

definition normalize_auth_method_type :: "string \<Rightarrow> string" where
  "normalize_auth_method_type t = (if t \<in> {''bearer'', ''hmac'', ''basic''} then t else ''bearer'')"

definition normalize_execution_mode :: "string \<Rightarrow> string" where
  "normalize_execution_mode m = (if m \<in> {''sync'', ''async''} then m else ''async'')"

definition opt_get :: "(string \<times> string option) list \<Rightarrow> string \<Rightarrow> string option" where
  "opt_get d k = (case map_of d k of None \<Rightarrow> None | Some v \<Rightarrow> v)"

definition to_endpoint :: "endpoint_model \<Rightarrow> string \<Rightarrow> webhook_endpoint" where
  "to_endpoint em auth_token =
     (let am = em_auth em;
          auth = \<lparr>am_type = normalize_auth_method_type (case map_of am ''type'' of Some (Some t) \<Rightarrow> t | Some None \<Rightarrow> ''None'' | None \<Rightarrow> ''bearer''),
            am_token = opt_get am ''token'', am_secret = opt_get am ''secret'', am_algorithm = opt_get am ''algorithm'',
            am_username = opt_get am ''username'', am_password = opt_get am ''password''\<rparr>
      in \<lparr>we_id = em_id em, we_url = em_url em, we_token = auth_token, we_hash = em_hash em,
          we_config = \<lparr>ec_name = em_name em, ec_agent = em_agent em, ec_auth = auth, ec_rule = em_rule em,
            ec_mode = normalize_execution_mode (em_mode em), ec_timeout = map_option of_int (em_timeout em),
            ec_retry = em_retry em, ec_enabled = em_enabled em\<rparr>,
          we_created = em_created em, we_updated = em_updated em, we_tenant = em_tenant em\<rparr>)"

definition rule_uuid :: "string option \<Rightarrow> py_error + uuid option" where
  "rule_uuid r = (case r of None \<Rightarrow> Inr None | Some s \<Rightarrow> if s = [] then Inr None else and_then (parse_uuid s) (\<lambda>u. Inr (Some u)))"

text \<open>\<open>fresh\<close> and \<open>drawn\<close> are the new identifier and the random token.\<close>

definition create_endpoint ::
  "webhook_crypto \<Rightarrow> uuid \<Rightarrow> micros \<Rightarrow> string \<Rightarrow> string \<Rightarrow> endpoint_config \<Rightarrow> string \<Rightarrow> endpoint_repo
     \<Rightarrow> py_error + webhook_endpoint \<times> endpoint_repo" where
  "create_endpoint wc fresh now drawn base_url c tenant_id repo =
     (case validate_endpoint_config c of
        Some e \<Rightarrow> Inl (ValueError (ve_message e))
      | None \<Rightarrow>
          (let token = (case am_token (ec_auth c) of
                 Some t \<Rightarrow> if am_type (ec_auth c) = ''bearer'' \<and> t \<noteq> [] then py_strip t else drawn
               | None \<Rightarrow> drawn)
           in and_then (rule_uuid (ec_rule c)) (\<lambda>rule.
             (let em = \<lparr>em_id = fresh, em_tenant = tenant_id, em_name = ec_name c, em_url = base_url @ ''/'' @ fresh,
                    em_hash = wc_sha256 wc token, em_agent = ec_agent c, em_auth = sanitize_auth_method (ec_auth c), em_rule = rule,
                    em_mode = ec_mode c, em_timeout = map_option trunc_rat (ec_timeout c), em_retry = ec_retry c,
                    em_enabled = ec_enabled c, em_created = now, em_updated = now\<rparr>
              in Inr (to_endpoint em token, AList.update fresh em repo)))))"

definition get_endpoint :: "string \<Rightarrow> endpoint_repo \<Rightarrow> py_error + webhook_endpoint option" where
  "get_endpoint endpoint_id repo = and_then (parse_uuid endpoint_id) (\<lambda>u. Inr (map_option (\<lambda>em. to_endpoint em []) (map_of repo u)))"

definition update_endpoint ::
  "webhook_crypto \<Rightarrow> micros \<Rightarrow> string \<Rightarrow> endpoint_config \<Rightarrow> endpoint_repo \<Rightarrow> (py_error + webhook_endpoint) \<times> endpoint_repo" where
  "update_endpoint wc now endpoint_id c repo =
     (case validate_endpoint_config c of
        Some e \<Rightarrow> (Inl (ValueError (ve_message e)), repo)
      | None \<Rightarrow>
          (case parse_uuid endpoint_id of
             Inl e \<Rightarrow> (Inl e, repo)
           | Inr u \<Rightarrow>
               (case map_of repo u of
                  None \<Rightarrow> (Inl (KeyError (''Endpoint not found: '' @ endpoint_id)), repo)
                | Some em \<Rightarrow>
                    (let em1 = em\<lparr>em_name := ec_name c, em_agent := ec_agent c, em_mode := ec_mode c,
                           em_timeout := map_option trunc_rat (ec_timeout c), em_enabled := ec_enabled c,
                           em_auth := sanitize_auth_method (ec_auth c),
                           em_hash := (case am_token (ec_auth c) of
                              Some t \<Rightarrow> if am_type (ec_auth c) = ''bearer'' \<and> t \<noteq> [] then wc_sha256 wc (py_strip t) else em_hash em
                            | None \<Rightarrow> em_hash em)\<rparr>
                     in (case rule_uuid (ec_rule c) of
                           Inl e \<Rightarrow> (Inl e, AList.update u em1 repo)
                         | Inr rule \<Rightarrow>
                             (let em2 = em1\<lparr>em_rule := rule, em_retry := ec_retry c, em_updated := now\<rparr>
                              in (Inr (to_endpoint em2 []), AList.update u em2 repo)))))))"

definition delete_endpoint :: "string \<Rightarrow> endpoint_repo \<Rightarrow> py_error + endpoint_repo" where
  "delete_endpoint endpoint_id repo = and_then (parse_uuid endpoint_id) (\<lambda>u. Inr (AList.delete u repo))"

definition repo_list :: "string \<Rightarrow> bool option \<Rightarrow> endpoint_repo \<Rightarrow> endpoint_model list" where
  "repo_list tenant_id enabled repo =
     (let items = filter (\<lambda>em. em_tenant em = tenant_id) (map snd repo);
          items = (case enabled of None \<Rightarrow> items | Some b \<Rightarrow> filter (\<lambda>em. em_enabled em = b) items)
      in sort_asc em_created items)"

definition list_endpoints :: "string \<Rightarrow> string option \<Rightarrow> bool option \<Rightarrow> endpoint_repo \<Rightarrow> webhook_endpoint list" where
  "list_endpoints tenant_id agent enabled repo =
     (let endpoints = map (\<lambda>em. to_endpoint em []) (repo_list tenant_id enabled repo)
      in (case agent of None \<Rightarrow> endpoints | Some a \<Rightarrow> filter (\<lambda>e. ec_agent (we_config e) = a) endpoints))"

subsection \<open>The validator\<close>

definition normalize_headers :: "(string \<times> string) list \<Rightarrow> (string \<times> string) list" where
  "normalize_headers headers = fold (\<lambda>(k, v) d. AList.update (py_lower k) v d) headers []"

definition header_or_empty :: "string \<Rightarrow> (string \<times> string) list \<Rightarrow> string" where
  "header_or_empty k headers = (case map_of headers k of None \<Rightarrow> [] | Some v \<Rightarrow> v)"

definition is_ascii :: "string \<Rightarrow> bool" where
  "is_ascii s = list_all (\<lambda>c. of_char c < (128 :: nat)) s"

text \<open>\<open>hmac.compare_digest\<close> takes two strings only if both are ASCII.\<close>

definition compare_digest :: "string \<Rightarrow> string \<Rightarrow> py_error + bool" where
  "compare_digest a b =
     (if is_ascii a \<and> is_ascii b then Inr (a = b)
      else Inl (TypeError ''comparing strings with non-ASCII characters is not supported''))"

definition invalid_token :: "string \<Rightarrow> validation_error option" where
  "invalid_token message = Some (verror ''INVALID_TOKEN'' message (Some 401))"

definition after_prefix :: "string \<Rightarrow> string \<Rightarrow> string option" where
  "after_prefix p s = (if take (length p) s = p then Some (drop (length p) s) else None)"

definition validate_bearer_hash :: "webhook_crypto \<Rightarrow> string \<Rightarrow> string \<Rightarrow> py_error + validation_error option" where
  "validate_bearer_hash wc authorization expected_token_hash =
     (case after_prefix ''Bearer '' authorization of
        None \<Rightarrow> Inr (invalid_token ''missing bearer token'')
      | Some rest \<Rightarrow>
          (let provided_token = py_strip rest in
           if provided_token = [] then Inr (invalid_token ''invalid bearer token'')
           else and_then (compare_digest (wc_sha256 wc provided_token) expected_token_hash) (\<lambda>same.
             Inr (if same then None else invalid_token ''invalid bearer token''))))"

definition validate_basic :: "webhook_crypto \<Rightarrow> string \<Rightarrow> string option \<Rightarrow> string option \<Rightarrow> py_error + validation_error option" where
  "validate_basic wc authorization username password =
     (case (username, password) of
        (Some u, Some p) \<Rightarrow>
          if u = [] \<or> p = [] then Inr (invalid_token ''basic auth credential is not configured'')
          else (case after_prefix ''Basic '' authorization of
              None \<Rightarrow> Inr (invalid_token ''missing basic auth token'')
            | Some rest \<Rightarrow>
                (case wc_b64_text wc (py_strip rest) of
                   None \<Rightarrow> Inr (invalid_token ''invalid basic auth token'')
                 | Some decoded \<Rightarrow>
                     if CHR '':'' \<notin> set decoded then Inr (invalid_token ''invalid basic auth token'')
                     else (let provided_username = takeWhile (\<lambda>c. c \<noteq> CHR '':'') decoded;
                               provided_password = drop 1 (dropWhile (\<lambda>c. c \<noteq> CHR '':'') decoded)
                           in and_then (compare_digest provided_username u) (\<lambda>user_ok.
                                if \<not> user_ok then Inr (invalid_token ''invalid basic auth token'')
                                else and_then (compare_digest provided_password p) (\<lambda>pass_ok.
                                  Inr (if pass_ok then None else invalid_token ''invalid basic auth token''))))))
      | _ \<Rightarrow> Inr (invalid_token ''basic auth credential is not configured''))"

definition validate_auth :: "webhook_crypto \<Rightarrow> http_request \<Rightarrow> webhook_endpoint \<Rightarrow> py_error + validation_error option" where
  "validate_auth wc request endpoint =
     (let a = ec_auth (we_config endpoint);
          authorization = header_or_empty ''authorization'' (normalize_headers (hr_headers request))
      in if am_type a = ''bearer'' then validate_bearer_hash wc authorization (we_hash endpoint)
         else if am_type a = ''basic'' then validate_basic wc authorization (am_username a) (am_password a)
         else if am_type a = ''hmac'' then Inr None
         else Inr (Some (verror ''INVALID_AUTH_METHOD'' ''unsupported auth method'' (Some 401))))"

definition normalize_signature :: "string \<Rightarrow> string \<Rightarrow> string option" where
  "normalize_signature signature_header algorithm =
     (let lower = strip_lower signature_header in
      case after_prefix (algorithm @ ''='') lower of
        Some rest \<Rightarrow> Some rest
      | None \<Rightarrow> if after_prefix ''sha256='' lower \<noteq> None \<or> after_prefix ''sha512='' lower \<noteq> None then None else Some lower)"

definition invalid_signature :: "string \<Rightarrow> string \<Rightarrow> validation_error option" where
  "invalid_signature code message = Some (verror code message (Some 403))"

definition validate_signature :: "webhook_crypto \<Rightarrow> http_request \<Rightarrow> webhook_endpoint \<Rightarrow> py_error + validation_error option" where
  "validate_signature wc request endpoint =
     (let a = ec_auth (we_config endpoint) in
      if am_type a \<noteq> ''hmac'' then Inr None
      else (case (am_secret a, am_algorithm a) of
          (Some secret, Some algorithm) \<Rightarrow>
            if secret = [] \<or> algorithm \<notin> {''sha256'', ''sha512''}
            then Inr (invalid_signature ''SIGNATURE_CONFIG_ERROR'' ''hmac secret and algorithm are required'')
            else (let signature_header = header_or_empty ''x-signature'' (normalize_headers (hr_headers request)) in
              if signature_header = [] then Inr (invalid_signature ''MISSING_SIGNATURE'' ''x-signature header is required'')
              else (case normalize_signature signature_header algorithm of
                  None \<Rightarrow> Inr (invalid_signature ''INVALID_SIGNATURE'' ''signature verification failed'')
                | Some normalized \<Rightarrow>
                    and_then (compare_digest (wc_hmac wc algorithm secret (hr_body request)) normalized) (\<lambda>same.
                      Inr (if same then None else invalid_signature ''INVALID_SIGNATURE'' ''signature verification failed''))))
        | _ \<Rightarrow> Inr (invalid_signature ''SIGNATURE_CONFIG_ERROR'' ''hmac secret and algorithm are required'')))"

definition content_type_of :: "string \<Rightarrow> string" where
  "content_type_of v = strip_lower (takeWhile (\<lambda>c. c \<noteq> CHR '';'') v)"

definition supported_types :: "string list" where
  "supported_types = [''application/json'', ''application/xml'', ''text/xml'', ''application/x-www-form-urlencoded'']"

definition validate_format :: "http_request \<Rightarrow> validation_error option" where
  "validate_format request =
     (let content_type = content_type_of (header_or_empty ''content-type'' (normalize_headers (hr_headers request))) in
      if content_type = [] then Some (verror ''INVALID_FORMAT'' ''content-type header is required'' (Some 400))
      else if content_type \<notin> set supported_types
      then Some ((verror ''INVALID_FORMAT'' ''unsupported content type'' (Some 400))\<lparr>ve_details := [(''content_type'', PStr content_type)]\<rparr>)
      else None)"

definition endpoint_not_found :: validation_error where
  "endpoint_not_found = verror ''ENDPOINT_NOT_FOUND'' ''endpoint not found'' (Some 404)"

text \<open>The endpoint, or the error that ends the request.\<close>

definition validate_endpoint :: "string \<Rightarrow> endpoint_repo \<Rightarrow> py_error + (validation_error + webhook_endpoint)" where
  "validate_endpoint endpoint_id repo =
     and_then (get_endpoint endpoint_id repo) (\<lambda>r.
       (case r of
          None \<Rightarrow> Inr (Inl endpoint_not_found)
        | Some e \<Rightarrow> if \<not> ec_enabled (we_config e) then Inr (Inl endpoint_not_found) else Inr (Inr e)))"

definition validate_request ::
  "webhook_crypto \<Rightarrow> string \<Rightarrow> http_request \<Rightarrow> endpoint_repo \<Rightarrow> py_error + (validation_error + webhook_endpoint)" where
  "validate_request wc endpoint_id request repo =
     and_then (validate_endpoint endpoint_id repo) (\<lambda>r.
       (case r of
          Inl e \<Rightarrow> Inr (Inl e)
        | Inr endpoint \<Rightarrow>
            and_then (validate_auth wc request endpoint) (\<lambda>a.
              (case a of
                 Some e \<Rightarrow> Inr (Inl e)
               | None \<Rightarrow>
                   and_then (validate_signature wc request endpoint) (\<lambda>s.
                     (case s of
                        Some e \<Rightarrow> Inr (Inl e)
                      | None \<Rightarrow> (case validate_format request of Some e \<Rightarrow> Inr (Inl e) | None \<Rightarrow> Inr (Inr endpoint))))))))"

subsection \<open>Identifiers\<close>

lemma remove_word_absent: "x \<in> set w \<Longrightarrow> x \<notin> set s \<Longrightarrow> remove_word w s = s"
proof (induction w s rule: remove_word.induct)
  case (2 w c cs)
  have "take (length w) (c # cs) \<noteq> w" using 2(3,4) by (metis in_set_takeD)
  with 2 show ?case by simp
qed simp

lemma of_char_lower: "of_char (lower_char c) = (let n = of_char c :: nat in
     if (65 \<le> n \<and> n \<le> 90) \<or> (192 \<le> n \<and> n \<le> 222 \<and> n \<noteq> 215) then n + 32 else n)"
  by (simp add: lower_char_def Let_def)

lemma lower_char_idem [simp]: "lower_char (lower_char c) = lower_char c"
proof -
  have "of_char (lower_char (lower_char c)) = (of_char (lower_char c) :: nat)"
    unfolding of_char_lower Let_def by auto
  then show ?thesis by (metis char_of_char)
qed

lemma is_hex_lower:
  assumes "is_hex c"
  shows "is_hex (lower_char c)"
proof (cases "is_digit c")
  case True
  then have "48 \<le> (of_char c :: int) \<and> (of_char c :: int) \<le> 57" by (simp add: is_digit_def digit_of_def Let_def split: if_splits)
  moreover have "(of_char c :: int) = int (of_char c)" by (metis of_nat_of_char)
  ultimately have "lower_char c = c" by (simp add: lower_char_def Let_def)
  with True show ?thesis by (simp add: is_hex_def)
next
  case False
  with assms have "c = CHR ''a'' \<or> c = CHR ''b'' \<or> c = CHR ''c'' \<or> c = CHR ''d'' \<or> c = CHR ''e'' \<or> c = CHR ''f'' \<or> c = CHR ''A'' \<or> c = CHR ''B'' \<or> c = CHR ''C'' \<or> c = CHR ''D'' \<or> c = CHR ''E'' \<or> c = CHR ''F''" by (simp add: is_hex_def)
  then show ?thesis by (elim disjE; hypsubst; code_simp)
qed

lemma is_hex_facts: "is_hex c \<Longrightarrow> c \<noteq> CHR ''-'' \<and> c \<noteq> CHR '':'' \<and> c \<notin> set ''{}''"
  by (auto simp: is_hex_def is_digit_def digit_of_def)

lemma set_uuid_text: "set (uuid_text h) \<subseteq> insert (CHR ''-'') (set h)"
  by (auto simp: uuid_text_def dest: in_set_takeD in_set_dropD)

lemma filter_uuid_text:
  assumes "list_all is_hex h"
  shows "filter (\<lambda>c. c \<noteq> CHR ''-'') (uuid_text h) = h"
proof -
  have keep: "filter (\<lambda>c. c \<noteq> CHR ''-'') s = s" if "set s \<subseteq> set h" for s
    using assms that is_hex_facts by (force simp: filter_id_conv list_all_iff)
  have sub: "set (take n (drop k h)) \<subseteq> set h" for n k by (meson order.trans set_drop_subset set_take_subset)
  have "filter (\<lambda>c. c \<noteq> CHR ''-'') (uuid_text h) = take 8 h @ take 4 (drop 8 h) @ take 4 (drop 12 h) @ take 4 (drop 16 h) @ drop 20 h"
    by (simp add: uuid_text_def keep sub set_take_subset set_drop_subset)
  also have "\<dots> = h"
    using append_take_drop_id [of 8 h] append_take_drop_id [of 4 "drop 8 h"] append_take_drop_id [of 4 "drop 12 h"]
      append_take_drop_id [of 4 "drop 16 h"] by simp
  finally show ?thesis .
qed

text \<open>A parsed identifier is its own canonical text.\<close>

lemma parse_uuid_idem:
  assumes "parse_uuid s = Inr u"
  shows "parse_uuid u = Inr u"
proof -
  obtain h where h: "length h = 32" "list_all is_hex h" and u: "u = uuid_text (py_lower h)"
    using assms by (auto simp: parse_uuid_def Let_def split: if_splits)
  let ?l = "py_lower h"
  have l: "length ?l = 32" "list_all is_hex ?l" using h by (simp_all add: py_lower_def list_all_iff is_hex_lower)
  have no_colon: "CHR '':'' \<notin> set u" using set_uuid_text [of ?l] l(2) is_hex_facts u by (auto simp: list_all_iff)
  have rm: "remove_word ''uuid:'' (remove_word ''urn:'' u) = u"
    using remove_word_absent [of "CHR '':''" "''urn:''" u] remove_word_absent [of "CHR '':''" "''uuid:''" u] no_colon by simp
  have no_brace: "\<forall>c \<in> set u. c \<notin> set ''{}''" using set_uuid_text [of ?l] l(2) is_hex_facts u by (auto simp: list_all_iff)
  then have "strip_braces u = u" by (simp add: strip_braces_def dropWhile_none list_all_iff)
  moreover have "py_lower ?l = ?l" by (simp add: py_lower_def o_def)
  ultimately show ?thesis using l filter_uuid_text [OF l(2)] rm by (simp add: parse_uuid_def u Let_def)
qed

subsection \<open>What the validator admits\<close>

text \<open>
  The credentials of a request, said without the steps of the code: the token hashes to the stored
  hash, or user and password are the stored ones, or the signature is the keyed hash of the body.
\<close>

definition authentic :: "webhook_crypto \<Rightarrow> http_request \<Rightarrow> webhook_endpoint \<Rightarrow> bool" where
  "authentic wc request endpoint =
     (let a = ec_auth (we_config endpoint); headers = normalize_headers (hr_headers request);
          authorization = header_or_empty ''authorization'' headers
      in if am_type a = ''bearer''
         then (case after_prefix ''Bearer '' authorization of None \<Rightarrow> False
               | Some t \<Rightarrow> py_strip t \<noteq> [] \<and> wc_sha256 wc (py_strip t) = we_hash endpoint)
         else if am_type a = ''basic''
         then (case after_prefix ''Basic '' authorization of None \<Rightarrow> False
               | Some t \<Rightarrow> (case (am_username a, am_password a) of
                     (Some u, Some p) \<Rightarrow> u \<noteq> [] \<and> p \<noteq> [] \<and> CHR '':'' \<notin> set u \<and> wc_b64_text wc (py_strip t) = Some (u @ '':'' @ p)
                   | _ \<Rightarrow> False))
         else if am_type a = ''hmac''
         then (case (am_secret a, am_algorithm a) of
                 (Some secret, Some algorithm) \<Rightarrow> secret \<noteq> []
                   \<and> normalize_signature (header_or_empty ''x-signature'' headers) algorithm = Some (wc_hmac wc algorithm secret (hr_body request))
               | _ \<Rightarrow> False)
         else False)"

lemma compare_digest_True: "compare_digest a b = Inr True \<Longrightarrow> a = b"
  by (simp add: compare_digest_def split: if_splits)

lemma after_prefix_Some: "after_prefix p s = Some t \<longleftrightarrow> s = p @ t"
  by (auto simp: after_prefix_def) (metis append_take_drop_id)

lemma validate_bearer_ok:
  assumes "validate_bearer_hash wc authorization h = Inr None"
  shows "\<exists>t. after_prefix ''Bearer '' authorization = Some t \<and> py_strip t \<noteq> [] \<and> wc_sha256 wc (py_strip t) = h"
  using assms compare_digest_True
  by (auto simp: validate_bearer_hash_def Let_def and_then_Inr_iff invalid_token_def split: option.splits if_splits)

lemma split_at_colon: "CHR '':'' \<in> set s \<Longrightarrow> s = takeWhile (\<lambda>c. c \<noteq> CHR '':'') s @ '':'' @ drop 1 (dropWhile (\<lambda>c. c \<noteq> CHR '':'') s)"
  by (induction s) auto

lemma validate_basic_ok:
  assumes "validate_basic wc authorization username password = Inr None"
  shows "\<exists>t u p. after_prefix ''Basic '' authorization = Some t \<and> username = Some u \<and> password = Some p \<and> u \<noteq> [] \<and> p \<noteq> []
    \<and> CHR '':'' \<notin> set u \<and> wc_b64_text wc (py_strip t) = Some (u @ '':'' @ p)"
proof -
  obtain u p where up: "username = Some u" "password = Some p"
    using assms by (auto simp: validate_basic_def invalid_token_def split: option.splits)
  obtain t d where t: "after_prefix ''Basic '' authorization = Some t" and d: "wc_b64_text wc (py_strip t) = Some d"
    and ne: "u \<noteq> []" "p \<noteq> []" and colon: "CHR '':'' \<in> set d"
    using assms by (auto simp: validate_basic_def up invalid_token_def split: option.splits if_splits)
  let ?u = "takeWhile (\<lambda>c. c \<noteq> CHR '':'') d" and ?p = "drop 1 (dropWhile (\<lambda>c. c \<noteq> CHR '':'') d)"
  have "compare_digest ?u u = Inr True" "compare_digest ?p p = Inr True"
    using assms by (auto simp: validate_basic_def up t d ne colon Let_def and_then_Inr_iff invalid_token_def split: if_splits)
  then have "?u = u" "?p = p" by (blast dest: compare_digest_True)+
  moreover have "CHR '':'' \<notin> set ?u" by (auto dest: set_takeWhileD)
  ultimately show ?thesis using split_at_colon [OF colon] t d ne up by auto
qed

lemma validate_signature_ok:
  assumes "validate_signature wc request endpoint = Inr None" and "am_type (ec_auth (we_config endpoint)) = ''hmac''"
  shows "\<exists>secret algorithm. am_secret (ec_auth (we_config endpoint)) = Some secret \<and> am_algorithm (ec_auth (we_config endpoint)) = Some algorithm
    \<and> secret \<noteq> [] \<and> normalize_signature (header_or_empty ''x-signature'' (normalize_headers (hr_headers request))) algorithm
        = Some (wc_hmac wc algorithm secret (hr_body request))"
proof -
  obtain secret algorithm where sa: "am_secret (ec_auth (we_config endpoint)) = Some secret"
      "am_algorithm (ec_auth (we_config endpoint)) = Some algorithm"
    using assms by (auto simp: validate_signature_def Let_def invalid_signature_def split: option.splits)
  show ?thesis using assms compare_digest_True
    by (auto simp: validate_signature_def sa Let_def and_then_Inr_iff invalid_signature_def split: option.splits if_splits)
qed

lemma to_endpoint_frame [simp]:
  "we_id (to_endpoint em t) = em_id em" "we_hash (to_endpoint em t) = em_hash em" "we_tenant (to_endpoint em t) = em_tenant em"
  "ec_enabled (we_config (to_endpoint em t)) = em_enabled em" "ec_agent (we_config (to_endpoint em t)) = em_agent em"
  "ec_retry (we_config (to_endpoint em t)) = em_retry em" "ec_timeout (we_config (to_endpoint em t)) = map_option of_int (em_timeout em)"
  by (simp_all add: to_endpoint_def Let_def)

lemma validate_endpoint_unfold:
  "validate_endpoint endpoint_id repo =
     (case parse_uuid endpoint_id of
        Inl e \<Rightarrow> Inl e
      | Inr u \<Rightarrow> (case map_of repo u of
            None \<Rightarrow> Inr (Inl endpoint_not_found)
          | Some em \<Rightarrow> if em_enabled em then Inr (Inr (to_endpoint em [])) else Inr (Inl endpoint_not_found)))"
  by (simp add: validate_endpoint_def get_endpoint_def split: sum.split option.split)

lemma validate_endpoint_found:
  assumes "validate_endpoint endpoint_id repo = Inr (Inr endpoint)"
  shows "case parse_uuid endpoint_id of Inl e \<Rightarrow> False
      | Inr u \<Rightarrow> (case map_of repo u of None \<Rightarrow> False | Some em \<Rightarrow> endpoint = to_endpoint em [] \<and> em_enabled em)"
  using assms unfolding validate_endpoint_unfold by (simp split: sum.splits option.splits if_splits)

lemma validate_request_unfold:
  "validate_request wc endpoint_id request repo =
     (case validate_endpoint endpoint_id repo of
        Inl e \<Rightarrow> Inl e
      | Inr (Inl e) \<Rightarrow> Inr (Inl e)
      | Inr (Inr endpoint) \<Rightarrow>
          (case validate_auth wc request endpoint of
             Inl e \<Rightarrow> Inl e
           | Inr (Some e) \<Rightarrow> Inr (Inl e)
           | Inr None \<Rightarrow>
               (case validate_signature wc request endpoint of
                  Inl e \<Rightarrow> Inl e
                | Inr (Some e) \<Rightarrow> Inr (Inl e)
                | Inr None \<Rightarrow> (case validate_format request of Some e \<Rightarrow> Inr (Inl e) | None \<Rightarrow> Inr (Inr endpoint)))))"
  by (simp add: validate_request_def and_then_def split: sum.split option.split)

lemma validate_request_steps:
  assumes "validate_request wc endpoint_id request repo = Inr (Inr endpoint)"
  shows "validate_endpoint endpoint_id repo = Inr (Inr endpoint) \<and> validate_auth wc request endpoint = Inr None
    \<and> validate_signature wc request endpoint = Inr None \<and> validate_format request = None"
  using assms unfolding validate_request_unfold by (simp split: sum.splits option.splits)

text \<open>
  The validator lets a request through only if it names an endpoint that is stored and
  enabled, carries the credentials that endpoint asks for (for an endpoint with a signature: the
  keyed hash of this very body), and declares a supported content type; and it then answers with
  that endpoint.
\<close>

lemma validated_request_authentic:
  assumes "validate_request wc endpoint_id request repo = Inr (Inr endpoint)"
  shows "(case parse_uuid endpoint_id of Inl e \<Rightarrow> False
      | Inr u \<Rightarrow> (case map_of repo u of None \<Rightarrow> False | Some em \<Rightarrow> endpoint = to_endpoint em [] \<and> em_enabled em))
    \<and> authentic wc request endpoint
    \<and> content_type_of (header_or_empty ''content-type'' (normalize_headers (hr_headers request))) \<in> set supported_types"
proof -
  have e: "validate_endpoint endpoint_id repo = Inr (Inr endpoint)" and a: "validate_auth wc request endpoint = Inr None"
    and s: "validate_signature wc request endpoint = Inr None" and f: "validate_format request = None"
    using validate_request_steps [OF assms] by simp_all
  note stored = validate_endpoint_found [OF e]
  consider "am_type (ec_auth (we_config endpoint)) = ''bearer''" | "am_type (ec_auth (we_config endpoint)) = ''basic''"
    | "am_type (ec_auth (we_config endpoint)) = ''hmac''"
    using a by (auto simp: validate_auth_def Let_def split: if_splits)
  then have "authentic wc request endpoint"
  proof cases
    case 1
    with a validate_bearer_ok show ?thesis by (fastforce simp: validate_auth_def authentic_def Let_def)
  next
    case 2
    with a validate_basic_ok show ?thesis by (fastforce simp: validate_auth_def authentic_def Let_def)
  next
    case 3
    with s validate_signature_ok show ?thesis by (fastforce simp: authentic_def Let_def)
  qed
  moreover have "content_type_of (header_or_empty ''content-type'' (normalize_headers (hr_headers request))) \<in> set supported_types"
    using f by (auto simp: validate_format_def Let_def split: if_splits)
  ultimately show ?thesis using stored by simp
qed

subsection \<open>What is stored of an endpoint\<close>

definition kept_auth :: "auth_method \<Rightarrow> auth_method" where
  "kept_auth a =
     \<lparr>am_type = am_type a, am_token = None,
      am_secret = (if am_type a = ''hmac'' then am_secret a else None), am_algorithm = (if am_type a = ''hmac'' then am_algorithm a else None),
      am_username = (if am_type a = ''basic'' then am_username a else None),
      am_password = (if am_type a = ''basic'' then am_password a else None)\<rparr>"

definition kept_config :: "endpoint_config \<Rightarrow> uuid option \<Rightarrow> endpoint_config" where
  "kept_config c rule = c\<lparr>ec_auth := kept_auth (ec_auth c), ec_rule := rule, ec_timeout := map_option (\<lambda>t. of_int (trunc_rat t)) (ec_timeout c)\<rparr>"

lemma auth_round_trip:
  assumes "am_type a \<in> {''bearer'', ''hmac'', ''basic''}"
  shows "(let am = sanitize_auth_method a in
     \<lparr>am_type = normalize_auth_method_type (case map_of am ''type'' of Some (Some t) \<Rightarrow> t | Some None \<Rightarrow> ''None'' | None \<Rightarrow> ''bearer''),
      am_token = opt_get am ''token'', am_secret = opt_get am ''secret'', am_algorithm = opt_get am ''algorithm'',
      am_username = opt_get am ''username'', am_password = opt_get am ''password''\<rparr>) = kept_auth a"
  using assms by (auto simp: sanitize_auth_method_def kept_auth_def opt_get_def normalize_auth_method_type_def)

lemma create_endpoint_steps:
  assumes "create_endpoint wc fresh now drawn base_url c tenant_id repo = Inr (e, repo')"
  obtains em rule token where "rule_uuid (ec_rule c) = Inr rule" "e = to_endpoint em token" "repo' = AList.update fresh em repo"
    "em_name em = ec_name c" "em_agent em = ec_agent c" "em_auth em = sanitize_auth_method (ec_auth c)" "em_rule em = rule"
    "em_mode em = ec_mode c" "em_timeout em = map_option trunc_rat (ec_timeout c)" "em_retry em = ec_retry c" "em_enabled em = ec_enabled c"
proof -
  have v: "validate_endpoint_config c = None"
    using assms by (cases "validate_endpoint_config c") (simp_all add: create_endpoint_def)
  obtain rule where r: "rule_uuid (ec_rule c) = Inr rule"
    using assms v by (cases "rule_uuid (ec_rule c)") (simp_all add: create_endpoint_def Let_def)
  show thesis using assms v r by (intro that [OF r]) (auto simp: create_endpoint_def Let_def)
qed

text \<open>
  C32. Creating an endpoint and reading it back gives the endpoint that was created, in the same
  repository state and under the identifier it got. Its configuration is the one that was given,
  but for what is not kept: the bearer token (only its hash is), the fields the authentication
  type does not use, and the fraction of a timeout. A timeout below one second, which the
  validation accepts, comes back as zero.
\<close>

theorem endpoint_round_trip:
  assumes "create_endpoint wc fresh now drawn base_url c tenant_id repo = Inr (e, repo')"
    and "parse_uuid fresh = Inr fresh" and "am_type (ec_auth c) \<in> {''bearer'', ''hmac'', ''basic''}" and "ec_mode c \<in> {''sync'', ''async''}"
  shows "get_endpoint fresh repo' = Inr (Some (e\<lparr>we_token := []\<rparr>))
    \<and> (case rule_uuid (ec_rule c) of Inl x \<Rightarrow> False | Inr rule \<Rightarrow> we_config e = kept_config c rule)"
proof -
  obtain em rule token where em: "rule_uuid (ec_rule c) = Inr rule" "e = to_endpoint em token" "repo' = AList.update fresh em repo"
    "em_name em = ec_name c" "em_agent em = ec_agent c" "em_auth em = sanitize_auth_method (ec_auth c)" "em_rule em = rule"
    "em_mode em = ec_mode c" "em_timeout em = map_option trunc_rat (ec_timeout c)" "em_retry em = ec_retry c" "em_enabled em = ec_enabled c"
    using assms(1) by (rule create_endpoint_steps)
  have "get_endpoint fresh repo' = Inr (Some (to_endpoint em []))" by (simp add: get_endpoint_def assms(2) em(3) update_conv')
  moreover have "to_endpoint em [] = e\<lparr>we_token := []\<rparr>" by (simp add: em(2) to_endpoint_def Let_def)
  moreover have "we_config e = kept_config c rule"
    using assms(4) auth_round_trip [OF assms(3)] em
    by (simp add: to_endpoint_def Let_def kept_config_def normalize_execution_mode_def option.map_comp o_def)
  ultimately show ?thesis using em(1) by simp
qed

text \<open>A small example of each.\<close>

definition plain_crypto :: webhook_crypto where
  "plain_crypto = \<lparr>wc_sha256 = (\<lambda>s. s), wc_hmac = (\<lambda>a k b. k @ b), wc_b64_text = Some\<rparr>"

definition sample_id :: uuid where
  "sample_id = ''00000000-0000-4000-8000-00000000000a''"

definition sample_config :: endpoint_config where
  "sample_config = \<lparr>ec_name = ''n'', ec_agent = ''a'', ec_auth = \<lparr>am_type = ''bearer'', am_token = Some ''t'', am_secret = None,
     am_algorithm = None, am_username = None, am_password = None\<rparr>, ec_rule = None, ec_mode = ''async'', ec_timeout = Some (1 / 2),
     ec_retry = None, ec_enabled = True\<rparr>"

definition sample_model :: endpoint_model where
  "sample_model = \<lparr>em_id = sample_id, em_tenant = ''d'', em_name = ''n'', em_url = ''/w/'' @ sample_id, em_hash = ''t'', em_agent = ''a'',
     em_auth = [(''type'', Some ''bearer'')], em_rule = None, em_mode = ''async'', em_timeout = Some 0, em_retry = None,
     em_enabled = True, em_created = 7, em_updated = 7\<rparr>"

definition sample_request :: http_request where
  "sample_request = \<lparr>hr_headers = [(''Authorization'', ''Bearer t''), (''Content-Type'', ''text/xml'')], hr_body = ''<a/>''\<rparr>"

lemma sample_id_canonical: "parse_uuid sample_id = Inr sample_id"
  by code_simp

lemma trunc_half: "trunc_rat (1 / 2) = 0"
  by code_simp

lemma sample_created:
  "create_endpoint plain_crypto sample_id 7 ''r'' ''/w'' sample_config ''d'' [] =
     Inr (to_endpoint sample_model ''t'', [(sample_id, sample_model)])"
  by (simp add: create_endpoint_def sample_config_def validate_endpoint_config_def present_def py_strip_def py_space_def rule_uuid_def
      sanitize_auth_method_def plain_crypto_def sample_model_def trunc_half Let_def)

lemma sample_validated:
  "validate_request plain_crypto sample_id sample_request [(sample_id, sample_model)] = Inr (Inr (to_endpoint sample_model []))"
proof -
  have "normalize_headers (hr_headers sample_request) = [(''authorization'', ''Bearer t''), (''content-type'', ''text/xml'')]"
    by code_simp
  moreover have "am_type (ec_auth (we_config (to_endpoint sample_model []))) = ''bearer''"
    by (simp add: to_endpoint_def sample_model_def normalize_auth_method_type_def Let_def)
  moreover have "after_prefix ''Bearer '' ''Bearer t'' = Some ''t''" "py_strip ''t'' = ''t''" "content_type_of ''text/xml'' = ''text/xml''"
    "is_ascii ''t''"
    by code_simp+
  ultimately show ?thesis
    by (simp add: validate_request_unfold validate_endpoint_unfold sample_id_canonical validate_auth_def validate_bearer_hash_def
        validate_signature_def validate_format_def header_or_empty_def compare_digest_def plain_crypto_def supported_types_def sample_model_def Let_def)
qed

theorem endpoint_round_trip_witness:
  "get_endpoint sample_id [(sample_id, sample_model)] = Inr (Some ((to_endpoint sample_model ''t'')\<lparr>we_token := []\<rparr>))"
  using endpoint_round_trip [OF sample_created sample_id_canonical] by (simp add: sample_config_def)

end
