(* ===== verification/WebhookMonitor.thy ===== *)
theory WebhookMonitor
  imports WebhookEndpoints
begin

section \<open>Webhooks: events, monitoring, configuration versions\<close>

text \<open>
  \<open>event_logger.py\<close> over the in-memory repository of events, \<open>monitoring.py\<close> and
  \<open>configuration.py\<close> of \<open>owlclaw/triggers/webhook/\<close>. The alert notifier and the listeners of the
  configuration are logs of what they are given; the files and the environment of a configuration
  are arguments.
\<close>

subsection \<open>Events\<close>

record webhook_event =
  ev_id :: uuid
  ev_endpoint :: string
  ev_type :: string
  ev_time :: micros
  ev_request :: string
  ev_ip :: "string option"
  ev_agent :: "string option"
  ev_duration :: "int option"
  ev_status :: "string option"
  ev_data :: pyval
  ev_error :: pyval
  ev_tenant :: string

record event_filter =
  ef_tenant :: string
  ef_endpoint :: "string option"
  ef_request :: "string option"
  ef_type :: "string option"
  ef_status :: "string option"
  ef_start :: "micros option"
  ef_end :: "micros option"
  ef_page :: int
  ef_page_size :: int

definition build_event :: "uuid \<Rightarrow> micros \<Rightarrow> string \<Rightarrow> string \<Rightarrow> string \<Rightarrow> webhook_event" where
  "build_event fresh now endpoint_id request_id event_type =
     \<lparr>ev_id = fresh, ev_endpoint = endpoint_id, ev_type = event_type, ev_time = now, ev_request = request_id, ev_ip = None, ev_agent = None,
      ev_duration = None, ev_status = None, ev_data = PNone, ev_error = PNone, ev_tenant = ''default''\<rparr>"

definition log_event :: "uuid \<Rightarrow> string \<Rightarrow> webhook_event \<Rightarrow> webhook_event list \<Rightarrow> py_error + webhook_event list" where
  "log_event fresh event_type event events =
     and_then (if ev_id event = [] then Inr fresh else parse_uuid (ev_id event)) (\<lambda>i.
       and_then (parse_uuid (ev_endpoint event)) (\<lambda>endpoint_id.
         Inr (events @ [event\<lparr>ev_id := i, ev_endpoint := endpoint_id, ev_type := event_type\<rparr>])))"

definition event_query :: "event_filter \<Rightarrow> uuid option \<Rightarrow> int \<Rightarrow> int \<Rightarrow> webhook_event list \<Rightarrow> webhook_event list" where
  "event_query f endpoint_id offset limit events =
     (let items = filter (\<lambda>e. ev_tenant e = ef_tenant f) events;
          items = (case endpoint_id of None \<Rightarrow> items | Some i \<Rightarrow> filter (\<lambda>e. ev_endpoint e = i) items);
          items = (case ef_request f of None \<Rightarrow> items | Some r \<Rightarrow> filter (\<lambda>e. ev_request e = r) items);
          items = (case ef_type f of None \<Rightarrow> items | Some t \<Rightarrow> filter (\<lambda>e. ev_type e = t) items);
          items = (case ef_status f of None \<Rightarrow> items | Some s \<Rightarrow> filter (\<lambda>e. ev_status e = Some s) items);
          items = (case ef_start f of None \<Rightarrow> items | Some t \<Rightarrow> filter (\<lambda>e. t \<le> ev_time e) items);
          items = (case ef_end f of None \<Rightarrow> items | Some t \<Rightarrow> filter (\<lambda>e. ev_time e \<le> t) items)
      in take (nat (max 1 limit)) (drop (nat (max 0 offset)) (sort_asc ev_time items)))"

definition query_events :: "event_filter \<Rightarrow> webhook_event list \<Rightarrow> py_error + webhook_event list" where
  "query_events f events =
     (let offset = max 0 (ef_page f - 1) * max 1 (ef_page_size f) in
      and_then (case ef_endpoint f of None \<Rightarrow> Inr None | Some s \<Rightarrow> and_then (parse_uuid s) (\<lambda>u. Inr (Some u))) (\<lambda>endpoint_id.
        Inr (event_query f endpoint_id offset (ef_page_size f) events)))"

subsection \<open>Monitoring\<close>

record metric =
  mr_name :: string
  mr_value :: rat
  mr_time :: micros
  mr_tags :: "(string \<times> string) list"

record alert =
  al_name :: string
  al_severity :: string
  al_message :: string
  al_time :: micros
  al_tags :: "(string \<times> string) list"

record monitor =
  mo_failure_threshold :: rat
  mo_response_threshold :: rat
  mo_dedup :: micros
  mo_metrics :: "metric list"
  mo_alerts :: "alert list"
  mo_last :: "(string \<times> micros) list"

definition monitor_new :: "rat \<Rightarrow> rat \<Rightarrow> int \<Rightarrow> monitor" where
  "monitor_new failure_rate response_time dedup_window_seconds =
     \<lparr>mo_failure_threshold = failure_rate, mo_response_threshold = response_time, mo_dedup = secs dedup_window_seconds,
      mo_metrics = [], mo_alerts = [], mo_last = []\<rparr>"

definition trigger_alert :: "alert \<Rightarrow> monitor \<Rightarrow> bool \<times> monitor" where
  "trigger_alert a mo =
     (if (case map_of (mo_last mo) (al_name a) of None \<Rightarrow> False | Some before \<Rightarrow> al_time a - before < mo_dedup mo) then (False, mo)
      else (True, mo\<lparr>mo_alerts := mo_alerts mo @ [a], mo_last := AList.update (al_name a) (al_time a) (mo_last mo)\<rparr>))"

record metric_stats =
  ms_requests :: int
  ms_success :: rat
  ms_failure :: rat
  ms_average :: rat
  ms_p95 :: rat
  ms_p99 :: rat

definition mean :: "rat list \<Rightarrow> rat" where
  "mean samples = (if samples = [] then 0 else sum_list samples / of_nat (length samples))"

definition percentile :: "rat list \<Rightarrow> rat \<Rightarrow> rat" where
  "percentile samples p =
     (if samples = [] then 0
      else (let ordered = sort samples; n = int (length ordered); rank = round_half_even (p / 100 * of_int (n - 1))
            in ordered ! nat (max 0 (min rank (n - 1)))))"

definition filter_metrics :: "micros \<Rightarrow> micros option \<Rightarrow> micros option \<Rightarrow> string \<Rightarrow> (string \<times> string) list \<Rightarrow> metric list \<Rightarrow> metric list" where
  "filter_metrics now start_time end_time window tags metrics =
     (let start = (if window = ''hour'' then now - secs 3600 else if window = ''day'' then now - secs 86400 else now - secs 300);
          start = (case start_time of None \<Rightarrow> start | Some t \<Rightarrow> t);
          until = (case end_time of None \<Rightarrow> now | Some t \<Rightarrow> t);
          filtered = filter (\<lambda>m. start \<le> mr_time m \<and> mr_time m \<le> until) metrics
      in if tags = [] then filtered else filter (\<lambda>m. list_all (\<lambda>(k, v). map_of (mr_tags m) k = Some v) tags) filtered)"

definition stats_of :: "metric list \<Rightarrow> metric_stats" where
  "stats_of filtered =
     (let requests = filter (\<lambda>m. mr_name m = ''request_count'') filtered;
          responses = map mr_value (filter (\<lambda>m. mr_name m = ''response_time_ms'') filtered);
          statuses = filter (\<lambda>m. mr_name m = ''request_status'') filtered;
          success = length (filter (\<lambda>m. map_of (mr_tags m) ''status'' = Some ''success'') statuses);
          failure = length (filter (\<lambda>m. map_of (mr_tags m) ''status'' = Some ''failure'') statuses);
          total = success + failure
      in \<lparr>ms_requests = trunc_rat (sum_list (map mr_value requests)),
          ms_success = (if total = 0 then 1 else of_nat success / of_nat total),
          ms_failure = (if total = 0 then 0 else of_nat failure / of_nat total),
          ms_average = mean responses, ms_p95 = percentile responses 95, ms_p99 = percentile responses 99\<rparr>)"

definition get_metrics :: "micros \<Rightarrow> micros option \<Rightarrow> micros option \<Rightarrow> string \<Rightarrow> (string \<times> string) list \<Rightarrow> monitor \<Rightarrow> metric_stats" where
  "get_metrics now start_time end_time window tags mo = stats_of (filter_metrics now start_time end_time window tags (mo_metrics mo))"

text \<open>\<open>float_text\<close> prints the value of a response time in the message of its alert.\<close>

definition evaluate_thresholds :: "(rat \<Rightarrow> string) \<Rightarrow> micros \<Rightarrow> metric \<Rightarrow> monitor \<Rightarrow> monitor" where
  "evaluate_thresholds float_text now m mo =
     (if mr_name m = ''response_time_ms'' \<and> mo_response_threshold mo < mr_value m
      then snd (trigger_alert \<lparr>al_name = ''high_response_time'', al_severity = ''warning'',
             al_message = ''response time exceeded threshold: '' @ float_text (mr_value m) @ ''ms'', al_time = now, al_tags = mr_tags m\<rparr> mo)
      else if mr_name m \<noteq> ''request_status'' then mo
      else (let stats = get_metrics now None None ''realtime'' [] mo in
        if mo_failure_threshold mo < ms_failure stats
        then snd (trigger_alert \<lparr>al_name = ''high_failure_rate'', al_severity = ''critical'',
               al_message = ''failure rate exceeded threshold: '' @ fmt3 (ms_failure stats), al_time = now, al_tags = []\<rparr> mo)
        else mo))"

definition record_metric :: "(rat \<Rightarrow> string) \<Rightarrow> micros \<Rightarrow> metric \<Rightarrow> monitor \<Rightarrow> monitor" where
  "record_metric float_text now m mo = evaluate_thresholds float_text now m (mo\<lparr>mo_metrics := mo_metrics mo @ [m]\<rparr>)"

text \<open>A check answers, or raises with a text.\<close>

definition check_result :: "string \<times> (string + bool) \<Rightarrow> string \<times> string \<times> string option" where
  "check_result c = (case snd c of
      Inl m \<Rightarrow> (fst c, ''fail'', Some m)
    | Inr healthy \<Rightarrow> (fst c, if healthy then ''pass'' else ''fail'', None))"

definition get_health_status :: "(string \<times> (string + bool)) list \<Rightarrow> string \<times> (string \<times> string \<times> string option) list" where
  "get_health_status checkers =
     (let checks = map check_result checkers; failed = length (filter (\<lambda>(n, s, m). s = ''fail'') checks)
      in (if checks = [] \<or> failed = length checks then ''unhealthy'' else if 0 < failed then ''degraded'' else ''healthy'', checks))"

subsection \<open>Configuration versions\<close>

record webhook_config =
  wg_timeout :: rat
  wg_retries :: int
  wg_level :: string
  wg_endpoints :: pyval

record config_manager =
  cm_current :: webhook_config
  cm_versions :: "(string \<times> webhook_config) list"
  cm_order :: "string list"
  cm_version :: nat
  cm_notified :: "webhook_config list"

definition webhook_config_default :: webhook_config where
  "webhook_config_default = \<lparr>wg_timeout = 30, wg_retries = 3, wg_level = ''INFO'', wg_endpoints = PDict []\<rparr>"

definition config_manager_new :: config_manager where
  "config_manager_new = \<lparr>cm_current = webhook_config_default, cm_versions = [], cm_order = [], cm_version = 0, cm_notified = []\<rparr>"

definition log_levels :: "string list" where
  "log_levels = [''DEBUG'', ''INFO'', ''WARNING'', ''ERROR'']"

definition validate_webhook_config :: "webhook_config \<Rightarrow> py_error + unit" where
  "validate_webhook_config c =
     (if wg_timeout c \<le> 0 then Inl (ValueError ''timeout_seconds must be positive'')
      else if wg_retries c < 0 then Inl (ValueError ''max_retries must be >= 0'')
      else if wg_level c \<notin> set log_levels then Inl (ValueError ''log_level must be one of DEBUG/INFO/WARNING/ERROR'')
      else if \<not> is_dict (wg_endpoints c) then Inl (ValueError ''endpoints must be a dictionary'')
      else Inr ())"

definition normalize_log_level :: "string \<Rightarrow> py_error + string" where
  "normalize_log_level v =
     (if py_upper v \<in> set log_levels then Inr (py_upper v) else Inl (ValueError ''log_level must be one of DEBUG/INFO/WARNING/ERROR''))"

definition load_from_mapping :: "(pyval \<Rightarrow> string) \<Rightarrow> pyval \<Rightarrow> py_error + webhook_config" where
  "load_from_mapping str_of data =
     (let global_data = dict_get_or data ''global'' (PDict []); endpoints = dict_get_or data ''endpoints'' (PDict []);
          global_data = (if global_data = PNone then PDict [] else global_data)
      in if \<not> is_dict global_data then Inl (ValueError ''global must be a mapping'')
         else if \<not> is_dict endpoints then Inl (ValueError ''endpoints must be a mapping'')
         else and_then (py_float (dict_get_or global_data ''timeout_seconds'' (PFloat 30))) (\<lambda>timeout.
           and_then (py_int (dict_get_or global_data ''max_retries'' (PInt 3))) (\<lambda>retries.
             and_then (normalize_log_level (case dict_get_or global_data ''log_level'' (PStr ''INFO'') of PStr s \<Rightarrow> s | v \<Rightarrow> str_of v)) (\<lambda>level.
               (let c = \<lparr>wg_timeout = timeout, wg_retries = retries, wg_level = level, wg_endpoints = endpoints\<rparr>
                in and_then (validate_webhook_config c) (\<lambda>u. Inr c))))))"

definition apply_env_overrides :: "(string \<Rightarrow> string option) \<Rightarrow> webhook_config \<Rightarrow> py_error + webhook_config" where
  "apply_env_overrides getenv c =
     and_then (case getenv ''OWLCLAW_WEBHOOK_TIMEOUT_SECONDS'' of None \<Rightarrow> Inr (wg_timeout c) | Some s \<Rightarrow> py_float (PStr s)) (\<lambda>timeout.
       and_then (case getenv ''OWLCLAW_WEBHOOK_MAX_RETRIES'' of None \<Rightarrow> Inr (wg_retries c) | Some s \<Rightarrow> py_int (PStr s)) (\<lambda>retries.
         and_then (case getenv ''OWLCLAW_WEBHOOK_LOG_LEVEL'' of None \<Rightarrow> Inr (wg_level c) | Some s \<Rightarrow> normalize_log_level s) (\<lambda>level.
           (let updated = c\<lparr>wg_timeout := timeout, wg_retries := retries, wg_level := level\<rparr>
            in and_then (validate_webhook_config updated) (\<lambda>u. Inr updated)))))"

definition config_update :: "webhook_config \<Rightarrow> config_manager \<Rightarrow> py_error + string \<times> config_manager" where
  "config_update c cm =
     and_then (validate_webhook_config c) (\<lambda>u.
       (let version_id = ''v'' @ show_nat (cm_version cm + 1)
        in Inr (version_id, cm\<lparr>cm_current := c, cm_versions := AList.update version_id c (cm_versions cm),
             cm_order := cm_order cm @ [version_id], cm_version := cm_version cm + 1, cm_notified := cm_notified cm @ [c]\<rparr>)))"

definition upto_first :: "'a \<Rightarrow> 'a list \<Rightarrow> 'a list" where
  "upto_first x xs = takeWhile (\<lambda>y. y \<noteq> x) xs @ [x]"

definition config_rollback :: "string \<Rightarrow> config_manager \<Rightarrow> py_error + webhook_config \<times> config_manager" where
  "config_rollback version_id cm =
     (case map_of (cm_versions cm) version_id of
        None \<Rightarrow> Inl (KeyError (''version not found: '' @ version_id))
      | Some target \<Rightarrow>
          (let keep = (if version_id \<in> set (cm_order cm) then upto_first version_id (cm_order cm) else cm_order cm);
               removed = drop (length keep) (cm_order cm)
           in Inr (target, cm\<lparr>cm_current := target, cm_order := keep,
                cm_versions := fold AList.delete removed (cm_versions cm), cm_notified := cm_notified cm @ [target]\<rparr>)))"

subsection \<open>Alerts are spaced\<close>

text \<open>Of two alerts with one name the later comes at least the window after the earlier.\<close>

fun alerts_spaced :: "micros \<Rightarrow> alert list \<Rightarrow> bool" where
  "alerts_spaced w [] = True"
| "alerts_spaced w (a # as) = (list_all (\<lambda>b. al_name b \<noteq> al_name a \<or> w \<le> al_time b - al_time a) as \<and> alerts_spaced w as)"

text \<open>The table of last times knows every alert that was given.\<close>

definition alert_known :: "(string \<times> micros) list \<Rightarrow> alert \<Rightarrow> bool" where
  "alert_known d a = (case map_of d (al_name a) of None \<Rightarrow> False | Some t \<Rightarrow> al_time a \<le> t)"

definition alerts_ok :: "monitor \<Rightarrow> bool" where
  "alerts_ok mo = (alerts_spaced (mo_dedup mo) (mo_alerts mo) \<and> list_all (alert_known (mo_last mo)) (mo_alerts mo))"

lemma alerts_spaced_append: "alerts_spaced w (as @ [b]) \<longleftrightarrow> alerts_spaced w as \<and> list_all (\<lambda>a. al_name b \<noteq> al_name a \<or> w \<le> al_time b - al_time a) as"
  by (induction as) auto

definition suppressed :: "alert \<Rightarrow> monitor \<Rightarrow> bool" where
  "suppressed a mo = (case map_of (mo_last mo) (al_name a) of None \<Rightarrow> False | Some before \<Rightarrow> al_time a - before < mo_dedup mo)"

lemma trigger_alert_eq:
  "snd (trigger_alert a mo) = (if suppressed a mo then mo
     else mo\<lparr>mo_alerts := mo_alerts mo @ [a], mo_last := AList.update (al_name a) (al_time a) (mo_last mo)\<rparr>)"
  by (simp add: trigger_alert_def suppressed_def)

lemma known_late: "alert_known d b \<Longrightarrow> al_name a = al_name b \<Longrightarrow> map_of d (al_name a) = Some t \<Longrightarrow> w \<le> al_time a - t \<Longrightarrow> w \<le> al_time a - al_time b"
  by (simp add: alert_known_def)

lemma not_suppressed_late:
  assumes "\<not> suppressed a mo" "alert_known (mo_last mo) b" "al_name a = al_name b"
  shows "mo_dedup mo \<le> al_time a - al_time b"
  using assms by (simp add: suppressed_def alert_known_def split: option.splits)

lemma known_update:
  assumes "al_name a = al_name b \<Longrightarrow> al_time b \<le> al_time a" "al_name a \<noteq> al_name b \<Longrightarrow> alert_known d b"
  shows "alert_known (AList.update (al_name a) (al_time a) d) b"
  using assms by (cases "al_name a = al_name b") (simp_all add: alert_known_def update_conv')

lemma trigger_alert_ok:
  assumes ok: "alerts_ok mo" and w: "0 \<le> mo_dedup mo"
  shows "alerts_ok (snd (trigger_alert a mo)) \<and> mo_dedup (snd (trigger_alert a mo)) = mo_dedup mo"
proof (cases "suppressed a mo")
  case True
  with ok show ?thesis by (simp add: trigger_alert_eq)
next
  case False
  have s: "alerts_spaced (mo_dedup mo) (mo_alerts mo)" and k: "\<And>b. b \<in> set (mo_alerts mo) \<Longrightarrow> alert_known (mo_last mo) b"
    using ok by (simp_all add: alerts_ok_def list_all_iff)
  have late: "\<And>b. b \<in> set (mo_alerts mo) \<Longrightarrow> al_name a = al_name b \<Longrightarrow> mo_dedup mo \<le> al_time a - al_time b"
    using not_suppressed_late [OF False k] .
  have "alerts_spaced (mo_dedup mo) (mo_alerts mo @ [a])"
    unfolding alerts_spaced_append list_all_iff using s late by blast
  moreover have "alert_known (AList.update (al_name a) (al_time a) (mo_last mo)) b" if b: "b \<in> set (mo_alerts mo)" for b
  proof (rule known_update)
    show "al_time b \<le> al_time a" if "al_name a = al_name b" using late [OF b that] w by simp
    show "alert_known (mo_last mo) b" using k [OF b] .
  qed
  moreover have "alert_known (AList.update (al_name a) (al_time a) (mo_last mo)) a" by (rule known_update) simp_all
  ultimately show ?thesis using False by (simp add: trigger_alert_eq alerts_ok_def list_all_iff)
qed

lemma record_metric_ok:
  assumes "alerts_ok mo" "0 \<le> mo_dedup mo"
  shows "alerts_ok (record_metric ft now m mo) \<and> mo_dedup (record_metric ft now m mo) = mo_dedup mo"
proof -
  define mo' where "mo' = mo\<lparr>mo_metrics := mo_metrics mo @ [m]\<rparr>"
  have ok: "alerts_ok mo'" "0 \<le> mo_dedup mo'" "mo_dedup mo' = mo_dedup mo" using assms by (simp_all add: alerts_ok_def mo'_def)
  consider "record_metric ft now m mo = mo'" | a where "record_metric ft now m mo = snd (trigger_alert a mo')"
    unfolding record_metric_def mo'_def [symmetric] evaluate_thresholds_def Let_def by (metis (full_types))
  then show ?thesis using ok trigger_alert_ok [OF ok(1,2)] by cases simp_all
qed

lemma record_metrics_ok:
  "alerts_ok mo \<Longrightarrow> 0 \<le> mo_dedup mo \<Longrightarrow>
     alerts_ok (fold (\<lambda>(now, m). record_metric ft now m) ms mo) \<and> mo_dedup (fold (\<lambda>(now, m). record_metric ft now m) ms mo) = mo_dedup mo"
proof (induction ms arbitrary: mo)
  case (Cons x ms)
  then show ?case using record_metric_ok [of mo ft "fst x" "snd x"] by (cases x) simp
qed simp

text \<open>
  Whatever is measured, and in whatever order the times come, two alerts with the same name are
  at least the deduplication window apart (five minutes by default).
\<close>

theorem alerts_are_spaced:
  assumes "0 \<le> w"
  shows "alerts_spaced (secs w) (mo_alerts (fold (\<lambda>(now, m). record_metric ft now m) ms (monitor_new fr rt w)))"
proof -
  have start: "alerts_ok (monitor_new fr rt w)" "mo_dedup (monitor_new fr rt w) = secs w" "0 \<le> secs w"
    using assms by (simp_all add: monitor_new_def alerts_ok_def secs_def)
  define mo' where "mo' = fold (\<lambda>(now, m). record_metric ft now m) ms (monitor_new fr rt w)"
  have "alerts_ok mo' \<and> mo_dedup mo' = secs w"
    unfolding mo'_def using record_metrics_ok [OF start(1), of ft ms] start(2,3) by (simp only:)
  then show ?thesis unfolding mo'_def [symmetric] by (auto simp: alerts_ok_def)
qed

theorem alerts_are_spaced_witness:
  "alerts_spaced (secs 300) (mo_alerts (fold (\<lambda>(now, m). record_metric (\<lambda>r. []) now m)
     [(5, \<lparr>mr_name = ''response_time_ms'', mr_value = 9, mr_time = 5, mr_tags = []\<rparr>)] (monitor_new (1 / 5) 8 300)))"
  by (rule alerts_are_spaced) simp

subsection \<open>Versions are kept\<close>

text \<open>The versions on offer are numbered by updates in order, all below the next number.\<close>

definition version_name :: "nat \<Rightarrow> string" where
  "version_name n = ''v'' @ show_nat n"

definition versions_ok :: "config_manager \<Rightarrow> bool" where
  "versions_ok cm = (\<exists>ns. cm_order cm = map version_name ns \<and> dict_keys (cm_versions cm) = cm_order cm
     \<and> distinct ns \<and> (\<forall>n \<in> set ns. n \<le> cm_version cm))"

lemma show_nat_inj: "show_nat m = show_nat n \<Longrightarrow> m = n"
  by (metis int_of_str_show_nat of_nat_eq_iff option.inject)

lemma version_name_inj [simp]: "version_name m = version_name n \<longleftrightarrow> m = n"
  using show_nat_inj by (auto simp: version_name_def)

datatype config_op =
    Update webhook_config
  | Rollback string

definition config_step :: "config_op \<Rightarrow> config_manager \<Rightarrow> config_manager" where
  "config_step oper cm = (case oper of
      Update c \<Rightarrow> (case config_update c cm of Inl e \<Rightarrow> cm | Inr (v, cm') \<Rightarrow> cm')
    | Rollback v \<Rightarrow> (case config_rollback v cm of Inl e \<Rightarrow> cm | Inr (c, cm') \<Rightarrow> cm'))"

lemma update_at_end: "k \<notin> fst ` set d \<Longrightarrow> AList.update k v d = d @ [(k, v)]"
  by (induction d) auto

lemma config_update_ok:
  assumes "versions_ok cm" "config_update c cm = Inr (v, cm')"
  shows "versions_ok cm'" "v = version_name (cm_version cm + 1)" "cm_versions cm' = cm_versions cm @ [(v, c)]" "cm_current cm' = c"
    "cm_order cm' = cm_order cm @ [v]" "cm_version cm' = cm_version cm + 1"
proof -
  obtain ns where ns: "cm_order cm = map version_name ns" "dict_keys (cm_versions cm) = cm_order cm" "distinct ns"
      "\<forall>n \<in> set ns. n \<le> cm_version cm" using assms(1) by (auto simp: versions_ok_def)
  from assms(2) have v: "v = version_name (cm_version cm + 1)"
    and cm': "cm' = cm\<lparr>cm_current := c, cm_versions := AList.update v c (cm_versions cm), cm_order := cm_order cm @ [v],
        cm_version := cm_version cm + 1, cm_notified := cm_notified cm @ [c]\<rparr>"
    by (auto simp: config_update_def and_then_Inr_iff version_name_def Let_def)
  have "v \<notin> set (dict_keys (cm_versions cm))" using ns v by auto
  then have upd: "AList.update v c (cm_versions cm) = cm_versions cm @ [(v, c)]" by (simp add: update_at_end)
  show "v = version_name (cm_version cm + 1)" by (rule v)
  show "cm_versions cm' = cm_versions cm @ [(v, c)]" "cm_current cm' = c" "cm_order cm' = cm_order cm @ [v]" "cm_version cm' = cm_version cm + 1"
    by (simp_all add: cm' upd)
  have "cm_order cm' = map version_name (ns @ [cm_version cm + 1])" by (simp add: cm' ns v)
  moreover have "dict_keys (cm_versions cm') = cm_order cm'" by (simp add: cm' upd ns)
  moreover have "distinct (ns @ [cm_version cm + 1])" using ns by force
  moreover have "\<forall>n \<in> set (ns @ [cm_version cm + 1]). n \<le> cm_version cm'" using ns by (auto simp: cm')
  ultimately show "versions_ok cm'" unfolding versions_ok_def by blast
qed

lemma fold_delete_keys: "fold AList.delete ks d = filter (\<lambda>p. fst p \<notin> set ks) d"
proof (induction ks arbitrary: d)
  case (Cons k ks)
  then show ?case by (simp add: AList.delete_eq) (rule filter_cong, auto)
qed simp

lemma upto_first_split: "x \<in> set xs \<Longrightarrow> \<exists>ys. xs = upto_first x xs @ ys"
proof (induction xs)
  case (Cons y ys)
  then show ?case by (cases "y = x") (auto simp: upto_first_def)
qed simp

lemma config_rollback_ok:
  assumes ok: "versions_ok cm" and r: "config_rollback v cm = Inr (c, cm')"
  shows "versions_ok cm'" "map_of (cm_versions cm) v = Some c" "cm_current cm' = c" "cm_version cm' = cm_version cm"
    "\<exists>ys. cm_versions cm = cm_versions cm' @ ys"
proof -
  obtain ns where ns: "cm_order cm = map version_name ns" "dict_keys (cm_versions cm) = cm_order cm" "distinct ns"
      "\<forall>n \<in> set ns. n \<le> cm_version cm" using ok by (auto simp: versions_ok_def)
  from r have c: "map_of (cm_versions cm) v = Some c" by (auto simp: config_rollback_def Let_def split: option.splits)
  then have vin: "v \<in> set (cm_order cm)" unfolding ns(2) [symmetric] by (metis domI dom_map_of_conv_image_fst list.set_map)
  obtain removed where rm: "cm_order cm = upto_first v (cm_order cm) @ removed" using upto_first_split [OF vin] by blast
  define keep where "keep = upto_first v (cm_order cm)"
  have drop: "drop (length keep) (cm_order cm) = removed" using rm unfolding keep_def [symmetric] by (metis append_eq_conv_conj)
  have cm': "cm' = cm\<lparr>cm_current := c, cm_order := keep, cm_versions := filter (\<lambda>p. fst p \<notin> set removed) (cm_versions cm),
      cm_notified := cm_notified cm @ [c]\<rparr>"
    using r c vin by (simp add: config_rollback_def Let_def keep_def [symmetric] drop fold_delete_keys)
  have dist: "distinct (keep @ removed)" using ns rm unfolding keep_def [symmetric] by (metis distinct_map inj_on_def version_name_inj)
  define k where "k = length keep"
  have keys: "map fst (cm_versions cm) = keep @ removed" using ns(2) rm unfolding keep_def [symmetric] by simp
  have kt: "map fst (take k (cm_versions cm)) = keep" "map fst (drop k (cm_versions cm)) = removed"
    using keys by (simp_all add: take_map [symmetric] drop_map [symmetric] k_def)
  have "filter (\<lambda>p. fst p \<notin> set removed) (take k (cm_versions cm)) = take k (cm_versions cm)"
    using dist kt(1) by (auto simp: filter_id_conv) (metis IntI empty_iff fst_conv image_eqI)
  moreover have "filter (\<lambda>p. fst p \<notin> set removed) (drop k (cm_versions cm)) = []"
    unfolding filter_empty_conv kt(2) [symmetric] by simp
  ultimately have "filter (\<lambda>p. fst p \<notin> set removed) (take k (cm_versions cm) @ drop k (cm_versions cm)) = take k (cm_versions cm)"
    by (simp only: filter_append append_Nil2)
  then have kept: "cm_versions cm' = take k (cm_versions cm)" by (simp add: cm')
  show "map_of (cm_versions cm) v = Some c" by (rule c)
  show "cm_current cm' = c" "cm_version cm' = cm_version cm" by (simp_all add: cm')
  show "\<exists>ys. cm_versions cm = cm_versions cm' @ ys" using kept by (metis append_take_drop_id)
  have "keep = map version_name (take k ns)" using rm ns(1) unfolding keep_def [symmetric] k_def by (metis append_eq_conv_conj take_map)
  moreover have "dict_keys (cm_versions cm') = keep" using kept kt by simp
  moreover have "distinct (take k ns)" "\<forall>n \<in> set (take k ns). n \<le> cm_version cm'" using ns by (auto simp: cm' dest: in_set_takeD)
  moreover have "cm_order cm' = keep" by (simp add: cm')
  ultimately show "versions_ok cm'" unfolding versions_ok_def by metis
qed

fun config_steps :: "config_op list \<Rightarrow> config_manager \<Rightarrow> config_manager" where
  "config_steps [] cm = cm"
| "config_steps (oper # opers) cm = config_steps opers (config_step oper cm)"

text \<open>A version and all before it are as they were, or are gone.\<close>

definition same_or_gone :: "string \<Rightarrow> webhook_config \<Rightarrow> config_manager \<Rightarrow> bool" where
  "same_or_gone v c cm = (map_of (cm_versions cm) v = Some c \<or> map_of (cm_versions cm) v = None)"

lemma map_of_prefix: "map_of xs k = Some v \<Longrightarrow> map_of (xs @ ys) k = Some v"
  by (simp add: map_add_def)

lemma config_update_keeps:
  assumes "versions_ok cm" "n \<le> cm_version cm" "same_or_gone (version_name n) c cm" "config_update c' cm = Inr (v, cm')"
  shows "versions_ok cm' \<and> n \<le> cm_version cm' \<and> same_or_gone (version_name n) c cm'"
proof -
  note u = config_update_ok [OF assms(1,4)]
  have "version_name n \<noteq> v" using assms(2) u(2) by simp
  then have "map_of (cm_versions cm') (version_name n) = map_of (cm_versions cm) (version_name n)"
    by (cases "map_of (cm_versions cm) (version_name n)") (simp_all add: u(3) map_add_def)
  with u(1,6) assms(2,3) show ?thesis by (simp add: same_or_gone_def)
qed

lemma config_rollback_keeps:
  assumes "versions_ok cm" "n \<le> cm_version cm" "same_or_gone (version_name n) c cm" "config_rollback w cm = Inr (c', cm')"
  shows "versions_ok cm' \<and> n \<le> cm_version cm' \<and> same_or_gone (version_name n) c cm'"
proof -
  note r = config_rollback_ok [OF assms(1,4)]
  obtain ys where ys: "cm_versions cm = cm_versions cm' @ ys" using r(5) by blast
  have "same_or_gone (version_name n) c cm'"
    using assms(3) map_of_prefix [of "cm_versions cm'" "version_name n" _ ys]
    by (cases "map_of (cm_versions cm') (version_name n)") (simp_all add: same_or_gone_def ys)
  with r(1,4) assms(2) show ?thesis by simp
qed

lemma config_step_ok:
  assumes "versions_ok cm" "n \<le> cm_version cm" "same_or_gone (version_name n) c cm"
  shows "versions_ok (config_step oper cm) \<and> n \<le> cm_version (config_step oper cm) \<and> same_or_gone (version_name n) c (config_step oper cm)"
proof (cases oper)
  case (Update c')
  then show ?thesis using assms config_update_keeps [OF assms]
    by (cases "config_update c' cm") (auto simp: config_step_def)
next
  case (Rollback w)
  then show ?thesis using assms config_rollback_keeps [OF assms]
    by (cases "config_rollback w cm") (auto simp: config_step_def)
qed

lemma config_steps_ok:
  "versions_ok cm \<Longrightarrow> n \<le> cm_version cm \<Longrightarrow> same_or_gone (version_name n) c cm \<Longrightarrow>
     versions_ok (config_steps opers cm) \<and> same_or_gone (version_name n) c (config_steps opers cm)"
proof (induction opers arbitrary: cm)
  case (Cons oper opers)
  then show ?case using config_step_ok [of cm n c oper] by simp
qed simp

lemma config_steps_start: "versions_ok (config_steps opers config_manager_new)"
proof -
  have "versions_ok config_manager_new" by (simp add: versions_ok_def config_manager_new_def)
  moreover have "same_or_gone (version_name 0) webhook_config_default config_manager_new"
    by (simp add: same_or_gone_def config_manager_new_def)
  ultimately show ?thesis using config_steps_ok [of config_manager_new 0] by (simp add: config_manager_new_def)
qed

text \<open>
  A version can be trusted: after any updates and rollbacks, an update that stores a
  configuration under a version, and any further updates and rollbacks, a rollback to that version
  makes exactly that configuration the current one, if the version is still on offer at all; no
  later update takes its name, although rollbacks remove versions.
\<close>

theorem config_version_trusted:
  assumes "config_update c (config_steps before config_manager_new) = Inr (v, cm)"
    and "config_rollback v (config_steps later cm) = Inr (c', cm')"
  shows "c' = c \<and> cm_current cm' = c"
proof -
  note u = config_update_ok [OF config_steps_start assms(1)]
  have "v \<notin> fst ` set (cm_versions (config_steps before config_manager_new))"
  proof -
    obtain ns where ns: "dict_keys (cm_versions (config_steps before config_manager_new)) = map version_name ns"
        "\<forall>n \<in> set ns. n \<le> cm_version (config_steps before config_manager_new)"
      using config_steps_start [of before] by (auto simp: versions_ok_def)
    show ?thesis
    proof
      assume "v \<in> fst ` set (cm_versions (config_steps before config_manager_new))"
      then have "v \<in> set (map version_name ns)" unfolding ns(1) [symmetric] by simp
      then show False using ns(2) u(2) by auto
    qed
  qed
  then have "map_of (cm_versions (config_steps before config_manager_new)) v = None" by (simp add: map_of_eq_None_iff)
  then have "map_of (cm_versions cm) v = Some c" by (simp add: u(3) map_add_def)
  then have same: "same_or_gone (version_name (cm_version (config_steps before config_manager_new) + 1)) c cm"
    using u(2) by (simp add: same_or_gone_def)
  have "versions_ok (config_steps later cm) \<and> same_or_gone v c (config_steps later cm)"
    using config_steps_ok [OF u(1) _ same, of later] u(2,6) by simp
  then show ?thesis using config_rollback_ok(2,3) [OF _ assms(2)] by (auto simp: same_or_gone_def)
qed

theorem config_version_trusted_witness:
  "\<exists>cm' v. config_rollback v (config_steps [Update (webhook_config_default\<lparr>wg_retries := 5\<rparr>)]
      (config_steps [Update webhook_config_default] config_manager_new)) = Inr (webhook_config_default, cm')
    \<and> cm_current cm' = webhook_config_default"
proof -
  define cm where "cm = config_steps [Update webhook_config_default] config_manager_new"
  have n: "show_nat (Suc 0) = ''1''" "show_nat (Suc (Suc 0)) = ''2''" by code_simp+
  have v: "validate_webhook_config webhook_config_default = Inr ()" "validate_webhook_config (webhook_config_default\<lparr>wg_retries := 5\<rparr>) = Inr ()"
    by (simp_all add: validate_webhook_config_def webhook_config_default_def log_levels_def)
  have u: "config_update webhook_config_default (config_steps [] config_manager_new) = Inr (''v1'', cm)"
    by (simp add: cm_def config_step_def config_update_def v n config_manager_new_def Let_def)
  obtain c' cm' where r: "config_rollback ''v1'' (config_steps [Update (webhook_config_default\<lparr>wg_retries := 5\<rparr>)] cm) = Inr (c', cm')"
    by (simp add: cm_def config_step_def config_update_def config_rollback_def v n config_manager_new_def Let_def)
  from config_version_trusted [OF u r] r show ?thesis unfolding cm_def by blast
qed

end
