(* ===== verification/WebhookExecution.thy ===== *)
theory WebhookExecution
  imports WebhookEndpoints
begin

section \<open>Webhooks: governance and execution\<close>

text \<open>
  \<open>owlclaw/triggers/webhook/execution.py\<close> and \<open>governance.py\<close>. The answers of the runtime, one per
  attempt, the answers of the governance policy and the readings of the clock are arguments. The
  lock of an idempotency key makes the runs of one key follow one another, so a run is a step;
  the table of locks itself is left out. The state keeps what was handed to the runtime and the
  delays that were slept.
\<close>

subsection \<open>Data\<close>

record agent_input =
  ai_agent :: string
  ai_parameters :: pyval
  ai_context :: pyval

record exec_options =
  eo_mode :: string
  eo_timeout :: "rat option"
  eo_key :: "string option"
  eo_retry :: "retry_policy option"

record exec_result =
  er_id :: string
  er_status :: string
  er_started :: micros
  er_completed :: "micros option"
  er_output :: pyval
  er_error :: pyval

text \<open>An exception of the runtime: its type, its text, whether it is a timeout or a connection error.\<close>

record run_failure =
  rf_type :: string
  rf_message :: string
  rf_retriable :: bool

record exec_trigger =
  et_max_idempotency :: int
  et_max_executions :: int
  et_idempotency :: "(string \<times> exec_result \<times> micros) list"
  et_executions :: "(string \<times> exec_result) list"
  et_calls :: "(agent_input \<times> rat option) list"
  et_delays :: "rat list"

record run_env =
  re_check :: micros
  re_call :: "nat \<Rightarrow> run_failure + pyval"
  re_made :: micros
  re_done :: micros
  re_fresh :: uuid
  re_record :: micros
  re_trim :: micros
  re_str :: "pyval \<Rightarrow> string"

definition exec_trigger_new :: "int \<Rightarrow> int \<Rightarrow> exec_trigger" where
  "exec_trigger_new max_idempotency_entries max_execution_entries =
     \<lparr>et_max_idempotency = max 1 max_idempotency_entries, et_max_executions = max 1 max_execution_entries,
      et_idempotency = [], et_executions = [], et_calls = [], et_delays = []\<rparr>"

definition default_retry :: retry_policy where
  "default_retry = \<lparr>rp_attempts = 1, rp_initial = 0, rp_max = 0, rp_multiplier = 1\<rparr>"

subsection \<open>Idempotency\<close>

definition check_idempotency :: "micros \<Rightarrow> string \<Rightarrow> exec_trigger \<Rightarrow> exec_result option \<times> exec_trigger" where
  "check_idempotency now key et =
     (case map_of (et_idempotency et) key of
        None \<Rightarrow> (None, et)
      | Some (result, expires_at) \<Rightarrow>
          if expires_at \<le> now then (None, et\<lparr>et_idempotency := AList.delete key (et_idempotency et)\<rparr>) else (Some result, et))"

definition keep_newest :: "int \<Rightarrow> 'a list \<Rightarrow> 'a list" where
  "keep_newest n xs = drop (length xs - nat n) xs"

definition trim_idempotency_cache :: "micros \<Rightarrow> exec_trigger \<Rightarrow> exec_trigger" where
  "trim_idempotency_cache now et =
     et\<lparr>et_idempotency := keep_newest (et_max_idempotency et) (filter (\<lambda>(k, r, expires_at). \<not> expires_at \<le> now) (et_idempotency et))\<rparr>"

definition trim_execution_cache :: "exec_trigger \<Rightarrow> exec_trigger" where
  "trim_execution_cache et = et\<lparr>et_executions := keep_newest (et_max_executions et) (et_executions et)\<rparr>"

definition record_idempotency :: "micros \<Rightarrow> micros \<Rightarrow> string \<Rightarrow> exec_result \<Rightarrow> int \<Rightarrow> exec_trigger \<Rightarrow> exec_trigger" where
  "record_idempotency now trim_now key result ttl_seconds et =
     trim_idempotency_cache trim_now
       (et\<lparr>et_idempotency := AList.update key (result, now + secs ttl_seconds) (et_idempotency et)\<rparr>)"

subsection \<open>Attempts\<close>

definition retry_delay_seconds :: "retry_policy \<Rightarrow> nat \<Rightarrow> rat" where
  "retry_delay_seconds policy attempt =
     (let raw = of_int (rp_initial policy) * rp_multiplier policy ^ (attempt - 1)
      in max 0 (min raw (of_int (rp_max policy)) / 1000))"

definition normalize_execution_status :: "string \<Rightarrow> string" where
  "normalize_execution_status s = (if s \<in> {''accepted'', ''running'', ''completed'', ''failed''} then s else ''failed'')"

definition text_of :: "run_env \<Rightarrow> pyval \<Rightarrow> string" where
  "text_of env v = (case v of PStr s \<Rightarrow> s | _ \<Rightarrow> re_str env v)"

definition to_execution_result :: "run_env \<Rightarrow> string \<Rightarrow> pyval \<Rightarrow> run_failure + exec_result" where
  "to_execution_result env mode runtime_result =
     (if \<not> is_dict runtime_result then Inl \<lparr>rf_type = ''AttributeError'', rf_message = ''get'', rf_retriable = False\<rparr>
      else (let execution_id = text_of env (dict_get_or runtime_result ''execution_id'' (PStr (re_fresh env)));
                output = dict_get_or runtime_result ''output'' PNone
            in if mode = ''async''
               then Inr \<lparr>er_id = execution_id, er_status = ''accepted'', er_started = re_made env, er_completed = None,
                      er_output = output, er_error = PNone\<rparr>
               else Inr \<lparr>er_id = execution_id,
                      er_status = normalize_execution_status (text_of env (dict_get_or runtime_result ''status'' (PStr ''completed''))),
                      er_started = re_made env, er_completed = Some (re_made env), er_output = output,
                      er_error = dict_get_or runtime_result ''error'' PNone\<rparr>))"

text \<open>
  The loop from one attempt on, with the number of attempts that are left and the last error: what
  it ends with, the number of calls of the runtime and the delays slept between them.
\<close>

fun attempt_loop :: "run_env \<Rightarrow> string \<Rightarrow> retry_policy \<Rightarrow> nat \<Rightarrow> nat \<Rightarrow> run_failure option
    \<Rightarrow> (run_failure option + exec_result) \<times> nat \<times> rat list" where
  "attempt_loop env mode policy 0 attempt last_error = (Inl last_error, 0, [])"
| "attempt_loop env mode policy (Suc left) attempt last_error =
     (case (case re_call env (Suc attempt) of Inl f \<Rightarrow> Inl f | Inr v \<Rightarrow> to_execution_result env mode v) of
        Inr result \<Rightarrow> (Inr result, 1, [])
      | Inl f \<Rightarrow>
          if left = 0 \<or> \<not> rf_retriable f then (Inl (Some f), 1, [])
          else (case attempt_loop env mode policy left (Suc attempt) (Some f) of
              (r, calls, delays) \<Rightarrow> (r, Suc calls, retry_delay_seconds policy (Suc attempt) # delays)))"

definition failure_dict :: "run_failure option \<Rightarrow> pyval" where
  "failure_dict last_error =
     (case last_error of
        None \<Rightarrow> PNone
      | Some f \<Rightarrow> PDict [(PStr ''type'', PStr (rf_type f)), (PStr ''message'', PStr (rf_message f)),
          (PStr ''status_code'', PInt (if rf_type f \<in> {''TimeoutError'', ''ConnectionError''} then 503 else 500))])"

definition key_of :: "exec_options \<Rightarrow> string option" where
  "key_of options = (case eo_key options of None \<Rightarrow> None | Some k \<Rightarrow> if k = [] then None else Some k)"

text \<open>The result, kept under its identifier and, for a keyed call, for an hour under its key.\<close>

definition keep_result :: "run_env \<Rightarrow> exec_options \<Rightarrow> exec_result \<Rightarrow> exec_trigger \<Rightarrow> exec_trigger" where
  "keep_result env options result et =
     (let et1 = trim_execution_cache (et\<lparr>et_executions := AList.update (er_id result) result (et_executions et)\<rparr>)
      in case key_of options of None \<Rightarrow> et1 | Some key \<Rightarrow> record_idempotency (re_record env) (re_trim env) key result 3600 et1)"

definition trigger_run :: "run_env \<Rightarrow> agent_input \<Rightarrow> exec_options \<Rightarrow> exec_trigger \<Rightarrow> exec_result \<times> exec_trigger" where
  "trigger_run env input_data options et =
     (let policy = (case eo_retry options of None \<Rightarrow> default_retry | Some p \<Rightarrow> p) in
      case attempt_loop env (eo_mode options) policy (nat (rp_attempts policy)) 0 None of
        (r, calls, delays) \<Rightarrow>
          (let et1 = et\<lparr>et_calls := et_calls et @ replicate calls (input_data, eo_timeout options), et_delays := et_delays et @ delays\<rparr>;
               result = (case r of Inr result \<Rightarrow> result
                 | Inl last_error \<Rightarrow> \<lparr>er_id = re_fresh env, er_status = ''failed'', er_started = re_made env,
                     er_completed = Some (re_done env), er_output = PNone, er_error = failure_dict last_error\<rparr>)
           in (result, keep_result env options result et1)))"

definition trigger :: "run_env \<Rightarrow> agent_input \<Rightarrow> exec_options \<Rightarrow> exec_trigger \<Rightarrow> exec_result \<times> exec_trigger" where
  "trigger env input_data options et =
     (case key_of options of
        None \<Rightarrow> trigger_run env input_data options et
      | Some key \<Rightarrow> (case check_idempotency (re_check env) key et of
          (Some existing, et1) \<Rightarrow> (existing, et1)
        | (None, et1) \<Rightarrow> trigger_run env input_data options et1))"

definition get_execution_status :: "string \<Rightarrow> exec_trigger \<Rightarrow> exec_result option" where
  "get_execution_status execution_id et = map_of (et_executions et) execution_id"

subsection \<open>Governance\<close>

datatype policy_answer =
    PolicyTimeout
  | PolicyRaised string
  | PolicyAnswer pyval

record governance_context =
  gc_tenant :: string
  gc_endpoint :: string
  gc_agent :: string
  gc_request :: string
  gc_ip :: "string option"
  gc_user_agent :: "string option"
  gc_time :: micros

record gov_decision =
  gd_allowed :: bool
  gd_status :: int
  gd_reason :: pyval
  gd_limits :: pyval

definition gov_allow :: "pyval \<Rightarrow> gov_decision" where
  "gov_allow reason = \<lparr>gd_allowed = True, gd_status = 200, gd_reason = reason, gd_limits = PDict []\<rparr>"

definition coerce_decision :: "(pyval \<Rightarrow> string) \<Rightarrow> pyval \<Rightarrow> py_error + gov_decision" where
  "coerce_decision str_of raw =
     and_then (py_get_or raw ''allowed'' (PBool True)) (\<lambda>allowed.
       if truthy allowed then Inr (gov_allow (dict_get_or raw ''reason'' PNone))
       else and_then (py_int (dict_get_or raw ''status_code'' (PInt 403))) (\<lambda>status_code.
         (let reason = dict_get_or raw ''reason'' (PStr ''governance rejected''); limits = dict_get_or raw ''policy_limits'' PNone
          in Inr \<lparr>gd_allowed = False, gd_status = status_code,
               gd_reason = PStr (case reason of PStr s \<Rightarrow> s | _ \<Rightarrow> str_of reason),
               gd_limits = (if is_dict limits then limits else PDict [])\<rparr>)))"

definition invoke_policy_call :: "(pyval \<Rightarrow> string) \<Rightarrow> policy_answer \<Rightarrow> py_error + gov_decision" where
  "invoke_policy_call str_of answer =
     (case answer of
        PolicyTimeout \<Rightarrow> Inr \<lparr>gd_allowed = False, gd_status = 503, gd_reason = PStr ''governance timeout'', gd_limits = PDict []\<rparr>
      | PolicyRaised m \<Rightarrow> Inr \<lparr>gd_allowed = False, gd_status = 503, gd_reason = PStr (''governance unavailable: '' @ m), gd_limits = PDict []\<rparr>
      | PolicyAnswer raw \<Rightarrow> coerce_decision str_of raw)"

text \<open>The policy is \<open>None\<close>, or its answers to the two questions of one execution.\<close>

record gov_client =
  gv_str :: "pyval \<Rightarrow> string"
  gv_policy :: "(policy_answer \<times> policy_answer) option"

definition check_permission :: "gov_client \<Rightarrow> py_error + gov_decision" where
  "check_permission gv = (case gv_policy gv of None \<Rightarrow> Inr (gov_allow PNone) | Some p \<Rightarrow> invoke_policy_call (gv_str gv) (fst p))"

definition policy_rate_limit :: "gov_client \<Rightarrow> py_error + gov_decision" where
  "policy_rate_limit gv = (case gv_policy gv of None \<Rightarrow> Inr (gov_allow PNone) | Some p \<Rightarrow> invoke_policy_call (gv_str gv) (snd p))"

definition decision_error :: "string \<Rightarrow> gov_decision \<Rightarrow> validation_error" where
  "decision_error default_code d =
     \<lparr>ve_code = default_code, ve_message = (case gd_reason d of PStr s \<Rightarrow> if s = [] then py_lower default_code else s | _ \<Rightarrow> py_lower default_code),
      ve_status = Some (if 400 \<le> gd_status d then gd_status d else 403),
      ve_details = (if truthy (gd_limits d) then [(''policy_limits'', gd_limits d)] else [])\<rparr>"

text \<open>What is given to \<open>audit_log\<close> is returned in order; without a sink it ends there.\<close>

definition validate_execution :: "gov_client \<Rightarrow> governance_context \<Rightarrow> py_error + validation_error option \<times> (governance_context \<times> gov_decision) list" where
  "validate_execution gv ctx =
     and_then (check_permission gv) (\<lambda>permission.
       if \<not> gd_allowed permission then Inr (Some (decision_error ''GOVERNANCE_REJECTED'' permission), [(ctx, permission)])
       else and_then (policy_rate_limit gv) (\<lambda>rate_limit.
         if \<not> gd_allowed rate_limit then Inr (Some (decision_error ''RATE_LIMITED'' rate_limit), [(ctx, rate_limit)])
         else Inr (None, [(ctx, gov_allow (PStr ''allowed''))])))"

subsection \<open>A key is good for one run\<close>

text \<open>
  \<open>held key v n d\<close>: the table has \<open>v\<close> for the key, and at most \<open>n\<close> entries that are newer.
\<close>

definition held :: "string \<Rightarrow> exec_result \<times> micros \<Rightarrow> nat \<Rightarrow> (string \<times> exec_result \<times> micros) list \<Rightarrow> bool" where
  "held key v n d = (\<exists>older newer. d = older @ (key, v) # newer \<and> key \<notin> fst ` set older \<and> length newer \<le> n)"

lemma held_lookup: "held key v n d \<Longrightarrow> map_of d key = Some v"
proof -
  assume "held key v n d"
  then obtain older newer where d: "d = older @ (key, v) # newer" "key \<notin> fst ` set older" by (auto simp: held_def)
  then have "map_of older key = None" by (simp add: map_of_eq_None_iff)
  with d show ?thesis by (simp add: map_add_def)
qed

lemma held_mono: "held key v n d \<Longrightarrow> n \<le> m \<Longrightarrow> held key v m d"
  unfolding held_def by (elim exE conjE, intro exI conjI) (assumption, assumption, simp)

lemma delete_append: "AList.delete k (xs @ ys) = AList.delete k xs @ AList.delete k ys"
  by (simp add: AList.delete_eq)

lemma held_delete:
  assumes "held key v n d" and "k \<noteq> key"
  shows "held key v n (AList.delete k d)"
proof -
  obtain older newer where d: "d = older @ (key, v) # newer" "key \<notin> fst ` set older" "length newer \<le> n"
    using assms by (auto simp: held_def)
  have "AList.delete k d = AList.delete k older @ (key, v) # AList.delete k newer" using assms(2) by (simp add: d delete_append)
  moreover have "key \<notin> fst ` set (AList.delete k older)" using d(2) by (auto simp: AList.delete_eq)
  moreover have "length (AList.delete k newer) \<le> n" using d(3) length_delete_le [of k newer] by linarith
  ultimately show ?thesis unfolding held_def by blast
qed

lemma update_new: "k \<notin> fst ` set d \<Longrightarrow> AList.update k v d = d @ [(k, v)]"
  by (induction d) auto

lemma held_add:
  assumes "held key v n d" and "k \<notin> fst ` set d"
  shows "held key v (Suc n) (AList.update k w d)"
proof -
  obtain older newer where d: "d = older @ (key, v) # newer" "key \<notin> fst ` set older" "length newer \<le> n"
    using assms by (auto simp: held_def)
  have "AList.update k w d = older @ (key, v) # (newer @ [(k, w)])" using update_new [OF assms(2)] by (simp add: d)
  with d show ?thesis unfolding held_def by (metis Suc_le_mono length_append_singleton)
qed

lemma held_filter:
  assumes "held key v n d" and "P (key, v)"
  shows "held key v n (filter P d)"
proof -
  obtain older newer where d: "d = older @ (key, v) # newer" "key \<notin> fst ` set older" "length newer \<le> n"
    using assms by (auto simp: held_def)
  have "filter P d = filter P older @ (key, v) # filter P newer" using assms(2) by (simp add: d)
  moreover have "key \<notin> fst ` set (filter P older)" using d(2) by auto
  moreover have "length (filter P newer) \<le> n" using d(3) length_filter_le [of P newer] by linarith
  ultimately show ?thesis unfolding held_def by blast
qed

lemma held_keep_newest:
  assumes "held key v n d" and "int n < m"
  shows "held key v n (keep_newest m d)"
proof -
  obtain older newer where d: "d = older @ (key, v) # newer" "key \<notin> fst ` set older" "length newer \<le> n"
    using assms by (auto simp: held_def)
  let ?k = "length d - nat m"
  have "?k \<le> length older" using assms(2) d by simp
  then have "keep_newest m d = drop ?k older @ (key, v) # newer" by (simp add: keep_newest_def d)
  moreover have "key \<notin> fst ` set (drop ?k older)" using d(2) by (meson image_mono set_drop_subset subsetD)
  ultimately show ?thesis using d(3) unfolding held_def by blast
qed

lemma keep_result_idempotency:
  "et_idempotency (keep_result env options r et) = (case key_of options of
      None \<Rightarrow> et_idempotency et
    | Some k \<Rightarrow> keep_newest (et_max_idempotency et) (filter (\<lambda>(k', r', t). \<not> t \<le> re_trim env)
        (AList.update k (r, re_record env + secs 3600) (et_idempotency et))))"
  "et_max_idempotency (keep_result env options r et) = et_max_idempotency et"
  by (simp_all add: keep_result_def record_idempotency_def trim_idempotency_cache_def trim_execution_cache_def Let_def split: option.split)

lemma trigger_run_idempotency:
  obtains r where "fst (trigger_run env x options et) = r"
    "et_idempotency (snd (trigger_run env x options et)) = et_idempotency (keep_result env options r et)"
    "et_max_idempotency (snd (trigger_run env x options et)) = et_max_idempotency et"
proof (rule that [OF refl])
  obtain r calls delays where a: "attempt_loop env (eo_mode options)
      (case eo_retry options of None \<Rightarrow> default_retry | Some p \<Rightarrow> p)
      (nat (rp_attempts (case eo_retry options of None \<Rightarrow> default_retry | Some p \<Rightarrow> p))) 0 None = (r, calls, delays)"
    by (metis prod_cases3)
  show "et_idempotency (snd (trigger_run env x options et)) = et_idempotency (keep_result env options (fst (trigger_run env x options et)) et)"
    "et_max_idempotency (snd (trigger_run env x options et)) = et_max_idempotency et"
    by (simp_all add: trigger_run_def a Let_def keep_result_idempotency split: option.split)
qed

text \<open>Another call keeps a live key, with at most one newer entry more.\<close>

lemma trigger_keeps_key:
  assumes held: "held key (r, t) n (et_idempotency et)" and room: "int (Suc n) < et_max_idempotency et"
    and now: "re_check env < t" "re_trim env < t"
  shows "held key (r, t) (Suc n) (et_idempotency (snd (trigger env x options et)))"
    and "et_max_idempotency (snd (trigger env x options et)) = et_max_idempotency et"
proof -
  have run: "held key (r, t) (Suc n) (et_idempotency (snd (trigger_run env x options et1)))
      \<and> et_max_idempotency (snd (trigger_run env x options et1)) = et_max_idempotency et1"
    if h: "held key (r, t) n (et_idempotency et1)" and m: "et_max_idempotency et1 = et_max_idempotency et"
      and new: "\<And>k. key_of options = Some k \<Longrightarrow> k \<notin> fst ` set (et_idempotency et1)" for et1
  proof -
    obtain r' where tr: "et_idempotency (snd (trigger_run env x options et1)) = et_idempotency (keep_result env options r' et1)"
      "et_max_idempotency (snd (trigger_run env x options et1)) = et_max_idempotency et1"
      by (rule trigger_run_idempotency)
    show ?thesis
    proof (cases "key_of options")
      case None
      with h tr show ?thesis by (simp add: keep_result_idempotency held_mono)
    next
      case (Some k)
      have "held key (r, t) (Suc n) (AList.update k (r', re_record env + secs 3600) (et_idempotency et1))"
        using h new [OF Some] by (rule held_add)
      then have "held key (r, t) (Suc n) (filter (\<lambda>(k', r', t). \<not> t \<le> re_trim env)
          (AList.update k (r', re_record env + secs 3600) (et_idempotency et1)))" using now by (intro held_filter) simp_all
      then show ?thesis using room m by (simp add: tr keep_result_idempotency Some held_keep_newest)
    qed
  qed
  have "held key (r, t) (Suc n) (et_idempotency (snd (trigger env x options et)))
      \<and> et_max_idempotency (snd (trigger env x options et)) = et_max_idempotency et"
  proof (cases "key_of options")
    case None
    with run [OF held refl] show ?thesis by (simp add: trigger_def)
  next
    case (Some k)
    show ?thesis
    proof (cases "map_of (et_idempotency et) k")
      case None
      then have "k \<notin> fst ` set (et_idempotency et)" by (simp add: map_of_eq_None_iff)
      with run [OF held refl] Some None show ?thesis by (simp add: trigger_def check_idempotency_def)
    next
      case found: (Some p)
      obtain r' t' where p: "p = (r', t')" by (cases p)
      show ?thesis
      proof (cases "t' \<le> re_check env")
        case False
        with Some found p held held_mono show ?thesis by (simp add: trigger_def check_idempotency_def)
      next
        case True
        then have "k \<noteq> key" using held_lookup [OF held] found p now by auto
        let ?et1 = "et\<lparr>et_idempotency := AList.delete k (et_idempotency et)\<rparr>"
        have "held key (r, t) n (et_idempotency ?et1)" using held_delete [OF held \<open>k \<noteq> key\<close>] by simp
        moreover have "key_of options = Some k' \<Longrightarrow> k' \<notin> fst ` set (et_idempotency ?et1)" for k'
          using Some by (auto simp: AList.delete_eq)
        ultimately show ?thesis using run [of ?et1] Some found p True by (simp add: trigger_def check_idempotency_def)
      qed
    qed
  qed
  then show "held key (r, t) (Suc n) (et_idempotency (snd (trigger env x options et)))"
    "et_max_idempotency (snd (trigger env x options et)) = et_max_idempotency et" by simp_all
qed

type_synonym webhook_call = "run_env \<times> agent_input \<times> exec_options"

fun trigger_all :: "webhook_call list \<Rightarrow> exec_trigger \<Rightarrow> exec_trigger" where
  "trigger_all [] et = et"
| "trigger_all ((env, x, options) # calls) et = trigger_all calls (snd (trigger env x options et))"

lemma trigger_all_keeps_key:
  "held key (r, t) n (et_idempotency et) \<Longrightarrow> int (n + length calls) < et_max_idempotency et \<Longrightarrow>
     list_all (\<lambda>(env, x, options). re_check env < t \<and> re_trim env < t) calls \<Longrightarrow>
     held key (r, t) (n + length calls) (et_idempotency (trigger_all calls et))"
proof (induction calls et arbitrary: n rule: trigger_all.induct)
  case (2 env x options calls et)
  from 2(2-4) have now: "re_check env < t" "re_trim env < t" and room: "int (Suc n) < et_max_idempotency et" by simp_all
  note step = trigger_keeps_key [OF 2(2) room now, of x options]
  have "held key (r, t) (Suc n + length calls) (et_idempotency (trigger_all calls (snd (trigger env x options et))))"
    using step 2(3,4) by (intro 2(1)) simp_all
  then show ?case by simp
qed simp

lemma trigger_held: "key_of options = Some key \<Longrightarrow> held key (r, t) n (et_idempotency et) \<Longrightarrow> re_check env < t \<Longrightarrow> trigger env x options et = (r, et)"
  by (simp add: trigger_def check_idempotency_def held_lookup)

lemma trigger_holds:
  assumes k: "key_of options = Some key" and new: "map_of (et_idempotency et) key = None"
    and m: "0 < et_max_idempotency et" and now: "re_trim env < re_record env + secs 3600"
  shows "held key (fst (trigger env x options et), re_record env + secs 3600) 0 (et_idempotency (snd (trigger env x options et)))"
    and "et_max_idempotency (snd (trigger env x options et)) = et_max_idempotency et"
proof -
  let ?t = "re_record env + secs 3600"
  have run: "trigger env x options et = trigger_run env x options et" by (simp add: trigger_def k check_idempotency_def new)
  obtain r calls delays where a: "attempt_loop env (eo_mode options)
      (case eo_retry options of None \<Rightarrow> default_retry | Some p \<Rightarrow> p)
      (nat (rp_attempts (case eo_retry options of None \<Rightarrow> default_retry | Some p \<Rightarrow> p))) 0 None = (r, calls, delays)"
    by (metis prod_cases3)
  define res where "res = fst (trigger_run env x options et)"
  have idem: "et_idempotency (snd (trigger_run env x options et)) =
      keep_newest (et_max_idempotency et) (filter (\<lambda>(k', r', t). \<not> t \<le> re_trim env) (AList.update key (res, ?t) (et_idempotency et)))"
    by (simp add: res_def trigger_run_def a Let_def keep_result_idempotency k)
  have "key \<notin> fst ` set (et_idempotency et)" using new by (simp add: map_of_eq_None_iff)
  then have "held key (res, ?t) 0 (AList.update key (res, ?t) (et_idempotency et))" by (auto simp: held_def update_new)
  then have "held key (res, ?t) 0 (filter (\<lambda>(k', r', t). \<not> t \<le> re_trim env) (AList.update key (res, ?t) (et_idempotency et)))"
    using now by (intro held_filter) simp_all
  then have "held key (res, ?t) 0 (et_idempotency (snd (trigger_run env x options et)))"
    unfolding idem using m by (intro held_keep_newest) simp_all
  then show "held key (fst (trigger env x options et), ?t) 0 (et_idempotency (snd (trigger env x options et)))" by (simp add: run res_def)
  show "et_max_idempotency (snd (trigger env x options et)) = et_max_idempotency et"
    using trigger_run_idempotency [of env x options et] by (metis run)
qed


subsection \<open>How often the runtime is called\<close>

lemma retry_delay_bounds: "0 \<le> retry_delay_seconds p a \<and> retry_delay_seconds p a \<le> max 0 (of_int (rp_max p) / 1000)"
  by (auto simp: retry_delay_seconds_def Let_def max_def min_def divide_right_mono)

lemma attempt_loop_bounds:
  "attempt_loop env mode p n a l = (r, calls, delays) \<Longrightarrow> calls \<le> n \<and> length delays \<le> calls - 1
     \<and> list_all (\<lambda>d. 0 \<le> d \<and> d \<le> max 0 (of_int (rp_max p) / 1000)) delays"
proof (induction env mode p n a l arbitrary: r calls delays rule: attempt_loop.induct)
  case (2 env mode p left a l)
  define res where "res = (case re_call env (Suc a) of Inl f \<Rightarrow> Inl f | Inr v \<Rightarrow> to_execution_result env mode v)"
  show ?case
  proof (cases res)
    case (Inr b)
    with 2(2) show ?thesis by (auto simp: res_def [symmetric])
  next
    case (Inl f)
    show ?thesis
    proof (cases "left = 0 \<or> \<not> rf_retriable f")
      case True
      with 2(2) Inl show ?thesis by (auto simp: res_def [symmetric])
    next
      case False
      obtain r' c' d' where rec: "attempt_loop env mode p left (Suc a) (Some f) = (r', c', d')" by (metis prod_cases3)
      with 2(2) Inl False have c: "calls = Suc c'" "delays = retry_delay_seconds p (Suc a) # d'" by (auto simp: res_def [symmetric])
      have ih: "c' \<le> left \<and> length d' \<le> c' - 1 \<and> list_all (\<lambda>d. 0 \<le> d \<and> d \<le> max 0 (of_int (rp_max p) / 1000)) d'"
        using 2(1) [of f] Inl False rec by (auto simp: res_def [symmetric])
      have "0 < c'"
        using rec False by (cases left) (auto split: sum.splits if_splits prod.splits)
      with ih have "Suc (length d') \<le> c'" by linarith
      with ih c retry_delay_bounds [of p "Suc a"] show ?thesis by simp
    qed
  qed
qed simp

definition policy_of :: "exec_options \<Rightarrow> retry_policy" where
  "policy_of options = (case eo_retry options of None \<Rightarrow> default_retry | Some p \<Rightarrow> p)"

text \<open>
  One call hands its input to the runtime at most as often as its retry policy allows (once without
  a policy), and sleeps between attempts only, never longer than the maximal delay.
\<close>

lemma trigger_attempts:
  "\<exists>n delays. et_calls (snd (trigger env x options et)) = et_calls et @ replicate n (x, eo_timeout options)
     \<and> et_delays (snd (trigger env x options et)) = et_delays et @ delays
     \<and> int n \<le> max 0 (rp_attempts (policy_of options)) \<and> length delays \<le> n - 1
     \<and> list_all (\<lambda>d. 0 \<le> d \<and> d \<le> max 0 (of_int (rp_max (policy_of options)) / 1000)) delays"
proof -
  have run: "\<exists>n delays. et_calls (snd (trigger_run env x options et1)) = et_calls et1 @ replicate n (x, eo_timeout options)
     \<and> et_delays (snd (trigger_run env x options et1)) = et_delays et1 @ delays
     \<and> int n \<le> max 0 (rp_attempts (policy_of options)) \<and> length delays \<le> n - 1
     \<and> list_all (\<lambda>d. 0 \<le> d \<and> d \<le> max 0 (of_int (rp_max (policy_of options)) / 1000)) delays" for et1
  proof -
    obtain r calls delays where a: "attempt_loop env (eo_mode options) (policy_of options) (nat (rp_attempts (policy_of options))) 0 None = (r, calls, delays)"
      by (metis prod_cases3)
    have "et_calls (snd (trigger_run env x options et1)) = et_calls et1 @ replicate calls (x, eo_timeout options)"
      "et_delays (snd (trigger_run env x options et1)) = et_delays et1 @ delays"
      using a by (simp_all add: trigger_run_def policy_of_def Let_def keep_result_def record_idempotency_def trim_idempotency_cache_def
          trim_execution_cache_def split: option.split)
    moreover have "int calls \<le> max 0 (rp_attempts (policy_of options))" using attempt_loop_bounds [OF a] by linarith
    ultimately show ?thesis using attempt_loop_bounds [OF a] by blast
  qed
  have none: "\<exists>n delays. xs = xs @ replicate n (x, eo_timeout options) \<and> ds = ds @ delays \<and> int n \<le> max 0 (rp_attempts (policy_of options))
     \<and> length delays \<le> n - 1 \<and> list_all (\<lambda>d. 0 \<le> d \<and> d \<le> max 0 (of_int (rp_max (policy_of options)) / 1000)) delays" for xs ds
    by (intro exI [of _ 0] exI [of _ "[]"]) simp
  obtain e et1 where c: "check_idempotency (re_check env) (case key_of options of None \<Rightarrow> [] | Some k \<Rightarrow> k) et = (e, et1)" by fastforce
  then have same: "et_calls et1 = et_calls et" "et_delays et1 = et_delays et"
    by (auto simp: check_idempotency_def split: option.splits prod.splits if_splits)
  show ?thesis
  proof (cases "key_of options")
    case None
    with run [of et] show ?thesis by (simp add: trigger_def)
  next
    case (Some k)
    with c same run [of et1] none [of "et_calls et" "et_delays et"] show ?thesis by (cases e) (simp_all add: trigger_def)
  qed
qed

definition sample_run_env :: "micros \<Rightarrow> run_env" where
  "sample_run_env now = \<lparr>re_check = now, re_call = (\<lambda>n. Inl \<lparr>rf_type = ''ValueError'', rf_message = ''m'', rf_retriable = False\<rparr>), re_made = now,
     re_done = now, re_fresh = ''f'', re_record = now, re_trim = now, re_str = (\<lambda>v. [])\<rparr>"

definition sample_input :: "string \<Rightarrow> agent_input" where
  "sample_input agent = \<lparr>ai_agent = agent, ai_parameters = PDict [], ai_context = PDict []\<rparr>"

definition sample_options :: "string \<Rightarrow> exec_options" where
  "sample_options key = \<lparr>eo_mode = ''sync'', eo_timeout = None, eo_key = Some key, eo_retry = None\<rparr>"


end
