(* ===== verification/PyValues.thy ===== *)
theory PyValues
  imports Prelude
begin

section \<open>Equality of dynamically typed values\<close>

text \<open>
  What \<open>==\<close> means for the values of the prelude: \<open>True\<close>, \<open>1\<close> and \<open>1.0\<close> are equal. Membership in a list
  and the lookup of a key use the same equality.
\<close>

text \<open>A number as its value, and whether it is a float.\<close>

fun num_of :: "pyval \<Rightarrow> (rat \<times> bool) option" where
  "num_of (PBool b) = Some (if b then 1 else 0, False)"
| "num_of (PInt i) = Some (of_int i, False)"
| "num_of (PFloat r) = Some (r, True)"
| "num_of v = None"

text \<open>\<open>==\<close>: numbers by value, sequences elementwise, dictionaries and sets whatever their order.\<close>

lemma size_member: "x \<in> set xs \<Longrightarrow> size (x :: pyval) < Suc (size_list size xs)"
  by (induction xs) auto

lemma size_zip_member: "p \<in> set (zip xs ys) \<Longrightarrow> size (fst p :: pyval) < Suc (size_list size xs)"
  using size_member by (metis prod.collapse set_zip_leftD)

lemma size_entry: "p \<in> set d \<Longrightarrow> size (fst p :: pyval) < Suc (size_list (size_prod size size) d) \<and> size (snd p :: pyval) < Suc (size_list (size_prod size size) d)"
  by (induction d) (auto split: prod.splits)

function py_eq :: "pyval \<Rightarrow> pyval \<Rightarrow> bool" where
  "py_eq a b =
     (case (num_of a, num_of b) of
        (Some (x, f), Some (y, g)) \<Rightarrow> x = y
      | _ \<Rightarrow> (case (a, b) of
            (PNone, PNone) \<Rightarrow> True
          | (PStr s, PStr t) \<Rightarrow> s = t
          | (PList xs, PList ys) \<Rightarrow> length xs = length ys \<and> (\<forall>p \<in> set (zip xs ys). py_eq (fst p) (snd p))
          | (PTuple xs, PTuple ys) \<Rightarrow> length xs = length ys \<and> (\<forall>p \<in> set (zip xs ys). py_eq (fst p) (snd p))
          | (PSet xs, PSet ys) \<Rightarrow> length xs = length ys \<and> (\<forall>x \<in> set xs. \<exists>y \<in> set ys. py_eq x y)
          | (PDict xs, PDict ys) \<Rightarrow>
              length xs = length ys \<and> (\<forall>p \<in> set xs. \<exists>q \<in> set ys. py_eq (fst p) (fst q) \<and> py_eq (snd p) (snd q))
          | (PObject s, PObject t) \<Rightarrow> s = t
          | _ \<Rightarrow> False))"
  by pat_completeness auto
termination
  by (relation "measure (\<lambda>(a, b). size a)") (auto simp: size_member dest: set_zip_leftD size_entry)

declare py_eq.simps [simp del]

fun hashable :: "pyval \<Rightarrow> bool" where
  "hashable (PList xs) = False"
| "hashable (PDict kvs) = False"
| "hashable (PSet xs) = False"
| "hashable (PTuple xs) = list_all hashable xs"
| "hashable v = True"

text \<open>\<open>v in xs\<close>, for a list.\<close>

definition py_member :: "pyval \<Rightarrow> pyval list \<Rightarrow> bool" where
  "py_member v xs = list_ex (py_eq v) xs"

lemma py_eq_str [simp]: "py_eq (PStr s) (PStr t) = (s = t)"
  by (simp add: py_eq.simps)

end
