(* ===== verification/WebhookTransform.thy ===== *)
theory WebhookTransform
  imports WebhookExecution PyValues
begin

section \<open>Webhooks: parsing and transforming a payload\<close>

text \<open>
  \<open>owlclaw/triggers/webhook/transformer.py\<close>: the three payload formats, the mappings of a rule, its
  schema, and the expression language of its custom logic with the check before it is evaluated.
  The decoders of the library (JSON, XML, forms, ISO dates), the texts of values that are not
  strings, printf-style formatting and the Python parser are in \<open>parse_env\<close>. Values are copied
  where the code shares them: the model agrees with the code when no mapping assigns below a place
  that another one filled with a part of the payload.
\<close>

subsection \<open>Parsing\<close>

datatype xml_node = XNode string "string option" "xml_node list"

record parse_env =
  pe_json :: "string \<Rightarrow> pyval option"
  pe_xml :: "string \<Rightarrow> xml_node option"
  pe_form :: "string \<Rightarrow> (string \<times> string list) list"
  pe_iso :: "string \<Rightarrow> string option"
  pe_str :: "pyval \<Rightarrow> string"
  pe_percent :: "string \<Rightarrow> pyval \<Rightarrow> py_error + pyval"

record parsed_payload =
  pp_type :: string
  pp_data :: pyval
  pp_headers :: "(string \<times> string) list"
  pp_raw :: string

definition extract_content_type :: "(string \<times> string) list \<Rightarrow> string" where
  "extract_content_type headers =
     (case List.find (\<lambda>(k, v). py_lower k = ''content-type'') headers of None \<Rightarrow> [] | Some (k, v) \<Rightarrow> content_type_of v)"

definition strip_ns :: "string \<Rightarrow> string" where
  "strip_ns tag = (if CHR ''}'' \<in> set tag then drop 1 (dropWhile (\<lambda>c. c \<noteq> CHR ''}'') tag) else tag)"

fun xml_tag :: "xml_node \<Rightarrow> string" where
  "xml_tag (XNode tag content children) = tag"

definition add_child :: "string \<Rightarrow> pyval \<Rightarrow> (pyval \<times> pyval) list \<Rightarrow> (pyval \<times> pyval) list" where
  "add_child tag v d =
     (case map_of d (PStr tag) of
        None \<Rightarrow> d @ [(PStr tag, v)]
      | Some (PList xs) \<Rightarrow> AList.update (PStr tag) (PList (xs @ [v])) d
      | Some existing \<Rightarrow> AList.update (PStr tag) (PList [existing, v]) d)"

fun xml_to_dict :: "xml_node \<Rightarrow> pyval" where
  "xml_to_dict (XNode tag content children) =
     (if children = [] then PStr (case content of None \<Rightarrow> [] | Some t \<Rightarrow> t)
      else PDict (fold (\<lambda>(t, v) d. add_child t v d) (map (\<lambda>c. (strip_ns (xml_tag c), xml_to_dict c)) children) []))"

definition form_value :: "string list \<Rightarrow> pyval" where
  "form_value vs = (case vs of [v] \<Rightarrow> PStr v | _ \<Rightarrow> PList (map PStr vs))"

definition parse_data :: "parse_env \<Rightarrow> string \<Rightarrow> string \<Rightarrow> py_error + pyval" where
  "parse_data env content_type body =
     (if content_type = ''application/json'' then
        (if body = [] then Inr (PDict [])
         else (case pe_json env body of
             Some v \<Rightarrow> if is_dict v then Inr v else Inl (ValueError ''invalid json payload'')
           | None \<Rightarrow> Inl (ValueError ''invalid json payload'')))
      else if content_type \<in> {''application/xml'', ''text/xml''} then
        (case pe_xml env body of
           None \<Rightarrow> Inl (ValueError ''invalid xml payload'')
         | Some elem \<Rightarrow> Inr (PDict [(PStr (strip_ns (xml_tag elem)), xml_to_dict elem)]))
      else if content_type = ''application/x-www-form-urlencoded'' then
        Inr (PDict (map (\<lambda>(k, vs). (PStr k, form_value vs)) (pe_form env body)))
      else Inl (ValueError ''unsupported content type''))"

definition parse :: "parse_env \<Rightarrow> http_request \<Rightarrow> py_error + parsed_payload" where
  "parse env request =
     (let content_type = extract_content_type (hr_headers request) in
      and_then (parse_data env content_type (hr_body request)) (\<lambda>data.
        Inr \<lparr>pp_type = content_type, pp_data = data, pp_headers = hr_headers request, pp_raw = hr_body request\<rparr>))"

fun value_error_text :: "py_error \<Rightarrow> string option" where
  "value_error_text (ValueError m) = Some m"
| "value_error_text e = None"

text \<open>Only a \<open>ValueError\<close> becomes a validation error.\<close>

definition parse_safe :: "parse_env \<Rightarrow> http_request \<Rightarrow> py_error + (validation_error + parsed_payload)" where
  "parse_safe env request =
     (case parse env request of
        Inr p \<Rightarrow> Inr (Inr p)
      | Inl e \<Rightarrow> (case value_error_text e of
            Some m \<Rightarrow> Inr (Inl (verror ''INVALID_FORMAT'' m (Some 400)))
          | None \<Rightarrow> Inl e))"

subsection \<open>Mappings\<close>

record field_mapping =
  fm_source :: string
  fm_target :: string
  fm_transform :: "string option"
  fm_default :: pyval

text \<open>\<open>None\<close> for a path that leads nowhere or to the value \<open>None\<close>.\<close>

fun walk_path :: "pyval \<Rightarrow> string list \<Rightarrow> pyval option" where
  "walk_path current [] = Some current"
| "walk_path current (part # parts) =
     (case current of
        PDict kvs \<Rightarrow> (case map_of kvs (PStr part) of
            None \<Rightarrow> None
          | Some v \<Rightarrow> if v = PNone then None else walk_path v parts)
      | _ \<Rightarrow> None)"

definition json_path_get :: "pyval \<Rightarrow> string \<Rightarrow> pyval option" where
  "json_path_get data path =
     (if path = ''$'' then Some data
      else (case after_prefix ''$.'' path of None \<Rightarrow> None | Some rest \<Rightarrow> walk_path data (py_split CHR ''.'' rest)))"

fun assign_parts :: "(pyval \<times> pyval) list \<Rightarrow> string list \<Rightarrow> pyval \<Rightarrow> (pyval \<times> pyval) list" where
  "assign_parts d [] v = d"
| "assign_parts d [key] v = AList.update (PStr key) v d"
| "assign_parts d (key # part # parts) v =
     (let child = (case map_of d (PStr key) of Some (PDict kvs) \<Rightarrow> kvs | _ \<Rightarrow> [])
      in AList.update (PStr key) (PDict (assign_parts child (part # parts) v)) d)"

definition assign_path :: "(pyval \<times> pyval) list \<Rightarrow> string \<Rightarrow> pyval \<Rightarrow> (pyval \<times> pyval) list" where
  "assign_path target path v = assign_parts target (py_split CHR ''.'' path) v"

definition zulu :: "string \<Rightarrow> string" where
  "zulu s = concat (map (\<lambda>c. if c = CHR ''Z'' then ''+00:00'' else [c]) s)"

definition convert_value :: "parse_env \<Rightarrow> pyval \<Rightarrow> string option \<Rightarrow> py_error + pyval" where
  "convert_value env v transform =
     (case transform of
        None \<Rightarrow> Inr v
      | Some t \<Rightarrow>
          if t = ''string'' then Inr (PStr (case v of PNone \<Rightarrow> [] | PStr s \<Rightarrow> s | _ \<Rightarrow> pe_str env v))
          else if t = ''number'' then
            (case v of
               PNone \<Rightarrow> Inr (PFloat 0)
             | PBool b \<Rightarrow> and_then (py_float v) (\<lambda>r. Inr (PFloat r))
             | PInt i \<Rightarrow> and_then (py_float v) (\<lambda>r. Inr (PFloat r))
             | PFloat r \<Rightarrow> Inr (PFloat r)
             | PStr s \<Rightarrow> and_then (py_float v) (\<lambda>r. Inr (PFloat r))
             | _ \<Rightarrow> Inl (ValueError ''number transform requires int/float/string''))
          else if t = ''boolean'' then
            (case v of
               PBool b \<Rightarrow> Inr (PBool b)
             | PStr s \<Rightarrow>
                 (let lowered = strip_lower s in
                  if lowered \<in> {''true'', ''1'', ''yes''} then Inr (PBool True)
                  else if lowered \<in> {''false'', ''0'', ''no''} then Inr (PBool False)
                  else Inr (PBool (truthy v)))
             | _ \<Rightarrow> Inr (PBool (truthy v)))
          else if t = ''date'' then
            (case v of
               PStr s \<Rightarrow> (case pe_iso env (zulu s) of Some d \<Rightarrow> Inr (PStr d) | None \<Rightarrow> Inl (ValueError ''Invalid isoformat string''))
             | _ \<Rightarrow> Inl (ValueError ''date transform requires datetime or ISO string''))
          else if t = ''json'' then
            (case v of
               PStr s \<Rightarrow> (case pe_json env s of Some w \<Rightarrow> Inr w | None \<Rightarrow> Inl (ValueError ''JSON''))
             | _ \<Rightarrow> Inr v)
          else Inl (ValueError (''unsupported transform type: '' @ t)))"

fun apply_mappings :: "parse_env \<Rightarrow> pyval \<Rightarrow> field_mapping list \<Rightarrow> (pyval \<times> pyval) list \<Rightarrow> py_error + (pyval \<times> pyval) list" where
  "apply_mappings env data [] parameters = Inr parameters"
| "apply_mappings env data (m # ms) parameters =
     (let v = (case json_path_get data (fm_source m) of None \<Rightarrow> fm_default m
            | Some raw \<Rightarrow> if raw = PNone then fm_default m else raw)
      in and_then (convert_value env v (fm_transform m)) (\<lambda>converted.
           apply_mappings env data ms (assign_path parameters (fm_target m) converted)))"

subsection \<open>Schema\<close>

definition schema_error :: "string \<Rightarrow> validation_error option" where
  "schema_error message = Some (verror ''INVALID_SCHEMA'' message (Some 400))"

definition type_error :: "string \<Rightarrow> string \<Rightarrow> validation_error option" where
  "type_error field expected_type = schema_error (''field '' @ field @ '' must be '' @ expected_type)"

fun is_number :: "pyval \<Rightarrow> bool" where
  "is_number (PBool b) = True"
| "is_number (PInt i) = True"
| "is_number (PFloat r) = True"
| "is_number v = False"

definition field_text :: "parse_env \<Rightarrow> pyval \<Rightarrow> string" where
  "field_text env v = (case v of PStr s \<Rightarrow> s | _ \<Rightarrow> pe_str env v)"

fun check_required :: "parse_env \<Rightarrow> (pyval \<times> pyval) list \<Rightarrow> pyval list \<Rightarrow> validation_error option" where
  "check_required env parameters [] = None"
| "check_required env parameters (field # rest) =
     (if map_of parameters field = None then schema_error (''missing required field: '' @ field_text env field)
      else check_required env parameters rest)"

fun check_properties :: "parse_env \<Rightarrow> (pyval \<times> pyval) list \<Rightarrow> (pyval \<times> pyval) list \<Rightarrow> validation_error option" where
  "check_properties env parameters [] = None"
| "check_properties env parameters ((field, spec) # rest) =
     (case map_of parameters field of
        None \<Rightarrow> check_properties env parameters rest
      | Some v \<Rightarrow>
          if \<not> is_dict spec then check_properties env parameters rest
          else (let expected = dict_get_or spec ''type'' PNone; name = field_text env field in
            if expected = PStr ''string'' \<and> (case v of PStr s \<Rightarrow> False | _ \<Rightarrow> True) then type_error name ''string''
            else if expected = PStr ''number'' \<and> \<not> is_number v then type_error name ''number''
            else if expected = PStr ''boolean'' \<and> (case v of PBool b \<Rightarrow> False | _ \<Rightarrow> True) then type_error name ''boolean''
            else if expected = PStr ''object'' \<and> \<not> is_dict v then type_error name ''object''
            else check_properties env parameters rest))"

definition validate_schema :: "parse_env \<Rightarrow> (pyval \<times> pyval) list \<Rightarrow> pyval option \<Rightarrow> validation_error option" where
  "validate_schema env parameters schema =
     (case schema of
        None \<Rightarrow> None
      | Some s \<Rightarrow>
          (case (case dict_get_or s ''required'' (PList []) of PList rest \<Rightarrow> check_required env parameters rest | _ \<Rightarrow> None) of
             Some e \<Rightarrow> Some e
           | None \<Rightarrow> (case dict_get_or s ''properties'' (PDict []) of PDict kvs \<Rightarrow> check_properties env parameters kvs | _ \<Rightarrow> None)))"

subsection \<open>Custom logic: syntax and the check\<close>

datatype bin_op = OpAdd | OpMult | OpDiv | OpMod | OtherBin
datatype unary_op = OpUSub | OtherUnary
datatype cmp_op = OpEq | OpNotEq | OpGt | OpGtE | OpLt | OpLtE | OtherCmp
datatype bool_op = OpAnd | OpOr

text \<open>A key of a dictionary display is missing where the source unpacks with \<open>**\<close>.\<close>

datatype expr =
    EConstant pyval
  | EDict "expr option list" "expr list"
  | EList "expr list"
  | ETuple "expr list"
  | EName string
  | ESubscript expr expr
  | ESlice "expr list"
  | EBinOp expr bin_op expr
  | EUnaryOp unary_op expr
  | ECompare expr "cmp_op list" "expr list"
  | EBoolOp bool_op "expr list"
  | EIfExp expr expr expr
  | EOther "expr list"

text \<open>A node of the tree is an expression or an operator; operators are allowed or not.\<close>

datatype ast_node = NExpr expr | NOperator bool

fun children :: "expr \<Rightarrow> ast_node list" where
  "children (EConstant v) = []"
| "children (EDict ks vs) = map NExpr (List.map_filter (\<lambda>k. k) ks) @ map NExpr vs"
| "children (EList es) = map NExpr es"
| "children (ETuple es) = map NExpr es"
| "children (EName x) = []"
| "children (ESubscript base key) = [NExpr base, NExpr key]"
| "children (ESlice es) = map NExpr es"
| "children (EBinOp a oper b) = [NExpr a, NOperator (oper \<noteq> OtherBin), NExpr b]"
| "children (EUnaryOp oper e) = [NOperator (oper \<noteq> OtherUnary), NExpr e]"
| "children (ECompare e opers es) = NExpr e # map (\<lambda>c. NOperator (c \<noteq> OtherCmp)) opers @ map NExpr es"
| "children (EBoolOp oper es) = NOperator True # map NExpr es"
| "children (EIfExp t a b) = [NExpr t, NExpr a, NExpr b]"
| "children (EOther es) = map NExpr es"

fun node_error :: "ast_node \<Rightarrow> string option" where
  "node_error (NOperator ok) = (if ok then None else Some ''unsafe custom logic expression'')"
| "node_error (NExpr (EName x)) = (if x \<in> {''payload'', ''parameters''} then None else Some ''unsafe custom logic variable'')"
| "node_error (NExpr (ESlice es)) = Some ''unsafe custom logic expression''"
| "node_error (NExpr (EOther es)) = Some ''unsafe custom logic expression''"
| "node_error (NExpr e) = None"

fun node_children :: "ast_node \<Rightarrow> ast_node list" where
  "node_children (NOperator ok) = []"
| "node_children (NExpr e) = children e"

text \<open>The number of nodes of a tree, operators included.\<close>

fun node_count :: "expr \<Rightarrow> nat" where
  "node_count (EConstant v) = 1"
| "node_count (EDict ks vs) = 1 + sum_list (map (\<lambda>k. case k of None \<Rightarrow> 0 | Some e \<Rightarrow> node_count e) ks) + sum_list (map node_count vs)"
| "node_count (EList es) = 1 + sum_list (map node_count es)"
| "node_count (ETuple es) = 1 + sum_list (map node_count es)"
| "node_count (EName x) = 1"
| "node_count (ESubscript base key) = 1 + node_count base + node_count key"
| "node_count (ESlice es) = 1 + sum_list (map node_count es)"
| "node_count (EBinOp a oper b) = 2 + node_count a + node_count b"
| "node_count (EUnaryOp oper e) = 2 + node_count e"
| "node_count (ECompare e opers es) = 1 + node_count e + length opers + sum_list (map node_count es)"
| "node_count (EBoolOp oper es) = 2 + sum_list (map node_count es)"
| "node_count (EIfExp t a b) = 1 + node_count t + node_count a + node_count b"
| "node_count (EOther es) = 1 + sum_list (map node_count es)"

fun node_size :: "ast_node \<Rightarrow> nat" where
  "node_size (NOperator ok) = 1"
| "node_size (NExpr e) = node_count e"

text \<open>\<open>ast.walk\<close> goes through the tree level by level: the first bad node in that order decides.\<close>

lemma sum_exprs: "sum_list (map node_size (map NExpr es)) = sum_list (map node_count es)"
  by (simp add: o_def)

lemma sum_operators: "sum_list (map node_size (map (\<lambda>c. NOperator (P c)) xs)) = length xs"
  by (induction xs) auto

lemma sum_keys: "sum_list (map node_count (List.map_filter (\<lambda>k. k) ks)) = sum_list (map (case_option 0 node_count) ks)"
  by (induction ks) (auto simp: List.map_filter_simps split: option.split)

lemma node_children_size: "sum_list (map node_size (node_children n)) < node_size n"
proof (cases n)
  case (NExpr e)
  show ?thesis unfolding NExpr
    by (cases e) (simp_all del: map_map add: sum_exprs sum_operators sum_keys)
qed simp

function walk_error :: "ast_node list \<Rightarrow> string option" where
  "walk_error [] = None"
| "walk_error (n # ns) = (case node_error n of Some m \<Rightarrow> Some m | None \<Rightarrow> walk_error (ns @ node_children n))"
  by pat_completeness auto
termination
  by (relation "measure (\<lambda>ns. sum_list (map node_size ns))") (auto simp: node_children_size)

definition validate_ast :: "expr \<Rightarrow> py_error + unit" where
  "validate_ast e = (case walk_error [NExpr e] of None \<Rightarrow> Inr () | Some m \<Rightarrow> Inl (ValueError m))"

subsection \<open>Custom logic: evaluation\<close>

definition number :: "bool \<Rightarrow> rat \<Rightarrow> pyval" where
  "number float r = (if float then PFloat r else PInt \<lfloor>r\<rfloor>)"

fun count_of :: "pyval \<Rightarrow> nat option" where
  "count_of (PBool b) = Some (if b then 1 else 0)"
| "count_of (PInt i) = Some (nat i)"
| "count_of v = None"

definition repeat_list :: "nat \<Rightarrow> 'a list \<Rightarrow> 'a list" where
  "repeat_list n xs = concat (replicate n xs)"

definition unsupported :: "py_error + pyval" where
  "unsupported = Inl (TypeError ''unsupported operand type(s)'')"

definition op_add :: "pyval \<Rightarrow> pyval \<Rightarrow> py_error + pyval" where
  "op_add a b =
     (case (num_of a, num_of b) of
        (Some (x, f), Some (y, g)) \<Rightarrow> Inr (number (f \<or> g) (x + y))
      | _ \<Rightarrow> (case (a, b) of
            (PStr s, PStr t) \<Rightarrow> Inr (PStr (s @ t))
          | (PList xs, PList ys) \<Rightarrow> Inr (PList (xs @ ys))
          | (PTuple xs, PTuple ys) \<Rightarrow> Inr (PTuple (xs @ ys))
          | _ \<Rightarrow> unsupported))"

fun op_repeat :: "pyval \<Rightarrow> nat \<Rightarrow> py_error + pyval" where
  "op_repeat (PStr s) n = Inr (PStr (repeat_list n s))"
| "op_repeat (PList xs) n = Inr (PList (repeat_list n xs))"
| "op_repeat (PTuple xs) n = Inr (PTuple (repeat_list n xs))"
| "op_repeat v n = unsupported"

definition op_mult :: "pyval \<Rightarrow> pyval \<Rightarrow> py_error + pyval" where
  "op_mult a b =
     (case (num_of a, num_of b) of
        (Some (x, f), Some (y, g)) \<Rightarrow> Inr (number (f \<or> g) (x * y))
      | _ \<Rightarrow> (case (count_of a, count_of b) of
            (None, Some n) \<Rightarrow> op_repeat a n
          | (Some n, None) \<Rightarrow> op_repeat b n
          | _ \<Rightarrow> unsupported))"

definition op_div :: "pyval \<Rightarrow> pyval \<Rightarrow> py_error + pyval" where
  "op_div a b =
     (case (num_of a, num_of b) of
        (Some (x, f), Some (y, g)) \<Rightarrow> if y = 0 then Inl (ArithmeticError ''division by zero'') else Inr (PFloat (x / y))
      | _ \<Rightarrow> unsupported)"

definition op_mod :: "parse_env \<Rightarrow> pyval \<Rightarrow> pyval \<Rightarrow> py_error + pyval" where
  "op_mod env a b =
     (case (num_of a, num_of b) of
        (Some (x, f), Some (y, g)) \<Rightarrow>
          if y = 0 then Inl (ArithmeticError ''modulo by zero'') else Inr (number (f \<or> g) (x - y * of_int \<lfloor>x / y\<rfloor>))
      | _ \<Rightarrow> (case a of PStr s \<Rightarrow> pe_percent env s b | _ \<Rightarrow> unsupported))"

definition op_neg :: "pyval \<Rightarrow> py_error + pyval" where
  "op_neg a = (case num_of a of Some (x, f) \<Rightarrow> Inr (number f (- x)) | None \<Rightarrow> unsupported)"

fun str_less :: "bool \<Rightarrow> string \<Rightarrow> string \<Rightarrow> bool" where
  "str_less strict [] [] = (\<not> strict)"
| "str_less strict [] (d # ds) = True"
| "str_less strict (c # cs) [] = False"
| "str_less strict (c # cs) (d # ds) = (if c = d then str_less strict cs ds else of_char c < (of_char d :: nat))"

text \<open>\<open><\<close> if strict, else \<open><=\<close>; sequences are compared at their first difference.\<close>

fun py_less :: "bool \<Rightarrow> pyval \<Rightarrow> pyval \<Rightarrow> py_error + bool"
  and seq_less :: "bool \<Rightarrow> pyval list \<Rightarrow> pyval list \<Rightarrow> py_error + bool" where
  "py_less strict (PStr s) (PStr t) = Inr (str_less strict s t)"
| "py_less strict (PList xs) (PList ys) = seq_less strict xs ys"
| "py_less strict (PTuple xs) (PTuple ys) = seq_less strict xs ys"
| "py_less strict a b =
     (case (num_of a, num_of b) of
        (Some (x, f), Some (y, g)) \<Rightarrow> Inr (if strict then x < y else x \<le> y)
      | _ \<Rightarrow> Inl (TypeError ''comparison not supported''))"
| "seq_less strict [] [] = Inr (\<not> strict)"
| "seq_less strict [] (y # ys) = Inr True"
| "seq_less strict (x # xs) [] = Inr False"
| "seq_less strict (x # xs) (y # ys) = (if py_eq x y then seq_less strict xs ys else py_less strict x y)"

text \<open>A key keeps its first spelling: \<open>1\<close>, \<open>1.0\<close> and \<open>True\<close> are one key.\<close>

fun dict_put :: "pyval \<Rightarrow> pyval \<Rightarrow> (pyval \<times> pyval) list \<Rightarrow> (pyval \<times> pyval) list" where
  "dict_put k v [] = [(k, v)]"
| "dict_put k v ((k', v') # d) = (if py_eq k k' then (k', v) # d else (k', v') # dict_put k v d)"

definition build_dict :: "(pyval \<times> pyval) list \<Rightarrow> py_error + pyval" where
  "build_dict kvs =
     (if list_all (\<lambda>(k, v). hashable k) kvs then Inr (PDict (fold (\<lambda>(k, v). dict_put k v) kvs []))
      else Inl (TypeError ''unhashable type''))"

fun index_of :: "pyval \<Rightarrow> int option" where
  "index_of (PInt i) = Some i"
| "index_of (PBool b) = Some (if b then 1 else 0)"
| "index_of v = None"

definition seq_item :: "'a list \<Rightarrow> pyval \<Rightarrow> py_error + 'a" where
  "seq_item xs key =
     (case index_of key of
        None \<Rightarrow> Inl (TypeError ''indices must be integers'')
      | Some i \<Rightarrow>
          if - int (length xs) \<le> i \<and> i < int (length xs) then Inr (xs ! nat (if i < 0 then i + int (length xs) else i))
          else Inl (IndexError ''index out of range''))"

definition subscript :: "pyval \<Rightarrow> pyval \<Rightarrow> py_error + pyval" where
  "subscript base key =
     (case base of
        PDict kvs \<Rightarrow>
          if \<not> hashable key then Inl (TypeError ''unhashable type'')
          else (case List.find (\<lambda>(k, v). py_eq key k) kvs of None \<Rightarrow> Inl (KeyError ''key'') | Some (k, v) \<Rightarrow> Inr v)
      | PList xs \<Rightarrow> seq_item xs key
      | PTuple xs \<Rightarrow> seq_item xs key
      | PStr s \<Rightarrow> and_then (seq_item s key) (\<lambda>c. Inr (PStr [c]))
      | _ \<Rightarrow> Inl (TypeError ''object is not subscriptable''))"

definition compare_values :: "cmp_op \<Rightarrow> pyval \<Rightarrow> pyval \<Rightarrow> py_error + pyval" where
  "compare_values oper a b =
     (case oper of
        OpEq \<Rightarrow> Inr (PBool (py_eq a b))
      | OpNotEq \<Rightarrow> Inr (PBool (\<not> py_eq a b))
      | OpGt \<Rightarrow> and_then (py_less True b a) (\<lambda>r. Inr (PBool r))
      | OpGtE \<Rightarrow> and_then (py_less False b a) (\<lambda>r. Inr (PBool r))
      | OpLt \<Rightarrow> and_then (py_less True a b) (\<lambda>r. Inr (PBool r))
      | OpLtE \<Rightarrow> and_then (py_less False a b) (\<lambda>r. Inr (PBool r))
      | OtherCmp \<Rightarrow> Inl (ValueError ''unsupported comparison operator''))"

definition binary_values :: "parse_env \<Rightarrow> bin_op \<Rightarrow> pyval \<Rightarrow> pyval \<Rightarrow> py_error + pyval" where
  "binary_values env oper a b =
     (case oper of
        OpAdd \<Rightarrow> op_add a b
      | OpMult \<Rightarrow> op_mult a b
      | OpDiv \<Rightarrow> op_div a b
      | OpMod \<Rightarrow> op_mod env a b
      | OtherBin \<Rightarrow> Inl (ValueError ''unsupported binary operator''))"

text \<open>Evaluations one after the other; the first that raises ends them.\<close>

fun in_order :: "('e + 'a) list \<Rightarrow> 'e + 'a list" where
  "in_order [] = Inr []"
| "in_order (r # rs) = and_then r (\<lambda>v. and_then (in_order rs) (\<lambda>vs. Inr (v # vs)))"

definition unsafe_expression :: "py_error + pyval" where
  "unsafe_expression = Inl (ValueError ''unsafe custom logic expression'')"

fun is_slice :: "expr \<Rightarrow> bool" where
  "is_slice (ESlice es) = True"
| "is_slice e = False"

fun safe_eval_ast :: "parse_env \<Rightarrow> pyval \<Rightarrow> pyval \<Rightarrow> expr \<Rightarrow> py_error + pyval" where
  "safe_eval_ast env payload parameters (EConstant v) = Inr v"
| "safe_eval_ast env payload parameters (EDict ks vs) =
     and_then (in_order (map (\<lambda>k. case k of None \<Rightarrow> unsafe_expression | Some e \<Rightarrow> safe_eval_ast env payload parameters e) ks)) (\<lambda>keys.
       and_then (in_order (map (safe_eval_ast env payload parameters) vs)) (\<lambda>elements. build_dict (zip keys elements)))"
| "safe_eval_ast env payload parameters (EList es) =
     and_then (in_order (map (safe_eval_ast env payload parameters) es)) (\<lambda>items. Inr (PList items))"
| "safe_eval_ast env payload parameters (ETuple es) =
     and_then (in_order (map (safe_eval_ast env payload parameters) es)) (\<lambda>items. Inr (PTuple items))"
| "safe_eval_ast env payload parameters (EName x) =
     (if x = ''payload'' then Inr payload else if x = ''parameters'' then Inr parameters
      else Inl (ValueError ''unsafe custom logic variable''))"
| "safe_eval_ast env payload parameters (ESubscript base key) =
     and_then (safe_eval_ast env payload parameters base) (\<lambda>b.
       if is_slice key then Inl (ValueError ''slice is not allowed in custom logic'')
       else and_then (safe_eval_ast env payload parameters key) (\<lambda>k. subscript b k))"
| "safe_eval_ast env payload parameters (ESlice es) = unsafe_expression"
| "safe_eval_ast env payload parameters (EBinOp a oper b) =
     and_then (safe_eval_ast env payload parameters a) (\<lambda>x.
       and_then (safe_eval_ast env payload parameters b) (\<lambda>y. binary_values env oper x y))"
| "safe_eval_ast env payload parameters (EUnaryOp oper e) =
     and_then (safe_eval_ast env payload parameters e) (\<lambda>x.
       (case oper of OpUSub \<Rightarrow> op_neg x | OtherUnary \<Rightarrow> Inl (ValueError ''unsupported unary operator'')))"
| "safe_eval_ast env payload parameters (ECompare e opers es) =
     and_then (safe_eval_ast env payload parameters e) (\<lambda>x.
       (case (opers, es) of
          ([oper], [e2]) \<Rightarrow> and_then (safe_eval_ast env payload parameters e2) (\<lambda>y. compare_values oper x y)
        | _ \<Rightarrow> Inl (ValueError ''chained comparisons are not supported'')))"
| "safe_eval_ast env payload parameters (EBoolOp oper es) =
     and_then (in_order (map (safe_eval_ast env payload parameters) es)) (\<lambda>vs.
       Inr (PBool (case oper of OpAnd \<Rightarrow> list_all truthy vs | OpOr \<Rightarrow> list_ex truthy vs)))"
| "safe_eval_ast env payload parameters (EIfExp t a b) =
     and_then (safe_eval_ast env payload parameters t) (\<lambda>c.
       if truthy c then safe_eval_ast env payload parameters a else safe_eval_ast env payload parameters b)"
| "safe_eval_ast env payload parameters (EOther es) = unsafe_expression"

definition evaluate_custom_logic :: "parse_env \<Rightarrow> py_error + expr \<Rightarrow> pyval \<Rightarrow> pyval \<Rightarrow> py_error + pyval" where
  "evaluate_custom_logic env parsed payload parameters =
     and_then parsed (\<lambda>e. and_then (validate_ast e) (\<lambda>u.
       and_then (safe_eval_ast env payload parameters e) (\<lambda>r.
         if is_dict r then Inr r else Inl (ValueError ''custom logic result must be dict''))))"

subsection \<open>Transforming\<close>

text \<open>The custom logic of a rule is given as what the parser makes of it.\<close>

record transformation_rule =
  tr_id :: string
  tr_name :: string
  tr_agent :: string
  tr_mappings :: "field_mapping list"
  tr_schema :: "pyval option"
  tr_logic :: "(py_error + expr) option"

definition transform :: "parse_env \<Rightarrow> pyval \<Rightarrow> transformation_rule \<Rightarrow> py_error + agent_input" where
  "transform env data r =
     and_then (apply_mappings env data (tr_mappings r) []) (\<lambda>mapped.
       and_then (case tr_logic r of
           None \<Rightarrow> Inr mapped
         | Some logic \<Rightarrow> and_then (evaluate_custom_logic env logic data (PDict mapped)) (\<lambda>result.
             Inr (fold (\<lambda>(k, v). dict_put k v) (dict_entries result) mapped))) (\<lambda>parameters.
         (case validate_schema env parameters (tr_schema r) of
            Some e \<Rightarrow> Inl (ValueError (ve_message e))
          | None \<Rightarrow> Inr \<lparr>ai_agent = tr_agent r, ai_parameters = PDict parameters,
              ai_context = PDict [(PStr ''source'', PStr ''webhook''), (PStr ''rule_id'', PStr (tr_id r)), (PStr ''rule_name'', PStr (tr_name r))]\<rparr>)))"

subsection \<open>What the check of custom logic admits\<close>

text \<open>The language of custom logic, by the structure of an expression.\<close>

fun permitted :: "expr \<Rightarrow> bool" where
  "permitted (EConstant v) = True"
| "permitted (EDict ks vs) = (list_all (\<lambda>k. case k of None \<Rightarrow> True | Some e \<Rightarrow> permitted e) ks \<and> list_all permitted vs)"
| "permitted (EList es) = list_all permitted es"
| "permitted (ETuple es) = list_all permitted es"
| "permitted (EName x) = (x = ''payload'' \<or> x = ''parameters'')"
| "permitted (ESubscript base key) = (permitted base \<and> permitted key)"
| "permitted (ESlice es) = False"
| "permitted (EBinOp a oper b) = (oper \<noteq> OtherBin \<and> permitted a \<and> permitted b)"
| "permitted (EUnaryOp oper e) = (oper = OpUSub \<and> permitted e)"
| "permitted (ECompare e opers es) = (OtherCmp \<notin> set opers \<and> permitted e \<and> list_all permitted es)"
| "permitted (EBoolOp oper es) = list_all permitted es"
| "permitted (EIfExp t a b) = (permitted t \<and> permitted a \<and> permitted b)"
| "permitted (EOther es) = False"

fun node_permitted :: "ast_node \<Rightarrow> bool" where
  "node_permitted (NOperator ok) = ok"
| "node_permitted (NExpr e) = permitted e"

lemma list_all_exprs: "list_all node_permitted (map NExpr es) = list_all permitted es"
  by (simp add: list_all_iff)

lemma list_all_keys: "list_all permitted (List.map_filter (\<lambda>k. k) ks) = list_all (\<lambda>k. case k of None \<Rightarrow> True | Some e \<Rightarrow> permitted e) ks"
  by (induction ks) (auto simp: List.map_filter_simps split: option.split)

lemma list_all_operators: "list_all node_permitted (map (\<lambda>c. NOperator (c \<noteq> OtherCmp)) opers) = (OtherCmp \<notin> set opers)"
  by (induction opers) auto

lemma unary_permitted: "(oper \<noteq> OtherUnary) = (oper = OpUSub)"
  by (cases oper) simp_all

lemma node_permitted_iff: "node_permitted n \<longleftrightarrow> node_error n = None \<and> list_all node_permitted (node_children n)"
proof (cases n)
  case (NExpr e)
  show ?thesis unfolding NExpr
    by (cases e) (auto simp: list_all_exprs list_all_keys list_all_operators unary_permitted)
qed simp

lemma walk_error_iff: "walk_error ns = None \<longleftrightarrow> list_all node_permitted ns"
proof (induction ns rule: walk_error.induct)
  case (2 n ns)
  then show ?case using node_permitted_iff [of n] by (cases "node_error n") auto
qed simp

text \<open>
  C36. The check of custom logic, which goes through the tree level by level and stops at the first
  bad node, lets an expression pass exactly if it is built from constants, the two names \<open>payload\<close>
  and \<open>parameters\<close>, displays, indexing without slices and the listed operators. A dictionary display
  that unpacks another passes; only its evaluation refuses it. Logic that does not pass is not
  evaluated, and its first error is the answer.
\<close>

theorem custom_logic_checked:
  "(validate_ast e = Inr () \<longleftrightarrow> permitted e)
   \<and> evaluate_custom_logic env (Inr e) payload parameters =
     (if permitted e
      then and_then (safe_eval_ast env payload parameters e)
        (\<lambda>r. if is_dict r then Inr r else Inl (ValueError ''custom logic result must be dict''))
      else Inl (ValueError (the (walk_error [NExpr e]))))"
proof (cases "walk_error [NExpr e]")
  case None
  then have "permitted e" using walk_error_iff [of "[NExpr e]"] by simp
  with None show ?thesis by (simp add: validate_ast_def evaluate_custom_logic_def)
next
  case (Some m)
  then have "\<not> permitted e" using walk_error_iff [of "[NExpr e]"] by simp
  with Some show ?thesis by (simp add: validate_ast_def evaluate_custom_logic_def)
qed

end
