(* ===== verification/WebhookGateway.thy ===== *)
theory WebhookGateway
  imports WebhookMonitor WebhookTransform
begin

section \<open>Webhooks: the gateway\<close>

text \<open>
  \<open>owlclaw/triggers/webhook/http/app.py\<close>: the limiter, the request handler and the routes for
  endpoints, over the components of the other webhook theories as \<open>main.py\<close> assembles them. A
  request comes as the web framework gives it: its headers as a dictionary with lower-case names, its
  body in chunks. Requests are handled one after the other. A handler that raises keeps what it
  has done to the state; the framework then answers with status 500. Every place that reads the
  clock or draws an identifier has a number of its own.
\<close>

subsection \<open>Data\<close>

record http_gateway_config =
  hg_cors :: "string list"
  hg_tls :: bool
  hg_ip_limit :: int
  hg_endpoint_limit :: int
  hg_admin :: "string option"
  hg_max_content :: int

type_synonym windows = "(string \<times> micros list) list"

record rate_limiter =
  hl_ip_limit :: int
  hl_endpoint_limit :: int
  hl_ip :: windows
  hl_endpoint :: windows

record gateway_request =
  gq_headers :: "(string \<times> string) list"
  gq_client :: "string option"
  gq_chunks :: "string list"

record http_response =
  hs_status :: int
  hs_body :: pyval
  hs_request_id :: "string option"

record gateway_env =
  ge_clock :: "nat \<Rightarrow> micros"
  ge_fresh :: "nat \<Rightarrow> uuid"
  ge_utf8 :: "string \<Rightarrow> string option"
  ge_float :: "rat \<Rightarrow> string"
  ge_iso :: "micros \<Rightarrow> string"
  ge_token :: string
  ge_crypto :: webhook_crypto
  ge_parse :: parse_env
  ge_gov :: gov_client
  ge_run :: run_env
  ge_checks :: "(string \<times> (string + bool)) list"

record gateway =
  gw_config :: http_gateway_config
  gw_limiter :: rate_limiter
  gw_repo :: endpoint_repo
  gw_events :: "webhook_event list"
  gw_monitor :: monitor
  gw_exec :: exec_trigger
  gw_audit :: "(governance_context \<times> gov_decision) list"

definition gateway_config_default :: http_gateway_config where
  "gateway_config_default = \<lparr>hg_cors = [], hg_tls = False, hg_ip_limit = 120, hg_endpoint_limit = 300, hg_admin = None, hg_max_content = 1048576\<rparr>"

definition limiter_new :: "int \<Rightarrow> int \<Rightarrow> rate_limiter" where
  "limiter_new per_ip_limit per_endpoint_limit =
     \<lparr>hl_ip_limit = per_ip_limit, hl_endpoint_limit = per_endpoint_limit, hl_ip = [], hl_endpoint = []\<rparr>"

definition gateway_new :: "http_gateway_config \<Rightarrow> monitor \<Rightarrow> exec_trigger \<Rightarrow> gateway" where
  "gateway_new cfg mo et =
     \<lparr>gw_config = cfg, gw_limiter = limiter_new (hg_ip_limit cfg) (hg_endpoint_limit cfg), gw_repo = [], gw_events = [], gw_monitor = mo,
      gw_exec = et, gw_audit = []\<rparr>"

subsection \<open>The limiter\<close>

definition check_key :: "micros \<Rightarrow> string \<Rightarrow> int \<Rightarrow> windows \<Rightarrow> bool \<times> windows" where
  "check_key now key limit store =
     (let stored = (case map_of store key of None \<Rightarrow> [] | Some w \<Rightarrow> w);
          cutoff = now - secs 60;
          window = dropWhile (\<lambda>t. t < cutoff) stored
      in if limit \<le> int (length window) then (True, AList.update key window store)
         else (False, AList.update key (window @ [now]) store))"

definition rate_limited :: "string \<Rightarrow> validation_error" where
  "rate_limited message = verror ''RATE_LIMITED'' message (Some 429)"

definition limiter_check :: "micros \<Rightarrow> string \<Rightarrow> string \<Rightarrow> rate_limiter \<Rightarrow> validation_error option \<times> rate_limiter" where
  "limiter_check now ip endpoint_id hl =
     (case check_key now ip (hl_ip_limit hl) (hl_ip hl) of
        (True, w) \<Rightarrow> (Some (rate_limited ''ip rate limit exceeded''), hl\<lparr>hl_ip := w\<rparr>)
      | (False, w) \<Rightarrow>
          (case check_key now endpoint_id (hl_endpoint_limit hl) (hl_endpoint hl) of
             (True, w') \<Rightarrow> (Some (rate_limited ''endpoint rate limit exceeded''), hl\<lparr>hl_ip := w, hl_endpoint := w'\<rparr>)
           | (False, w') \<Rightarrow> (None, hl\<lparr>hl_ip := w, hl_endpoint := w'\<rparr>)))"

subsection \<open>What is logged of the headers\<close>

definition sensitive_headers :: "string list" where
  "sensitive_headers = [''authorization'', ''proxy-authorization'', ''x-api-key'', ''x-signature'', ''x-admin-token'', ''cookie'', ''set-cookie'']"

definition sanitize_header :: "string \<Rightarrow> string \<Rightarrow> string" where
  "sanitize_header key v =
     (let normalized = strip_lower key in
      if normalized \<in> set sensitive_headers then
        (if normalized \<in> {''authorization'', ''proxy-authorization''}
         then (let prefix = py_strip (takeWhile (\<lambda>c. c \<noteq> CHR '' '') v) in if prefix \<noteq> [] then prefix @ '' ***'' else ''***'')
         else ''***'')
      else v)"

definition sanitize_logged_headers :: "(string \<times> string) list \<Rightarrow> (string \<times> string) list" where
  "sanitize_logged_headers headers = map (\<lambda>(k, v). (k, sanitize_header k v)) headers"

subsection \<open>Answers\<close>

text \<open>A handler raises, answers, or goes on with what it has got so far.\<close>

datatype 'a step = Raised py_error | Answered http_response | Going 'a

definition proceed :: "'a step \<times> gateway \<Rightarrow> ('a \<Rightarrow> gateway \<Rightarrow> 'b step \<times> gateway) \<Rightarrow> 'b step \<times> gateway" where
  "proceed s f = (case s of
      (Raised e, gw) \<Rightarrow> (Raised e, gw)
    | (Answered r, gw) \<Rightarrow> (Answered r, gw)
    | (Going v, gw) \<Rightarrow> f v gw)"

definition raising :: "py_error + 'a \<Rightarrow> gateway \<Rightarrow> 'a step \<times> gateway" where
  "raising r gw = (case r of Inl e \<Rightarrow> (Raised e, gw) | Inr v \<Rightarrow> (Going v, gw))"

definition json_opt :: "string option \<Rightarrow> pyval" where
  "json_opt v = (case v of None \<Rightarrow> PNone | Some s \<Rightarrow> PStr s)"

definition str_dict :: "(string \<times> pyval) list \<Rightarrow> pyval" where
  "str_dict kvs = PDict (map (\<lambda>(k, v). (PStr k, v)) kvs)"

definition error_response :: "gateway_env \<Rightarrow> nat \<Rightarrow> validation_error \<Rightarrow> string \<Rightarrow> http_response" where
  "error_response env n e request_id =
     \<lparr>hs_status = (case ve_status e of None \<Rightarrow> 400 | Some s \<Rightarrow> if s = 0 then 400 else s),
      hs_body = str_dict [(''error'', str_dict [(''code'', PStr (ve_code e)), (''message'', PStr (ve_message e)),
        (''details'', if ve_details e = [] then PNone else str_dict (ve_details e)), (''request_id'', PStr request_id),
        (''timestamp'', PStr (ge_iso env (ge_clock env n)))])],
      hs_request_id = None\<rparr>"

definition count_metric :: "gateway_env \<Rightarrow> nat \<Rightarrow> string \<Rightarrow> rat \<Rightarrow> (string \<times> string) list \<Rightarrow> gateway \<Rightarrow> gateway" where
  "count_metric env n name v tags gw =
     gw\<lparr>gw_monitor := record_metric (ge_float env) (ge_clock env (Suc n))
          \<lparr>mr_name = name, mr_value = v, mr_time = ge_clock env n, mr_tags = tags\<rparr> (gw_monitor gw)\<rparr>"

definition reject :: "gateway_env \<Rightarrow> nat \<Rightarrow> string \<Rightarrow> validation_error \<Rightarrow> gateway \<Rightarrow> 'a step \<times> gateway" where
  "reject env n request_id e gw =
     (Answered (error_response env (n + 2) e request_id), count_metric env n ''request_status'' 1 [(''status'', ''failure'')] gw)"

definition log_webhook_event :: "gateway_env \<Rightarrow> nat \<Rightarrow> string \<Rightarrow> webhook_event \<Rightarrow> gateway \<Rightarrow> unit step \<times> gateway" where
  "log_webhook_event env n event_type event gw =
     (case log_event (ge_fresh env n) event_type event (gw_events gw) of
        Inl e \<Rightarrow> (Raised e, gw)
      | Inr events \<Rightarrow> (Going (), gw\<lparr>gw_events := events\<rparr>))"

subsection \<open>Receiving a request\<close>

fun read_body_with_limit :: "int \<Rightarrow> string list \<Rightarrow> int \<Rightarrow> string \<Rightarrow> py_error + string" where
  "read_body_with_limit max_bytes [] received chunks = Inr chunks"
| "read_body_with_limit max_bytes (chunk # rest) received chunks =
     (let received = received + int (length chunk) in
      if max_bytes < received then Inl (ValueError ''request body too large'')
      else read_body_with_limit max_bytes rest received (chunks @ chunk))"

definition too_large :: validation_error where
  "too_large = verror ''REQUEST_TOO_LARGE'' ''request body too large'' (Some 413)"

definition client_ip :: "gateway_request \<Rightarrow> string" where
  "client_ip rq = (case gq_client rq of None \<Rightarrow> ''unknown'' | Some h \<Rightarrow> h)"

definition receive_body :: "gateway_env \<Rightarrow> string \<Rightarrow> gateway_request \<Rightarrow> gateway \<Rightarrow> string step \<times> gateway" where
  "receive_body env request_id rq gw =
     (case read_body_with_limit (hg_max_content (gw_config gw)) (gq_chunks rq) 0 [] of
        Inl e \<Rightarrow> reject env 10 request_id too_large gw
      | Inr raw \<Rightarrow>
          (case ge_utf8 env raw of
             None \<Rightarrow> reject env 20 request_id (verror ''INVALID_ENCODING'' ''request body must be valid UTF-8'' (Some 400)) gw
           | Some body \<Rightarrow> (Going body, gw)))"

definition request_event :: "gateway_env \<Rightarrow> string \<Rightarrow> string \<Rightarrow> gateway_request \<Rightarrow> webhook_event" where
  "request_event env endpoint_id request_id rq =
     (build_event (ge_fresh env 32) (ge_clock env 32) endpoint_id request_id ''request'')
       \<lparr>ev_ip := Some (client_ip rq), ev_agent := map_of (gq_headers rq) ''user-agent'',
        ev_data := str_dict [(''headers'', str_dict (map (\<lambda>(k, v). (k, PStr v)) (sanitize_logged_headers (gq_headers rq))))]\<rparr>"

definition receive_limited :: "gateway_env \<Rightarrow> string \<Rightarrow> string \<Rightarrow> gateway_request \<Rightarrow> gateway \<Rightarrow> unit step \<times> gateway" where
  "receive_limited env endpoint_id request_id rq gw =
     proceed (log_webhook_event env 33 ''request'' (request_event env endpoint_id request_id rq) (count_metric env 30 ''request_count'' 1 [] gw)) (\<lambda>u gw1.
       (case limiter_check (ge_clock env 34) (client_ip rq) endpoint_id (gw_limiter gw1) of
          (Some e, hl) \<Rightarrow> reject env 35 request_id e (gw1\<lparr>gw_limiter := hl\<rparr>)
        | (None, hl) \<Rightarrow> (Going (), gw1\<lparr>gw_limiter := hl\<rparr>)))"

definition failed_event :: "gateway_env \<Rightarrow> string \<Rightarrow> string \<Rightarrow> validation_error \<Rightarrow> webhook_event" where
  "failed_event env endpoint_id request_id e =
     (build_event (ge_fresh env 40) (ge_clock env 40) endpoint_id request_id ''validation'')
       \<lparr>ev_status := Some ''failed'', ev_error := str_dict [(''code'', PStr (ve_code e)), (''message'', PStr (ve_message e))]\<rparr>"

definition receive_validated ::
  "gateway_env \<Rightarrow> string \<Rightarrow> string \<Rightarrow> http_request \<Rightarrow> gateway \<Rightarrow> webhook_endpoint step \<times> gateway" where
  "receive_validated env endpoint_id request_id request gw =
     proceed (raising (validate_request (ge_crypto env) endpoint_id request (gw_repo gw)) gw) (\<lambda>r gw1.
       (case r of
          Inr endpoint \<Rightarrow> (Going endpoint, gw1)
        | Inl e \<Rightarrow> proceed (log_webhook_event env 41 ''validation'' (failed_event env endpoint_id request_id e) gw1) (\<lambda>u gw2. reject env 42 request_id e gw2)))"

definition default_rule :: "gateway_env \<Rightarrow> webhook_endpoint \<Rightarrow> transformation_rule" where
  "default_rule env endpoint =
     \<lparr>tr_id = ge_fresh env 53, tr_name = ''default-rule'', tr_agent = ec_agent (we_config endpoint),
      tr_mappings = [\<lparr>fm_source = ''$'', fm_target = ''payload'', fm_transform = None, fm_default = PNone\<rparr>], tr_schema = None, tr_logic = None\<rparr>"

definition receive_parsed ::
  "gateway_env \<Rightarrow> string \<Rightarrow> string \<Rightarrow> http_request \<Rightarrow> webhook_endpoint \<Rightarrow> gateway \<Rightarrow> agent_input step \<times> gateway" where
  "receive_parsed env endpoint_id request_id request endpoint gw =
     proceed (raising (parse_safe (ge_parse env) request) gw) (\<lambda>r gw1.
       (case r of
          Inl e \<Rightarrow> reject env 50 request_id e gw1
        | Inr parsed \<Rightarrow>
            proceed (log_webhook_event env 52 ''transformation''
                ((build_event (ge_fresh env 51) (ge_clock env 51) endpoint_id request_id ''transformation'')
                  \<lparr>ev_status := Some ''completed'', ev_data := str_dict [(''content_type'', PStr (pp_type parsed))]\<rparr>) gw1) (\<lambda>u gw2.
              raising (transform (ge_parse env) (pp_data parsed) (default_rule env endpoint)) gw2)))"

definition governed_context :: "gateway_env \<Rightarrow> string \<Rightarrow> gateway_request \<Rightarrow> webhook_endpoint \<Rightarrow> governance_context" where
  "governed_context env request_id rq endpoint =
     \<lparr>gc_tenant = we_tenant endpoint, gc_endpoint = we_id endpoint, gc_agent = ec_agent (we_config endpoint), gc_request = request_id,
      gc_ip = Some (client_ip rq), gc_user_agent = map_of (gq_headers rq) ''user-agent'', gc_time = ge_clock env 60\<rparr>"

definition receive_governed ::
  "gateway_env \<Rightarrow> string \<Rightarrow> gateway_request \<Rightarrow> webhook_endpoint \<Rightarrow> gateway \<Rightarrow> unit step \<times> gateway" where
  "receive_governed env request_id rq endpoint gw =
     proceed (raising (validate_execution (ge_gov env) (governed_context env request_id rq endpoint)) gw) (\<lambda>(r, entries) gw1.
       (let gw2 = gw1\<lparr>gw_audit := gw_audit gw1 @ entries\<rparr>
        in (case r of Some e \<Rightarrow> reject env 61 request_id e gw2 | None \<Rightarrow> (Going (), gw2))))"

definition run_options :: "gateway_request \<Rightarrow> webhook_endpoint \<Rightarrow> exec_options" where
  "run_options rq endpoint =
     \<lparr>eo_mode = ec_mode (we_config endpoint), eo_timeout = ec_timeout (we_config endpoint),
      eo_key = map_of (gq_headers rq) ''x-idempotency-key'', eo_retry = ec_retry (we_config endpoint)\<rparr>"

definition receive_executed ::
  "gateway_env \<Rightarrow> string \<Rightarrow> gateway_request \<Rightarrow> webhook_endpoint \<Rightarrow> agent_input \<Rightarrow> gateway \<Rightarrow> unit step \<times> gateway" where
  "receive_executed env request_id rq endpoint input_data gw =
     (case trigger (ge_run env) input_data (run_options rq endpoint) (gw_exec gw) of
        (result, et) \<Rightarrow>
          (let status = (if er_status result \<in> {''accepted'', ''running'', ''completed''} then ''success'' else ''failure'');
               gw1 = count_metric env 70 ''request_status'' 1 [(''status'', status)] (gw\<lparr>gw_exec := et\<rparr>)
           in proceed (log_webhook_event env 73 ''execution''
                 ((build_event (ge_fresh env 72) (ge_clock env 72) (we_id endpoint) request_id ''execution'')
                   \<lparr>ev_status := Some (er_status result), ev_data := str_dict [(''execution_id'', PStr (er_id result))],
                    ev_error := er_error result\<rparr>) gw1) (\<lambda>u gw2.
                (Answered \<lparr>hs_status = 202, hs_body = str_dict [(''execution_id'', PStr (er_id result)), (''status'', PStr (er_status result)),
                    (''timestamp'', PStr (ge_iso env (ge_clock env 74)))], hs_request_id = None\<rparr>, gw2))))"

definition receive_webhook :: "gateway_env \<Rightarrow> string \<Rightarrow> gateway_request \<Rightarrow> string \<Rightarrow> gateway \<Rightarrow> unit step \<times> gateway" where
  "receive_webhook env endpoint_id rq request_id gw =
     proceed (receive_body env request_id rq gw) (\<lambda>body gw1.
       (let request = \<lparr>hr_headers = gq_headers rq, hr_body = body\<rparr> in
        proceed (receive_limited env endpoint_id request_id rq gw1) (\<lambda>u gw2.
          proceed (receive_validated env endpoint_id request_id request gw2) (\<lambda>endpoint gw3.
            proceed (receive_parsed env endpoint_id request_id request endpoint gw3) (\<lambda>input_data gw4.
              proceed (receive_governed env request_id rq endpoint gw4) (\<lambda>v gw5.
                receive_executed env request_id rq endpoint input_data gw5))))))"

subsection \<open>The endpoints of the administrator\<close>

definition http_exception :: "int \<Rightarrow> string \<Rightarrow> http_response" where
  "http_exception status detail = \<lparr>hs_status = status, hs_body = str_dict [(''detail'', PStr detail)], hs_request_id = None\<rparr>"

definition provided_token :: "gateway_request \<Rightarrow> string" where
  "provided_token rq =
     (case map_of (gq_headers rq) ''x-admin-token'' of
        Some t \<Rightarrow> if t \<noteq> [] then t
                   else (case after_prefix ''Bearer '' (header_or_empty ''authorization'' (gq_headers rq)) of None \<Rightarrow> t | Some r \<Rightarrow> py_strip r)
      | None \<Rightarrow> (case after_prefix ''Bearer '' (header_or_empty ''authorization'' (gq_headers rq)) of None \<Rightarrow> [] | Some r \<Rightarrow> py_strip r))"

definition require_admin_token :: "http_gateway_config \<Rightarrow> gateway_request \<Rightarrow> http_response option" where
  "require_admin_token cfg rq =
     (let expected = (case hg_admin cfg of None \<Rightarrow> [] | Some t \<Rightarrow> t) in
      if expected = [] then Some (http_exception 500 ''admin token not configured'')
      else if provided_token rq \<noteq> expected then Some (http_exception 401 ''admin token required'')
      else None)"

text \<open>\<open>v[k]\<close> of a value of any type.\<close>

fun py_item :: "pyval \<Rightarrow> string \<Rightarrow> py_error + pyval" where
  "py_item (PDict kvs) k = (case map_of kvs (PStr k) of None \<Rightarrow> Inl (KeyError k) | Some v \<Rightarrow> Inr v)"
| "py_item v k = Inl (TypeError ''indices must be integers'')"

definition known_auth_type :: "string \<Rightarrow> py_error + string" where
  "known_auth_type t =
     (if t \<in> {''bearer'', ''hmac'', ''basic''} then Inr t else Inl (ValueError ''auth_method.type must be one of bearer/hmac/basic''))"

definition known_execution_mode :: "string \<Rightarrow> py_error + string" where
  "known_execution_mode mode =
     (if mode \<in> {''sync'', ''async''} then Inr mode else Inl (ValueError ''execution_mode must be sync or async''))"

text \<open>
  A credential that the type of the authentication uses; the validation of the manager raises on
  one that is neither a string nor missing. A credential it does not use is never looked at.
\<close>

definition used_text :: "bool \<Rightarrow> pyval \<Rightarrow> string \<Rightarrow> py_error + string option" where
  "used_text used am k =
     (if \<not> used then Inr None
      else (case dict_get_or am k PNone of
          PNone \<Rightarrow> Inr None
        | PStr s \<Rightarrow> Inr (Some s)
        | v \<Rightarrow> Inl (AttributeError ''strip'')))"

definition payload_auth :: "parse_env \<Rightarrow> pyval \<Rightarrow> py_error + auth_method" where
  "payload_auth env am =
     and_then (py_item am ''type'') (\<lambda>t. and_then (known_auth_type (field_text env t)) (\<lambda>t.
       and_then (used_text (t = ''bearer'') am ''token'') (\<lambda>token.
         and_then (used_text (t = ''hmac'') am ''secret'') (\<lambda>secret.
           and_then (used_text (t = ''hmac'') am ''algorithm'') (\<lambda>algorithm.
             and_then (used_text (t = ''basic'') am ''username'') (\<lambda>username.
               and_then (used_text (t = ''basic'') am ''password'') (\<lambda>password.
                 Inr \<lparr>am_type = t, am_token = token, am_secret = secret, am_algorithm = algorithm, am_username = username,
                   am_password = password\<rparr>)))))))"

definition payload_timeout :: "pyval \<Rightarrow> py_error + rat option" where
  "payload_timeout v =
     (case v of
        PNone \<Rightarrow> Inr None
      | PBool b \<Rightarrow> Inr (Some (if b then 1 else 0))
      | PInt i \<Rightarrow> Inr (Some (of_int i))
      | PFloat r \<Rightarrow> Inr (Some r)
      | _ \<Rightarrow> Inl (TypeError ''not supported between instances''))"

definition payload_retry :: "pyval \<Rightarrow> py_error + retry_policy option" where
  "payload_retry v =
     (if v = PNone then Inr None
      else and_then (py_get_or v ''max_attempts'' (PInt 3)) (\<lambda>a. and_then (py_int a) (\<lambda>attempts.
        and_then (py_int (dict_get_or v ''initial_delay_ms'' (PInt 1000))) (\<lambda>initial.
          and_then (py_int (dict_get_or v ''max_delay_ms'' (PInt 30000))) (\<lambda>maximal.
            and_then (py_float (dict_get_or v ''backoff_multiplier'' (PFloat 2))) (\<lambda>multiplier.
              Inr (Some \<lparr>rp_attempts = attempts, rp_initial = initial, rp_max = maximal, rp_multiplier = multiplier\<rparr>)))))))"

text \<open>Creating an endpoint does not read \<open>enabled\<close>, updating one does; neither reads a rule.\<close>

definition payload_config :: "parse_env \<Rightarrow> bool \<Rightarrow> pyval \<Rightarrow> py_error + endpoint_config" where
  "payload_config env reads_enabled payload =
     (let c = dict_get_or payload ''config'' payload in
      and_then (py_item c ''name'') (\<lambda>name. and_then (py_item c ''target_agent_id'') (\<lambda>agent. and_then (py_item c ''auth_method'') (\<lambda>am.
        and_then (payload_auth env am) (\<lambda>auth.
          and_then (known_execution_mode (field_text env (dict_get_or c ''execution_mode'' (PStr ''async'')))) (\<lambda>mode.
            and_then (payload_retry (dict_get_or c ''retry_policy'' PNone)) (\<lambda>retry.
              and_then (payload_timeout (dict_get_or c ''timeout_seconds'' PNone)) (\<lambda>timeout.
                Inr \<lparr>ec_name = field_text env name, ec_agent = field_text env agent, ec_auth = auth, ec_rule = None, ec_mode = mode,
                  ec_timeout = timeout, ec_retry = retry,
                  ec_enabled = (if reads_enabled then truthy (dict_get_or c ''enabled'' (PBool True)) else True)\<rparr>))))))))"

definition config_dict :: "endpoint_config \<Rightarrow> pyval" where
  "config_dict c =
     (let a = ec_auth c in str_dict [(''name'', PStr (ec_name c)), (''target_agent_id'', PStr (ec_agent c)),
        (''auth_method'', str_dict [(''type'', PStr (am_type a)), (''token'', json_opt (am_token a)), (''secret'', json_opt (am_secret a)),
           (''algorithm'', json_opt (am_algorithm a)), (''username'', json_opt (am_username a)), (''password'', json_opt (am_password a))]),
        (''transformation_rule_id'', json_opt (ec_rule c)), (''execution_mode'', PStr (ec_mode c)),
        (''timeout_seconds'', (case ec_timeout c of None \<Rightarrow> PNone | Some t \<Rightarrow> PFloat t)),
        (''retry_policy'', (case ec_retry c of None \<Rightarrow> PNone
           | Some r \<Rightarrow> str_dict [(''max_attempts'', PInt (rp_attempts r)), (''initial_delay_ms'', PInt (rp_initial r)),
               (''max_delay_ms'', PInt (rp_max r)), (''backoff_multiplier'', PFloat (rp_multiplier r))])),
        (''enabled'', PBool (ec_enabled c))])"

definition endpoint_dict :: "webhook_endpoint \<Rightarrow> pyval" where
  "endpoint_dict e = str_dict [(''id'', PStr (we_id e)), (''url'', PStr (we_url e)), (''config'', config_dict (we_config e))]"

definition json_response :: "int \<Rightarrow> pyval \<Rightarrow> http_response" where
  "json_response status body = \<lparr>hs_status = status, hs_body = body, hs_request_id = None\<rparr>"

subsection \<open>The routes\<close>

text \<open>A body that is not a dictionary is refused by the framework before a route is entered.\<close>

datatype route =
    ReceiveWebhook string
  | CreateEndpoint "(pyval \<times> pyval) list"
  | ListEndpoints
  | GetEndpoint string
  | UpdateEndpoint string "(pyval \<times> pyval) list"
  | DeleteEndpoint string
  | Health
  | Metrics
  | Events "string option"

fun needs_admin :: "route \<Rightarrow> bool" where
  "needs_admin (ReceiveWebhook i) = False"
| "needs_admin Health = False"
| "needs_admin Metrics = False"
| "needs_admin r = True"

definition create_route :: "gateway_env \<Rightarrow> pyval \<Rightarrow> gateway \<Rightarrow> unit step \<times> gateway" where
  "create_route env payload gw =
     proceed (raising (payload_config (ge_parse env) False payload) gw) (\<lambda>c gw1.
       (case create_endpoint (ge_crypto env) (ge_fresh env 80) (ge_clock env 80) (ge_token env) ''/webhooks'' c ''default'' (gw_repo gw1) of
          Inl e \<Rightarrow> (Raised e, gw1)
        | Inr (endpoint, repo) \<Rightarrow> (Answered (json_response 201 (endpoint_dict endpoint)), gw1\<lparr>gw_repo := repo\<rparr>)))"

definition list_route :: "gateway \<Rightarrow> unit step \<times> gateway" where
  "list_route gw =
     (Answered (json_response 200 (str_dict [(''items'', PList (map endpoint_dict (list_endpoints ''default'' None None (gw_repo gw))))])), gw)"

definition get_route :: "gateway_env \<Rightarrow> string \<Rightarrow> gateway \<Rightarrow> unit step \<times> gateway" where
  "get_route env endpoint_id gw =
     proceed (raising (get_endpoint endpoint_id (gw_repo gw)) gw) (\<lambda>r gw1.
       (case r of
          None \<Rightarrow> (Answered (error_response env 81 endpoint_not_found (ge_fresh env 81)), gw1)
        | Some endpoint \<Rightarrow> (Answered (json_response 200 (endpoint_dict endpoint)), gw1)))"

definition update_route :: "gateway_env \<Rightarrow> string \<Rightarrow> pyval \<Rightarrow> gateway \<Rightarrow> unit step \<times> gateway" where
  "update_route env endpoint_id payload gw =
     proceed (raising (payload_config (ge_parse env) True payload) gw) (\<lambda>c gw1.
       (case update_endpoint (ge_crypto env) (ge_clock env 82) endpoint_id c (gw_repo gw1) of
          (r, repo) \<Rightarrow> (case r of
              Inl e \<Rightarrow> (Raised e, gw1\<lparr>gw_repo := repo\<rparr>)
            | Inr endpoint \<Rightarrow> (Answered (json_response 200 (endpoint_dict endpoint)), gw1\<lparr>gw_repo := repo\<rparr>))))"

definition delete_route :: "string \<Rightarrow> gateway \<Rightarrow> unit step \<times> gateway" where
  "delete_route endpoint_id gw =
     proceed (raising (delete_endpoint endpoint_id (gw_repo gw)) gw) (\<lambda>repo gw1.
       (Answered (json_response 204 PNone), gw1\<lparr>gw_repo := repo\<rparr>))"

definition health_route :: "gateway_env \<Rightarrow> gateway \<Rightarrow> unit step \<times> gateway" where
  "health_route env gw =
     (case get_health_status (ge_checks env) of
        (status, checks) \<Rightarrow>
          (Answered (json_response 200 (str_dict [(''status'', PStr status),
             (''checks'', PList (map (\<lambda>(n, s, m). str_dict [(''name'', PStr n), (''status'', PStr s), (''message'', json_opt m)]) checks)),
             (''timestamp'', PStr (ge_iso env (ge_clock env 83)))])), gw))"

definition metrics_route :: "gateway_env \<Rightarrow> gateway \<Rightarrow> unit step \<times> gateway" where
  "metrics_route env gw =
     (let stats = get_metrics (ge_clock env 84) None None ''realtime'' [] (gw_monitor gw) in
      (Answered (json_response 200 (str_dict [(''request_count'', PInt (ms_requests stats)), (''success_rate'', PFloat (ms_success stats)),
         (''failure_rate'', PFloat (ms_failure stats)), (''avg_response_time'', PFloat (ms_average stats)),
         (''p95_response_time'', PFloat (ms_p95 stats)), (''p99_response_time'', PFloat (ms_p99 stats))])), gw))"

definition event_dict :: "gateway_env \<Rightarrow> webhook_event \<Rightarrow> pyval" where
  "event_dict env e = str_dict [(''id'', PStr (ev_id e)), (''endpoint_id'', PStr (ev_endpoint e)), (''event_type'', PStr (ev_type e)),
     (''timestamp'', PStr (ge_iso env (ev_time e))), (''request_id'', PStr (ev_request e)), (''source_ip'', json_opt (ev_ip e)),
     (''user_agent'', json_opt (ev_agent e)), (''duration_ms'', case ev_duration e of None \<Rightarrow> PNone | Some d \<Rightarrow> PInt d),
     (''status'', json_opt (ev_status e)), (''data'', ev_data e), (''error'', ev_error e), (''tenant_id'', PStr (ev_tenant e))]"

definition events_route :: "gateway_env \<Rightarrow> string option \<Rightarrow> gateway \<Rightarrow> unit step \<times> gateway" where
  "events_route env request_id gw =
     proceed (raising (query_events \<lparr>ef_tenant = ''default'', ef_endpoint = None, ef_request = request_id, ef_type = None, ef_status = None,
         ef_start = None, ef_end = None, ef_page = 1, ef_page_size = 50\<rparr> (gw_events gw)) gw) (\<lambda>items gw1.
       (Answered (json_response 200 (str_dict [(''items'', PList (map (event_dict env) items))])), gw1))"

fun enter_route :: "gateway_env \<Rightarrow> route \<Rightarrow> gateway_request \<Rightarrow> string \<Rightarrow> gateway \<Rightarrow> unit step \<times> gateway" where
  "enter_route env (ReceiveWebhook i) rq request_id gw = receive_webhook env i rq request_id gw"
| "enter_route env (CreateEndpoint kvs) rq request_id gw = create_route env (PDict kvs) gw"
| "enter_route env ListEndpoints rq request_id gw = list_route gw"
| "enter_route env (GetEndpoint i) rq request_id gw = get_route env i gw"
| "enter_route env (UpdateEndpoint i kvs) rq request_id gw = update_route env i (PDict kvs) gw"
| "enter_route env (DeleteEndpoint i) rq request_id gw = delete_route i gw"
| "enter_route env Health rq request_id gw = health_route env gw"
| "enter_route env Metrics rq request_id gw = metrics_route env gw"
| "enter_route env (Events r) rq request_id gw = events_route env r gw"

definition dispatch_route :: "gateway_env \<Rightarrow> route \<Rightarrow> gateway_request \<Rightarrow> string \<Rightarrow> gateway \<Rightarrow> unit step \<times> gateway" where
  "dispatch_route env r rq request_id gw =
     (if \<not> needs_admin r then enter_route env r rq request_id gw
      else (case require_admin_token (gw_config gw) rq of
          Some refusal \<Rightarrow> (Answered refusal, gw)
        | None \<Rightarrow> enter_route env r rq request_id gw))"

text \<open>The middleware: the declared length of a webhook request, the request identifier, the time it took.\<close>

definition declared_too_large :: "http_gateway_config \<Rightarrow> gateway_request \<Rightarrow> bool" where
  "declared_too_large cfg rq =
     (case map_of (gq_headers rq) ''content-length'' of
        None \<Rightarrow> False
      | Some s \<Rightarrow> (case py_int (PStr s) of Inl e \<Rightarrow> False | Inr n \<Rightarrow> hg_max_content cfg < n))"

definition serve :: "gateway_env \<Rightarrow> route \<Rightarrow> gateway_request \<Rightarrow> gateway \<Rightarrow> unit step \<times> gateway" where
  "serve env r rq gw =
     (let request_id = (case map_of (gq_headers rq) ''x-request-id'' of Some i \<Rightarrow> i | None \<Rightarrow> ge_fresh env 0) in
      if (case r of ReceiveWebhook i \<Rightarrow> declared_too_large (gw_config gw) rq | _ \<Rightarrow> False)
      then (Answered (error_response env 1 too_large request_id), gw)
      else (case dispatch_route env r rq request_id gw of
          (Answered response, gw1) \<Rightarrow>
            (Answered (response\<lparr>hs_request_id := Some request_id\<rparr>),
             count_metric env 3 ''response_time_ms'' (of_int (ge_clock env 5 - ge_clock env 2) / 1000) [] gw1)
        | (s, gw1) \<Rightarrow> (s, gw1)))"

fun serve_all :: "(gateway_env \<times> route \<times> gateway_request) list \<Rightarrow> gateway \<Rightarrow> gateway" where
  "serve_all [] gw = gw"
| "serve_all ((env, r, rq) # rest) gw = serve_all rest (snd (serve env r rq gw))"

subsection \<open>At most so many in a minute\<close>

definition stored :: "windows \<Rightarrow> string \<Rightarrow> micros list" where
  "stored store key = (case map_of store key of None \<Rightarrow> [] | Some w \<Rightarrow> w)"

definition recent :: "micros \<Rightarrow> micros list \<Rightarrow> nat" where
  "recent cutoff ts = length (filter (\<lambda>t. cutoff \<le> t) ts)"

text \<open>
  The windows know at least as many recent requests of a key as were let through: \<open>h\<close> are the times
  of those, \<open>m\<close> the last reading of the clock.
\<close>

definition covers :: "micros \<Rightarrow> windows \<Rightarrow> (string \<Rightarrow> micros list) \<Rightarrow> bool" where
  "covers m store h = (\<forall>k c. m - secs 60 \<le> c \<longrightarrow> recent c (h k) \<le> recent c (stored store k))"

lemma recent_snoc: "recent c (ts @ [t]) = recent c ts + (if c \<le> t then 1 else 0)"
  by (simp add: recent_def)

lemma recent_dropWhile: "cutoff \<le> c \<Longrightarrow> recent c (dropWhile (\<lambda>t. t < cutoff) ts) = recent c ts"
  by (induction ts) (auto simp: recent_def)

lemma recent_le: "recent c ts \<le> length ts"
  by (simp add: recent_def)

lemma stored_update: "stored (AList.update key w store) k = (if k = key then w else stored store k)"
  by (simp add: stored_def update_conv')

lemma check_key_eq:
  "check_key now key limit store =
     (let window = dropWhile (\<lambda>t. t < now - secs 60) (stored store key)
      in if limit \<le> int (length window) then (True, AList.update key window store) else (False, AList.update key (window @ [now]) store))"
  by (simp add: check_key_def stored_def Let_def)

lemma covers_mono: "covers m store h \<Longrightarrow> m \<le> now \<Longrightarrow> covers now store h"
  by (simp add: covers_def)

lemma covers_blocked:
  assumes "covers m store h" "m \<le> now" "check_key now key limit store = (True, store')"
  shows "covers now store' h"
proof -
  have "store' = AList.update key (dropWhile (\<lambda>t. t < now - secs 60) (stored store key)) store"
    using assms(3) by (simp add: check_key_eq Let_def split: if_splits)
  then show ?thesis using covers_mono [OF assms(1,2)] by (simp add: covers_def stored_update recent_dropWhile)
qed

lemma covers_admitted:
  assumes "covers m store h" "m \<le> now" "check_key now key limit store = (False, store')"
  shows "covers now store' (h(key := h key @ [now]))" "covers now store' h" "int (recent (now - secs 60) (h key)) < limit"
proof -
  let ?w = "dropWhile (\<lambda>t. t < now - secs 60) (stored store key)"
  have s: "store' = AList.update key (?w @ [now]) store" and l: "int (length ?w) < limit"
    using assms(3) by (simp_all add: check_key_eq Let_def split: if_splits)
  have c: "covers now store h" by (rule covers_mono [OF assms(1,2)])
  show "covers now store' (h(key := h key @ [now]))"
    using c by (simp add: s covers_def stored_update recent_dropWhile recent_snoc)
  show "covers now store' h" using c by (simp add: s covers_def stored_update recent_dropWhile recent_snoc le_SucI)
  have "recent (now - secs 60) (h key) \<le> recent (now - secs 60) ?w" using c by (simp add: covers_def recent_dropWhile)
  then show "int (recent (now - secs 60) (h key)) < limit" using l recent_le [of "now - secs 60" ?w] by linarith
qed

text \<open>The requests a limiter lets through, each with its time, its address and its endpoint.\<close>

type_synonym arrival = "micros \<times> string \<times> string"

fun limiter_run :: "arrival list \<Rightarrow> rate_limiter \<Rightarrow> arrival list" where
  "limiter_run [] hl = []"
| "limiter_run ((now, ip, endpoint_id) # rest) hl =
     (case limiter_check now ip endpoint_id hl of
        (None, hl') \<Rightarrow> (now, ip, endpoint_id) # limiter_run rest hl'
      | (Some e, hl') \<Rightarrow> limiter_run rest hl')"

definition times_of :: "(arrival \<Rightarrow> string) \<Rightarrow> arrival list \<Rightarrow> string \<Rightarrow> micros list" where
  "times_of f as k = map fst (filter (\<lambda>a. f a = k) as)"

definition ip_of :: "arrival \<Rightarrow> string" where
  "ip_of a = fst (snd a)"

definition endpoint_of :: "arrival \<Rightarrow> string" where
  "endpoint_of a = snd (snd a)"

lemma arrival_simps [simp]: "ip_of (t, i, e) = i" "endpoint_of (t, i, e) = e"
  by (simp_all add: ip_of_def endpoint_of_def)

definition in_minute :: "micros \<Rightarrow> micros list \<Rightarrow> nat" where
  "in_minute t ts = length (filter (\<lambda>s. t - secs 60 \<le> s \<and> s \<le> t) ts)"

lemma times_of_snoc: "times_of f (as @ [a]) = (times_of f as)(f a := times_of f as (f a) @ [fst a])"
  by (auto simp: times_of_def)

lemma in_minute_snoc: "in_minute t (ts @ [s]) = in_minute t ts + (if t - secs 60 \<le> s \<and> s \<le> t then 1 else 0)"
  by (simp add: in_minute_def)

lemma in_minute_recent: "now \<le> t \<Longrightarrow> in_minute t ts \<le> recent (now - secs 60) ts"
  unfolding in_minute_def recent_def by (induction ts) auto

text \<open>One more request of a key that was let through when fewer than the limit were recent.\<close>

lemma in_minute_admitted:
  assumes "\<And>t k. int (in_minute t (times_of f as k)) \<le> max 0 limit"
    and "int (recent (fst a - secs 60) (times_of f as (f a))) < limit"
  shows "int (in_minute t (times_of f (as @ [a]) k)) \<le> max 0 limit"
proof (cases "k = f a \<and> fst a \<le> t")
  case False
  then show ?thesis using assms(1) [of t k] by (auto simp: times_of_snoc in_minute_snoc)
next
  case True
  then have "in_minute t (times_of f as k) \<le> recent (fst a - secs 60) (times_of f as (f a))" using in_minute_recent by simp
  then show ?thesis using True assms(2) by (simp add: times_of_snoc in_minute_snoc)
qed

definition paced :: "(arrival \<Rightarrow> string) \<Rightarrow> int \<Rightarrow> arrival list \<Rightarrow> bool" where
  "paced f limit as = (\<forall>t k. int (in_minute t (times_of f as k)) \<le> max 0 limit)"

lemma limiter_run_paced:
  assumes "sorted (m # map fst rs)" "covers m (hl_ip hl) (times_of ip_of as)" "covers m (hl_endpoint hl) (times_of endpoint_of as)"
    and "paced ip_of (hl_ip_limit hl) as" "paced endpoint_of (hl_endpoint_limit hl) as"
  shows "paced ip_of (hl_ip_limit hl) (as @ limiter_run rs hl) \<and> paced endpoint_of (hl_endpoint_limit hl) (as @ limiter_run rs hl)"
  using assms
proof (induction rs arbitrary: hl m as)
  case (Cons a0 rest)
  obtain now ip endpoint_id where a0: "a0 = (now, ip, endpoint_id)" by (cases a0)
  note Cons = Cons [unfolded a0]
  let ?a = "(now, ip, endpoint_id)"
  have m: "m \<le> now" and rest: "sorted (now # map fst rest)" using Cons(2) by simp_all
  obtain b w where ip: "check_key now ip (hl_ip_limit hl) (hl_ip hl) = (b, w)" by fastforce
  obtain b' w' where ep: "check_key now endpoint_id (hl_endpoint_limit hl) (hl_endpoint hl) = (b', w')" by fastforce
  show ?case
  proof (cases b)
    case True
    then have ipT: "check_key now ip (hl_ip_limit hl) (hl_ip hl) = (True, w)" using ip by simp
    note c = covers_blocked [OF Cons(3) m ipT]
    show ?thesis using Cons(1) [of now "hl\<lparr>hl_ip := w\<rparr>" as] True ip c
        covers_mono [OF Cons(4) m] rest Cons(5,6) by (simp add: a0 limiter_check_def)
  next
    case False
    then have ipF: "check_key now ip (hl_ip_limit hl) (hl_ip hl) = (False, w)" using ip by simp
    note c = covers_admitted [OF Cons(3) m ipF]
    let ?hl = "hl\<lparr>hl_ip := w, hl_endpoint := w'\<rparr>"
    show ?thesis
    proof (cases b')
      case True
      then have epT: "check_key now endpoint_id (hl_endpoint_limit hl) (hl_endpoint hl) = (True, w')" using ep by simp
      note d = covers_blocked [OF Cons(4) m epT]
      show ?thesis using Cons(1) [of now ?hl as] True False ip ep c(2) d rest Cons(5,6)
        by (simp add: a0 limiter_check_def)
    next
      case ok: False
      then have epF: "check_key now endpoint_id (hl_endpoint_limit hl) (hl_endpoint hl) = (False, w')" using ep by simp
      note d = covers_admitted [OF Cons(4) m epF]
      have "paced ip_of (hl_ip_limit hl) (as @ [?a])" unfolding paced_def
        by (intro allI in_minute_admitted) (use Cons(5) c(3) in \<open>simp_all add: paced_def\<close>)
      moreover have "paced endpoint_of (hl_endpoint_limit hl) (as @ [?a])" unfolding paced_def
        by (intro allI in_minute_admitted) (use Cons(6) d(3) in \<open>simp_all add: paced_def\<close>)
      moreover have "covers now w (times_of ip_of (as @ [?a]))" using c(1) by (simp add: times_of_snoc)
      moreover have "covers now w' (times_of endpoint_of (as @ [?a]))" using d(1) by (simp add: times_of_snoc)
      ultimately show ?thesis using Cons(1) [of now ?hl "as @ [?a]"] ok False ip ep rest
        by (simp add: a0 limiter_check_def)
    qed
  qed
qed (simp add: paced_def)

text \<open>
  C23. Whatever requests arrive, in the order of time, a limiter lets through at most its limit of
  one address, and at most its limit to one endpoint, in any minute, both ends of it included.
\<close>

theorem webhook_rate_bounded:
  assumes "sorted (map fst arrivals)"
  shows "int (in_minute t (times_of ip_of (limiter_run arrivals (limiter_new a b)) ip)) \<le> max 0 a
    \<and> int (in_minute t (times_of endpoint_of (limiter_run arrivals (limiter_new a b)) endpoint_id)) \<le> max 0 b"
proof (cases arrivals)
  case Nil
  then show ?thesis by (simp add: times_of_def in_minute_def)
next
  case (Cons x xs)
  have "paced ip_of a ([] @ limiter_run arrivals (limiter_new a b)) \<and> paced endpoint_of b ([] @ limiter_run arrivals (limiter_new a b))"
    using limiter_run_paced [of "fst x" arrivals "limiter_new a b" "[]"] assms Cons
    by (simp add: limiter_new_def covers_def times_of_def recent_def paced_def in_minute_def)
  then show ?thesis by (simp add: paced_def)
qed

theorem webhook_rate_bounded_witness:
  "int (in_minute 2 (times_of ip_of (limiter_run [(1, ''i'', ''e''), (2, ''i'', ''f''), (3, ''i'', ''e'')] (limiter_new 1 5)) ''i'')) \<le> 1"
  using webhook_rate_bounded [of "[(1, ''i'', ''e''), (2, ''i'', ''f''), (3, ''i'', ''e'')]" 2 1 5 "''i''" "''e''"] by simp

subsection \<open>What it takes to start a run\<close>

lemma proceed_simps [simp]:
  "proceed (Raised e, gw) f = (Raised e, gw)" "proceed (Answered r, gw) f = (Answered r, gw)" "proceed (Going v, gw) f = f v gw"
  by (simp_all add: proceed_def)

lemma raising_simps [simp]: "raising (Inl e) gw = (Raised e, gw)" "raising (Inr v) gw = (Going v, gw)"
  by (simp_all add: raising_def)

lemma snd_raising [simp]: "snd (raising r gw) = gw"
  by (cases r) simp_all

text \<open>What a handler changes it changes in a step that goes on.\<close>

lemma proceed_frame: "g (snd s) = x \<Longrightarrow> (\<And>v gw. s = (Going v, gw) \<Longrightarrow> g (snd (f v gw)) = g gw) \<Longrightarrow> g (snd (proceed s f)) = x"
  by (cases s; cases "fst s") (auto simp: proceed_def)

lemma proceed_going:
  assumes "gw_exec (snd (proceed s f)) \<noteq> x" "gw_exec (snd s) = x"
  obtains v gw where "s = (Going v, gw)" "gw_exec gw = x" "gw_exec (snd (f v gw)) \<noteq> x"
  using assms by (cases s; cases "fst s") (auto simp: proceed_def)

lemma count_metric_frame [simp]:
  "gw_exec (count_metric env n name v tags gw) = gw_exec gw" "gw_repo (count_metric env n name v tags gw) = gw_repo gw"
  "gw_limiter (count_metric env n name v tags gw) = gw_limiter gw" "gw_config (count_metric env n name v tags gw) = gw_config gw"
  by (simp_all add: count_metric_def)

lemma reject_frame [simp]:
  "gw_exec (snd (reject env n request_id e gw)) = gw_exec gw" "gw_repo (snd (reject env n request_id e gw)) = gw_repo gw"
  "reject env n request_id e gw \<noteq> (Going v, gw')"
  by (simp_all add: reject_def)

lemma log_webhook_event_frame [simp]:
  "gw_exec (snd (log_webhook_event env n t e gw)) = gw_exec gw" "gw_repo (snd (log_webhook_event env n t e gw)) = gw_repo gw"
  "gw_limiter (snd (log_webhook_event env n t e gw)) = gw_limiter gw"
  by (simp_all add: log_webhook_event_def split: sum.split)

lemma log_webhook_event_going:
  "log_webhook_event env n t e gw = (Going u, gw') \<Longrightarrow> gw_exec gw' = gw_exec gw \<and> gw_repo gw' = gw_repo gw \<and> gw_limiter gw' = gw_limiter gw"
  using log_webhook_event_frame [of env n t e gw] by simp

lemma receive_body_frame:
  "gw_exec (snd (receive_body env request_id rq gw)) = gw_exec gw" "gw_repo (snd (receive_body env request_id rq gw)) = gw_repo gw"
  by (simp_all add: receive_body_def split: sum.split option.split)

lemma receive_limited_frame:
  "gw_exec (snd (receive_limited env endpoint_id request_id rq gw)) = gw_exec gw"
  "gw_repo (snd (receive_limited env endpoint_id request_id rq gw)) = gw_repo gw"
  unfolding receive_limited_def by (rule proceed_frame; simp split: prod.split option.split)+

lemma receive_validated_frame:
  "gw_exec (snd (receive_validated env endpoint_id request_id request gw)) = gw_exec gw"
  "gw_repo (snd (receive_validated env endpoint_id request_id request gw)) = gw_repo gw"
  unfolding receive_validated_def by (rule proceed_frame; simp add: proceed_frame split: sum.split)+

lemma receive_parsed_frame:
  "gw_exec (snd (receive_parsed env endpoint_id request_id request endpoint gw)) = gw_exec gw"
  "gw_repo (snd (receive_parsed env endpoint_id request_id request endpoint gw)) = gw_repo gw"
  unfolding receive_parsed_def by (rule proceed_frame; simp add: proceed_frame split: sum.split)+

lemma receive_governed_frame:
  "gw_exec (snd (receive_governed env request_id rq endpoint gw)) = gw_exec gw"
  "gw_repo (snd (receive_governed env request_id rq endpoint gw)) = gw_repo gw"
  unfolding receive_governed_def by (rule proceed_frame; simp add: Let_def split: prod.split option.split)+

lemma receive_executed_repo: "gw_repo (snd (receive_executed env request_id rq endpoint input_data gw)) = gw_repo gw"
  unfolding receive_executed_def Let_def by (simp add: proceed_frame split: prod.split)

lemma receive_executed_calls:
  "gw_exec (snd (receive_executed env request_id rq endpoint input_data gw)) = snd (trigger (ge_run env) input_data (run_options rq endpoint) (gw_exec gw))"
  unfolding receive_executed_def Let_def by (simp add: proceed_frame split: prod.split)

text \<open>What a step that goes on has established.\<close>

definition received_request :: "gateway_env \<Rightarrow> gateway_request \<Rightarrow> gateway \<Rightarrow> http_request option" where
  "received_request env rq gw =
     (case read_body_with_limit (hg_max_content (gw_config gw)) (gq_chunks rq) 0 [] of
        Inl e \<Rightarrow> None
      | Inr raw \<Rightarrow> map_option (\<lambda>body. \<lparr>hr_headers = gq_headers rq, hr_body = body\<rparr>) (ge_utf8 env raw))"

lemma receive_body_going:
  "receive_body env request_id rq gw = (Going body, gw') \<Longrightarrow>
     received_request env rq gw = Some \<lparr>hr_headers = gq_headers rq, hr_body = body\<rparr> \<and> gw' = gw"
  by (simp add: receive_body_def received_request_def split: sum.splits option.splits)

lemma receive_limited_going:
  assumes "receive_limited env endpoint_id request_id rq gw = (Going u, gw')"
  shows "fst (limiter_check (ge_clock env 34) (client_ip rq) endpoint_id (gw_limiter gw)) = None"
proof -
  let ?r = "log_webhook_event env 33 ''request'' (request_event env endpoint_id request_id rq) (count_metric env 30 ''request_count'' 1 [] gw)"
  obtain gw1 where r: "?r = (Going (), gw1)"
    using assms by (cases ?r; cases "fst ?r") (auto simp: receive_limited_def)
  show ?thesis using assms log_webhook_event_going [OF r] by (simp add: receive_limited_def r split: prod.splits option.splits)
qed

lemma receive_validated_going:
  assumes "receive_validated env endpoint_id request_id request gw = (Going endpoint, gw')"
  shows "validate_request (ge_crypto env) endpoint_id request (gw_repo gw) = Inr (Inr endpoint)"
proof (cases "validate_request (ge_crypto env) endpoint_id request (gw_repo gw)")
  case Inl
  with assms show ?thesis by (simp add: receive_validated_def)
next
  case (Inr r)
  with assms show ?thesis
    by (cases r) (auto simp: receive_validated_def proceed_def split: prod.splits step.splits)
qed

lemma parse_safe_ok: "parse_safe env request = Inr (Inr parsed) \<Longrightarrow> parse env request = Inr parsed"
  by (simp add: parse_safe_def split: sum.splits option.splits)

definition webhook_input :: "gateway_env \<Rightarrow> webhook_endpoint \<Rightarrow> parsed_payload \<Rightarrow> agent_input" where
  "webhook_input env endpoint parsed =
     \<lparr>ai_agent = ec_agent (we_config endpoint), ai_parameters = PDict [(PStr ''payload'', pp_data parsed)],
      ai_context = PDict [(PStr ''source'', PStr ''webhook''), (PStr ''rule_id'', PStr (ge_fresh env 53)), (PStr ''rule_name'', PStr ''default-rule'')]\<rparr>"

lemma payload_path: "py_split CHR ''.'' ''payload'' = [''payload'']"
  by code_simp

lemma default_rule_input:
  "pp_data parsed \<noteq> PNone \<Longrightarrow> transform (ge_parse env) (pp_data parsed) (default_rule env endpoint) = Inr (webhook_input env endpoint parsed)"
  by (simp add: transform_def default_rule_def json_path_get_def convert_value_def assign_path_def payload_path validate_schema_def webhook_input_def)

lemma parsed_dict: "parse env request = Inr parsed \<Longrightarrow> is_dict (pp_data parsed)"
  by (auto simp: parse_def parse_data_def Let_def and_then_Inr_iff split: if_splits option.splits)

lemma receive_parsed_going:
  assumes "receive_parsed env endpoint_id request_id request endpoint gw = (Going input_data, gw')"
  obtains parsed where "parse (ge_parse env) request = Inr parsed" "input_data = webhook_input env endpoint parsed"
proof (cases "parse_safe (ge_parse env) request")
  case Inl
  with assms show thesis by (simp add: receive_parsed_def)
next
  case (Inr r)
  show thesis
  proof (cases r)
    case Inl
    with assms Inr show thesis by (simp add: receive_parsed_def)
  next
    case p: (Inr parsed)
    note ok = parse_safe_ok [OF Inr [unfolded p]]
    then have "pp_data parsed \<noteq> PNone" using parsed_dict [OF ok] by auto
    note input = default_rule_input [OF this, of env endpoint]
    show thesis using assms Inr p input
      by (intro that [OF ok]) (auto simp: receive_parsed_def proceed_def split: prod.splits step.splits)
  qed
qed

text \<open>A policy permits what it is not there to refuse, or answers twice without refusing.\<close>

definition answer_permits :: "policy_answer \<Rightarrow> bool" where
  "answer_permits a = (case a of
      PolicyAnswer (PDict kvs) \<Rightarrow> (case map_of kvs (PStr ''allowed'') of None \<Rightarrow> True | Some v \<Rightarrow> truthy v)
    | _ \<Rightarrow> False)"

definition policy_permits :: "gov_client \<Rightarrow> bool" where
  "policy_permits gv = (case gv_policy gv of None \<Rightarrow> True | Some (permission, rate) \<Rightarrow> answer_permits permission \<and> answer_permits rate)"

lemma invoke_allowed: "invoke_policy_call str_of a = Inr d \<Longrightarrow> gd_allowed d \<Longrightarrow> answer_permits a"
  unfolding invoke_policy_call_def answer_permits_def coerce_decision_def
  by (cases a; cases "case a of PolicyAnswer v \<Rightarrow> v | _ \<Rightarrow> PNone")
    (auto simp: and_then_Inr_iff py_get_or_def Let_def split: option.splits if_splits)

lemma validate_execution_permits:
  assumes "validate_execution gv ctx = Inr (None, entries)"
  shows "policy_permits gv"
proof -
  obtain p where p: "check_permission gv = Inr p" "gd_allowed p"
    using assms by (cases "check_permission gv") (auto simp: validate_execution_def split: if_splits)
  obtain r where r: "policy_rate_limit gv = Inr r" "gd_allowed r"
    using assms p by (cases "policy_rate_limit gv") (auto simp: validate_execution_def split: if_splits)
  show ?thesis using p r invoke_allowed
    by (auto simp: policy_permits_def check_permission_def policy_rate_limit_def split: option.splits)
qed

lemma receive_governed_going:
  assumes "receive_governed env request_id rq endpoint gw = (Going u, gw')"
  shows "policy_permits (ge_gov env)"
proof (cases "validate_execution (ge_gov env) (governed_context env request_id rq endpoint)")
  case Inl
  with assms show ?thesis by (simp add: receive_governed_def)
next
  case (Inr r)
  obtain e entries where r: "r = (e, entries)" by (cases r)
  have "e = None" using assms by (cases e) (simp_all add: receive_governed_def Inr r Let_def)
  with Inr r validate_execution_permits show ?thesis by blast
qed

lemma receive_webhook_body:
  assumes "gw_exec (snd (receive_webhook env endpoint_id rq request_id gw)) \<noteq> gw_exec gw"
  obtains body where "receive_body env request_id rq gw = (Going body, gw)"
    "received_request env rq gw = Some \<lparr>hr_headers = gq_headers rq, hr_body = body\<rparr>"
proof -
  obtain body gw1 where 1: "receive_body env request_id rq gw = (Going body, gw1)"
    using assms receive_body_frame(1) [of env request_id rq gw] unfolding receive_webhook_def by (elim proceed_going)
  then show thesis using receive_body_going [OF 1] that by simp
qed

lemma receive_webhook_stages:
  assumes "gw_exec (snd (receive_webhook env endpoint_id rq request_id gw)) \<noteq> gw_exec gw"
    and "receive_body env request_id rq gw = (Going body, gw)"
  obtains u gw2 gw3 gw4 gw5 endpoint input_data v where "receive_limited env endpoint_id request_id rq gw = (Going u, gw2)"
    "receive_validated env endpoint_id request_id \<lparr>hr_headers = gq_headers rq, hr_body = body\<rparr> gw2 = (Going endpoint, gw3)"
    "receive_parsed env endpoint_id request_id \<lparr>hr_headers = gq_headers rq, hr_body = body\<rparr> endpoint gw3 = (Going input_data, gw4)"
    "receive_governed env request_id rq endpoint gw4 = (Going v, gw5)" "gw_exec gw5 = gw_exec gw"
proof -
  define request where "request = \<lparr>hr_headers = gq_headers rq, hr_body = body\<rparr>"
  define f4 where "f4 endpoint input_data = (\<lambda>(v :: unit) gw5. receive_executed env request_id rq endpoint input_data gw5)" for endpoint input_data
  define f3 where "f3 endpoint = (\<lambda>input_data gw4. proceed (receive_governed env request_id rq endpoint gw4) (f4 endpoint input_data))" for endpoint
  define f2 where "f2 = (\<lambda>endpoint gw3. proceed (receive_parsed env endpoint_id request_id request endpoint gw3) (f3 endpoint))"
  define f1 where "f1 = (\<lambda>(u :: unit) gw2. proceed (receive_validated env endpoint_id request_id request gw2) f2)"
  have "receive_webhook env endpoint_id rq request_id gw = proceed (receive_limited env endpoint_id request_id rq gw) f1"
    by (simp add: receive_webhook_def assms(2) request_def f1_def f2_def f3_def f4_def Let_def)
  with assms(1) have "gw_exec (snd (proceed (receive_limited env endpoint_id request_id rq gw) f1)) \<noteq> gw_exec gw" by simp
  then obtain u gw2 where 2: "receive_limited env endpoint_id request_id rq gw = (Going u, gw2)" "gw_exec gw2 = gw_exec gw"
    and t2: "gw_exec (snd (proceed (receive_validated env endpoint_id request_id request gw2) f2)) \<noteq> gw_exec gw"
    by (rule proceed_going) (simp_all add: receive_limited_frame f1_def)
  from t2 obtain endpoint gw3 where 3: "receive_validated env endpoint_id request_id request gw2 = (Going endpoint, gw3)" "gw_exec gw3 = gw_exec gw"
    and t3: "gw_exec (snd (proceed (receive_parsed env endpoint_id request_id request endpoint gw3) (f3 endpoint))) \<noteq> gw_exec gw"
    by (rule proceed_going) (simp_all add: receive_validated_frame 2 f2_def)
  from t3 obtain input_data gw4 where 4: "receive_parsed env endpoint_id request_id request endpoint gw3 = (Going input_data, gw4)" "gw_exec gw4 = gw_exec gw"
    and t4: "gw_exec (snd (proceed (receive_governed env request_id rq endpoint gw4) (f4 endpoint input_data))) \<noteq> gw_exec gw"
    by (rule proceed_going) (simp_all add: receive_parsed_frame 3 f3_def)
  from t4 obtain v gw5 where 5: "receive_governed env request_id rq endpoint gw4 = (Going v, gw5)" "gw_exec gw5 = gw_exec gw"
    by (rule proceed_going) (simp_all add: receive_governed_frame 4)
  show thesis by (rule that [OF 2(1) 3(1) [unfolded request_def] 4(1) [unfolded request_def] 5])
qed

text \<open>
  C8. The runtime is called for a webhook request only if its body is within the limit and is UTF-8,
  the limiter lets it through, its endpoint is stored and enabled, the request carries the
  credentials of that endpoint, its payload can be parsed, and the governance policy did not refuse
  either question. The runtime is then given nothing else than the parsed payload, for the agent of
  that endpoint with its timeout, and not more often than its retry policy allows.
\<close>

theorem webhook_run_guarded:
  assumes "gw_exec (snd (receive_webhook env endpoint_id rq request_id gw)) \<noteq> gw_exec gw"
  shows "\<exists>request endpoint parsed n.
      received_request env rq gw = Some request
    \<and> fst (limiter_check (ge_clock env 34) (client_ip rq) endpoint_id (gw_limiter gw)) = None
    \<and> (case parse_uuid endpoint_id of Inl e \<Rightarrow> False
       | Inr u \<Rightarrow> (case map_of (gw_repo gw) u of None \<Rightarrow> False | Some em \<Rightarrow> endpoint = to_endpoint em [] \<and> em_enabled em))
    \<and> authentic (ge_crypto env) request endpoint
    \<and> parse (ge_parse env) request = Inr parsed
    \<and> policy_permits (ge_gov env)
    \<and> et_calls (gw_exec (snd (receive_webhook env endpoint_id rq request_id gw)))
        = et_calls (gw_exec gw) @ replicate n (webhook_input env endpoint parsed, ec_timeout (we_config endpoint))
    \<and> int n \<le> max 0 (rp_attempts (policy_of (run_options rq endpoint)))"
proof -
  let ?x = "gw_exec gw"
  obtain body where 1: "receive_body env request_id rq gw = (Going body, gw)"
    and req: "received_request env rq gw = Some \<lparr>hr_headers = gq_headers rq, hr_body = body\<rparr>"
    using assms by (rule receive_webhook_body)
  define request where "request = \<lparr>hr_headers = gq_headers rq, hr_body = body\<rparr>"
  obtain u gw2 gw3 gw4 gw5 endpoint input_data v where 2: "receive_limited env endpoint_id request_id rq gw = (Going u, gw2)"
    and 3: "receive_validated env endpoint_id request_id request gw2 = (Going endpoint, gw3)"
    and 4: "receive_parsed env endpoint_id request_id request endpoint gw3 = (Going input_data, gw4)"
    and 5: "receive_governed env request_id rq endpoint gw4 = (Going v, gw5)" and x: "gw_exec gw5 = ?x"
    using assms 1 unfolding request_def by (rule receive_webhook_stages)
  have repo: "gw_repo gw2 = gw_repo gw" using receive_limited_frame(2) [of env endpoint_id request_id rq gw] by (simp add: 2)
  obtain parsed where p: "parse (ge_parse env) request = Inr parsed" "input_data = webhook_input env endpoint parsed"
    using 4(1) by (rule receive_parsed_going)
  have all: "receive_webhook env endpoint_id rq request_id gw = receive_executed env request_id rq endpoint input_data gw5"
    by (simp add: receive_webhook_def 1 2 3 4 5 request_def [symmetric] Let_def)
  obtain n where n: "et_calls (gw_exec (snd (receive_webhook env endpoint_id rq request_id gw)))
        = et_calls ?x @ replicate n (webhook_input env endpoint parsed, ec_timeout (we_config endpoint))"
      "int n \<le> max 0 (rp_attempts (policy_of (run_options rq endpoint)))"
    using trigger_attempts [of "ge_run env" input_data "run_options rq endpoint" ?x]
    by (auto simp: all receive_executed_calls x p(2) run_options_def)
  note authentic = validated_request_authentic [OF receive_validated_going [OF 3]]
  show ?thesis
    by (intro exI conjI; (rule n p(1) receive_limited_going [OF 2] receive_governed_going [OF 5] req [folded request_def]
          authentic [THEN conjunct1, unfolded repo] authentic [THEN conjunct2, THEN conjunct1])?)
qed

subsection \<open>Who may change the endpoints\<close>

lemma enter_route_repo: "\<not> needs_admin r \<Longrightarrow> gw_repo (snd (enter_route env r rq request_id gw)) = gw_repo gw"
proof (cases r)
  case (ReceiveWebhook i)
  have "gw_repo (snd (receive_webhook env i rq request_id gw)) = gw_repo gw"
    unfolding receive_webhook_def Let_def
    by (intro proceed_frame [where g = gw_repo] receive_body_frame receive_limited_frame receive_validated_frame receive_parsed_frame receive_governed_frame
        receive_executed_repo)
  with ReceiveWebhook show ?thesis by simp
qed (simp_all add: health_route_def metrics_route_def Let_def split: prod.split)

lemma require_admin_token_None:
  "require_admin_token cfg rq = None \<Longrightarrow> (case hg_admin cfg of None \<Rightarrow> False | Some t \<Rightarrow> t \<noteq> [] \<and> provided_token rq = t)"
  by (auto simp: require_admin_token_def Let_def split: option.splits if_splits)

lemma refusal_status: "require_admin_token cfg rq = Some refusal \<Longrightarrow> hs_status refusal \<in> {401, 500}"
  by (auto simp: require_admin_token_def http_exception_def Let_def split: if_splits)

lemma serve_snd_repo: "gw_repo (snd (serve env r rq gw)) =
    (if (case r of ReceiveWebhook i \<Rightarrow> declared_too_large (gw_config gw) rq | _ \<Rightarrow> False) then gw_repo gw
     else gw_repo (snd (dispatch_route env r rq (case map_of (gq_headers rq) ''x-request-id'' of Some i \<Rightarrow> i | None \<Rightarrow> ge_fresh env 0) gw)))"
  by (simp add: serve_def Let_def split: prod.split step.split)

text \<open>
  C29. A request passes as the administrator's only if a token is configured, is not empty, and is the
  one the request brings. Without it no request of any kind changes the table of endpoints, and on
  the routes for endpoints and events it is answered with the refusal and nothing else.
\<close>

theorem webhook_admin_only:
  "case require_admin_token (gw_config gw) rq of
     None \<Rightarrow> (case hg_admin (gw_config gw) of None \<Rightarrow> False | Some t \<Rightarrow> t \<noteq> [] \<and> provided_token rq = t)
   | Some refusal \<Rightarrow> gw_repo (snd (serve env r rq gw)) = gw_repo gw \<and> hs_status refusal \<in> {401, 500}
       \<and> (if needs_admin r
          then (case fst (serve env r rq gw) of Answered a \<Rightarrow> hs_status a = hs_status refusal \<and> hs_body a = hs_body refusal | _ \<Rightarrow> False)
          else True)"
proof (cases "require_admin_token (gw_config gw) rq")
  case None
  then show ?thesis using require_admin_token_None [OF None] by simp
next
  case (Some refusal)
  have repo: "gw_repo (snd (dispatch_route env r rq i gw)) = gw_repo gw" for i
    using enter_route_repo by (simp add: dispatch_route_def Some)
  have "needs_admin r \<Longrightarrow> \<not> (case r of ReceiveWebhook i \<Rightarrow> declared_too_large (gw_config gw) rq | _ \<Rightarrow> False)" by (cases r) simp_all
  then have "needs_admin r \<Longrightarrow> (case fst (serve env r rq gw) of Answered a \<Rightarrow> hs_status a = hs_status refusal \<and> hs_body a = hs_body refusal | _ \<Rightarrow> False)"
    by (simp add: serve_def dispatch_route_def Some Let_def)
  then show ?thesis using refusal_status [OF Some] by (simp add: Some serve_snd_repo repo)
qed

subsection \<open>What the log shows of a credential\<close>

text \<open>The part of a header the log depends on: nothing of a secret, the scheme of an authorization.\<close>

definition public_part :: "string \<Rightarrow> string \<Rightarrow> string" where
  "public_part key v =
     (if strip_lower key \<notin> set sensitive_headers then v
      else if strip_lower key \<in> {''authorization'', ''proxy-authorization''} then takeWhile (\<lambda>c. c \<noteq> CHR '' '') v
      else [])"

lemma sanitize_header_public: "public_part key v = public_part key w \<Longrightarrow> sanitize_header key v = sanitize_header key w"
  by (auto simp: public_part_def sanitize_header_def Let_def split: if_splits)

lemma bare_credential_logged: "sanitize_header ''authorization'' ''secret'' = ''secret ***''"
  by code_simp

subsection \<open>A run of the sample endpoint\<close>

definition sample_gateway_env :: gateway_env where
  "sample_gateway_env = \<lparr>ge_clock = (\<lambda>n. 0), ge_fresh = (\<lambda>n. sample_id), ge_utf8 = Some, ge_float = (\<lambda>r. []), ge_iso = (\<lambda>t. []),
     ge_token = [], ge_crypto = plain_crypto,
     ge_parse = \<lparr>pe_json = (\<lambda>s. None), pe_xml = (\<lambda>s. Some (XNode ''a'' None [])), pe_form = (\<lambda>s. []), pe_iso = (\<lambda>s. None), pe_str = (\<lambda>v. []),
       pe_percent = (\<lambda>s v. Inr PNone)\<rparr>,
     ge_gov = \<lparr>gv_str = (\<lambda>v. []), gv_policy = None\<rparr>, ge_run = sample_run_env 0, ge_checks = []\<rparr>"

definition sample_gateway_request :: gateway_request where
  "sample_gateway_request = \<lparr>gq_headers = hr_headers sample_request, gq_client = None, gq_chunks = [''<a'', ''/>'']\<rparr>"

definition sample_gateway :: gateway where
  "sample_gateway = (gateway_new gateway_config_default (monitor_new 1 1000 60) (exec_trigger_new 1024 2048))\<lparr>gw_repo := [(sample_id, sample_model)]\<rparr>"

lemma sample_body: "receive_body sample_gateway_env [] sample_gateway_request sample_gateway = (Going ''<a/>'', sample_gateway)"
  by (simp add: receive_body_def sample_gateway_env_def sample_gateway_request_def sample_gateway_def gateway_new_def gateway_config_default_def Let_def)

lemma log_webhook_event_ok:
  assumes "parse_uuid (ev_id e) = Inr i" "ev_id e \<noteq> []" "parse_uuid (ev_endpoint e) = Inr j"
  shows "\<exists>gw'. log_webhook_event env n t e gw = (Going (), gw') \<and> gw_exec gw' = gw_exec gw \<and> gw_repo gw' = gw_repo gw \<and> gw_limiter gw' = gw_limiter gw"
  using assms by (simp add: log_webhook_event_def log_event_def)

lemma sample_limited_step:
  "\<exists>gw'. receive_limited sample_gateway_env sample_id [] sample_gateway_request sample_gateway = (Going (), gw')
     \<and> gw_exec gw' = gw_exec sample_gateway \<and> gw_repo gw' = gw_repo sample_gateway"
proof -
  let ?e = "request_event sample_gateway_env sample_id [] sample_gateway_request"
  have e: "ev_id ?e = sample_id" "ev_endpoint ?e = sample_id" by (simp_all add: request_event_def build_event_def sample_gateway_env_def)
  have "sample_id \<noteq> []" by (simp add: sample_id_def)
  then obtain gw1 where r: "log_webhook_event sample_gateway_env 33 ''request'' ?e (count_metric sample_gateway_env 30 ''request_count'' 1 [] sample_gateway) = (Going (), gw1)"
      "gw_exec gw1 = gw_exec sample_gateway" "gw_repo gw1 = gw_repo sample_gateway" "gw_limiter gw1 = gw_limiter sample_gateway"
    using log_webhook_event_ok [of ?e sample_id sample_id] e sample_id_canonical by fastforce
  obtain hl where "limiter_check 0 (client_ip sample_gateway_request) sample_id (gw_limiter sample_gateway) = (None, hl)"
    by (simp add: limiter_check_def check_key_def sample_gateway_def gateway_new_def limiter_new_def gateway_config_default_def)
  moreover have "ge_clock sample_gateway_env 34 = 0" by (simp add: sample_gateway_env_def)
  ultimately show ?thesis by (simp add: receive_limited_def r)
qed

lemma sample_env_parts:
  "ge_crypto sample_gateway_env = plain_crypto" "gv_policy (ge_gov sample_gateway_env) = None" "ge_run sample_gateway_env = sample_run_env 0"
  "ge_fresh sample_gateway_env n = sample_id"
  by (simp_all add: sample_gateway_env_def)

lemma sample_received: "\<lparr>hr_headers = gq_headers sample_gateway_request, hr_body = ''<a/>''\<rparr> = sample_request"
  by (simp add: sample_gateway_request_def sample_request_def)

lemma sample_validated_step:
  "gw_repo gw = gw_repo sample_gateway \<Longrightarrow>
     receive_validated sample_gateway_env sample_id [] sample_request gw = (Going (to_endpoint sample_model []), gw)"
  using sample_validated by (simp add: receive_validated_def sample_env_parts sample_gateway_def)

definition sample_payload :: parsed_payload where
  "sample_payload = \<lparr>pp_type = ''text/xml'', pp_data = PDict [(PStr ''a'', PStr [])], pp_headers = hr_headers sample_request, pp_raw = ''<a/>''\<rparr>"

lemma sample_parse: "parse (ge_parse sample_gateway_env) sample_request = Inr sample_payload"
proof -
  have "extract_content_type (hr_headers sample_request) = ''text/xml''" by code_simp
  moreover have "strip_ns ''a'' = ''a''" by code_simp
  ultimately show ?thesis
    by (simp add: parse_def parse_data_def sample_gateway_env_def sample_payload_def sample_request_def Let_def)
qed

lemma sample_parsed_step:
  "\<exists>x gw'. receive_parsed sample_gateway_env sample_id [] sample_request e gw = (Going x, gw') \<and> gw_exec gw' = gw_exec gw"
proof -
  let ?e = "(build_event (ge_fresh sample_gateway_env 51) (ge_clock sample_gateway_env 51) sample_id [] ''transformation'')
      \<lparr>ev_status := Some ''completed'', ev_data := str_dict [(''content_type'', PStr (pp_type sample_payload))]\<rparr>"
  have "ev_id ?e = sample_id" "ev_endpoint ?e = sample_id" "sample_id \<noteq> []"
    by (simp_all add: build_event_def sample_env_parts sample_id_def)
  then obtain gw1 where r: "log_webhook_event sample_gateway_env 52 ''transformation'' ?e gw = (Going (), gw1)" "gw_exec gw1 = gw_exec gw"
    using log_webhook_event_ok [of ?e sample_id sample_id sample_gateway_env 52 "''transformation''" gw] sample_id_canonical by auto
  have "pp_data sample_payload \<noteq> PNone" by (simp add: sample_payload_def)
  note input = default_rule_input [OF this, of sample_gateway_env e]
  show ?thesis by (simp add: receive_parsed_def parse_safe_def sample_parse r input)
qed

lemma sample_governed_step:
  "\<exists>gw'. receive_governed sample_gateway_env [] rq e gw = (Going (), gw') \<and> gw_exec gw' = gw_exec gw"
  by (simp add: receive_governed_def validate_execution_def check_permission_def policy_rate_limit_def sample_env_parts gov_allow_def)

lemma sample_trigger: "et_executions (snd (trigger (sample_run_env 0) x \<lparr>eo_mode = m, eo_timeout = t, eo_key = None, eo_retry = None\<rparr> (exec_trigger_new 1024 2048))) \<noteq> []"
  by (simp add: trigger_def key_of_def trigger_run_def default_retry_def sample_run_env_def keep_result_def trim_execution_cache_def exec_trigger_new_def
      keep_newest_def Let_def split: option.split)

lemma sample_run: "gw_exec (snd (receive_webhook sample_gateway_env sample_id sample_gateway_request [] sample_gateway)) \<noteq> gw_exec sample_gateway"
proof -
  obtain gw2 where 2: "receive_limited sample_gateway_env sample_id [] sample_gateway_request sample_gateway = (Going (), gw2)"
      "gw_exec gw2 = gw_exec sample_gateway" "gw_repo gw2 = gw_repo sample_gateway"
    using sample_limited_step by blast
  note 3 = sample_validated_step [OF 2(3)]
  let ?e = "to_endpoint sample_model []"
  obtain x gw4 where 4: "receive_parsed sample_gateway_env sample_id [] sample_request ?e gw2 = (Going x, gw4)" "gw_exec gw4 = gw_exec gw2"
    using sample_parsed_step by blast
  obtain gw5 where 5: "receive_governed sample_gateway_env [] sample_gateway_request ?e gw4 = (Going (), gw5)" "gw_exec gw5 = gw_exec gw4"
    using sample_governed_step by blast
  have o: "run_options sample_gateway_request ?e = \<lparr>eo_mode = ec_mode (we_config ?e), eo_timeout = ec_timeout (we_config ?e), eo_key = None, eo_retry = None\<rparr>"
    by (simp add: run_options_def sample_gateway_request_def sample_request_def sample_model_def)
  have "receive_webhook sample_gateway_env sample_id sample_gateway_request [] sample_gateway
      = receive_executed sample_gateway_env [] sample_gateway_request ?e x gw5"
    by (simp add: receive_webhook_def sample_body sample_received 2(1) 3 4(1) 5(1) Let_def)
  moreover have "gw_exec sample_gateway = exec_trigger_new 1024 2048" by (simp add: sample_gateway_def gateway_new_def)
  ultimately have "et_executions (gw_exec (snd (receive_webhook sample_gateway_env sample_id sample_gateway_request [] sample_gateway))) \<noteq> []"
    using sample_trigger by (simp add: receive_executed_calls sample_env_parts 2 4 5 o)
  then show ?thesis by (auto simp: sample_gateway_def gateway_new_def exec_trigger_new_def)
qed

theorem webhook_run_guarded_witness:
  "\<exists>request endpoint. received_request sample_gateway_env sample_gateway_request sample_gateway = Some request
     \<and> authentic (ge_crypto sample_gateway_env) request endpoint"
  using webhook_run_guarded [OF sample_run] by (elim exE conjE, intro exI conjI)

end
