(* ===== verification/Registry.thy ===== *)
theory Registry
  imports Visibility PyValues
begin

section \<open>Skills and the capability registry\<close>

text \<open>
  \<open>owlclaw/capabilities/registry.py\<close> and, of \<open>capabilities/skills.py\<close>, the properties of a skill, the
  loading of parsed files with its priorities and switches, and the prerequisites. What a file
  parses to, and the machine (variables, programs, packages, configuration), are arguments. A
  handler is its signature, the metadata it declares and a function from its arguments to what a
  call of it does; the calls are kept.
\<close>

subsection \<open>Skills\<close>

record skill =
  sk_name :: string
  sk_description :: string
  sk_path :: "string list"
  sk_metadata :: pyval
  sk_config :: pyval

definition skill_task_type :: "skill \<Rightarrow> string option" where
  "skill_task_type k =
     (case dict_get (sk_config k) ''task_type'' of
        Some (PStr s) \<Rightarrow> if py_strip s = [] then None else Some (py_strip s)
      | _ \<Rightarrow> None)"

definition skill_constraints :: "skill \<Rightarrow> pyval" where
  "skill_constraints k = (let raw = dict_get_or (sk_config k) ''constraints'' (PDict []) in if is_dict raw then raw else PDict [])"

definition skill_focus :: "skill \<Rightarrow> string list" where
  "skill_focus k =
     (case dict_get_or (sk_config k) ''focus'' (PList []) of
        PStr s \<Rightarrow> if py_strip s = [] then [] else [py_strip s]
      | PList xs \<Rightarrow> focus_loop [] xs
      | PTuple xs \<Rightarrow> focus_loop [] xs
      | PSet xs \<Rightarrow> focus_loop [] xs
      | _ \<Rightarrow> [])"

definition risk_word :: "pyval \<Rightarrow> string" where
  "risk_word v =
     (case v of PStr s \<Rightarrow> if strip_lower s \<in> {''low'', ''medium'', ''high'', ''critical''} then strip_lower s else ''low'' | _ \<Rightarrow> ''low'')"

definition skill_risk_level :: "skill \<Rightarrow> string" where
  "skill_risk_level k = risk_word (dict_get_or (sk_config k) ''risk_level'' (PStr ''low''))"

definition skill_requires_confirmation :: "skill \<Rightarrow> bool" where
  "skill_requires_confirmation k =
     (let by_risk = skill_risk_level k \<in> {''high'', ''critical''} in
      case dict_get_or (sk_config k) ''requires_confirmation'' PNone of
        PBool b \<Rightarrow> b
      | PInt i \<Rightarrow> if i = 0 \<or> i = 1 then i = 1 else by_risk
      | PStr s \<Rightarrow>
          if strip_lower s \<in> {''1'', ''true'', ''yes'', ''on''} then True
          else if strip_lower s \<in> {''0'', ''false'', ''no'', ''off''} then False
          else by_risk
      | _ \<Rightarrow> by_risk)"

subsection \<open>Loading\<close>

definition skill_source_priority :: "string list \<Rightarrow> nat" where
  "skill_source_priority parts =
     (let parts = map py_lower parts in
      if ''bundled'' \<in> set parts then 0 else if ''managed'' \<in> set parts \<or> ''installed'' \<in> set parts then 1 else 2)"

type_synonym skills = "(string \<times> skill) list"

definition skill_enabled :: "(string \<times> bool) list \<Rightarrow> string \<Rightarrow> bool" where
  "skill_enabled overrides name = (case map_of overrides name of None \<Rightarrow> True | Some b \<Rightarrow> b)"

text \<open>The files in the order of their paths, each with what it parses to.\<close>

fun scan_files :: "(string \<times> bool) list \<Rightarrow> skill option list \<Rightarrow> skills \<Rightarrow> skills" where
  "scan_files overrides [] loaded = loaded"
| "scan_files overrides (None # files) loaded = scan_files overrides files loaded"
| "scan_files overrides (Some k # files) loaded =
     (if \<not> skill_enabled overrides (sk_name k) then scan_files overrides files loaded
      else (case map_of loaded (sk_name k) of
          None \<Rightarrow> scan_files overrides files (AList.update (sk_name k) k loaded)
        | Some existing \<Rightarrow>
            if skill_source_priority (sk_path existing) < skill_source_priority (sk_path k)
            then scan_files overrides files (AList.update (sk_name k) k loaded)
            else scan_files overrides files loaded))"

definition scan :: "(string \<times> bool) list \<Rightarrow> bool \<Rightarrow> skill option list \<Rightarrow> skills" where
  "scan overrides is_directory files = (if is_directory then scan_files overrides files [] else [])"

fun enablement_entries :: "(pyval \<times> pyval) list \<Rightarrow> (string \<times> bool) list \<Rightarrow> (string \<times> bool) list" where
  "enablement_entries [] out = out"
| "enablement_entries ((PStr raw_name, raw_cfg) # rest) out =
     (let name = py_strip raw_name in
      if name = [] then enablement_entries rest out
      else (case raw_cfg of
          PBool b \<Rightarrow> enablement_entries rest (AList.update name b out)
        | PDict kvs \<Rightarrow> (case dict_get (PDict kvs) ''enabled'' of
              Some (PBool b) \<Rightarrow> enablement_entries rest (AList.update name b out)
            | _ \<Rightarrow> enablement_entries rest out)
        | _ \<Rightarrow> enablement_entries rest out))"
| "enablement_entries (entry # rest) out = enablement_entries rest out"

definition load_skill_enablement_overrides :: "pyval \<Rightarrow> (string \<times> bool) list" where
  "load_skill_enablement_overrides config_data =
     (case dict_get config_data ''skills'' of
        Some (PDict block) \<Rightarrow> (case dict_get (PDict block) ''entries'' of
            Some (PDict kvs) \<Rightarrow> enablement_entries kvs []
          | _ \<Rightarrow> [])
      | _ \<Rightarrow> [])"

definition get_skill :: "skills \<Rightarrow> string \<Rightarrow> skill option" where
  "get_skill ks name = (if py_strip name = [] then None else map_of ks (py_strip name))"

subsection \<open>Prerequisites\<close>

record machine =
  mc_getenv :: "string \<Rightarrow> string option"
  mc_which :: "string \<Rightarrow> bool"
  mc_package :: "string \<Rightarrow> bool"
  mc_os :: string
  mc_config :: pyval
  mc_repr :: "pyval \<Rightarrow> string"

definition extract_prerequisites :: "pyval \<Rightarrow> pyval \<Rightarrow> pyval" where
  "extract_prerequisites frontmatter owlclaw_config =
     (case dict_get owlclaw_config ''prerequisites'' of
        Some (PDict kvs) \<Rightarrow> PDict kvs
      | _ \<Rightarrow> (case dict_get frontmatter ''prerequisites'' of Some (PDict kvs) \<Rightarrow> PDict kvs | _ \<Rightarrow> PDict []))"

fun non_blank_strings :: "pyval list \<Rightarrow> string list" where
  "non_blank_strings [] = []"
| "non_blank_strings (PStr s # items) = (if py_strip s = [] then non_blank_strings items else py_strip s # non_blank_strings items)"
| "non_blank_strings (v # items) = non_blank_strings items"

definition as_str_list :: "pyval \<Rightarrow> string list" where
  "as_str_list v =
     (case v of PStr s \<Rightarrow> if py_strip s = [] then [] else [py_strip s] | PList xs \<Rightarrow> non_blank_strings xs | _ \<Rightarrow> [])"

fun path_value :: "pyval \<Rightarrow> string list \<Rightarrow> pyval option" where
  "path_value cursor [] = Some cursor"
| "path_value cursor (part # parts) =
     (if py_strip part = [] then None
      else (case cursor of
          PDict kvs \<Rightarrow> (case map_of kvs (PStr (py_strip part)) of None \<Rightarrow> None | Some v \<Rightarrow> path_value v parts)
        | _ \<Rightarrow> None))"

definition get_by_path :: "pyval \<Rightarrow> string \<Rightarrow> pyval option" where
  "get_by_path data dotted_path = (if dotted_path = [] then None else path_value data (py_split CHR ''.'' dotted_path))"

definition normalize_os_name :: "string \<Rightarrow> string" where
  "normalize_os_name raw =
     (let candidate = strip_lower raw in
      if candidate \<in> {''win32'', ''windows''} then ''windows''
      else if candidate \<in> {''darwin'', ''mac'', ''macos'', ''osx''} then ''darwin''
      else candidate)"

definition list_config_reasons :: "machine \<Rightarrow> pyval list \<Rightarrow> string list" where
  "list_config_reasons mc items =
     concat (map (\<lambda>path. case get_by_path (mc_config mc) path of
         None \<Rightarrow> [''missing config '' @ path]
       | Some v \<Rightarrow> if v = PNone then [''missing config '' @ path] else [])
       (as_str_list (PList items)))"

fun dict_config_reasons :: "machine \<Rightarrow> (pyval \<times> pyval) list \<Rightarrow> string list" where
  "dict_config_reasons mc [] = []"
| "dict_config_reasons mc ((PStr path, expected) # rest) =
     (if py_strip path = [] then dict_config_reasons mc rest
      else (case get_by_path (mc_config mc) (py_strip path) of
          None \<Rightarrow> (''missing config '' @ py_strip path) # dict_config_reasons mc rest
        | Some v \<Rightarrow>
            if py_eq v expected then dict_config_reasons mc rest
            else (''config mismatch '' @ py_strip path @ '' expected='' @ mc_repr mc expected @ '' actual='' @ mc_repr mc v)
                   # dict_config_reasons mc rest))"
| "dict_config_reasons mc (entry # rest) = dict_config_reasons mc rest"

definition os_reasons :: "machine \<Rightarrow> pyval \<Rightarrow> string list" where
  "os_reasons mc v =
     (let declared_os = filter (\<lambda>n. n \<noteq> []) (map normalize_os_name (as_str_list v));
          current_os = normalize_os_name (mc_os mc)
      in if declared_os \<noteq> [] \<and> current_os \<notin> set declared_os
         then [''os mismatch '' @ current_os @ '' not in '' @ mc_repr mc (PList (map PStr (sort (remdups declared_os))))] else [])"

definition check_prerequisites :: "machine \<Rightarrow> pyval \<Rightarrow> bool \<times> string list" where
  "check_prerequisites mc prerequisites =
     (if dict_entries prerequisites = [] then (True, [])
      else (let part = (\<lambda>k. as_str_list (dict_get_or prerequisites k PNone));
                reasons =
                  map (\<lambda>n. ''missing env '' @ n) (filter (\<lambda>n. mc_getenv mc n \<in> {None, Some []}) (part ''env''))
                  @ map (\<lambda>n. ''missing binary '' @ n) (filter (\<lambda>n. \<not> mc_which mc n) (part ''bins''))
                  @ map (\<lambda>n. ''missing python package '' @ n) (filter (\<lambda>n. \<not> mc_package mc n) (part ''python_packages''))
                  @ os_reasons mc (dict_get_or prerequisites ''os'' PNone)
                  @ (case dict_get_or prerequisites ''config'' PNone of
                       PList items \<Rightarrow> list_config_reasons mc items
                     | PDict kvs \<Rightarrow> dict_config_reasons mc kvs
                     | _ \<Rightarrow> [])
            in (reasons = [], reasons)))"

subsection \<open>The registry\<close>

text \<open>A signature takes any keyword, or the named parameters only, or cannot be inspected.\<close>

datatype signature = AnyKeyword | NamedParams "string list" | NoSignature string

datatype call_outcome = Returned pyval | TimedOut | Failed string

type_synonym kwargs = "(string \<times> pyval) list"

record handler =
  hd_name :: string
  hd_signature :: signature
  hd_task_type :: pyval
  hd_constraints :: pyval
  hd_focus :: pyval
  hd_risk_level :: pyval
  hd_requires_confirmation :: pyval
  hd_description :: string
  hd_call :: "kwargs \<Rightarrow> call_outcome"

record registry =
  cy_skills :: skills
  cy_handlers :: "(string \<times> handler) list"
  cy_states :: "(string \<times> call_outcome) list"
  cy_timeout :: rat
  cy_calls :: "(string \<times> kwargs) list"

definition normalize_timeout :: "pyval \<Rightarrow> rat" where
  "normalize_timeout v =
     (case v of
        PBool b \<Rightarrow> 30
      | _ \<Rightarrow> (case py_float v of Inl e \<Rightarrow> 30 | Inr timeout \<Rightarrow> if timeout \<le> 0 then 30 else timeout))"

definition registry_new :: "skills \<Rightarrow> pyval \<Rightarrow> registry" where
  "registry_new skills_loader handler_timeout_seconds =
     \<lparr>cy_skills = skills_loader, cy_handlers = [], cy_states = [], cy_timeout = normalize_timeout handler_timeout_seconds, cy_calls = []\<rparr>"

definition registry_name :: "pyval \<Rightarrow> string \<Rightarrow> py_error + string" where
  "registry_name v field =
     (case v of
        PStr s \<Rightarrow> if py_strip s = [] then Inl (ValueError (field @ '' must be a non-empty string'')) else Inr (py_strip s)
      | _ \<Rightarrow> Inl (ValueError (field @ '' must be a non-empty string'')))"

definition quoted_name :: "string \<Rightarrow> string" where
  "quoted_name s = CHR 0x27 # s @ [CHR 0x27]"

text \<open>What is not callable is \<open>None\<close>; \<open>shown\<close> is the name as it is printed into the message.\<close>

definition register_handler :: "string \<Rightarrow> pyval \<Rightarrow> handler option \<Rightarrow> registry \<Rightarrow> py_error + registry" where
  "register_handler shown skill_name h cy =
     (case h of
        None \<Rightarrow> Inl (TypeError (''Handler for '' @ quoted_name shown @ '' must be callable''))
      | Some h \<Rightarrow> and_then (registry_name skill_name ''skill_name'') (\<lambda>name.
          (case map_of (cy_handlers cy) name of
             Some existing \<Rightarrow> Inl (ValueError (''Handler for '' @ quoted_name name @ '' already registered. Existing: '' @ hd_name existing
               @ '', New: '' @ hd_name h))
           | None \<Rightarrow> Inr (cy\<lparr>cy_handlers := AList.update name h (cy_handlers cy)\<rparr>))))"

definition register_state :: "string \<Rightarrow> pyval \<Rightarrow> call_outcome option \<Rightarrow> registry \<Rightarrow> py_error + registry" where
  "register_state shown state_name provider cy =
     (case provider of
        None \<Rightarrow> Inl (TypeError (''State provider '' @ quoted_name shown @ '' must be callable''))
      | Some p \<Rightarrow> and_then (registry_name state_name ''state_name'') (\<lambda>name.
          (case map_of (cy_states cy) name of
             Some existing \<Rightarrow> Inl (ValueError (''State provider for '' @ quoted_name name @ '' already registered''))
           | None \<Rightarrow> Inr (cy\<lparr>cy_states := AList.update name p (cy_states cy)\<rparr>))))"

definition kwargs_dict :: "kwargs \<Rightarrow> pyval" where
  "kwargs_dict kwargs = PDict (map (\<lambda>(k, v). (PStr k, v)) kwargs)"

definition prepare_handler_kwargs :: "signature \<Rightarrow> kwargs \<Rightarrow> string + kwargs" where
  "prepare_handler_kwargs sig kwargs =
     (case sig of
        NoSignature e \<Rightarrow> Inl e
      | AnyKeyword \<Rightarrow> Inr kwargs
      | NamedParams named \<Rightarrow>
          if named = [] then Inr []
          else if ''session'' \<in> set named \<and> ''session'' \<notin> fst ` set kwargs then Inr [(''session'', kwargs_dict kwargs)]
          else (let filtered = filter (\<lambda>(k, v). k \<in> set named) kwargs in
            if filtered \<noteq> [] then Inr filtered
            else if kwargs \<noteq> [] \<and> length named = 1 then Inr [(hd named, kwargs_dict kwargs)]
            else Inr filtered))"

text \<open>\<open>shown\<close> is the timeout as the message prints it.\<close>

definition invoke_handler :: "string \<Rightarrow> string \<Rightarrow> kwargs \<Rightarrow> registry \<Rightarrow> (py_error + pyval) \<times> registry" where
  "invoke_handler shown skill_name kwargs cy =
     (case registry_name (PStr skill_name) ''skill_name'' of
        Inl e \<Rightarrow> (Inl e, cy)
      | Inr name \<Rightarrow>
          (case map_of (cy_handlers cy) name of
             None \<Rightarrow> (Inl (ValueError (''No handler registered for Skill '' @ quoted_name name)), cy)
           | Some h \<Rightarrow>
               (case prepare_handler_kwargs (hd_signature h) kwargs of
                  Inl e \<Rightarrow> (Inl (RuntimeError (''Handler '' @ quoted_name name @ '' failed: '' @ e)), cy)
                | Inr args \<Rightarrow>
                    (let cy1 = cy\<lparr>cy_calls := cy_calls cy @ [(name, args)]\<rparr> in
                     case hd_call h args of
                       Returned v \<Rightarrow> (Inr v, cy1)
                     | TimedOut \<Rightarrow> (Inl (RuntimeError (''Handler '' @ quoted_name name @ '' timed out after '' @ shown @ ''s'')), cy1)
                     | Failed e \<Rightarrow> (Inl (RuntimeError (''Handler '' @ quoted_name name @ '' failed: '' @ e)), cy1)))))"

definition get_state :: "string \<Rightarrow> registry \<Rightarrow> py_error + pyval" where
  "get_state state_name cy =
     and_then (registry_name (PStr state_name) ''state_name'') (\<lambda>name.
       (case map_of (cy_states cy) name of
          None \<Rightarrow> Inl (ValueError (''No state provider registered for '' @ quoted_name name))
        | Some (Returned v) \<Rightarrow>
            if is_dict v then Inr v else Inl (RuntimeError (''State provider '' @ quoted_name name @ '' failed: TypeError''))
        | Some TimedOut \<Rightarrow> Inl (RuntimeError (''State provider '' @ quoted_name name @ '' failed: TimeoutError''))
        | Some (Failed e) \<Rightarrow> Inl (RuntimeError (''State provider '' @ quoted_name name @ '' failed: '' @ e))))"

subsection \<open>Metadata\<close>

record capability_meta =
  cm_name :: string
  cm_description :: string
  cm_task_type :: "string option"
  cm_constraints :: pyval
  cm_focus :: "string list"
  cm_risk_level :: string
  cm_requires_confirmation :: bool
  cm_handler :: "string option"

definition declares_metadata :: "handler \<Rightarrow> bool" where
  "declares_metadata h = (hd_task_type h \<noteq> PNone \<or> hd_constraints h \<noteq> PNone \<or> hd_focus h \<noteq> PNone \<or> hd_risk_level h \<noteq> PNone
     \<or> hd_requires_confirmation h \<noteq> PNone)"

definition handler_metadata :: "string \<Rightarrow> handler \<Rightarrow> capability_meta option" where
  "handler_metadata name h =
     (if \<not> declares_metadata h then None
      else Some \<lparr>cm_name = name, cm_description = hd_description h,
        cm_task_type = (case hd_task_type h of PStr s \<Rightarrow> Some (py_strip s) | _ \<Rightarrow> None),
        cm_constraints = (if is_dict (hd_constraints h) then hd_constraints h else PDict []),
        cm_focus = (case hd_focus h of PList xs \<Rightarrow> non_blank_strings xs | _ \<Rightarrow> []),
        cm_risk_level = risk_word (hd_risk_level h),
        cm_requires_confirmation = (case hd_requires_confirmation h of PBool b \<Rightarrow> b | _ \<Rightarrow> False),
        cm_handler = Some (hd_name h)\<rparr>)"

definition skill_metadata :: "skill \<Rightarrow> handler option \<Rightarrow> capability_meta" where
  "skill_metadata k h =
     \<lparr>cm_name = sk_name k, cm_description = sk_description k, cm_task_type = skill_task_type k, cm_constraints = skill_constraints k,
      cm_focus = skill_focus k, cm_risk_level = skill_risk_level k, cm_requires_confirmation = skill_requires_confirmation k,
      cm_handler = map_option hd_name h\<rparr>"

definition list_capabilities :: "registry \<Rightarrow> capability_meta list" where
  "list_capabilities cy =
     List.map_filter (\<lambda>(name, h). case get_skill (cy_skills cy) name of
         Some k \<Rightarrow> Some (skill_metadata k (Some h))
       | None \<Rightarrow> handler_metadata name h) (cy_handlers cy)"

definition get_capability_metadata :: "string \<Rightarrow> registry \<Rightarrow> capability_meta option" where
  "get_capability_metadata skill_name cy =
     (case registry_name (PStr skill_name) ''skill_name'' of
        Inl e \<Rightarrow> None
      | Inr name \<Rightarrow>
          (case get_skill (cy_skills cy) name of
             Some k \<Rightarrow> Some (skill_metadata k (map_of (cy_handlers cy) name))
           | None \<Rightarrow> (case map_of (cy_handlers cy) name of None \<Rightarrow> None | Some h \<Rightarrow> handler_metadata name h)))"

definition filter_by_task_type :: "pyval \<Rightarrow> registry \<Rightarrow> string list" where
  "filter_by_task_type task_type cy =
     (case task_type of
        PStr s \<Rightarrow>
          if py_strip s = [] then []
          else map fst (filter (\<lambda>(name, h).
            (case (case get_skill (cy_skills cy) name of Some k \<Rightarrow> skill_task_type k
                   | None \<Rightarrow> (case handler_metadata name h of None \<Rightarrow> None | Some m \<Rightarrow> cm_task_type m)) of
               None \<Rightarrow> False
             | Some t \<Rightarrow> py_strip t = py_strip s)) (cy_handlers cy))
      | _ \<Rightarrow> [])"

subsection \<open>Facts about loading\<close>

definition pick :: "skill option \<Rightarrow> skill \<Rightarrow> skill option" where
  "pick best k =
     (case best of
        None \<Rightarrow> Some k
      | Some e \<Rightarrow> if skill_source_priority (sk_path e) < skill_source_priority (sk_path k) then Some k else Some e)"

lemma pick_simps [simp]:
  "pick None k = Some k"
  "pick (Some e) k = (if skill_source_priority (sk_path e) < skill_source_priority (sk_path k) then Some k else Some e)"
  by (simp_all add: pick_def)

text \<open>The files that declare a name.\<close>

definition named_files :: "string \<Rightarrow> skill option list \<Rightarrow> skill list" where
  "named_files n files = filter (\<lambda>k. sk_name k = n) (List.map_filter (\<lambda>f. f) files)"

lemma named_files_simps [simp]:
  "named_files n [] = []" "named_files n (None # files) = named_files n files"
  "named_files n (Some k # files) = (if sk_name k = n then k # named_files n files else named_files n files)"
  by (simp_all add: named_files_def List.map_filter_simps)

lemma scan_files_lookup:
  "map_of (scan_files ov files loaded) n =
     (if skill_enabled ov n then foldl pick (map_of loaded n) (named_files n files) else map_of loaded n)"
proof (induction files arbitrary: loaded)
  case (Cons f files)
  show ?case
  proof (cases f)
    case (Some k)
    show ?thesis
      by (cases "map_of loaded (sk_name k)"; cases "skill_enabled ov (sk_name k)")
        (auto simp: Some Cons.IH update_conv')
  qed (simp add: Cons.IH)
qed simp

abbreviation file_priority :: "skill \<Rightarrow> nat" where
  "file_priority k \<equiv> skill_source_priority (sk_path k)"

text \<open>The first file of the highest priority.\<close>

definition best_file :: "skill list \<Rightarrow> skill option" where
  "best_file ks = List.find (\<lambda>k. file_priority k = Max (set (map file_priority ks))) ks"

lemma foldl_pick: "foldl pick (Some e) ks = best_file (e # ks)"
proof (induction ks arbitrary: e)
  case Nil
  then show ?case by (simp add: best_file_def)
next
  case (Cons c ks)
  let ?M = "\<lambda>ks. Max (set (map file_priority ks))"
  have bound: "file_priority k \<le> ?M (k # ks)" for k by simp
  show ?case
  proof (cases "file_priority e < file_priority c")
    case True
    then have "file_priority e \<le> ?M (c # ks)" using bound [of c] by linarith
    then have m: "?M (e # c # ks) = ?M (c # ks)" by (simp add: max_def)
    have "file_priority e \<noteq> ?M (c # ks)" using True bound [of c] by linarith
    then show ?thesis using True m by (simp add: Cons.IH best_file_def)
  next
    case False
    then have m: "?M (e # c # ks) = ?M (e # ks)" by (cases ks) (auto simp: max_def)
    have "file_priority e \<noteq> ?M (e # ks) \<Longrightarrow> file_priority c \<noteq> ?M (e # ks)" using False bound [of e] by linarith
    then show ?thesis using False m by (auto simp: Cons.IH best_file_def)
  qed
qed

lemma scan_lookup:
  "map_of (scan ov d files) n = (if d \<and> skill_enabled ov n then best_file (named_files n files) else None)"
proof -
  have "foldl pick None ks = best_file ks" for ks
    by (cases ks) (simp_all add: foldl_pick, simp add: best_file_def)
  then show ?thesis by (simp add: scan_def scan_files_lookup)
qed

lemma best_file_mem: "best_file ks = Some k \<Longrightarrow> k \<in> set ks"
  by (auto simp: best_file_def find_Some_iff)

lemma scan_name: "map_of (scan ov d files) n = Some k \<Longrightarrow> sk_name k = n"
  by (auto simp: scan_lookup named_files_def dest!: best_file_mem split: if_splits)

subsection \<open>Facts about calls\<close>

lemma prepared_keys:
  "prepare_handler_kwargs (NamedParams named) kw = Inr args \<Longrightarrow> fst ` set args \<subseteq> set named"
  by (auto simp: prepare_handler_kwargs_def Let_def split: if_splits dest: hd_in_set)

subsection \<open>Properties\<close>

text \<open>
  C24. Of the files that declare a name, loading keeps the first one, in path order, of the
  highest source priority (workspace, then managed or installed, then bundled); a name that the
  configuration switches off, or that no file declares, is not loaded.
\<close>

theorem scan_keeps_best:
  "map_of (scan ov True files) n =
     (if skill_enabled ov n then List.find (\<lambda>k. skill_source_priority (sk_path k) =
         Max (set (map (\<lambda>k. skill_source_priority (sk_path k)) (named_files n files)))) (named_files n files)
      else None)"
  by (simp add: scan_lookup best_file_def)

end
