(* ===== verification/RuntimeGuards.thy ===== *)
theory RuntimeGuards
  imports Registry Masking
begin

section \<open>The agent runtime: settings and the checks of a tool call\<close>

text \<open>
  \<open>owlclaw/agent/runtime/config.py\<close>, \<open>context.py\<close> and, of \<open>agent/runtime/runtime.py\<close>, what a tool call
  passes before it is executed: permissions, rate limit, the parsing and sanitising of its
  arguments and their validation against a schema. Printing values, parsing JSON, matching a
  pattern and the sanitiser are in \<open>tool_env\<close>. The configuration is a dictionary.
\<close>

subsection \<open>Configuration\<close>

definition default_runtime_config :: pyval where
  "default_runtime_config = PDict [(PStr ''max_function_calls'', PInt 50), (PStr ''llm_timeout_seconds'', PFloat 60),
     (PStr ''run_timeout_seconds'', PFloat 300), (PStr ''llm_retry_attempts'', PInt 1), (PStr ''llm_fallback_models'', PList []),
     (PStr ''heartbeat'', PDict [(PStr ''enabled'', PBool True)]), (PStr ''skill_env_allowlist'', PList [])]"

definition put_entry :: "pyval \<Rightarrow> string \<Rightarrow> pyval \<Rightarrow> pyval" where
  "put_entry d k v = PDict (AList.update (PStr k) v (dict_entries d))"

definition positive_int :: "string \<Rightarrow> pyval \<Rightarrow> py_error + pyval" where
  "positive_int field c =
     (case dict_get c field of
        None \<Rightarrow> Inr c
      | Some (PInt i) \<Rightarrow> if 1 \<le> i then Inr c else Inl (ValueError (field @ '' must be a positive integer''))
      | Some v \<Rightarrow> Inl (ValueError (field @ '' must be a positive integer'')))"

definition positive_float :: "string \<Rightarrow> pyval \<Rightarrow> py_error + pyval" where
  "positive_float field c =
     (case dict_get c field of
        None \<Rightarrow> Inr c
      | Some (PInt i) \<Rightarrow> if 0 < i then Inr (put_entry c field (PFloat (of_int i))) else Inl (ValueError (field @ '' must be a positive number''))
      | Some (PFloat r) \<Rightarrow> if 0 < r then Inr (put_entry c field (PFloat r)) else Inl (ValueError (field @ '' must be a positive number''))
      | Some v \<Rightarrow> Inl (ValueError (field @ '' must be a positive number'')))"

fun clean_texts :: "string \<Rightarrow> pyval list \<Rightarrow> py_error + pyval list" where
  "clean_texts field [] = Inr []"
| "clean_texts field (PStr s # items) =
     (if py_strip s = [] then Inl (ValueError (field @ '' must contain non-empty strings''))
      else and_then (clean_texts field items) (\<lambda>cleaned. Inr (PStr (py_strip s) # cleaned)))"
| "clean_texts field (v # items) = Inl (ValueError (field @ '' must contain non-empty strings''))"

definition clean_list :: "string \<Rightarrow> pyval \<Rightarrow> py_error + pyval" where
  "clean_list field c =
     (case dict_get c field of
        None \<Rightarrow> Inr c
      | Some (PList items) \<Rightarrow> and_then (clean_texts field items) (\<lambda>cleaned. Inr (put_entry c field (PList cleaned)))
      | Some v \<Rightarrow> Inl (ValueError (field @ '' must be a list'')))"

definition clean_model :: "pyval \<Rightarrow> py_error + pyval" where
  "clean_model c =
     (case dict_get c ''model'' of
        None \<Rightarrow> Inr c
      | Some (PStr s) \<Rightarrow> if py_strip s = [] then Inl (ValueError ''model must be a non-empty string'') else Inr (put_entry c ''model'' (PStr (py_strip s)))
      | Some v \<Rightarrow> Inl (ValueError ''model must be a non-empty string''))"

definition check_heartbeat :: "pyval \<Rightarrow> py_error + pyval" where
  "check_heartbeat c =
     (case dict_get c ''heartbeat'' of
        None \<Rightarrow> Inr c
      | Some (PDict kvs) \<Rightarrow>
          (case dict_get_or (PDict kvs) ''enabled'' (PBool True) of
             PBool b \<Rightarrow> Inr c
           | _ \<Rightarrow> Inl (ValueError ''heartbeat.enabled must be a boolean''))
      | Some v \<Rightarrow> Inl (ValueError ''heartbeat must be a dictionary''))"

definition validate_runtime_config :: "pyval \<Rightarrow> py_error + pyval" where
  "validate_runtime_config config =
     (if \<not> is_dict config then Inl (ValueError ''runtime config must be a dictionary'')
      else and_then (positive_int ''max_function_calls'' config) (\<lambda>c. and_then (positive_int ''llm_retry_attempts'' c) (\<lambda>c.
        and_then (positive_float ''llm_timeout_seconds'' c) (\<lambda>c. and_then (positive_float ''run_timeout_seconds'' c) (\<lambda>c.
          and_then (clean_model c) (\<lambda>c. and_then (clean_list ''llm_fallback_models'' c) (\<lambda>c.
            and_then (check_heartbeat c) (clean_list ''skill_env_allowlist''))))))))"

fun merge_entries :: "(pyval \<times> pyval) list \<Rightarrow> (pyval \<times> pyval) list \<Rightarrow> (pyval \<times> pyval) list" where
  "merge_entries out [] = out"
| "merge_entries out ((key, v) # override) =
     (case (v, map_of out key) of
        (PDict new, Some (PDict old)) \<Rightarrow>
          merge_entries (AList.update key (PDict (fold (\<lambda>(k, w) d. AList.update k w d) new old)) out) override
      | _ \<Rightarrow> merge_entries (AList.update key v out) override)"

definition merge_runtime_config :: "pyval \<Rightarrow> pyval \<Rightarrow> pyval" where
  "merge_runtime_config base override = PDict (merge_entries (dict_entries base) (dict_entries override))"

text \<open>\<open>data\<close> is what the file holds; an empty file counts as an empty mapping.\<close>

definition load_runtime_config :: "pyval \<Rightarrow> py_error + pyval" where
  "load_runtime_config data =
     and_then (py_get_or (or_empty_dict data) ''runtime'' (or_empty_dict data)) (\<lambda>runtime_config.
       if \<not> is_dict runtime_config then Inl (ValueError ''runtime config must be a mapping'')
       else validate_runtime_config (merge_runtime_config default_runtime_config runtime_config))"

text \<open>The two ways a setting is read: as a count of at least one, and as a positive time.\<close>

definition count_setting :: "pyval \<Rightarrow> string \<Rightarrow> int \<Rightarrow> int" where
  "count_setting c key default_value =
     (case dict_get_or c key (PInt default_value) of
        PBool b \<Rightarrow> default_value
      | v \<Rightarrow> (case py_int v of Inl e \<Rightarrow> default_value | Inr i \<Rightarrow> max 1 i))"

definition time_setting :: "pyval \<Rightarrow> string \<Rightarrow> rat \<Rightarrow> rat" where
  "time_setting c key default_value =
     (case dict_get_or c key (PFloat default_value) of
        PBool b \<Rightarrow> default_value
      | v \<Rightarrow> (case py_float v of Inl e \<Rightarrow> default_value | Inr t \<Rightarrow> if t \<le> 0 then default_value else t))"

subsection \<open>The context of a run\<close>

record agent_run =
  rx_agent_id :: string
  rx_trigger :: string
  rx_payload :: pyval
  rx_focus_tag :: "string option"
  rx_tenant_id :: string
  rx_run_id :: string

definition required_word :: "string \<Rightarrow> pyval \<Rightarrow> py_error + string" where
  "required_word field v =
     (case v of
        PStr s \<Rightarrow> if py_strip s = [] then Inl (ValueError (field @ '' must be a non-empty string'')) else Inr (py_strip s)
      | _ \<Rightarrow> Inl (ValueError (field @ '' must be a non-empty string'')))"

definition focus_word :: "pyval \<Rightarrow> string option" where
  "focus_word v = (case v of PStr s \<Rightarrow> if py_strip s = [] then None else Some (py_strip s) | _ \<Rightarrow> None)"

definition payload_dict :: "pyval \<Rightarrow> py_error + pyval" where
  "payload_dict v = (if v = PNone then Inr (PDict []) else if is_dict v then Inr v else Inl (ValueError ''payload must be a dictionary''))"

definition agent_run_new :: "pyval \<Rightarrow> pyval \<Rightarrow> pyval \<Rightarrow> pyval \<Rightarrow> pyval \<Rightarrow> pyval \<Rightarrow> py_error + agent_run" where
  "agent_run_new agent_id trigger payload focus tenant_id run_id =
     and_then (required_word ''agent_id'' agent_id) (\<lambda>agent. and_then (required_word ''trigger'' trigger) (\<lambda>trig.
       and_then (required_word ''tenant_id'' tenant_id) (\<lambda>tenant. and_then (required_word ''run_id'' run_id) (\<lambda>run.
         and_then (payload_dict payload) (\<lambda>p.
           Inr \<lparr>rx_agent_id = agent, rx_trigger = trig, rx_payload = p, rx_focus_tag = focus_word focus, rx_tenant_id = tenant, rx_run_id = run\<rparr>)))))"

subsection \<open>Permissions and rate\<close>

record tool_env =
  te_str :: "pyval \<Rightarrow> string"
  te_json :: "string \<Rightarrow> pyval option"
  te_dumps :: "pyval \<Rightarrow> string"
  te_search :: "string \<Rightarrow> string \<Rightarrow> bool option"
  te_sanitize :: "string \<Rightarrow> string \<Rightarrow> string \<times> string list"
  te_fixed :: "nat \<Rightarrow> rat \<Rightarrow> string"

text \<open>\<open>str(v)\<close>, and the non-blank texts of a list.\<close>

definition text_form :: "tool_env \<Rightarrow> pyval \<Rightarrow> string" where
  "text_form te v = (case v of PStr s \<Rightarrow> s | _ \<Rightarrow> te_str te v)"

definition name_set :: "tool_env \<Rightarrow> pyval list \<Rightarrow> string list" where
  "name_set te items = filter (\<lambda>s. s \<noteq> []) (map (\<lambda>v. py_strip (text_form te v)) items)"

definition enforce_tool_permissions :: "tool_env \<Rightarrow> pyval \<Rightarrow> string \<Rightarrow> string option" where
  "enforce_tool_permissions te c tool_name =
     (case dict_get c ''security'' of
        Some (PDict kvs) \<Rightarrow>
          (let security = PDict kvs; normalized = py_strip tool_name;
               allow_set = (case dict_get security ''allow_tools'' of Some (PList items) \<Rightarrow> name_set te items | _ \<Rightarrow> []);
               deny_set = (case dict_get security ''deny_tools'' of Some (PList items) \<Rightarrow> name_set te items | _ \<Rightarrow> [])
           in if allow_set \<noteq> [] \<and> normalized \<notin> set allow_set then Some (''Tool '' @ quoted_name normalized @ '' is not permitted'')
              else if normalized \<in> set deny_set then Some (''Tool '' @ quoted_name normalized @ '' is denied by policy'')
              else None)
      | _ \<Rightarrow> None)"

definition tool_rate_limit :: "pyval \<Rightarrow> int option" where
  "tool_rate_limit c =
     (case dict_get c ''security'' of
        Some (PDict kvs) \<Rightarrow>
          (case dict_get (PDict kvs) ''max_tool_calls_per_minute'' of
             Some (PInt i) \<Rightarrow> if i < 1 then None else Some i
           | Some (PFloat r) \<Rightarrow> if trunc_rat r < 1 then None else Some (trunc_rat r)
           | Some (PStr s) \<Rightarrow> (case py_int (PStr s) of Inl e \<Rightarrow> None | Inr i \<Rightarrow> if i < 1 then None else Some i)
           | _ \<Rightarrow> None)
      | _ \<Rightarrow> None)"

definition enforce_rate_limit :: "pyval \<Rightarrow> seconds \<Rightarrow> string \<Rightarrow> seconds list \<Rightarrow> string option \<times> seconds list" where
  "enforce_rate_limit c now tool_name stamps =
     (case tool_rate_limit c of
        None \<Rightarrow> (None, stamps)
      | Some limit \<Rightarrow>
          (let window = dropWhile (\<lambda>t. t < now - 60) stamps in
           if limit \<le> int (length window) then (Some (''Rate limit exceeded for tool '' @ quoted_name tool_name), window)
           else (None, window @ [now])))"

subsection \<open>Arguments\<close>

text \<open>The arguments of a tool call are missing, a text, or a value.\<close>

datatype raw_arguments = NoArguments | ArgText string | ArgValue pyval

definition parse_arguments :: "tool_env \<Rightarrow> string \<Rightarrow> raw_arguments \<Rightarrow> string + (pyval \<times> pyval) list" where
  "parse_arguments te tool_name raw =
     (let bad = (\<lambda>reason. Inl (''Invalid arguments for tool '' @ quoted_name tool_name @ '': '' @ reason));
          as_dict = (\<lambda>v. case v of PDict kvs \<Rightarrow> Inr kvs | _ \<Rightarrow> bad ''arguments must be a JSON object'')
      in case raw of
           NoArguments \<Rightarrow> bad ''missing tool arguments''
         | ArgText s \<Rightarrow> (case te_json te s of None \<Rightarrow> bad ''arguments must be valid JSON object'' | Some v \<Rightarrow> as_dict v)
         | ArgValue v \<Rightarrow> if v = PNone then bad ''missing tool arguments'' else as_dict v)"

definition session_of :: "agent_run \<Rightarrow> pyval" where
  "session_of ctx = PDict [(PStr ''agent_id'', PStr (rx_agent_id ctx)), (PStr ''run_id'', PStr (rx_run_id ctx)), (PStr ''trigger'', PStr (rx_trigger ctx)),
     (PStr ''focus'', case rx_focus_tag ctx of None \<Rightarrow> PNone | Some f \<Rightarrow> PStr f), (PStr ''payload'', rx_payload ctx), (PStr ''tenant_id'', PStr (rx_tenant_id ctx))]"

definition normalize_capability_arguments :: "(pyval \<times> pyval) list \<Rightarrow> agent_run \<Rightarrow> (pyval \<times> pyval) list" where
  "normalize_capability_arguments arguments ctx =
     (let normalized = (case arguments of [(PStr k, PDict kvs)] \<Rightarrow> if k = ''kwargs'' then kvs else arguments | _ \<Rightarrow> arguments)
      in if normalized \<noteq> [] then normalized else [(PStr ''session'', session_of ctx)])"

text \<open>Texts at any depth are sanitised; the keys of a dictionary are not.\<close>

fun add_distinct :: "pyval list \<Rightarrow> pyval list \<Rightarrow> pyval list" where
  "add_distinct out [] = out"
| "add_distinct out (v # vs) = add_distinct (if py_member v out then out else out @ [v]) vs"

fun sanitize_tool_payload :: "tool_env \<Rightarrow> string \<Rightarrow> pyval \<Rightarrow> pyval \<times> string list"
  and sanitize_items :: "tool_env \<Rightarrow> string \<Rightarrow> pyval list \<Rightarrow> pyval list \<times> string list"
  and sanitize_entries :: "tool_env \<Rightarrow> string \<Rightarrow> (pyval \<times> pyval) list \<Rightarrow> (pyval \<times> pyval) list \<times> string list" where
  "sanitize_tool_payload te source (PStr s) = (case te_sanitize te s source of (text, mods) \<Rightarrow> (PStr text, mods))"
| "sanitize_tool_payload te source (PDict kvs) = (case sanitize_entries te source kvs of (out, mods) \<Rightarrow> (PDict out, mods))"
| "sanitize_tool_payload te source (PList xs) = (case sanitize_items te source xs of (out, mods) \<Rightarrow> (PList out, mods))"
| "sanitize_tool_payload te source (PTuple xs) = (case sanitize_items te source xs of (out, mods) \<Rightarrow> (PTuple out, mods))"
| "sanitize_tool_payload te source (PSet xs) = (case sanitize_items te source xs of (out, mods) \<Rightarrow> (PSet (add_distinct [] out), mods))"
| "sanitize_tool_payload te source v = (v, [])"
| "sanitize_items te source [] = ([], [])"
| "sanitize_items te source (v # vs) =
     (case sanitize_tool_payload te source v of (w, mods) \<Rightarrow>
       (case sanitize_items te source vs of (ws, mods') \<Rightarrow> (w # ws, mods @ mods')))"
| "sanitize_entries te source [] = ([], [])"
| "sanitize_entries te source ((k, v) # kvs) =
     (case sanitize_tool_payload te source v of (w, mods) \<Rightarrow>
       (case sanitize_entries te source kvs of (ws, mods') \<Rightarrow> ((k, w) # ws, mods @ mods')))"

subsection \<open>Schemas\<close>

fun matches_json_type :: "pyval \<Rightarrow> string \<Rightarrow> bool" where
  "matches_json_type v schema_type =
     (if schema_type = ''object'' then is_dict v
      else if schema_type = ''array'' then (case v of PList xs \<Rightarrow> True | _ \<Rightarrow> False)
      else if schema_type = ''string'' then (case v of PStr s \<Rightarrow> True | _ \<Rightarrow> False)
      else if schema_type = ''boolean'' then (case v of PBool b \<Rightarrow> True | _ \<Rightarrow> False)
      else if schema_type = ''integer'' then (case v of PInt i \<Rightarrow> True | _ \<Rightarrow> False)
      else if schema_type = ''number'' then (case v of PInt i \<Rightarrow> True | PFloat r \<Rightarrow> True | _ \<Rightarrow> False)
      else if schema_type = ''null'' then v = PNone
      else True)"

text \<open>An instance of \<open>int\<close>, which a boolean is.\<close>

definition int_value :: "pyval \<Rightarrow> int option" where
  "int_value v = (case v of PInt i \<Rightarrow> Some i | PBool b \<Rightarrow> Some (if b then 1 else 0) | _ \<Rightarrow> None)"

definition type_complaint :: "tool_env \<Rightarrow> pyval \<Rightarrow> pyval \<Rightarrow> string \<Rightarrow> string option" where
  "type_complaint te v schema path =
     (case dict_get schema ''type'' of
        Some (PStr t) \<Rightarrow> if matches_json_type v t then None else Some (path @ '' expected type '' @ quoted_name t)
      | _ \<Rightarrow> None)"

definition enum_complaint :: "tool_env \<Rightarrow> pyval \<Rightarrow> pyval \<Rightarrow> string \<Rightarrow> string option" where
  "enum_complaint te v schema path =
     (case dict_get schema ''enum'' of
        Some (PList xs) \<Rightarrow> if xs \<noteq> [] \<and> \<not> py_member v xs then Some (path @ '' must be one of '' @ te_str te (PList xs)) else None
      | _ \<Rightarrow> None)"

definition string_complaint :: "tool_env \<Rightarrow> string \<Rightarrow> pyval \<Rightarrow> string \<Rightarrow> string option" where
  "string_complaint te s schema path =
     (let pattern = (case dict_get schema ''pattern'' of Some (PStr p) \<Rightarrow> te_search te p s | _ \<Rightarrow> None);
          min_length = int_value (dict_get_or schema ''minLength'' PNone);
          max_length = int_value (dict_get_or schema ''maxLength'' PNone)
      in if pattern = Some False then Some (path @ '' does not match required pattern'')
         else (case min_length of
             Some n \<Rightarrow>
               if int (length s) < n then Some (path @ '' length must be >= '' @ te_str te (dict_get_or schema ''minLength'' PNone))
               else (case max_length of
                   Some m \<Rightarrow> if m < int (length s) then Some (path @ '' length must be <= '' @ te_str te (dict_get_or schema ''maxLength'' PNone)) else None
                 | None \<Rightarrow> None)
           | None \<Rightarrow> (case max_length of
                 Some m \<Rightarrow> if m < int (length s) then Some (path @ '' length must be <= '' @ te_str te (dict_get_or schema ''maxLength'' PNone)) else None
               | None \<Rightarrow> None)))"

definition number_complaint :: "tool_env \<Rightarrow> pyval \<Rightarrow> pyval \<Rightarrow> string \<Rightarrow> string option" where
  "number_complaint te v schema path =
     (let minimum = dict_get_or schema ''minimum'' PNone; maximum = dict_get_or schema ''maximum'' PNone in
      case (num_of v, num_of minimum, num_of maximum) of
        (Some (x, f), lower, upper) \<Rightarrow>
          if (case lower of Some (m, g) \<Rightarrow> x < m | None \<Rightarrow> False) then Some (path @ '' must be >= '' @ te_str te minimum)
          else if (case upper of Some (m, g) \<Rightarrow> m < x | None \<Rightarrow> False) then Some (path @ '' must be <= '' @ te_str te maximum)
          else None
      | _ \<Rightarrow> None)"

definition required_complaint :: "(pyval \<times> pyval) list \<Rightarrow> pyval \<Rightarrow> string \<Rightarrow> string option" where
  "required_complaint kvs schema path =
     (case dict_get_or schema ''required'' (PList []) of
        PList required \<Rightarrow>
          (case List.find (\<lambda>key. case key of PStr k \<Rightarrow> map_of kvs key = None | _ \<Rightarrow> False) required of
             Some (PStr k) \<Rightarrow> Some (path @ ''.'' @ k @ '' is required'')
           | _ \<Rightarrow> None)
      | _ \<Rightarrow> None)"

definition properties_map :: "pyval \<Rightarrow> (pyval \<times> pyval) list" where
  "properties_map schema = dict_entries (dict_get_or schema ''properties'' (PDict []))"

text \<open>
  The walk of a value along a schema. \<open>Inl\<close> is the exception for a type that cannot be hashed, such
  as a list of types. The items of an array are counted from \<open>n\<close>.
\<close>

function schema_complaint :: "tool_env \<Rightarrow> string \<Rightarrow> pyval \<Rightarrow> pyval \<Rightarrow> py_error + string option"
  and entry_complaints :: "tool_env \<Rightarrow> string \<Rightarrow> pyval \<Rightarrow> (pyval \<times> pyval) list \<Rightarrow> py_error + string option"
  and item_complaints :: "tool_env \<Rightarrow> string \<Rightarrow> pyval \<Rightarrow> nat \<Rightarrow> pyval list \<Rightarrow> py_error + string option" where
  "schema_complaint te path schema v =
     (case type_complaint te v schema path of
        Some m \<Rightarrow> Inr (Some m)
      | None \<Rightarrow>
          (case enum_complaint te v schema path of
             Some m \<Rightarrow> Inr (Some m)
           | None \<Rightarrow>
               (let t = dict_get_or schema ''type'' PNone in
                if t = PStr ''object'' then
                  (case v of
                     PDict kvs \<Rightarrow> (case required_complaint kvs schema path of
                         Some m \<Rightarrow> Inr (Some m)
                       | None \<Rightarrow> entry_complaints te path schema kvs)
                   | _ \<Rightarrow> Inr (Some (path @ '' expected type '' @ quoted_name ''object'')))
                else if t = PStr ''array'' then
                  (case v of
                     PList xs \<Rightarrow> if is_dict (dict_get_or schema ''items'' PNone) then item_complaints te path (dict_get_or schema ''items'' PNone) 0 xs else Inr None
                   | _ \<Rightarrow> Inr (Some (path @ '' expected type '' @ quoted_name ''array'')))
                else if t = PStr ''string'' then
                  (case v of PStr s \<Rightarrow> Inr (string_complaint te s schema path) | _ \<Rightarrow> Inr (Some (path @ '' expected type '' @ quoted_name ''string'')))
                else if \<not> hashable t then Inl (TypeError ''unhashable type'')
                else if t = PStr ''integer'' \<or> t = PStr ''number'' then Inr (number_complaint te v schema path)
                else Inr None)))"
| "entry_complaints te path schema [] = Inr None"
| "entry_complaints te path schema ((k, v) # kvs) =
     (let key_path = path @ ''.'' @ text_form te k;
          prop_schema = (case map_of (properties_map schema) k of Some s \<Rightarrow> s | None \<Rightarrow> PNone);
          additional = dict_get_or schema ''additionalProperties'' (PBool True)
      in if is_dict prop_schema then
           (case schema_complaint te key_path prop_schema v of Inr None \<Rightarrow> entry_complaints te path schema kvs | r \<Rightarrow> r)
         else if additional = PBool False then Inr (Some (key_path @ '' is not allowed''))
         else if is_dict additional then
           (case schema_complaint te key_path additional v of Inr None \<Rightarrow> entry_complaints te path schema kvs | r \<Rightarrow> r)
         else entry_complaints te path schema kvs)"
| "item_complaints te path items n [] = Inr None"
| "item_complaints te path items n (v # vs) =
     (case schema_complaint te (path @ ''['' @ show_nat n @ '']'') items v of Inr None \<Rightarrow> item_complaints te path items (Suc n) vs | r \<Rightarrow> r)"
  by pat_completeness auto
termination
  by (relation "measure (\<lambda>x. case x of Inl (te, path, schema, v) \<Rightarrow> 2 * size v
      | Inr (Inl (te, path, schema, kvs)) \<Rightarrow> 2 * size_list (size_prod size size) kvs + 1
      | Inr (Inr (te, path, items, n, vs)) \<Rightarrow> 2 * size_list size vs + 1)") auto

declare schema_complaint.simps [simp del]

text \<open>What a skill declares as the parameters of a tool, put into the form the check expects.\<close>

definition default_parameters :: pyval where
  "default_parameters = PDict [(PStr ''type'', PStr ''object''), (PStr ''description'', PStr ''Arguments for this capability.''),
     (PStr ''additionalProperties'', PBool True), (PStr ''required'', PList [])]"

fun normalize_properties :: "(pyval \<times> pyval) list \<Rightarrow> (pyval \<times> pyval) list" where
  "normalize_properties [] = []"
| "normalize_properties ((PStr k, v) # rest) = (PStr k, if is_dict v then v else PDict [(PStr ''type'', PStr ''string'')]) # normalize_properties rest"
| "normalize_properties (entry # rest) = normalize_properties rest"

definition normalize_parameter_schema :: "pyval \<Rightarrow> pyval \<Rightarrow> pyval" where
  "normalize_parameter_schema raw_schema default_schema =
     (if dict_get raw_schema ''type'' \<noteq> Some (PStr ''object'') then default_schema
      else (let properties = normalize_properties (dict_entries (dict_get_or raw_schema ''properties'' PNone));
                required = (case dict_get_or raw_schema ''required'' (PList []) of
                    PList items \<Rightarrow> filter (\<lambda>item. (case item of PStr k \<Rightarrow> True | _ \<Rightarrow> False) \<and> map_of properties item \<noteq> None) items
                  | _ \<Rightarrow> []);
                additional = (case dict_get_or raw_schema ''additionalProperties'' PNone of PBool b \<Rightarrow> PBool b | PDict d \<Rightarrow> PDict d | _ \<Rightarrow> PBool False);
                schema = put_entry (put_entry (put_entry raw_schema ''properties'' (PDict properties)) ''required'' (PList required))
                  ''additionalProperties'' additional
            in if dict_get schema ''description'' \<noteq> None then schema
               else put_entry schema ''description'' (dict_get_or default_schema ''description'' (PStr ''Arguments for this capability.''))))"

definition capability_parameters_schema :: "skills \<Rightarrow> string \<Rightarrow> pyval" where
  "capability_parameters_schema ks name =
     (case get_skill ks name of
        None \<Rightarrow> default_parameters
      | Some k \<Rightarrow>
          (let tool_def = dict_get_or (dict_get_or (sk_metadata k) ''tools_schema'' (PDict [])) name PNone;
               raw_parameters = dict_get_or tool_def ''parameters'' PNone
           in if is_dict raw_parameters then normalize_parameter_schema raw_parameters default_parameters else default_parameters))"

definition function_schema :: "string \<Rightarrow> string \<Rightarrow> pyval \<Rightarrow> pyval" where
  "function_schema name description parameters =
     PDict [(PStr ''type'', PStr ''function''), (PStr ''function'', PDict [(PStr ''name'', PStr name), (PStr ''description'', PStr description),
       (PStr ''parameters'', parameters)])]"

definition capability_schemas :: "skills \<Rightarrow> capability_meta list \<Rightarrow> pyval list" where
  "capability_schemas ks source =
     map (\<lambda>m. function_schema (py_strip (cm_name m)) (cm_description m) (capability_parameters_schema ks (py_strip (cm_name m))))
       (filter (\<lambda>m. py_strip (cm_name m) \<noteq> []) (sort_asc cm_name source))"

definition schema_name :: "pyval \<Rightarrow> pyval" where
  "schema_name schema = dict_get_or (dict_get_or schema ''function'' PNone) ''name'' PNone"

definition parameters_in :: "pyval list \<Rightarrow> string \<Rightarrow> pyval option" where
  "parameters_in schemas tool_name =
     map_option (\<lambda>s. dict_get_or (dict_get_or s ''function'' PNone) ''parameters'' PNone)
       (List.find (\<lambda>s. schema_name s = PStr tool_name \<and> is_dict (dict_get_or (dict_get_or s ''function'' PNone) ''parameters'' PNone)) schemas)"

definition find_tool_parameters_schema :: "pyval list \<Rightarrow> pyval list \<Rightarrow> string \<Rightarrow> pyval option" where
  "find_tool_parameters_schema builtin_schemas cap_schemas tool_name =
     (case parameters_in builtin_schemas tool_name of Some p \<Rightarrow> Some p | None \<Rightarrow> parameters_in cap_schemas tool_name)"

definition validate_tool_arguments :: "tool_env \<Rightarrow> pyval list \<Rightarrow> pyval list \<Rightarrow> string \<Rightarrow> (pyval \<times> pyval) list \<Rightarrow> py_error + string option" where
  "validate_tool_arguments te builtin_schemas cap_schemas tool_name arguments =
     (case find_tool_parameters_schema builtin_schemas cap_schemas tool_name of
        None \<Rightarrow> Inr None
      | Some schema \<Rightarrow> and_then (schema_complaint te ''$'' schema (PDict arguments)) (\<lambda>complaint.
          Inr (map_option (\<lambda>m. ''Invalid arguments for tool '' @ quoted_name tool_name @ '': '' @ m) complaint)))"

end
