(* ===== verification/BuiltinTools.thy ===== *)
theory BuiltinTools
  imports RuntimeGuards Ledger Security
begin

section \<open>The built-in tools of an agent\<close>

text \<open>
  \<open>owlclaw/agent/tools.py\<close>: the seven tools every agent has, their budgets per run, the owners of
  schedules, and what is written to the ledger and to the audit log. Hatchet and the memory
  system are outside services: their answers come from \<open>box_env\<close> and the calls made to them are
  kept. The check of a cron expression, a printed value and the sanitiser are arguments as well.
\<close>

subsection \<open>Data\<close>

record tool_ctx =
  tx_agent :: string
  tx_run :: string
  tx_tenant :: string

definition tool_ctx_new :: "pyval \<Rightarrow> pyval \<Rightarrow> pyval \<Rightarrow> py_error + tool_ctx" where
  "tool_ctx_new agent_id run_id tenant_id =
     and_then (required_word ''agent_id'' agent_id) (\<lambda>a. and_then (required_word ''run_id'' run_id) (\<lambda>r.
       and_then (required_word ''tenant_id'' tenant_id) (\<lambda>t. Inr \<lparr>tx_agent = a, tx_run = r, tx_tenant = t\<rparr>)))"

record toolbox =
  tb_task :: string
  tb_timeout :: rat
  tb_max_calls :: int
  tb_max_schedules :: int
  tb_raise :: bool
  tb_ownership :: bool
  tb_background :: bool
  tb_calls :: "(string \<times> int) list"
  tb_schedules :: "(string \<times> int) list"
  tb_owners :: "(string \<times> string) list"
  tb_audit :: audit_log

text \<open>The methods a service has beyond the ones it must have, and the calls made to it.\<close>

record hatchet =
  ht_cancels_cron :: bool
  ht_calls :: "(string \<times> pyval) list"

record memory_system =
  ms_methods :: "string list"
  ms_calls :: "(string \<times> pyval) list"

record tool_world =
  tw_box :: toolbox
  tw_registry :: "registry option"
  tw_ledger :: "memory_ledger option"
  tw_hatchet :: "hatchet option"
  tw_memory :: "memory_system option"

text \<open>A service answers, answers too late, or raises an exception of a class with a text.\<close>

datatype service_answer = Gave pyval | Late | Broke string string

record box_env =
  be_tool :: tool_env
  be_cron :: "string \<Rightarrow> bool"
  be_hex :: string
  be_first :: service_answer
  be_second :: service_answer
  be_late :: bool
  be_ms :: int
  be_record_id :: uuid
  be_now :: micros

definition exact_positive :: "string \<Rightarrow> pyval \<Rightarrow> py_error + int" where
  "exact_positive field v =
     (case v of PInt i \<Rightarrow> if i < 1 then Inl (ValueError (field @ '' must be a positive integer'')) else Inr i
      | _ \<Rightarrow> Inl (ValueError (field @ '' must be a positive integer'')))"

definition exact_bool :: "string \<Rightarrow> pyval \<Rightarrow> py_error + bool" where
  "exact_bool field v = (case v of PBool b \<Rightarrow> Inr b | _ \<Rightarrow> Inl (ValueError (field @ '' must be a boolean'')))"

definition box_timeout :: "pyval \<Rightarrow> py_error + rat" where
  "box_timeout v =
     (let bad = Inl (ValueError ''timeout_seconds must be a positive finite number'');
          check = (\<lambda>r. if r \<le> 0 then bad else Inr r)
      in case v of PInt i \<Rightarrow> check (of_int i) | PFloat r \<Rightarrow> check r | _ \<Rightarrow> bad)"

definition toolbox_new :: "pyval \<Rightarrow> pyval \<Rightarrow> pyval \<Rightarrow> pyval \<Rightarrow> pyval \<Rightarrow> pyval \<Rightarrow> pyval \<Rightarrow> py_error + toolbox" where
  "toolbox_new task timeout_seconds max_calls max_schedules raise_errors ownership background =
     and_then (required_word ''scheduled_run_task_name'' task) (\<lambda>t. and_then (box_timeout timeout_seconds) (\<lambda>s.
       and_then (exact_positive ''max_calls_per_run'' max_calls) (\<lambda>c. and_then (exact_positive ''max_schedule_calls_per_run'' max_schedules) (\<lambda>n.
         and_then (exact_bool ''raise_errors'' raise_errors) (\<lambda>r. and_then (exact_bool ''enforce_schedule_ownership'' ownership) (\<lambda>o'.
           and_then (exact_bool ''remember_write_background'' background) (\<lambda>b.
             Inr \<lparr>tb_task = t, tb_timeout = s, tb_max_calls = c, tb_max_schedules = n, tb_raise = r, tb_ownership = o', tb_background = b,
               tb_calls = [], tb_schedules = [], tb_owners = [], tb_audit = audit_log_new None\<rparr>)))))))"

subsection \<open>Schemas\<close>

definition parameters_of :: "(string \<times> pyval) list \<Rightarrow> string list \<Rightarrow> pyval" where
  "parameters_of properties required =
     PDict [(PStr ''type'', PStr ''object''), (PStr ''properties'', PDict (map (\<lambda>(k, v). (PStr k, v)) properties)),
       (PStr ''required'', PList (map PStr required))]"

definition text_param :: "string \<Rightarrow> pyval" where
  "text_param description = PDict [(PStr ''type'', PStr ''string''), (PStr ''description'', PStr description)]"

definition tags_param :: "string \<Rightarrow> pyval" where
  "tags_param description =
     PDict [(PStr ''type'', PStr ''array''), (PStr ''items'', PDict [(PStr ''type'', PStr ''string'')]), (PStr ''description'', PStr description)]"

definition query_state_schema :: pyval where
  "query_state_schema = function_schema ''query_state''
     ''Query the current state from a registered state provider. Use this to get business context (e.g. market_state, portfolio_snapshot) before making decisions.''
     (parameters_of [(''state_name'', text_param ''Name of the state to query (must be registered via @app.state)'')] [''state_name''])"

definition log_decision_schema :: pyval where
  "log_decision_schema = function_schema ''log_decision''
     ''Record a decision and reasoning to the audit ledger. Use when you choose no_action, defer, or want to document your reasoning.''
     (parameters_of [(''reasoning'', text_param ''Brief explanation of the decision (max 1000 chars)''),
        (''decision_type'', PDict [(PStr ''type'', PStr ''string''),
           (PStr ''enum'', PList (map PStr [''capability_selection'', ''schedule_decision'', ''no_action'', ''other''])),
           (PStr ''description'', PStr ''Type of decision'')])] [''reasoning''])"

text \<open>The dash between the two bounds in the description is a hyphen here.\<close>

definition schedule_once_schema :: pyval where
  "schedule_once_schema = function_schema ''schedule_once''
     ''Schedule a one-time delayed Agent run. Use when you need to check something later or wait for an event.''
     (parameters_of [(''delay_seconds'', PDict [(PStr ''type'', PStr ''integer''), (PStr ''description'', PStr ''Delay in seconds (1-2592000, max 30 days)''),
           (PStr ''minimum'', PInt 1), (PStr ''maximum'', PInt 2592000)]),
        (''focus'', text_param (''What to focus on in the next run (e.g. '' @ quoted_name ''check entry opportunities'' @ '')''))] [''delay_seconds'', ''focus''])"

definition schedule_cron_schema :: pyval where
  "schedule_cron_schema = function_schema ''schedule_cron''
     ''Schedule a recurring Agent run using a cron expression. Use for periodic checks (e.g. every hour during trading hours).''
     (parameters_of [(''cron_expression'', text_param (''Cron expression (minute hour day month weekday), e.g. '' @ quoted_name ''0 9 * * 1-5'' @ '' for 9am on weekdays'')),
        (''focus'', text_param ''What to focus on in each run'')] [''cron_expression'', ''focus''])"

definition cancel_schedule_schema :: pyval where
  "cancel_schedule_schema = function_schema ''cancel_schedule''
     ''Cancel a scheduled run by schedule_id (from schedule_once or schedule_cron).''
     (parameters_of [(''schedule_id'', text_param ''The ID returned by schedule_once'')] [''schedule_id''])"

definition remember_schema :: pyval where
  "remember_schema = function_schema ''remember'' ''Store durable memory for future Agent runs.''
     (parameters_of [(''content'', text_param ''Memory content to store (1-2000 chars)''), (''tags'', tags_param ''Optional tags for later recall filtering'')]
        [''content''])"

definition recall_schema :: pyval where
  "recall_schema = function_schema ''recall'' ''Search previously stored memories by query and optional tags.''
     (parameters_of [(''query'', text_param ''Search query for relevant memories''),
        (''limit'', PDict [(PStr ''type'', PStr ''integer''), (PStr ''minimum'', PInt 1), (PStr ''maximum'', PInt 20),
           (PStr ''description'', PStr ''Maximum number of memories to return (default 5)'')]),
        (''tags'', tags_param ''Optional tag filter'')] [''query''])"

definition get_tool_schemas :: "pyval list" where
  "get_tool_schemas =
     [query_state_schema, log_decision_schema, schedule_once_schema, schedule_cron_schema, cancel_schedule_schema, remember_schema, recall_schema]"

definition builtin_tool_names :: "string list" where
  "builtin_tool_names = [''query_state'', ''log_decision'', ''schedule_once'', ''schedule_cron'', ''cancel_schedule'', ''remember'', ''recall'']"

definition is_builtin :: "string \<Rightarrow> bool" where
  "is_builtin tool_name = (py_strip tool_name \<in> set builtin_tool_names)"

subsection \<open>Records, budgets, errors\<close>

definition record_tool_execution :: "box_env \<Rightarrow> string \<Rightarrow> tool_ctx \<Rightarrow> pyval \<Rightarrow> pyval \<Rightarrow> int \<Rightarrow> string \<Rightarrow> string option \<Rightarrow> tool_world \<Rightarrow> tool_world" where
  "record_tool_execution be tool_name ctx input_params output_result ms status err w =
     (case tw_ledger w of
        None \<Rightarrow> w
      | Some l \<Rightarrow>
          (case mem_record_execution (be_record_id be) (be_now be)
             \<lparr>xc_tenant = PStr (tx_tenant ctx), xc_agent = PStr (tx_agent ctx), xc_run = PStr (tx_run ctx), xc_capability = PStr tool_name,
              xc_task = PStr ''builtin'', xc_input = input_params, xc_output = output_result, xc_reasoning = Some ''builtin_tool_execution'',
              xc_time_ms = max 0 ms, xc_model = ''builtin'', xc_tokens_in = 0, xc_tokens_out = 0, xc_cost = 0, xc_status = status, xc_error = err,
              xc_weight = None, xc_mode = None, xc_risk = None, xc_approver = None, xc_approved_at = None\<rparr> l of
             Inl e \<Rightarrow> w
           | Inr l' \<Rightarrow> w\<lparr>tw_ledger := Some l'\<rparr>))"

definition validation_failure :: "box_env \<Rightarrow> string \<Rightarrow> tool_ctx \<Rightarrow> (string \<times> pyval) list \<Rightarrow> string \<Rightarrow> tool_world \<Rightarrow> tool_world" where
  "validation_failure be tool_name ctx input_params err w =
     record_tool_execution be tool_name ctx (kwargs_dict input_params) PNone 0 ''validation_error'' (Some err) w"

text \<open>A refused call: the failure is recorded and answered.\<close>

definition error_of :: "string \<Rightarrow> pyval" where
  "error_of m = PDict [(PStr ''error'', PStr m)]"

definition deny :: "box_env \<Rightarrow> string \<Rightarrow> tool_ctx \<Rightarrow> (string \<times> pyval) list \<Rightarrow> string \<Rightarrow> tool_world \<Rightarrow> pyval \<times> tool_world" where
  "deny be tool_name ctx input_params err w = (error_of err, validation_failure be tool_name ctx input_params err w)"

definition box_audit :: "string \<Rightarrow> string \<Rightarrow> (string \<times> pyval) list \<Rightarrow> tool_world \<Rightarrow> tool_world" where
  "box_audit event_type source details w =
     w\<lparr>tw_box := (tw_box w)\<lparr>tb_audit := audit_record event_type source details (tb_audit (tw_box w))\<rparr>\<rparr>"

definition count_in :: "(string \<times> int) list \<Rightarrow> string \<Rightarrow> int" where
  "count_in counts run = (case map_of counts run of None \<Rightarrow> 0 | Some n \<Rightarrow> n)"

definition consume_run_call_budget :: "box_env \<Rightarrow> string \<Rightarrow> tool_ctx \<Rightarrow> tool_world \<Rightarrow> string option \<times> tool_world" where
  "consume_run_call_budget be tool_name ctx w =
     (let b = tw_box w; run = tx_run ctx; next_count = count_in (tb_calls b) run + 1 in
      if tb_max_calls b < next_count then
        (let err = ''Tool call limit exceeded for run '' @ quoted_name run @ '': max_calls_per_run='' @ show_int (tb_max_calls b) in
         (Some err, validation_failure be tool_name ctx [(''run_id'', PStr run), (''max_calls_per_run'', PInt (tb_max_calls b))] err w))
      else (None, w\<lparr>tw_box := b\<lparr>tb_calls := AList.update run next_count (tb_calls b)\<rparr>\<rparr>))"

definition consume_schedule_call_budget :: "box_env \<Rightarrow> string \<Rightarrow> tool_ctx \<Rightarrow> tool_world \<Rightarrow> string option \<times> tool_world" where
  "consume_schedule_call_budget be tool_name ctx w =
     (let b = tw_box w; run = tx_run ctx; next_count = count_in (tb_schedules b) run + 1 in
      if tb_max_schedules b < next_count then
        (let err = ''Schedule frequency limit exceeded for run '' @ quoted_name run @ '': max_schedule_calls_per_run='' @ show_int (tb_max_schedules b) in
         (Some err,
          validation_failure be tool_name ctx [(''run_id'', PStr run), (''max_schedule_calls_per_run'', PInt (tb_max_schedules b))] err
            (box_audit ''schedule_rate_limited'' tool_name [(''agent_id'', PStr (tx_agent ctx)), (''run_id'', PStr run),
               (''tenant_id'', PStr (tx_tenant ctx)), (''limit'', PInt (tb_max_schedules b))] w)))
      else (None, w\<lparr>tw_box := b\<lparr>tb_schedules := AList.update run next_count (tb_schedules b)\<rparr>\<rparr>))"

definition reset_run_call_budget :: "string \<Rightarrow> toolbox \<Rightarrow> py_error + toolbox" where
  "reset_run_call_budget run_id b =
     (if py_strip run_id = [] then Inl (ValueError ''run_id must be a non-empty string'')
      else Inr (b\<lparr>tb_calls := AList.delete (py_strip run_id) (tb_calls b), tb_schedules := AList.delete (py_strip run_id) (tb_schedules b)\<rparr>))"

definition format_internal_error :: "toolbox \<Rightarrow> string \<Rightarrow> string" where
  "format_internal_error b t = (if tb_raise b then t else ''Tool execution failed due to an internal error.'')"

datatype tool_raise = TimeoutRaised string | Raised py_error

definition validation_markers :: "string list" where
  "validation_markers = [''required'', ''must be'', ''invalid '', ''unknown built-in tool'', ''not configured'', ''limit exceeded'']"

definition coerce_error_result :: "bool \<Rightarrow> string \<Rightarrow> pyval \<Rightarrow> tool_raise + pyval" where
  "coerce_error_result raise_errors tool_name result =
     (if \<not> raise_errors then Inr result
      else (case dict_get result ''error'' of
          Some (PStr m) \<Rightarrow>
            if py_strip m = [] then Inr result
            else (let normalized = py_strip m; lower = py_lower normalized in
              if py_in ''timed out'' lower then Inl (TimeoutRaised normalized)
              else if list_ex (\<lambda>marker. py_in marker lower) validation_markers then Inl (Raised (ValueError normalized))
              else Inl (Raised (RuntimeError (tool_name @ '' failed: '' @ normalized))))
        | _ \<Rightarrow> Inr result))"

text \<open>A late answer and an exception of a service, recorded and answered.\<close>

definition timed_out :: "box_env \<Rightarrow> string \<Rightarrow> tool_ctx \<Rightarrow> (string \<times> pyval) list \<Rightarrow> tool_world \<Rightarrow> pyval \<times> tool_world" where
  "timed_out be tool_name ctx input_params w =
     (let err = tool_name @ '' timed out after '' @ te_str (be_tool be) (PFloat (tb_timeout (tw_box w))) @ ''s'' in
      (error_of err, record_tool_execution be tool_name ctx (kwargs_dict input_params) PNone (be_ms be) ''timeout'' (Some err) w))"

definition broken :: "box_env \<Rightarrow> string \<Rightarrow> tool_ctx \<Rightarrow> (string \<times> pyval) list \<Rightarrow> string \<Rightarrow> string \<Rightarrow> tool_world \<Rightarrow> pyval \<times> tool_world" where
  "broken be tool_name ctx input_params cls t w =
     (error_of (format_internal_error (tw_box w) t),
      record_tool_execution be tool_name ctx (kwargs_dict input_params) PNone (be_ms be) ''error'' (Some cls) w)"

definition finished :: "box_env \<Rightarrow> string \<Rightarrow> tool_ctx \<Rightarrow> (string \<times> pyval) list \<Rightarrow> pyval \<Rightarrow> pyval \<Rightarrow> tool_world \<Rightarrow> pyval \<times> tool_world" where
  "finished be tool_name ctx input_params output out w =
     (out, record_tool_execution be tool_name ctx (kwargs_dict input_params) output (be_ms be) ''success'' None w)"

definition answered ::
  "box_env \<Rightarrow> string \<Rightarrow> tool_ctx \<Rightarrow> (string \<times> pyval) list \<Rightarrow> (pyval \<Rightarrow> tool_world \<Rightarrow> pyval \<times> tool_world) \<Rightarrow> service_answer \<Rightarrow> tool_world
     \<Rightarrow> pyval \<times> tool_world" where
  "answered be tool_name ctx input_params done answer w =
     (case answer of
        Late \<Rightarrow> timed_out be tool_name ctx input_params w
      | Broke cls t \<Rightarrow> broken be tool_name ctx input_params cls t w
      | Gave v \<Rightarrow> done v w)"

definition non_empty_str :: "pyval \<Rightarrow> string option" where
  "non_empty_str v = (case v of PStr s \<Rightarrow> if py_strip s = [] then None else Some (py_strip s) | _ \<Rightarrow> None)"

fun tag_loop :: "string list \<Rightarrow> pyval list \<Rightarrow> string list option" where
  "tag_loop tags [] = Some tags"
| "tag_loop tags (PStr raw # rest) =
     (let normalized = strip_lower raw in tag_loop (if normalized \<noteq> [] \<and> normalized \<notin> set tags then tags @ [normalized] else tags) rest)"
| "tag_loop tags (v # rest) = None"

definition tool_tags :: "pyval \<Rightarrow> string list option" where
  "tool_tags raw_tags = (case raw_tags of PNone \<Rightarrow> Some [] | PList items \<Rightarrow> tag_loop [] items | _ \<Rightarrow> None)"

subsection \<open>State and decisions\<close>

definition state_name_ok :: "string \<Rightarrow> bool" where
  "state_name_ok s = (1 \<le> length s \<and> length s \<le> 128 \<and> list_all (\<lambda>c. (CHR ''A'' \<le> c \<and> c \<le> CHR ''Z'') \<or> (CHR ''a'' \<le> c \<and> c \<le> CHR ''z'')
     \<or> is_digit c \<or> c = CHR ''_'' \<or> c = CHR '':'' \<or> c = CHR ''-'') s)"

definition exception_parts :: "py_error \<Rightarrow> string \<times> string" where
  "exception_parts e =
     (case e of ValueError m \<Rightarrow> (''ValueError'', m) | TypeError m \<Rightarrow> (''TypeError'', m) | KeyError m \<Rightarrow> (''KeyError'', m)
      | IndexError m \<Rightarrow> (''IndexError'', m) | AttributeError m \<Rightarrow> (''AttributeError'', m) | ArithmeticError m \<Rightarrow> (''ArithmeticError'', m)
      | RuntimeError m \<Rightarrow> (''RuntimeError'', m))"

definition query_state :: "box_env \<Rightarrow> pyval \<Rightarrow> tool_ctx \<Rightarrow> tool_world \<Rightarrow> pyval \<times> tool_world" where
  "query_state be arguments ctx w =
     (let raw = dict_get_or arguments ''state_name'' PNone in
      case non_empty_str raw of
        None \<Rightarrow> deny be ''query_state'' ctx [(''state_name'', raw)] ''state_name is required and must be a non-empty string'' w
      | Some name \<Rightarrow>
          (let input = [(''state_name'', PStr name)] in
           if \<not> state_name_ok name then
             (case deny be ''query_state'' ctx input ''state_name contains invalid characters'' w of
                (out, w1) \<Rightarrow> (out, box_audit ''query_state_invalid_name'' ''query_state''
                  [(''agent_id'', PStr (tx_agent ctx)), (''run_id'', PStr (tx_run ctx)), (''state_name'', PStr name)] w1))
           else (case tw_registry w of
               None \<Rightarrow> deny be ''query_state'' ctx input ''No capability registry configured; query_state unavailable'' w
             | Some cy \<Rightarrow>
                 if be_late be then timed_out be ''query_state'' ctx input w
                 else (case get_state name cy of
                     Inr v \<Rightarrow> (let out = PDict [(PStr ''state'', v)] in finished be ''query_state'' ctx input out out w)
                   | Inl e \<Rightarrow> (case exception_parts e of (cls, t) \<Rightarrow> broken be ''query_state'' ctx input cls t w)))))"

definition decision_types :: "string list" where
  "decision_types = [''capability_selection'', ''schedule_decision'', ''no_action'', ''other'']"

definition log_decision :: "box_env \<Rightarrow> pyval \<Rightarrow> tool_ctx \<Rightarrow> tool_world \<Rightarrow> pyval \<times> tool_world" where
  "log_decision be arguments ctx w =
     (let raw = dict_get_or arguments ''reasoning'' PNone in
      case non_empty_str raw of
        None \<Rightarrow> deny be ''log_decision'' ctx [(''reasoning'', raw)] ''reasoning is required and must be a non-empty string'' w
      | Some reasoning \<Rightarrow>
          if 1000 < length reasoning then
            deny be ''log_decision'' ctx [(''reasoning_length'', PInt (int (length reasoning)))] ''reasoning must not exceed 1000 characters'' w
          else (let decision_type = (case dict_get_or arguments ''decision_type'' (PStr ''other'') of
                      PStr s \<Rightarrow> if s \<in> set decision_types then s else ''other'' | _ \<Rightarrow> ''other'') in
            case tw_ledger w of
              None \<Rightarrow> (PDict [(PStr ''decision_id'', PStr ''no-ledger''), (PStr ''logged'', PBool False)], w)
            | Some l \<Rightarrow>
                (let decision_id = ''decision-'' @ be_hex be in
                 case mem_record_execution (be_record_id be) (be_now be)
                   \<lparr>xc_tenant = PStr (tx_tenant ctx), xc_agent = PStr (tx_agent ctx), xc_run = PStr (tx_run ctx), xc_capability = PStr ''log_decision'',
                    xc_task = PStr ''decision_log'', xc_input = PDict [(PStr ''reasoning'', PStr reasoning), (PStr ''decision_type'', PStr decision_type)],
                    xc_output = PDict [(PStr ''logged'', PBool True), (PStr ''decision_id'', PStr decision_id)], xc_reasoning = Some reasoning,
                    xc_time_ms = 0, xc_model = ''builtin'', xc_tokens_in = 0, xc_tokens_out = 0, xc_cost = 0, xc_status = ''success'', xc_error = None,
                    xc_weight = None, xc_mode = None, xc_risk = None, xc_approver = None, xc_approved_at = None\<rparr> l of
                   Inr l' \<Rightarrow> (PDict [(PStr ''decision_id'', PStr decision_id), (PStr ''logged'', PBool True)], w\<lparr>tw_ledger := Some l'\<rparr>)
                 | Inl e \<Rightarrow> (PDict [(PStr ''error'', PStr (format_internal_error (tw_box w) (snd (exception_parts e)))), (PStr ''logged'', PBool False)], w))))"

subsection \<open>Schedules\<close>

definition call_hatchet :: "string \<Rightarrow> pyval \<Rightarrow> tool_world \<Rightarrow> tool_world" where
  "call_hatchet method arguments w =
     w\<lparr>tw_hatchet := map_option (\<lambda>h. h\<lparr>ht_calls := ht_calls h @ [(method, arguments)]\<rparr>) (tw_hatchet w)\<rparr>"

text \<open>A schedule belongs to the agent that made it.\<close>

definition own_schedule :: "pyval \<Rightarrow> tool_ctx \<Rightarrow> tool_world \<Rightarrow> tool_world" where
  "own_schedule schedule_id ctx w =
     (case schedule_id of
        PStr s \<Rightarrow> if py_strip s = [] then w
          else w\<lparr>tw_box := (tw_box w)\<lparr>tb_owners := AList.update s (tx_agent ctx) (tb_owners (tw_box w))\<rparr>\<rparr>
      | _ \<Rightarrow> w)"

definition schedule_once :: "box_env \<Rightarrow> pyval \<Rightarrow> tool_ctx \<Rightarrow> tool_world \<Rightarrow> pyval \<times> tool_world" where
  "schedule_once be arguments ctx w =
     (let delay = dict_get_or arguments ''delay_seconds'' PNone; raw_focus = dict_get_or arguments ''focus'' PNone;
          delay_ok = (case delay of PInt d \<Rightarrow> 1 \<le> d \<and> d \<le> 2592000 | _ \<Rightarrow> False)
      in if \<not> delay_ok then
           deny be ''schedule_once'' ctx [(''delay_seconds'', delay)] ''delay_seconds must be an integer between 1 and 2592000'' w
         else (case non_empty_str raw_focus of
             None \<Rightarrow> deny be ''schedule_once'' ctx [(''focus'', raw_focus)] ''focus is required and must be a non-empty string'' w
           | Some focus \<Rightarrow>
               (let input = [(''delay_seconds'', delay), (''focus'', PStr focus)] in
                if tw_hatchet w = None then
                  deny be ''schedule_once'' ctx input ''Hatchet not configured; schedule_once unavailable'' w
                else (case consume_schedule_call_budget be ''schedule_once'' ctx w of
                    (Some err, w1) \<Rightarrow> (error_of err, w1)
                  | (None, w1) \<Rightarrow>
                      (let w2 = call_hatchet ''schedule_task''
                             (PList [PStr (tb_task (tw_box w)), delay, PDict [(PStr ''agent_id'', PStr (tx_agent ctx)), (PStr ''trigger'', PStr ''schedule_once''),
                                (PStr ''focus'', PStr focus), (PStr ''scheduled_by_run_id'', PStr (tx_run ctx)), (PStr ''tenant_id'', PStr (tx_tenant ctx))]]) w1
                       in answered be ''schedule_once'' ctx input (\<lambda>schedule_id w3.
                            let out = PDict [(PStr ''schedule_id'', schedule_id),
                                   (PStr ''scheduled_at'', PStr (''in '' @ text_form (be_tool be) delay @ '' seconds'')), (PStr ''focus'', PStr focus)]
                            in finished be ''schedule_once'' ctx input out out (own_schedule schedule_id ctx w3)) (be_first be) w2)))))"

fun safe_chars :: "bool \<Rightarrow> string \<Rightarrow> string" where
  "safe_chars skipping [] = []"
| "safe_chars skipping (c # s) =
     (if (CHR ''A'' \<le> c \<and> c \<le> CHR ''Z'') \<or> (CHR ''a'' \<le> c \<and> c \<le> CHR ''z'') \<or> is_digit c \<or> c = CHR ''_'' \<or> c = CHR ''-''
      then c # safe_chars False s
      else if skipping then safe_chars True s else CHR ''_'' # safe_chars True s)"

definition safe_name :: "string \<Rightarrow> string" where
  "safe_name v =
     (let trim = dropWhile (\<lambda>c. c = CHR ''_'');
          normalized = rev (trim (rev (trim (safe_chars False (py_strip v)))))
      in if normalized = [] then ''agent'' else normalized)"

definition schedule_cron :: "box_env \<Rightarrow> (string \<Rightarrow> string) \<Rightarrow> pyval \<Rightarrow> tool_ctx \<Rightarrow> tool_world \<Rightarrow> pyval \<times> tool_world" where
  "schedule_cron be repr arguments ctx w =
     (let raw_expr = dict_get_or arguments ''cron_expression'' PNone; raw_focus = dict_get_or arguments ''focus'' PNone in
      case non_empty_str raw_expr of
        None \<Rightarrow> deny be ''schedule_cron'' ctx [(''cron_expression'', raw_expr)] ''cron_expression is required and must be a non-empty string'' w
      | Some cron_expr \<Rightarrow>
          (case non_empty_str raw_focus of
             None \<Rightarrow> deny be ''schedule_cron'' ctx [(''focus'', raw_focus)] ''focus is required and must be a non-empty string'' w
           | Some focus \<Rightarrow>
               (let input = [(''cron_expression'', PStr cron_expr), (''focus'', PStr focus)] in
                if \<not> be_cron be cron_expr then
                  deny be ''schedule_cron'' ctx input (''Invalid cron expression: '' @ repr cron_expr) w
                else if tw_hatchet w = None then
                  deny be ''schedule_cron'' ctx input ''Hatchet not configured; schedule_cron unavailable'' w
                else (case consume_schedule_call_budget be ''schedule_cron'' ctx w of
                    (Some err, w1) \<Rightarrow> (error_of err, w1)
                  | (None, w1) \<Rightarrow>
                      (let cron_name = ''agent_cron_'' @ safe_name (tx_agent ctx) @ ''_'' @ take 12 (be_hex be);
                           w2 = call_hatchet ''schedule_cron''
                             (PDict [(PStr ''workflow_name'', PStr (tb_task (tw_box w))), (PStr ''cron_name'', PStr cron_name), (PStr ''expression'', PStr cron_expr),
                                (PStr ''input_data'', PDict [(PStr ''agent_id'', PStr (tx_agent ctx)), (PStr ''trigger'', PStr ''schedule_cron''),
                                   (PStr ''focus'', PStr focus), (PStr ''scheduled_by_run_id'', PStr (tx_run ctx)), (PStr ''tenant_id'', PStr (tx_tenant ctx))])]) w1
                       in answered be ''schedule_cron'' ctx input (\<lambda>schedule_id w3.
                            let out = PDict [(PStr ''schedule_id'', schedule_id), (PStr ''cron_name'', PStr cron_name),
                                   (PStr ''cron_expression'', PStr cron_expr), (PStr ''focus'', PStr focus)]
                            in finished be ''schedule_cron'' ctx input out out (own_schedule schedule_id ctx w3)) (be_first be) w2)))))"

text \<open>What the first call, and when it found nothing the second one, say; and the world after them.\<close>

definition hatchet_cancel :: "box_env \<Rightarrow> string \<Rightarrow> tool_world \<Rightarrow> service_answer \<times> tool_world" where
  "hatchet_cancel be schedule_id w =
     (let w1 = call_hatchet ''cancel_task'' (PStr schedule_id) w in
      case be_first be of
        Gave v \<Rightarrow>
          if \<not> truthy v \<and> (case tw_hatchet w of None \<Rightarrow> False | Some h \<Rightarrow> ht_cancels_cron h)
          then (be_second be, call_hatchet ''cancel_cron'' (PStr schedule_id) w1) else (Gave v, w1)
      | answer \<Rightarrow> (answer, w1))"

definition do_cancel :: "box_env \<Rightarrow> string \<Rightarrow> (string \<times> pyval) list \<Rightarrow> tool_ctx \<Rightarrow> tool_world \<Rightarrow> pyval \<times> tool_world" where
  "do_cancel be schedule_id input ctx w =
     (case hatchet_cancel be schedule_id w of
        (answer, w1) \<Rightarrow> answered be ''cancel_schedule'' ctx input (\<lambda>v w1.
          let ok = truthy v;
              out = PDict [(PStr ''cancelled'', PBool ok), (PStr ''schedule_id'', PStr schedule_id)];
              w2 = (if ok then w1\<lparr>tw_box := (tw_box w1)\<lparr>tb_owners := AList.delete schedule_id (tb_owners (tw_box w1))\<rparr>\<rparr> else w1)
          in (out, record_tool_execution be ''cancel_schedule'' ctx (kwargs_dict input) out (be_ms be) (if ok then ''success'' else ''not_found'')
                (if ok then None else Some ''schedule not found'') w2)) answer w1)"

definition cancel_schedule :: "box_env \<Rightarrow> pyval \<Rightarrow> tool_ctx \<Rightarrow> tool_world \<Rightarrow> pyval \<times> tool_world" where
  "cancel_schedule be arguments ctx w =
     (let raw = dict_get_or arguments ''schedule_id'' PNone in
      case non_empty_str raw of
        None \<Rightarrow> deny be ''cancel_schedule'' ctx [(''schedule_id'', raw)] ''schedule_id is required and must be a non-empty string'' w
      | Some schedule_id \<Rightarrow>
          (let input = [(''schedule_id'', PStr schedule_id)] in
           if tw_hatchet w = None then deny be ''cancel_schedule'' ctx input ''Hatchet not configured; cancel_schedule unavailable'' w
           else (case (tb_ownership (tw_box w), map_of (tb_owners (tw_box w)) schedule_id) of
               (True, Some owner) \<Rightarrow>
                 if owner \<noteq> tx_agent ctx then
                   deny be ''cancel_schedule'' ctx (input @ [(''owner'', PStr owner)]) ''permission denied: schedule_id does not belong to current agent''
                     (box_audit ''schedule_ownership_denied'' ''cancel_schedule'' [(''agent_id'', PStr (tx_agent ctx)), (''run_id'', PStr (tx_run ctx)),
                        (''schedule_id'', PStr schedule_id), (''owner'', PStr owner)] w)
                 else do_cancel be schedule_id input ctx w
             | _ \<Rightarrow> do_cancel be schedule_id input ctx w)))"

subsection \<open>Memory\<close>

text \<open>A call of the memory system, and what the tool gets from it.\<close>

definition call_memory :: "box_env \<Rightarrow> string \<Rightarrow> (string \<times> pyval) list \<Rightarrow> tool_world \<Rightarrow> service_answer \<times> tool_world" where
  "call_memory be method kwargs w =
     (case tw_memory w of
        None \<Rightarrow> (Broke ''RuntimeError'' (''memory system does not support '' @ quoted_name method), w)
      | Some m \<Rightarrow>
          if method \<notin> set (ms_methods m) then (Broke ''RuntimeError'' (''memory system does not support '' @ quoted_name method), w)
          else (be_first be, w\<lparr>tw_memory := Some (m\<lparr>ms_calls := ms_calls m @ [(method, kwargs_dict kwargs)]\<rparr>)\<rparr>))"

definition stripped_or :: "pyval \<Rightarrow> string \<Rightarrow> string \<Rightarrow> string" where
  "stripped_or payload key fallback =
     (case dict_get payload key of Some v \<Rightarrow> (case non_empty_str v of Some s \<Rightarrow> s | None \<Rightarrow> fallback) | None \<Rightarrow> fallback)"

definition string_list :: "string list \<Rightarrow> pyval" where
  "string_list xs = PList (map PStr xs)"

definition write_memory :: "box_env \<Rightarrow> string \<Rightarrow> string list \<Rightarrow> tool_ctx \<Rightarrow> tool_world \<Rightarrow> pyval \<times> tool_world" where
  "write_memory be content tags ctx w =
     (let n = PInt (int (length content)); input = [(''content_length'', n), (''tags'', string_list tags)];
          kwargs = [(''content'', PStr content), (''tags'', string_list tags)];
          drawn = ''memory-'' @ be_hex be
      in if tb_background (tw_box w) then
           (let out = PDict [(PStr ''memory_id'', PStr drawn), (PStr ''created_at'', PStr []), (PStr ''tags'', string_list tags), (PStr ''queued'', PBool True)]
            in finished be ''remember'' ctx (input @ [(''queued'', PBool True)]) out out (snd (call_memory be ''write'' kwargs w)))
         else (case call_memory be ''write'' kwargs w of
             (answer, w1) \<Rightarrow> answered be ''remember'' ctx input (\<lambda>payload w1.
               let out = PDict [(PStr ''memory_id'', PStr (stripped_or payload ''memory_id'' drawn)),
                      (PStr ''created_at'', PStr (stripped_or payload ''created_at'' [])), (PStr ''tags'', string_list tags)]
               in finished be ''remember'' ctx input out out w1) answer w1))"

definition remember_tool :: "box_env \<Rightarrow> pyval \<Rightarrow> tool_ctx \<Rightarrow> tool_world \<Rightarrow> pyval \<times> tool_world" where
  "remember_tool be arguments ctx w =
     (let raw = dict_get_or arguments ''content'' PNone; raw_tags = dict_get_or arguments ''tags'' PNone in
      case non_empty_str raw of
        None \<Rightarrow> deny be ''remember'' ctx [(''content'', raw)] ''content is required and must be a non-empty string'' w
      | Some content \<Rightarrow>
          if 2000 < length content then
            deny be ''remember'' ctx [(''content_length'', PInt (int (length content)))] ''content must not exceed 2000 characters'' w
          else (case te_sanitize (be_tool be) content ''remember'' of
              (clean, mods) \<Rightarrow>
                (let modified = (clean \<noteq> content);
                     w1 = (if modified then box_audit ''remember_content_sanitized'' ''remember'' [(''agent_id'', PStr (tx_agent ctx)), (''run_id'', PStr (tx_run ctx)),
                         (''tenant_id'', PStr (tx_tenant ctx)), (''modifications'', string_list mods)] w else w);
                     stored = (if modified then py_strip clean else content)
                 in if stored = [] then deny be ''remember'' ctx [(''modifications'', string_list mods)] ''content was fully removed by sanitization'' w1
                    else (case tool_tags raw_tags of
                        None \<Rightarrow> deny be ''remember'' ctx [(''tags_type'', PStr (type_name raw_tags))] ''tags must be an array of strings'' w1
                      | Some tags \<Rightarrow>
                          if tw_memory w1 = None then
                            deny be ''remember'' ctx [(''tags'', string_list tags)] ''Memory system not configured; remember unavailable'' w1
                          else write_memory be stored tags ctx w1))))"

definition recall_tool :: "box_env \<Rightarrow> pyval \<Rightarrow> tool_ctx \<Rightarrow> tool_world \<Rightarrow> pyval \<times> tool_world" where
  "recall_tool be arguments ctx w =
     (let raw = dict_get_or arguments ''query'' PNone; raw_tags = dict_get_or arguments ''tags'' PNone;
          raw_limit = dict_get_or arguments ''limit'' (PInt 5);
          limit_ok = (case raw_limit of PInt i \<Rightarrow> 1 \<le> i \<and> i \<le> 20 | _ \<Rightarrow> False)
      in case non_empty_str raw of
           None \<Rightarrow> deny be ''recall'' ctx [(''query'', raw)] ''query is required and must be a non-empty string'' w
         | Some query \<Rightarrow>
             if \<not> limit_ok then deny be ''recall'' ctx [(''limit'', raw_limit)] ''limit must be an integer between 1 and 20'' w
             else (case tool_tags raw_tags of
                 None \<Rightarrow> deny be ''recall'' ctx [(''tags_type'', PStr (type_name raw_tags))] ''tags must be an array of strings'' w
               | Some tags \<Rightarrow>
                   (let input = [(''query'', PStr query), (''limit'', raw_limit), (''tags'', string_list tags)] in
                    if tw_memory w = None then deny be ''recall'' ctx input ''Memory system not configured; recall unavailable'' w
                    else (case call_memory be ''search'' input w of
                        (answer, w1) \<Rightarrow> answered be ''recall'' ctx input (\<lambda>v w1.
                          let memories = (case v of PList xs \<Rightarrow> xs | _ \<Rightarrow> []); n = PInt (int (length memories))
                          in finished be ''recall'' ctx input (PDict [(PStr ''count'', n)]) (PDict [(PStr ''memories'', PList memories), (PStr ''count'', n)]) w1)
                          answer w1))))"

subsection \<open>Execution\<close>

definition run_tool :: "box_env \<Rightarrow> (string \<Rightarrow> string) \<Rightarrow> string \<Rightarrow> pyval \<Rightarrow> tool_ctx \<Rightarrow> tool_world \<Rightarrow> pyval \<times> tool_world" where
  "run_tool be repr tool_name arguments ctx w =
     (if tool_name = ''query_state'' then query_state be arguments ctx w
      else if tool_name = ''log_decision'' then log_decision be arguments ctx w
      else if tool_name = ''schedule_once'' then schedule_once be arguments ctx w
      else if tool_name = ''schedule_cron'' then schedule_cron be repr arguments ctx w
      else if tool_name = ''cancel_schedule'' then cancel_schedule be arguments ctx w
      else if tool_name = ''remember'' then remember_tool be arguments ctx w
      else recall_tool be arguments ctx w)"

definition execute_builtin :: "box_env \<Rightarrow> (string \<Rightarrow> string) \<Rightarrow> string \<Rightarrow> pyval \<Rightarrow> tool_ctx \<Rightarrow> tool_world \<Rightarrow> (tool_raise + pyval) \<times> tool_world" where
  "execute_builtin be repr tool_name arguments ctx w =
     (let name = py_strip tool_name in
      if name \<notin> set builtin_tool_names then (Inl (Raised (ValueError (''Unknown built-in tool: '' @ tool_name))), w)
      else (case consume_run_call_budget be name ctx w of
          (Some err, w1) \<Rightarrow> (Inr (error_of err), w1)
        | (None, w1) \<Rightarrow>
            if \<not> is_dict arguments then
              (case deny be name ctx [(''arguments_type'', PStr (type_name arguments))]
                 (''Invalid arguments for built-in tool '' @ quoted_name name @ '': arguments must be a JSON object'') w1 of
                 (out, w2) \<Rightarrow> (Inr out, w2))
            else (case run_tool be repr name arguments ctx w1 of
                (out, w2) \<Rightarrow> (coerce_error_result (tb_raise (tw_box w2)) name out, w2))))"

text \<open>The calls of one run, one after the other.\<close>

type_synonym tool_use = "box_env \<times> string \<times> pyval"

definition use_tools :: "(string \<Rightarrow> string) \<Rightarrow> tool_ctx \<Rightarrow> tool_use list \<Rightarrow> tool_world \<Rightarrow> tool_world" where
  "use_tools repr ctx uses w = fold (\<lambda>(be, name, arguments) w. snd (execute_builtin be repr name arguments ctx w)) uses w"

subsection \<open>Facts\<close>

text \<open>
  What the calls of a tool change of the schedules: \<open>same_schedules\<close> says nothing, \<open>one_schedule\<close> that
  one more was asked for and counted. Whatever else a tool does it leaves these alone.
\<close>

definition hatchet_log :: "tool_world \<Rightarrow> (string \<times> pyval) list" where
  "hatchet_log w = (case tw_hatchet w of None \<Rightarrow> [] | Some h \<Rightarrow> ht_calls h)"

definition schedule_calls :: "tool_world \<Rightarrow> nat" where
  "schedule_calls w = length (filter (\<lambda>(method, a). method = ''schedule_task'' \<or> method = ''schedule_cron'') (hatchet_log w))"

definition scheduled :: "tool_ctx \<Rightarrow> tool_world \<Rightarrow> int" where
  "scheduled ctx w = count_in (tb_schedules (tw_box w)) (tx_run ctx)"

definition used :: "tool_ctx \<Rightarrow> tool_world \<Rightarrow> int" where
  "used ctx w = count_in (tb_calls (tw_box w)) (tx_run ctx)"

definition same_limits :: "tool_world \<Rightarrow> tool_world \<Rightarrow> bool" where
  "same_limits w w' \<longleftrightarrow> tb_max_schedules (tw_box w') = tb_max_schedules (tw_box w) \<and> tb_max_calls (tw_box w') = tb_max_calls (tw_box w)
     \<and> tb_ownership (tw_box w') = tb_ownership (tw_box w)"

definition same_schedules :: "tool_ctx \<Rightarrow> tool_world \<Rightarrow> tool_world \<Rightarrow> bool" where
  "same_schedules ctx w w' \<longleftrightarrow> same_limits w w' \<and> schedule_calls w' = schedule_calls w \<and> scheduled ctx w' = scheduled ctx w \<and> used ctx w' = used ctx w"

definition one_schedule :: "tool_ctx \<Rightarrow> tool_world \<Rightarrow> tool_world \<Rightarrow> bool" where
  "one_schedule ctx w w' \<longleftrightarrow> same_limits w w' \<and> schedule_calls w' = Suc (schedule_calls w) \<and> scheduled ctx w' = scheduled ctx w + 1
     \<and> scheduled ctx w < tb_max_schedules (tw_box w) \<and> used ctx w' = used ctx w"

lemmas schedule_defs = same_schedules_def one_schedule_def same_limits_def schedule_calls_def hatchet_log_def scheduled_def used_def

lemma record_tool_execution_frame [simp]:
  "tw_box (record_tool_execution be n ctx i out ms st e w) = tw_box w"
  "tw_hatchet (record_tool_execution be n ctx i out ms st e w) = tw_hatchet w"
  "tw_memory (record_tool_execution be n ctx i out ms st e w) = tw_memory w"
  by (simp_all add: record_tool_execution_def split: option.splits sum.splits)

lemma validation_failure_frame [simp]:
  "tw_box (validation_failure be n ctx i e w) = tw_box w"
  "tw_hatchet (validation_failure be n ctx i e w) = tw_hatchet w"
  by (simp_all add: validation_failure_def)

lemma answers_frame [simp]:
  "tw_box (snd (deny be n ctx i e w)) = tw_box w" "tw_hatchet (snd (deny be n ctx i e w)) = tw_hatchet w"
  "tw_box (snd (timed_out be n ctx i w)) = tw_box w" "tw_hatchet (snd (timed_out be n ctx i w)) = tw_hatchet w"
  "tw_box (snd (broken be n ctx i c t w)) = tw_box w" "tw_hatchet (snd (broken be n ctx i c t w)) = tw_hatchet w"
  "tw_box (snd (finished be n ctx i x out w)) = tw_box w" "tw_hatchet (snd (finished be n ctx i x out w)) = tw_hatchet w"
  by (simp_all add: deny_def timed_out_def broken_def finished_def Let_def)

lemma box_audit_frame [simp]:
  "tw_hatchet (box_audit t s d w) = tw_hatchet w" "tb_schedules (tw_box (box_audit t s d w)) = tb_schedules (tw_box w)"
  "tb_calls (tw_box (box_audit t s d w)) = tb_calls (tw_box w)" "tb_max_schedules (tw_box (box_audit t s d w)) = tb_max_schedules (tw_box w)"
  "tb_max_calls (tw_box (box_audit t s d w)) = tb_max_calls (tw_box w)" "tb_ownership (tw_box (box_audit t s d w)) = tb_ownership (tw_box w)"
  "tb_owners (tw_box (box_audit t s d w)) = tb_owners (tw_box w)"
  by (simp_all add: box_audit_def)

lemma call_memory_frame [simp]:
  "tw_box (snd (call_memory be m k w)) = tw_box w" "tw_hatchet (snd (call_memory be m k w)) = tw_hatchet w"
  by (simp_all add: call_memory_def split: option.splits)

lemma same_schedules_intro:
  "tw_box w' = tw_box w \<Longrightarrow> tw_hatchet w' = tw_hatchet w \<Longrightarrow> same_schedules ctx w w'"
  by (simp add: schedule_defs)

lemma same_schedules_trans: "same_schedules ctx w w1 \<Longrightarrow> same_schedules ctx w1 w2 \<Longrightarrow> same_schedules ctx w w2"
  by (simp add: same_schedules_def same_limits_def)

lemma same_schedules_audit: "same_schedules ctx w (box_audit t s d w)"
  by (simp add: schedule_defs)

lemma query_state_same: "same_schedules ctx w (snd (query_state be arguments ctx w))"
  by (simp add: query_state_def Let_def schedule_defs case_prod_beta split: option.splits sum.splits)

lemma log_decision_same: "same_schedules ctx w (snd (log_decision be arguments ctx w))"
  by (simp add: log_decision_def Let_def schedule_defs split: option.splits sum.splits)

lemma answered_frame:
  assumes "\<And>v w. tw_box (snd (done v w)) = tw_box w" "\<And>v w. tw_hatchet (snd (done v w)) = tw_hatchet w"
  shows "tw_box (snd (answered be n ctx i done r w)) = tw_box w" "tw_hatchet (snd (answered be n ctx i done r w)) = tw_hatchet w"
  using assms by (simp_all add: answered_def split: service_answer.splits)

lemma write_memory_same: "same_schedules ctx w (snd (write_memory be content tags ctx w))"
  by (rule same_schedules_intro) (simp_all add: write_memory_def Let_def case_prod_beta answered_frame)

lemma remember_tool_same: "same_schedules ctx w (snd (remember_tool be arguments ctx w))"
proof -
  have audit: "same_schedules ctx w (box_audit t s d w)" for t s d
    by (rule same_schedules_audit)
  have inner: "same_schedules ctx w1 (snd (if tw_memory w1 = None then deny be n ctx i e w1 else write_memory be c tags ctx w1))"
    for w1 n i e c tags
    by (simp add: write_memory_same same_schedules_intro)
  have refuse: "same_schedules ctx w w1 \<Longrightarrow> same_schedules ctx w (snd (deny be n ctx i e w1))" for w1 n i e
    by (rule same_schedules_trans [OF _ same_schedules_intro]) simp_all
  have refl: "same_schedules ctx w w" by (rule same_schedules_intro) simp_all
  show ?thesis
    using same_schedules_trans [OF audit inner] same_schedules_trans [OF refl inner]
    by (simp add: remember_tool_def Let_def refuse refl audit case_prod_beta del: answers_frame split: option.splits)
qed

lemma recall_tool_same: "same_schedules ctx w (snd (recall_tool be arguments ctx w))"
  by (rule same_schedules_intro)
    (simp_all add: recall_tool_def Let_def case_prod_beta answered_frame split: option.splits)

lemma count_in_update [simp]: "count_in (AList.update k n d) k' = (if k' = k then n else count_in d k')"
  by (simp add: count_in_def update_conv')

text \<open>An accepted schedule is counted before Hatchet is called.\<close>

lemma schedule_budget_taken:
  assumes "consume_schedule_call_budget be n ctx w = (None, w1)"
  shows "w1 = w\<lparr>tw_box := (tw_box w)\<lparr>tb_schedules := AList.update (tx_run ctx) (scheduled ctx w + 1) (tb_schedules (tw_box w))\<rparr>\<rparr>"
    and "scheduled ctx w < tb_max_schedules (tw_box w)"
  using assms by (auto simp: consume_schedule_call_budget_def Let_def scheduled_def split: if_splits)

lemma schedule_budget_refused:
  assumes "consume_schedule_call_budget be n ctx w = (Some err, w1)"
  shows "same_schedules ctx w w1"
  using assms by (auto simp: consume_schedule_call_budget_def Let_def schedule_defs split: if_splits)

lemma schedule_called:
  assumes taken: "consume_schedule_call_budget be n ctx w = (None, w1)" and h: "tw_hatchet w \<noteq> None"
    and m: "m = ''schedule_task'' \<or> m = ''schedule_cron''"
    and box: "tb_schedules (tw_box w') = tb_schedules (tw_box w1)" "tb_calls (tw_box w') = tb_calls (tw_box w1)"
      "same_limits w1 w'" and hatchet: "tw_hatchet w' = tw_hatchet (call_hatchet m a w1)"
  shows "one_schedule ctx w w'"
proof -
  note t = schedule_budget_taken [OF taken]
  obtain hh where hh: "tw_hatchet w = Some hh" using h by auto
  have "hatchet_log w' = hatchet_log w @ [(m, a)]"
    using hatchet hh by (simp add: hatchet_log_def call_hatchet_def t(1))
  then have "schedule_calls w' = Suc (schedule_calls w)" using m by (auto simp: schedule_calls_def)
  with t box show ?thesis by (simp add: one_schedule_def same_limits_def scheduled_def used_def)
qed

lemma own_schedule_frame [simp]:
  "tb_schedules (tw_box (own_schedule v ctx w)) = tb_schedules (tw_box w)" "tb_calls (tw_box (own_schedule v ctx w)) = tb_calls (tw_box w)"
  "tw_hatchet (own_schedule v ctx w) = tw_hatchet w" "same_limits w (own_schedule v ctx w)"
  by (simp_all add: own_schedule_def same_limits_def split: pyval.splits)

lemma call_hatchet_frame [simp]: "tw_box (call_hatchet m a w) = tw_box w"
  by (simp add: call_hatchet_def)

text \<open>What follows a schedule that was counted, whatever the answer.\<close>

lemma after_schedule_frame:
  "tb_schedules (tw_box (snd (answered be n ctx input (\<lambda>v w. finished be n ctx input (out v) (out v) (own_schedule v ctx w)) r w))) = tb_schedules (tw_box w)"
  "tb_calls (tw_box (snd (answered be n ctx input (\<lambda>v w. finished be n ctx input (out v) (out v) (own_schedule v ctx w)) r w))) = tb_calls (tw_box w)"
  "same_limits w (snd (answered be n ctx input (\<lambda>v w. finished be n ctx input (out v) (out v) (own_schedule v ctx w)) r w))"
  "tw_hatchet (snd (answered be n ctx input (\<lambda>v w. finished be n ctx input (out v) (out v) (own_schedule v ctx w)) r w)) = tw_hatchet w"
  using own_schedule_frame(4) by (simp_all add: answered_def same_limits_def split: service_answer.splits)

lemma scheduled_after:
  assumes "consume_schedule_call_budget be n ctx w = (None, w1)" "tw_hatchet w \<noteq> None" "m = ''schedule_task'' \<or> m = ''schedule_cron''"
  shows "one_schedule ctx w (snd (answered be n ctx input (\<lambda>v w. finished be n ctx input (out v) (out v) (own_schedule v ctx w)) r (call_hatchet m a w1)))"
  by (rule schedule_called [OF assms]) (simp_all add: after_schedule_frame same_limits_def after_schedule_frame(3) [unfolded same_limits_def])

definition schedule_moves :: "tool_ctx \<Rightarrow> tool_world \<Rightarrow> tool_world \<Rightarrow> bool" where
  "schedule_moves ctx w w' \<longleftrightarrow> same_schedules ctx w w' \<or> one_schedule ctx w w'"

lemma deny_same [simp]: "same_schedules ctx w (snd (deny be n ctx i e w))"
  by (rule same_schedules_intro) simp_all

lemma scheduling_moves:
  assumes h: "tw_hatchet w \<noteq> None" and m: "m = ''schedule_task'' \<or> m = ''schedule_cron''"
  shows "schedule_moves ctx w (snd (case consume_schedule_call_budget be n ctx w of (Some err, w1) \<Rightarrow> (error_of err, w1)
           | (None, w1) \<Rightarrow> answered be n ctx input (\<lambda>v w. finished be n ctx input (out v) (out v) (own_schedule v ctx w)) r (call_hatchet m a w1)))"
proof (cases "consume_schedule_call_budget be n ctx w")
  case (Pair b w1)
  show ?thesis
  proof (cases b)
    case None
    then show ?thesis using scheduled_after [OF _ h m] Pair by (simp add: schedule_moves_def)
  next
    case (Some err)
    then show ?thesis using schedule_budget_refused Pair by (simp add: schedule_moves_def)
  qed
qed

lemma schedule_once_moves: "schedule_moves ctx w (snd (schedule_once be arguments ctx w))"
proof -
  note goes = scheduling_moves [where n = "''schedule_once''" and m = "''schedule_task''"]
  show ?thesis
    unfolding schedule_once_def Let_def
    by (split if_split, split option.split, split if_split)
      (simp add: goes, simp add: schedule_moves_def)
qed

lemma schedule_cron_moves: "schedule_moves ctx w (snd (schedule_cron be repr arguments ctx w))"
proof -
  note goes = scheduling_moves [where n = "''schedule_cron''" and m = "''schedule_cron''"]
  show ?thesis
    unfolding schedule_cron_def Let_def
    by (split option.split, split option.split, split if_split, split if_split)
      (simp add: goes, simp add: schedule_moves_def)
qed

lemma do_cancel_same: "same_schedules ctx w (snd (do_cancel be s input ctx w))"
proof -
  have call: "same_schedules ctx w (call_hatchet m a w)" if "m = ''cancel_task'' \<or> m = ''cancel_cron''" for m a w
    using that by (auto simp: schedule_defs call_hatchet_def split: option.splits)
  have cancel: "same_schedules ctx w (snd (hatchet_cancel be s w))"
    using call [of "''cancel_task''"] same_schedules_trans [OF call [of "''cancel_task''"] call [of "''cancel_cron''"]]
    by (simp add: hatchet_cancel_def Let_def split: service_answer.splits)
  show ?thesis
    by (rule same_schedules_trans [OF cancel])
      (simp add: do_cancel_def Let_def case_prod_beta schedule_defs answered_def split: service_answer.splits)
qed

lemma cancel_schedule_same: "same_schedules ctx w (snd (cancel_schedule be arguments ctx w))"
proof -
  have "same_schedules ctx w (snd (deny be n ctx i e (box_audit t s d w)))" for n i e t s d
    by (rule same_schedules_trans [OF same_schedules_audit deny_same])
  then show ?thesis
    unfolding cancel_schedule_def Let_def
    by (simp add: do_cancel_same del: answers_frame split: option.splits bool.splits)
qed

lemma run_tool_moves: "schedule_moves ctx w (snd (run_tool be repr n arguments ctx w))"
  by (simp add: run_tool_def schedule_once_moves schedule_cron_moves)
    (simp add: schedule_moves_def query_state_same log_decision_same cancel_schedule_same remember_tool_same recall_tool_same)

text \<open>A call is counted and then leaves the schedules alone or makes one, or it is refused.\<close>

definition use_moves :: "tool_ctx \<Rightarrow> tool_world \<Rightarrow> tool_world \<Rightarrow> bool" where
  "use_moves ctx w w' \<longleftrightarrow> same_schedules ctx w w'
     \<or> (\<exists>w1. same_limits w w1 \<and> schedule_calls w1 = schedule_calls w \<and> scheduled ctx w1 = scheduled ctx w \<and> used ctx w1 = used ctx w + 1
          \<and> used ctx w < tb_max_calls (tw_box w) \<and> schedule_moves ctx w1 w')"

lemma call_budget_taken:
  assumes "consume_run_call_budget be n ctx w = (None, w1)"
  shows "same_limits w w1" "schedule_calls w1 = schedule_calls w" "scheduled ctx w1 = scheduled ctx w" "used ctx w1 = used ctx w + 1"
    and "used ctx w < tb_max_calls (tw_box w)"
  using assms by (auto simp: consume_run_call_budget_def Let_def schedule_defs split: if_splits)

lemma call_budget_refused:
  assumes "consume_run_call_budget be n ctx w = (Some err, w1)"
  shows "same_schedules ctx w w1"
  using assms by (auto simp: consume_run_call_budget_def Let_def schedule_defs split: if_splits)

lemma execute_builtin_moves: "use_moves ctx w (snd (execute_builtin be repr n arguments ctx w))"
proof -
  have same: "same_schedules ctx w w'' \<Longrightarrow> use_moves ctx w w''" for w'' by (simp add: use_moves_def)
  show ?thesis
  proof (cases "py_strip n \<in> set builtin_tool_names")
    case False
    then show ?thesis by (simp add: execute_builtin_def Let_def same same_schedules_intro)
  next
    case True
    obtain r w1 where c: "consume_run_call_budget be (py_strip n) ctx w = (r, w1)" by force
    show ?thesis
    proof (cases r)
      case (Some err)
      then show ?thesis using True c call_budget_refused by (simp add: execute_builtin_def Let_def same)
    next
      case None
      have "schedule_moves ctx w1 (snd (execute_builtin be repr n arguments ctx w))"
        using True c None deny_same run_tool_moves
        by (simp add: execute_builtin_def Let_def case_prod_beta schedule_moves_def del: answers_frame)
      then show ?thesis using call_budget_taken [of be "py_strip n" ctx w w1] c None unfolding use_moves_def by blast
    qed
  qed
qed

text \<open>The room that is left: each schedule takes one of both budgets.\<close>

definition room :: "tool_ctx \<Rightarrow> tool_world \<Rightarrow> int" where
  "room ctx w = min (max 0 (tb_max_schedules (tw_box w) - scheduled ctx w)) (max 0 (tb_max_calls (tw_box w) - used ctx w))"

lemma use_moves_room: "use_moves ctx w w' \<Longrightarrow> int (schedule_calls w') + room ctx w' \<le> int (schedule_calls w) + room ctx w"
  by (auto simp: use_moves_def schedule_moves_def same_schedules_def one_schedule_def same_limits_def room_def)

lemma use_tools_room: "int (schedule_calls (use_tools repr ctx uses w)) + room ctx (use_tools repr ctx uses w) \<le> int (schedule_calls w) + room ctx w"
proof (induction uses arbitrary: w)
  case Nil
  then show ?case by (simp add: use_tools_def)
next
  case (Cons u uses)
  obtain be n a where u: "u = (be, n, a)" by (cases u)
  have "use_tools repr ctx (u # uses) w = use_tools repr ctx uses (snd (execute_builtin be repr n a ctx w))"
    by (simp add: use_tools_def u)
  then show ?case using Cons.IH use_moves_room [OF execute_builtin_moves] by (metis order_trans)
qed

subsection \<open>Properties\<close>

text \<open>
  C15. Whatever tools a model calls in a run, in whatever order and with whatever answers of
  Hatchet, the schedules it asks Hatchet for are at most what is left of the run's schedule
  budget and of its call budget; a schedule counts when it is asked for, even if Hatchet fails.
\<close>

theorem schedules_within_budget:
  "int (schedule_calls (use_tools repr ctx uses w)) \<le> int (schedule_calls w)
     + min (max 0 (tb_max_schedules (tw_box w) - count_in (tb_schedules (tw_box w)) (tx_run ctx)))
         (max 0 (tb_max_calls (tw_box w) - count_in (tb_calls (tw_box w)) (tx_run ctx)))"
proof -
  have "0 \<le> room ctx (use_tools repr ctx uses w)" by (simp add: room_def)
  then show ?thesis using use_tools_room [of repr ctx uses w] by (simp add: room_def scheduled_def used_def)
qed

text \<open>
  C21. With ownership enforced, an agent that asks for the cancellation of a schedule another
  agent made reaches Hatchet with nothing and changes no owner; the denial is audited unless the
  run's calls are used up.
\<close>

theorem foreign_schedule_protected:
  assumes "tb_ownership (tw_box w)" and "map_of (tb_owners (tw_box w)) (py_strip s) = Some owner" and "owner \<noteq> tx_agent ctx"
    and "dict_get arguments ''schedule_id'' = Some (PStr s)" and "py_strip s \<noteq> []"
    and "w' = snd (execute_builtin be repr ''cancel_schedule'' arguments ctx w)"
  shows "tw_hatchet w' = tw_hatchet w \<and> tb_owners (tw_box w') = tb_owners (tw_box w)
    \<and> (if tw_hatchet w \<noteq> None \<and> used ctx w < tb_max_calls (tw_box w)
       then \<exists>ev. al_events (tb_audit (tw_box w')) = al_events (tb_audit (tw_box w)) @ [ev] \<and> ae_type ev = ''schedule_ownership_denied'' else True)"
proof -
  obtain r w1 where c: "consume_run_call_budget be ''cancel_schedule'' ctx w = (r, w1)" by force
  have frame: "tw_hatchet w1 = tw_hatchet w" "tb_owners (tw_box w1) = tb_owners (tw_box w)" "tb_ownership (tw_box w1) = tb_ownership (tw_box w)"
      "tb_audit (tw_box w1) = tb_audit (tw_box w)" "r = None \<longleftrightarrow> used ctx w < tb_max_calls (tw_box w)"
    using c by (auto simp: consume_run_call_budget_def Let_def used_def split: if_splits)
  have dict: "is_dict arguments" using assms(4) by (cases arguments) (simp_all add: dict_get_def)
  have name: "py_strip ''cancel_schedule'' = ''cancel_schedule''" "''cancel_schedule'' \<in> set builtin_tool_names" by code_simp+
  show ?thesis
  proof (cases r)
    case (Some err)
    then show ?thesis using c frame name assms(6) by (simp add: execute_builtin_def Let_def)
  next
    case None
    have "w' = snd (cancel_schedule be arguments ctx w1)"
      using c None name dict assms(6) by (simp add: execute_builtin_def Let_def case_prod_beta run_tool_def)
    then show ?thesis
      using assms(1-5) frame by (auto simp: cancel_schedule_def Let_def dict_get_or_def non_empty_str_def box_audit_def audit_record_def split: option.splits)
  qed
qed

definition plain_env :: tool_env where
  "plain_env = \<lparr>te_str = (\<lambda>v. ''''), te_json = (\<lambda>s. None), te_dumps = (\<lambda>v. ''''), te_search = (\<lambda>p s. None), te_sanitize = (\<lambda>s src. (s, [])),
     te_fixed = (\<lambda>n r. '''')\<rparr>"

definition sample_box_env :: box_env where
  "sample_box_env = \<lparr>be_tool = plain_env, be_cron = (\<lambda>s. True), be_hex = ''0a'', be_first = Gave (PBool True), be_second = Gave PNone, be_late = False,
     be_ms = 0, be_record_id = ''r1'', be_now = 0\<rparr>"

definition sample_box :: toolbox where
  "sample_box = \<lparr>tb_task = ''t'', tb_timeout = 30, tb_max_calls = 5, tb_max_schedules = 2, tb_raise = False, tb_ownership = True, tb_background = False,
     tb_calls = [], tb_schedules = [], tb_owners = [(''s1'', ''bob'')], tb_audit = audit_log_new None\<rparr>"

definition sample_box_world :: tool_world where
  "sample_box_world = \<lparr>tw_box = sample_box, tw_registry = None, tw_ledger = None, tw_hatchet = Some \<lparr>ht_cancels_cron = True, ht_calls = []\<rparr>,
     tw_memory = None\<rparr>"

lemma foreign_schedule_protected_witness:
  "\<exists>ev. tw_hatchet (snd (execute_builtin sample_box_env (\<lambda>s. s) ''cancel_schedule'' (PDict [(PStr ''schedule_id'', PStr '' s1'')])
          \<lparr>tx_agent = ''eve'', tx_run = ''r'', tx_tenant = ''t''\<rparr> sample_box_world)) = Some \<lparr>ht_cancels_cron = True, ht_calls = []\<rparr>
     \<and> al_events (tb_audit (tw_box (snd (execute_builtin sample_box_env (\<lambda>s. s) ''cancel_schedule'' (PDict [(PStr ''schedule_id'', PStr '' s1'')])
          \<lparr>tx_agent = ''eve'', tx_run = ''r'', tx_tenant = ''t''\<rparr> sample_box_world)))) = [ev] \<and> ae_type ev = ''schedule_ownership_denied''"
proof -
  have s: "py_strip '' s1'' = ''s1''" by code_simp
  show ?thesis
    using foreign_schedule_protected [of sample_box_world "'' s1''" "''bob''" "\<lparr>tx_agent = ''eve'', tx_run = ''r'', tx_tenant = ''t''\<rparr>"
        "PDict [(PStr ''schedule_id'', PStr '' s1'')]" _ sample_box_env "\<lambda>s. s", OF _ _ _ _ _ refl]
    by (simp add: s sample_box_world_def sample_box_def dict_get_def used_def count_in_def audit_log_new_def)
qed

end
