(* ===== verification/RuntimeTools.thy ===== *)
theory RuntimeTools
  imports BuiltinTools Migration Approval
begin

section \<open>The agent runtime: executing a tool call\<close>

text \<open>
  \<open>AgentRuntime._execute_tool\<close> of \<open>owlclaw/agent/runtime/runtime.py\<close> and what it calls: the
  permissions and the rate of \<open>RuntimeGuards\<close>, the built-in tools, the registry, the migration gate, the approval queue, the in-memory ledger and the audit log.
  Tracing is left out. An exception that leaves the handler of a tool call is an \<open>Inl\<close>.
\<close>

subsection \<open>Data\<close>

record tool_call =
  tl_id :: "string option"
  tl_name :: "string option"
  tl_arguments :: raw_arguments

text \<open>
  What the runtime keeps that a tool call reads or changes. The built-in tools have the registry
  and the ledger of the runtime, as \<open>OwlClaw.create_agent_runtime\<close> builds them.
\<close>

record tool_state =
  ts_agent_id :: string
  ts_config :: pyval
  ts_builtin :: "toolbox option"
  ts_registry :: "registry option"
  ts_capabilities :: "capability_meta list option"
  ts_gate :: "migration_gate option"
  ts_queue :: "approval_queue option"
  ts_ledger :: "memory_ledger option"
  ts_hatchet :: "hatchet option"
  ts_memory :: "memory_system option"
  ts_stamps :: "seconds list"
  ts_audit :: audit_log
  ts_notifier :: bool
  ts_notified :: "(string \<times> pyval) list list"
  ts_tool_calls :: nat

text \<open>The clocks, the drawn identifiers and the random number of one tool call.\<close>

record call_env =
  ce_tool :: tool_env
  ce_box :: box_env
  ce_repr :: "string \<Rightarrow> string"
  ce_mono :: seconds
  ce_now :: micros
  ce_record_id :: uuid
  ce_request_id :: uuid
  ce_file :: file_view
  ce_random :: rat
  ce_ms :: int
  ce_timeout :: string

definition error_dict :: "string \<Rightarrow> pyval" where
  "error_dict m = PDict [(PStr ''error'', PStr m)]"

definition internal_error :: string where
  "internal_error = ''Tool execution failed due to an internal error.''"

subsection \<open>Errors, audit, notification\<close>

fun exception_name :: "py_error \<Rightarrow> string" where
  "exception_name (ValueError m) = ''ValueError''"
| "exception_name (TypeError m) = ''TypeError''"
| "exception_name (KeyError m) = ''KeyError''"
| "exception_name (IndexError m) = ''IndexError''"
| "exception_name (AttributeError m) = ''AttributeError''"
| "exception_name (ArithmeticError m) = ''ArithmeticError''"
| "exception_name (RuntimeError m) = ''RuntimeError''"

fun classify_error :: "py_error \<Rightarrow> string" where
  "classify_error (ValueError m) = ''validation_error''"
| "classify_error e = ''runtime_error''"

definition audit :: "string \<Rightarrow> (string \<times> pyval) list \<Rightarrow> tool_state \<Rightarrow> tool_state" where
  "audit event_type details ts = ts\<lparr>ts_audit := audit_record event_type ''runtime'' details (ts_audit ts)\<rparr>"

definition refused :: "string \<Rightarrow> string \<Rightarrow> agent_run \<Rightarrow> string \<Rightarrow> tool_state \<Rightarrow> (py_error + pyval) \<times> tool_state" where
  "refused event_type tool_name ctx reason ts =
     (Inr (error_dict reason),
      audit event_type [(''tool_name'', PStr tool_name), (''run_id'', PStr (rx_run_id ctx)), (''reason'', PStr reason)] ts)"

definition audit_modified :: "string \<Rightarrow> string \<Rightarrow> agent_run \<Rightarrow> string list \<Rightarrow> tool_state \<Rightarrow> tool_state" where
  "audit_modified event_type tool_name ctx modifications ts =
     (if modifications = [] then ts
      else audit event_type [(''tool_name'', PStr tool_name), (''run_id'', PStr (rx_run_id ctx)),
        (''modifications'', PList (map PStr modifications))] ts)"

definition notify_error :: "agent_run option \<Rightarrow> string \<Rightarrow> string \<Rightarrow> string \<Rightarrow> string \<Rightarrow> tool_state \<Rightarrow> tool_state" where
  "notify_error ctx agent_id stage category message ts =
     (if \<not> ts_notifier ts then ts
      else ts\<lparr>ts_notified := ts_notified ts @ [[(''agent_id'', PStr agent_id),
        (''run_id'', case ctx of None \<Rightarrow> PNone | Some c \<Rightarrow> PStr (rx_run_id c)), (''trigger'', case ctx of None \<Rightarrow> PNone | Some c \<Rightarrow> PStr (rx_trigger c)),
        (''stage'', PStr stage), (''category'', PStr category), (''message'', PStr message)]]\<rparr>)"

subsection \<open>What is recorded\<close>

fun comma_parts :: "string list \<Rightarrow> string list" where
  "comma_parts [] = []"
| "comma_parts (p # ps) = (if py_strip p = [] then comma_parts ps else py_strip p # comma_parts ps)"

definition extract_confirmed_capabilities :: "tool_env \<Rightarrow> pyval \<Rightarrow> string list" where
  "extract_confirmed_capabilities te payload =
     (let names = (\<lambda>items. name_set te (filter (\<lambda>v. v \<noteq> PNone) items)) in
      case dict_get_or payload ''confirmed_capabilities'' PNone of
        PList items \<Rightarrow> names items
      | PTuple items \<Rightarrow> names items
      | PSet items \<Rightarrow> names items
      | PStr s \<Rightarrow> comma_parts (py_split CHR '','' s)
      | _ \<Rightarrow> [])"

definition decision_reasoning :: "tool_env \<Rightarrow> capability_meta option \<Rightarrow> agent_run \<Rightarrow> string" where
  "decision_reasoning te meta ctx =
     te_dumps te (PDict [(PStr ''source'', PStr ''runtime_tool_execution''), (PStr ''trigger'', PStr (rx_trigger ctx)),
       (PStr ''focus'', case rx_focus_tag ctx of None \<Rightarrow> PNone | Some f \<Rightarrow> PStr f),
       (PStr ''risk_level'', PStr (case meta of None \<Rightarrow> ''low'' | Some m \<Rightarrow> risk_word (PStr (cm_risk_level m)))),
       (PStr ''requires_confirmation'', PBool (case meta of None \<Rightarrow> False | Some m \<Rightarrow> cm_requires_confirmation m)),
       (PStr ''confirmed'', PBool (case meta of None \<Rightarrow> False
          | Some m \<Rightarrow> cm_name m \<noteq> [] \<and> cm_name m \<in> set (extract_confirmed_capabilities te (rx_payload ctx))))])"

definition result_dict :: "pyval \<Rightarrow> pyval" where
  "result_dict v = (if is_dict v then v else PDict [(PStr ''result'', v)])"

record migration_view =
  mv_decision :: string
  mv_weight :: int
  mv_risk :: rat
  mv_probability :: rat

definition tool_record ::
  "tool_env \<Rightarrow> agent_run \<Rightarrow> string \<Rightarrow> capability_meta option \<Rightarrow> pyval \<Rightarrow> pyval \<Rightarrow> int \<Rightarrow> string \<Rightarrow> string option \<Rightarrow> string \<Rightarrow> migration_view \<Rightarrow> exec_call" where
  "tool_record te ctx tool_name meta input_params output ms status err mode mv =
     \<lparr>xc_tenant = PStr (rx_tenant_id ctx), xc_agent = PStr (rx_agent_id ctx), xc_run = PStr (rx_run_id ctx), xc_capability = PStr tool_name,
      xc_task = PStr (case meta of None \<Rightarrow> ''unknown'' | Some m \<Rightarrow> (case cm_task_type m of None \<Rightarrow> ''unknown'' | Some t \<Rightarrow> if t = [] then ''unknown'' else t)),
      xc_input = input_params, xc_output = output, xc_reasoning = Some (decision_reasoning te meta ctx), xc_time_ms = ms, xc_model = [],
      xc_tokens_in = 0, xc_tokens_out = 0, xc_cost = 0, xc_status = status, xc_error = err, xc_weight = Some (mv_weight mv), xc_mode = Some mode,
      xc_risk = Some (mv_risk mv), xc_approver = None, xc_approved_at = None\<rparr>"

text \<open>A record where an exception of the ledger is swallowed.\<close>

definition try_ledger :: "call_env \<Rightarrow> exec_call \<Rightarrow> tool_state \<Rightarrow> tool_state" where
  "try_ledger ce call ts =
     (case ts_ledger ts of
        None \<Rightarrow> ts
      | Some l \<Rightarrow> (case mem_record_execution (ce_record_id ce) (ce_now ce) call l of Inl e \<Rightarrow> ts | Inr l' \<Rightarrow> ts\<lparr>ts_ledger := Some l'\<rparr>))"

subsection \<open>Migration\<close>

definition build_migration_action :: "tool_env \<Rightarrow> (pyval \<times> pyval) list \<Rightarrow> pyval" where
  "build_migration_action te arguments =
     (let d = PDict arguments;
          amount_raw = (case dict_get d ''amount'' of Some v \<Rightarrow> v | None \<Rightarrow> dict_get_or d ''total_amount'' (PInt 0));
          amount = (case py_float amount_raw of Inl e \<Rightarrow> 0 | Inr r \<Rightarrow> r);
          scope = (case List.find (\<lambda>(k, v). case v of PList xs \<Rightarrow> True | PTuple xs \<Rightarrow> True | _ \<Rightarrow> False) arguments of
              Some (k, PList xs) \<Rightarrow> if 1 < length xs then ''batch'' else ''single''
            | Some (k, PTuple xs) \<Rightarrow> if 1 < length xs then ''batch'' else ''single''
            | _ \<Rightarrow> ''single'');
          operation = strip_lower (text_form te (dict_get_or d ''operation_type'' (PStr ''write'')));
          reversibility = strip_lower (text_form te (dict_get_or d ''reversibility'' (PStr ''reversible'')))
      in PDict [(PStr ''action_type'', PStr (if operation = [] then ''write'' else operation)), (PStr ''impact_scope'', PStr scope),
           (PStr ''amount'', PFloat amount), (PStr ''reversibility'', PStr (if reversibility = [] then ''reversible'' else reversibility))])"

fun decision_word :: "migration_decision \<Rightarrow> string" where
  "decision_word OBSERVE_ONLY = ''observe_only''"
| "decision_word AUTO_EXECUTE = ''auto_execute''"
| "decision_word REQUIRE_APPROVAL = ''require_approval''"

definition auto_execute :: migration_view where
  "auto_execute = \<lparr>mv_decision = ''auto_execute'', mv_weight = 100, mv_risk = 0, mv_probability = 1\<rparr>"

definition evaluate_migration :: "call_env \<Rightarrow> string \<Rightarrow> (pyval \<times> pyval) list \<Rightarrow> pyval \<Rightarrow> tool_state \<Rightarrow> migration_view \<times> tool_state" where
  "evaluate_migration ce tool_name arguments skill_owlclaw ts =
     (case ts_gate ts of
        None \<Rightarrow> (auto_execute, ts)
      | Some mg \<Rightarrow>
          (case migration_evaluate (ce_file ce) (ce_random ce) tool_name (build_migration_action (ce_tool ce) arguments) skill_owlclaw mg of
             (Inl e, mg') \<Rightarrow> (auto_execute, ts\<lparr>ts_gate := Some mg'\<rparr>)
           | (Inr mo, mg') \<Rightarrow>
               (\<lparr>mv_decision = decision_word (mo_decision mo), mv_weight = mo_weight mo, mv_risk = mo_risk mo, mv_probability = mo_probability mo\<rparr>,
                ts\<lparr>ts_gate := Some mg'\<rparr>)))"

definition create_approval_request ::
  "call_env \<Rightarrow> agent_run \<Rightarrow> string \<Rightarrow> (pyval \<times> pyval) list \<Rightarrow> migration_view \<Rightarrow> tool_state \<Rightarrow> pyval \<times> tool_state" where
  "create_approval_request ce ctx tool_name arguments mv ts =
     (case ts_queue ts of
        None \<Rightarrow> (PDict [(PStr ''status'', PStr ''pending_approval''), (PStr ''tool'', PStr tool_name), (PStr ''request_id'', PNone),
           (PStr ''reason'', PStr ''approval queue unavailable''), (PStr ''migration_weight'', PInt (mv_weight mv))], ts)
      | Some q \<Rightarrow>
          (case aq_create (ce_request_id ce) (ce_now ce) (rx_tenant_id ctx) (rx_agent_id ctx) tool_name arguments
             (Some (''risk='' @ te_fixed (ce_tool ce) 4 (mv_risk mv))) q of
             (request, q') \<Rightarrow>
               (PDict [(PStr ''status'', PStr ''pending_approval''), (PStr ''tool'', PStr tool_name), (PStr ''request_id'', PStr (ar_id request)),
                  (PStr ''migration_weight'', PInt (mv_weight mv)), (PStr ''risk_level'', PFloat (mv_risk mv)),
                  (PStr ''execution_probability'', PFloat (mv_probability mv))], ts\<lparr>ts_queue := Some q'\<rparr>)))"

definition observed_dict :: "string \<Rightarrow> (pyval \<times> pyval) list \<Rightarrow> migration_view \<Rightarrow> pyval" where
  "observed_dict tool_name arguments mv =
     PDict [(PStr ''status'', PStr ''observe_only''), (PStr ''tool'', PStr tool_name),
       (PStr ''reason'', PStr ''migration_weight is 0 or policy returned observe_only''), (PStr ''arguments'', PDict arguments),
       (PStr ''risk_level'', PFloat (mv_risk mv)), (PStr ''migration_weight'', PInt (mv_weight mv))]"

definition record_migration_non_execute ::
  "call_env \<Rightarrow> agent_run \<Rightarrow> string \<Rightarrow> capability_meta option \<Rightarrow> (pyval \<times> pyval) list \<Rightarrow> pyval \<Rightarrow> string \<Rightarrow> migration_view \<Rightarrow> tool_state \<Rightarrow> tool_state" where
  "record_migration_non_execute ce ctx tool_name meta arguments output mode mv ts =
     try_ledger ce (tool_record (ce_tool ce) ctx tool_name meta (PDict arguments) output 0
       (if mode = ''observe_only'' then ''skipped'' else ''pending'') None mode mv) ts"

subsection \<open>The call\<close>

text \<open>The name of a call: a text that is not blank, stripped.\<close>

definition call_name :: "tool_call \<Rightarrow> string option" where
  "call_name tc = (case tl_name tc of None \<Rightarrow> None | Some n \<Rightarrow> if py_strip n = [] then None else Some (py_strip n))"

text \<open>The built-in tools on what they share with the runtime.\<close>

definition run_builtin :: "call_env \<Rightarrow> string \<Rightarrow> pyval \<Rightarrow> tool_ctx \<Rightarrow> toolbox \<Rightarrow> tool_state \<Rightarrow> (tool_raise + pyval) \<times> tool_state" where
  "run_builtin ce tool_name arguments tctx b ts =
     (case execute_builtin (ce_box ce) (ce_repr ce) tool_name arguments tctx
        \<lparr>tw_box = b, tw_registry = ts_registry ts, tw_ledger = ts_ledger ts, tw_hatchet = ts_hatchet ts, tw_memory = ts_memory ts\<rparr> of
        (r, w) \<Rightarrow> (r, ts\<lparr>ts_builtin := Some (tw_box w), ts_ledger := tw_ledger w, ts_hatchet := tw_hatchet w, ts_memory := tw_memory w\<rparr>))"

definition sanitized_arguments :: "call_env \<Rightarrow> string \<Rightarrow> agent_run \<Rightarrow> (pyval \<times> pyval) list \<Rightarrow> tool_state \<Rightarrow> (pyval \<times> pyval) list \<times> tool_state" where
  "sanitized_arguments ce tool_name ctx arguments ts =
     (case sanitize_tool_payload (ce_tool ce) (''tool_args:'' @ tool_name) (PDict arguments) of
        (clean, mods) \<Rightarrow> (dict_entries clean, audit_modified ''tool_arguments_sanitized'' tool_name ctx mods ts))"

definition sanitized_result :: "call_env \<Rightarrow> string \<Rightarrow> agent_run \<Rightarrow> pyval \<Rightarrow> tool_state \<Rightarrow> pyval \<times> tool_state" where
  "sanitized_result ce tool_name ctx result ts =
     (case sanitize_tool_payload (ce_tool ce) (''tool_result:'' @ tool_name) result of
        (clean, mods) \<Rightarrow> (clean, audit_modified ''tool_result_sanitized'' tool_name ctx mods ts))"

definition count_call :: "tool_state \<Rightarrow> tool_state" where
  "count_call ts = ts\<lparr>ts_tool_calls := Suc (ts_tool_calls ts)\<rparr>"

definition call_builtin :: "call_env \<Rightarrow> agent_run \<Rightarrow> string \<Rightarrow> (pyval \<times> pyval) list \<Rightarrow> toolbox \<Rightarrow> tool_state \<Rightarrow> (py_error + pyval) \<times> tool_state" where
  "call_builtin ce ctx tool_name arguments b ts =
     (case sanitized_arguments ce tool_name ctx arguments ts of
        (clean, ts1) \<Rightarrow>
          (case tool_ctx_new (PStr (rx_agent_id ctx)) (PStr (rx_run_id ctx)) (PStr (rx_tenant_id ctx)) of
             Inl e \<Rightarrow> (Inl e, ts1)
           | Inr tctx \<Rightarrow>
               (case run_builtin ce tool_name (PDict clean) tctx b (count_call ts1) of
                  (Inl e, ts2) \<Rightarrow> (Inr (error_dict internal_error), ts2)
                | (Inr v, ts2) \<Rightarrow> (case sanitized_result ce tool_name ctx v ts2 of (out, ts3) \<Rightarrow> (Inr out, ts3)))))"

text \<open>\<open>invoke_handler(tool_name, **arguments)\<close>: a key that is not a text, or that names a parameter, is a \<open>TypeError\<close>.\<close>

fun keyword_arguments :: "(pyval \<times> pyval) list \<Rightarrow> py_error + kwargs" where
  "keyword_arguments [] = Inr []"
| "keyword_arguments ((PStr k, v) # rest) =
     (if k = ''self'' \<or> k = ''skill_name'' then Inl (TypeError ''got multiple values for argument'')
      else and_then (keyword_arguments rest) (\<lambda>kw. Inr ((k, v) # kw)))"
| "keyword_arguments (entry # rest) = Inl (TypeError ''keywords must be strings'')"

text \<open>The two clauses for an exception of the handler or of the ledger.\<close>

definition tool_failed ::
  "call_env \<Rightarrow> agent_run \<Rightarrow> string \<Rightarrow> capability_meta option \<Rightarrow> (pyval \<times> pyval) list \<Rightarrow> migration_view \<Rightarrow> py_error \<Rightarrow> tool_state \<Rightarrow> pyval \<times> tool_state" where
  "tool_failed ce ctx tool_name meta arguments mv e ts =
     (case e of
        ValueError m \<Rightarrow> (error_dict (''Capability '' @ quoted_name tool_name @ '' is not registered''), ts)
      | _ \<Rightarrow>
          (error_dict internal_error,
           try_ledger ce (tool_record (ce_tool ce) ctx tool_name meta (PDict arguments) PNone (ce_ms ce) ''error'' (Some (exception_name e)) ''auto'' mv)
             (notify_error (Some ctx) (ts_agent_id ts) ''tool_execution'' (classify_error e) (tool_name @ '': '' @ exception_name e) ts)))"

definition record_success ::
  "call_env \<Rightarrow> agent_run \<Rightarrow> string \<Rightarrow> capability_meta option \<Rightarrow> (pyval \<times> pyval) list \<Rightarrow> migration_view \<Rightarrow> pyval \<Rightarrow> tool_state \<Rightarrow> pyval \<times> tool_state" where
  "record_success ce ctx tool_name meta arguments mv result ts =
     (case ts_ledger ts of
        None \<Rightarrow> (result, ts)
      | Some l \<Rightarrow>
          (case mem_record_execution (ce_record_id ce) (ce_now ce)
             (tool_record (ce_tool ce) ctx tool_name meta (PDict arguments) (result_dict result) (ce_ms ce) ''success'' None ''auto'' mv) l of
             Inl e \<Rightarrow> tool_failed ce ctx tool_name meta arguments mv e ts
           | Inr l' \<Rightarrow> (result, ts\<lparr>ts_ledger := Some l'\<rparr>)))"

definition invoke_capability ::
  "call_env \<Rightarrow> agent_run \<Rightarrow> string \<Rightarrow> capability_meta option \<Rightarrow> (pyval \<times> pyval) list \<Rightarrow> migration_view \<Rightarrow> registry \<Rightarrow> tool_state \<Rightarrow> pyval \<times> tool_state" where
  "invoke_capability ce ctx tool_name meta arguments mv cy ts =
     (case keyword_arguments arguments of
        Inl e \<Rightarrow> tool_failed ce ctx tool_name meta arguments mv e ts
      | Inr kw \<Rightarrow>
          (case invoke_handler (ce_timeout ce) tool_name kw cy of
             (r, cy') \<Rightarrow>
               (let ts1 = ts\<lparr>ts_registry := Some cy'\<rparr> in
                case r of
                  Inl e \<Rightarrow> tool_failed ce ctx tool_name meta arguments mv e ts1
                | Inr v \<Rightarrow> (case sanitized_result ce tool_name ctx v ts1 of
                      (result, ts2) \<Rightarrow> record_success ce ctx tool_name meta arguments mv result ts2))))"

definition skill_config :: "skills \<Rightarrow> string \<Rightarrow> pyval" where
  "skill_config ks tool_name =
     (case get_skill ks tool_name of None \<Rightarrow> PDict [] | Some k \<Rightarrow> if is_dict (sk_config k) then sk_config k else PDict [])"

definition run_capabilities :: "registry \<Rightarrow> tool_state \<Rightarrow> capability_meta list" where
  "run_capabilities cy ts = (case ts_capabilities ts of Some cs \<Rightarrow> cs | None \<Rightarrow> list_capabilities cy)"

definition builtin_schemas :: "tool_state \<Rightarrow> pyval list" where
  "builtin_schemas ts = (case ts_builtin ts of None \<Rightarrow> [] | Some b \<Rightarrow> get_tool_schemas)"

text \<open>The gate decides between observing, asking and acting.\<close>

definition decide_capability ::
  "call_env \<Rightarrow> agent_run \<Rightarrow> string \<Rightarrow> (pyval \<times> pyval) list \<Rightarrow> registry \<Rightarrow> tool_state \<Rightarrow> pyval \<times> tool_state" where
  "decide_capability ce ctx tool_name arguments cy ts =
     (let meta = get_capability_metadata tool_name cy in
      case evaluate_migration ce tool_name arguments (skill_config (cy_skills cy) tool_name) ts of
        (mv, ts1) \<Rightarrow>
          if mv_decision mv = ''observe_only'' then
            (let observed = observed_dict tool_name arguments mv
             in (observed, record_migration_non_execute ce ctx tool_name meta arguments observed ''observe_only'' mv ts1))
          else if mv_decision mv = ''require_approval'' then
            (case create_approval_request ce ctx tool_name arguments mv ts1 of
               (answer, ts2) \<Rightarrow> (answer, record_migration_non_execute ce ctx tool_name meta arguments answer ''pending_approval'' mv ts2))
          else invoke_capability ce ctx tool_name meta arguments mv cy (count_call ts1))"

definition call_capability ::
  "call_env \<Rightarrow> agent_run \<Rightarrow> string \<Rightarrow> (pyval \<times> pyval) list \<Rightarrow> registry \<Rightarrow> tool_state \<Rightarrow> (py_error + pyval) \<times> tool_state" where
  "call_capability ce ctx tool_name arguments cy ts =
     (case sanitized_arguments ce tool_name ctx (normalize_capability_arguments arguments ctx) ts of
        (clean, ts1) \<Rightarrow>
          (case validate_tool_arguments (ce_tool ce) (builtin_schemas ts1) (capability_schemas (cy_skills cy) (run_capabilities cy ts1)) tool_name clean of
             Inl e \<Rightarrow> (Inl e, ts1)
           | Inr (Some reason) \<Rightarrow> refused ''tool_arguments_validation_failed'' tool_name ctx reason ts1
           | Inr None \<Rightarrow> (case decide_capability ce ctx tool_name clean cy ts1 of (out, ts2) \<Rightarrow> (Inr out, ts2))))"

definition execute_tool :: "call_env \<Rightarrow> agent_run \<Rightarrow> tool_call \<Rightarrow> tool_state \<Rightarrow> (py_error + pyval) \<times> tool_state" where
  "execute_tool ce ctx tc ts =
     (case call_name tc of
        None \<Rightarrow> (Inr (error_dict ''Invalid tool call: missing function name''), ts)
      | Some tool_name \<Rightarrow>
          (case parse_arguments (ce_tool ce) tool_name (tl_arguments tc) of
             Inl reason \<Rightarrow> (Inr (error_dict reason), ts)
           | Inr arguments \<Rightarrow>
               (case enforce_tool_permissions (ce_tool ce) (ts_config ts) tool_name of
                  Some reason \<Rightarrow> refused ''tool_permission_denied'' tool_name ctx reason ts
                | None \<Rightarrow>
                    (case enforce_rate_limit (ts_config ts) (ce_mono ce) tool_name (ts_stamps ts) of
                       (Some reason, stamps) \<Rightarrow> refused ''tool_rate_limited'' tool_name ctx reason (ts\<lparr>ts_stamps := stamps\<rparr>)
                     | (None, stamps) \<Rightarrow>
                         (let ts1 = ts\<lparr>ts_stamps := stamps\<rparr> in
                          case (ts_builtin ts1, is_builtin tool_name, ts_registry ts1) of
                            (Some b, True, _) \<Rightarrow> call_builtin ce ctx tool_name arguments b ts1
                          | (_, _, None) \<Rightarrow> (Inr (error_dict (''No capability registry configured for tool '' @ quoted_name tool_name)), ts1)
                          | (_, _, Some cy) \<Rightarrow> call_capability ce ctx tool_name arguments cy ts1)))))"

subsection \<open>Facts\<close>

text \<open>The calls that reached handlers of the registry.\<close>

definition handler_calls :: "tool_state \<Rightarrow> (string \<times> kwargs) list" where
  "handler_calls ts = (case ts_registry ts of None \<Rightarrow> [] | Some cy \<Rightarrow> cy_calls cy)"

text \<open>The ledger after a call is the ledger before it with one record, unless the ledger refuses that record.\<close>

definition ledger_recorded :: "call_env \<Rightarrow> exec_call \<Rightarrow> tool_state \<Rightarrow> tool_state \<Rightarrow> bool" where
  "ledger_recorded ce c ts ts' \<longleftrightarrow>
     ts_ledger ts' = (case ts_ledger ts of None \<Rightarrow> None
       | Some l \<Rightarrow> Some (case mem_record_execution (ce_record_id ce) (ce_now ce) c l of Inl e \<Rightarrow> l | Inr l' \<Rightarrow> l'))"

lemma try_ledger_recorded: "ledger_recorded ce c ts (try_ledger ce c ts)"
  by (simp add: ledger_recorded_def try_ledger_def split: option.splits sum.splits)

lemma tool_frames [simp]:
  "ts_registry (audit t d ts) = ts_registry ts" "ts_ledger (audit t d ts) = ts_ledger ts"
  "ts_registry (audit_modified t n ctx ms ts) = ts_registry ts" "ts_ledger (audit_modified t n ctx ms ts) = ts_ledger ts"
  "ts_registry (notify_error c a s k m ts) = ts_registry ts" "ts_ledger (notify_error c a s k m ts) = ts_ledger ts"
  "ts_registry (try_ledger ce x ts) = ts_registry ts" "ts_registry (count_call ts) = ts_registry ts" "ts_ledger (count_call ts) = ts_ledger ts"
  "ts_registry (snd (sanitized_arguments ce n ctx as ts)) = ts_registry ts" "ts_ledger (snd (sanitized_arguments ce n ctx as ts)) = ts_ledger ts"
  "ts_registry (snd (sanitized_result ce n ctx v ts)) = ts_registry ts" "ts_ledger (snd (sanitized_result ce n ctx v ts)) = ts_ledger ts"
  "ts_registry (snd (evaluate_migration ce n as sk ts)) = ts_registry ts" "ts_ledger (snd (evaluate_migration ce n as sk ts)) = ts_ledger ts"
  "ts_registry (snd (create_approval_request ce ctx n as mv ts)) = ts_registry ts"
  "ts_ledger (snd (create_approval_request ce ctx n as mv ts)) = ts_ledger ts"
  "ts_registry (snd (refused t n ctx r ts)) = ts_registry ts"
  by (simp_all add: audit_def audit_modified_def notify_error_def try_ledger_def count_call_def sanitized_arguments_def sanitized_result_def
      evaluate_migration_def create_approval_request_def refused_def case_prod_beta split: option.splits sum.splits)

lemma ledger_recorded_cong: "ts_ledger ts = ts_ledger ts1 \<Longrightarrow> ledger_recorded ce c ts1 ts' \<Longrightarrow> ledger_recorded ce c ts ts'"
  by (simp add: ledger_recorded_def)

lemma tool_failed_registry [simp]: "ts_registry (snd (tool_failed ce ctx n meta as mv e ts)) = ts_registry ts"
  by (simp add: tool_failed_def split: py_error.splits)

lemma record_success_registry [simp]: "ts_registry (snd (record_success ce ctx n meta as mv r ts)) = ts_registry ts"
  by (simp add: record_success_def split: option.splits sum.splits)

text \<open>The records of a call that was executed.\<close>

definition call_record :: "call_env \<Rightarrow> agent_run \<Rightarrow> string \<Rightarrow> capability_meta option \<Rightarrow> (pyval \<times> pyval) list \<Rightarrow> migration_view \<Rightarrow> exec_call \<Rightarrow> bool" where
  "call_record ce ctx n meta as mv c \<longleftrightarrow>
     (\<exists>out. c = tool_record (ce_tool ce) ctx n meta (PDict as) out (ce_ms ce) ''success'' None ''auto'' mv)
     \<or> (\<exists>err. c = tool_record (ce_tool ce) ctx n meta (PDict as) PNone (ce_ms ce) ''error'' (Some err) ''auto'' mv)"

lemma require_text_error: "require_text v n = Inl e \<Longrightarrow> \<exists>m. e = ValueError m"
  by (auto simp: require_text_def Let_def split: pyval.splits if_splits)

lemma mem_record_error: "mem_record_execution i now c l = Inl e \<Longrightarrow> \<exists>m. e = ValueError m"
  by (auto simp: mem_record_execution_def require_ids_def dest: require_text_error split: sum.splits)

lemma record_success_recorded:
  "\<exists>c. call_record ce ctx n meta as mv c \<and> ledger_recorded ce c ts (snd (record_success ce ctx n meta as mv r ts))"
proof (cases "ts_ledger ts")
  case None
  then show ?thesis by (auto simp: call_record_def ledger_recorded_def record_success_def)
next
  case (Some l)
  let ?c = "tool_record (ce_tool ce) ctx n meta (PDict as) (result_dict r) (ce_ms ce) ''success'' None ''auto'' mv"
  have "ledger_recorded ce ?c ts (snd (record_success ce ctx n meta as mv r ts))"
  proof (cases "mem_record_execution (ce_record_id ce) (ce_now ce) ?c l")
    case (Inl e)
    then obtain m where "e = ValueError m" using mem_record_error by blast
    with Inl Some show ?thesis by (simp add: ledger_recorded_def record_success_def tool_failed_def)
  next
    case (Inr l')
    with Some show ?thesis by (simp add: ledger_recorded_def record_success_def)
  qed
  moreover have "call_record ce ctx n meta as mv ?c" unfolding call_record_def by blast
  ultimately show ?thesis by blast
qed

lemma tool_failed_recorded:
  assumes "\<not> (\<exists>m. e = ValueError m)"
  shows "\<exists>c. call_record ce ctx n meta as mv c \<and> ledger_recorded ce c ts (snd (tool_failed ce ctx n meta as mv e ts))"
proof -
  let ?ts = "notify_error (Some ctx) (ts_agent_id ts) ''tool_execution'' (classify_error e) (n @ '': '' @ exception_name e) ts"
  let ?c = "tool_record (ce_tool ce) ctx n meta (PDict as) PNone (ce_ms ce) ''error'' (Some (exception_name e)) ''auto'' mv"
  have "snd (tool_failed ce ctx n meta as mv e ts) = try_ledger ce ?c ?ts"
    using assms by (cases e) (simp_all add: tool_failed_def)
  then have "ledger_recorded ce ?c ts (snd (tool_failed ce ctx n meta as mv e ts))"
    by (simp add: ledger_recorded_cong [OF _ try_ledger_recorded])
  moreover have "call_record ce ctx n meta as mv ?c" unfolding call_record_def by blast
  ultimately show ?thesis by blast
qed

lemma invoke_handler_calls:
  assumes "invoke_handler sh n kw cy = (r, cy')"
  shows "(cy_calls cy' = cy_calls cy)
    \<or> (\<exists>args. cy_calls cy' = cy_calls cy @ [(py_strip n, args)] \<and> map_of (cy_handlers cy) (py_strip n) \<noteq> None \<and> \<not> (\<exists>m. r = Inl (ValueError m)))"
proof (cases "py_strip n = []")
  case True
  with assms show ?thesis by (auto simp: invoke_handler_def registry_name_def)
next
  case False
  show ?thesis
  proof (cases "map_of (cy_handlers cy) (py_strip n)")
    case None
    with assms False show ?thesis by (auto simp: invoke_handler_def registry_name_def)
  next
    case (Some h)
    show ?thesis
    proof (cases "prepare_handler_kwargs (hd_signature h) kw")
      case (Inl e)
      with assms False Some show ?thesis by (auto simp: invoke_handler_def registry_name_def)
    next
      case (Inr args)
      with assms False Some show ?thesis
        by (cases "hd_call h args") (auto simp: invoke_handler_def registry_name_def Let_def)
    qed
  qed
qed

lemma keyword_arguments_error: "keyword_arguments as = Inl e \<Longrightarrow> \<exists>m. e = TypeError m"
  by (induction as rule: keyword_arguments.induct) (auto simp: and_then_def split: if_splits sum.splits)

text \<open>A handler is called once, and the call is recorded, or no handler is called.\<close>

definition called_once ::
  "call_env \<Rightarrow> agent_run \<Rightarrow> string \<Rightarrow> capability_meta option \<Rightarrow> (pyval \<times> pyval) list \<Rightarrow> migration_view \<Rightarrow> registry \<Rightarrow> tool_state \<Rightarrow> tool_state \<Rightarrow> bool" where
  "called_once ce ctx n meta as mv cy ts ts' \<longleftrightarrow>
     (\<exists>args c. handler_calls ts' = cy_calls cy @ [(py_strip n, args)] \<and> map_of (cy_handlers cy) (py_strip n) \<noteq> None
        \<and> call_record ce ctx n meta as mv c \<and> ledger_recorded ce c ts ts')"

lemma ledger_recorded_ex:
  "ts_ledger ts = ts_ledger ts1 \<Longrightarrow> \<exists>c. P c \<and> ledger_recorded ce c ts1 ts' \<Longrightarrow> \<exists>c. P c \<and> ledger_recorded ce c ts ts'"
  by (auto intro: ledger_recorded_cong)

lemma invoke_capability_calls:
  assumes "ts_registry ts = Some cy"
  shows "handler_calls (snd (invoke_capability ce ctx n meta as mv cy ts)) = cy_calls cy
    \<or> called_once ce ctx n meta as mv cy ts (snd (invoke_capability ce ctx n meta as mv cy ts))"
proof (cases "keyword_arguments as")
  case (Inl e)
  then show ?thesis using assms by (simp add: invoke_capability_def handler_calls_def)
next
  case (Inr kw)
  obtain r cy' where i: "invoke_handler (ce_timeout ce) n kw cy = (r, cy')" by force
  let ?ts1 = "ts\<lparr>ts_registry := Some cy'\<rparr>" and ?ts' = "snd (invoke_capability ce ctx n meta as mv cy ts)"
  have reg: "handler_calls ?ts' = cy_calls cy'"
    using Inr i by (cases r) (simp_all add: invoke_capability_def Let_def handler_calls_def case_prod_beta)
  show ?thesis using invoke_handler_calls [OF i]
  proof
    assume "cy_calls cy' = cy_calls cy"
    then show ?thesis using reg by simp
  next
    assume ex: "\<exists>args. cy_calls cy' = cy_calls cy @ [(py_strip n, args)] \<and> map_of (cy_handlers cy) (py_strip n) \<noteq> None
      \<and> \<not> (\<exists>m. r = Inl (ValueError m))"
    then have ok: "r = Inl e \<Longrightarrow> \<not> (\<exists>m. e = ValueError m)" for e by blast
    have "\<exists>c. call_record ce ctx n meta as mv c \<and> ledger_recorded ce c ts ?ts'"
    proof (cases r)
      case (Inl e)
      then have "?ts' = snd (tool_failed ce ctx n meta as mv e ?ts1)" using Inr i by (simp add: invoke_capability_def Let_def)
      then show ?thesis using ledger_recorded_ex [OF _ tool_failed_recorded [OF ok [OF Inl], of ce ctx n meta as mv ?ts1], of ts] by simp
    next
      case (Inr v)
      obtain x ts2 where s: "sanitized_result ce n ctx v ?ts1 = (x, ts2)" by force
      then have "ts_ledger ts2 = ts_ledger ts" using tool_frames(13) [of ce n ctx v ?ts1] by simp
      moreover have "?ts' = snd (record_success ce ctx n meta as mv x ts2)"
        using Inr i s \<open>keyword_arguments as = Inr kw\<close> by (simp add: invoke_capability_def Let_def)
      ultimately show ?thesis using ledger_recorded_ex [OF _ record_success_recorded [of ce ctx n meta as mv ts2 x], of ts] by simp
    qed
    with ex reg show ?thesis by (auto simp: called_once_def)
  qed
qed

lemma called_once_cong:
  "ts_ledger ts = ts_ledger ts1 \<Longrightarrow> called_once ce ctx n meta as mv cy ts1 ts' \<Longrightarrow> called_once ce ctx n meta as mv cy ts ts'"
  unfolding called_once_def using ledger_recorded_cong by blast

text \<open>What lets a capability be called: the decision of the gate on its arguments.\<close>

definition gate_view :: "call_env \<Rightarrow> string \<Rightarrow> (pyval \<times> pyval) list \<Rightarrow> registry \<Rightarrow> tool_state \<Rightarrow> migration_view" where
  "gate_view ce n as cy ts = fst (evaluate_migration ce n as (skill_config (cy_skills cy) n) ts)"

lemma record_non_execute_registry [simp]: "ts_registry (record_migration_non_execute ce ctx n meta as out mode mv ts) = ts_registry ts"
  by (simp add: record_migration_non_execute_def)

lemma decision_word_cases: "decision_word d \<in> {''observe_only'', ''auto_execute'', ''require_approval''}"
  by (cases d) simp_all

lemma gate_view_word: "mv_decision (gate_view ce n as cy ts) \<in> {''observe_only'', ''auto_execute'', ''require_approval''}"
proof (cases "ts_gate ts")
  case None
  then show ?thesis by (simp add: gate_view_def evaluate_migration_def auto_execute_def)
next
  case (Some mg)
  obtain r mg' where m: "migration_evaluate (ce_file ce) (ce_random ce) n (build_migration_action (ce_tool ce) as) (skill_config (cy_skills cy) n) mg = (r, mg')"
    by force
  show ?thesis using Some m decision_word_cases by (cases r) (simp_all add: gate_view_def evaluate_migration_def auto_execute_def)
qed

lemma decide_capability_calls:
  assumes "ts_registry ts = Some cy"
  shows "handler_calls (snd (decide_capability ce ctx n as cy ts)) = cy_calls cy
    \<or> (mv_decision (gate_view ce n as cy ts) = ''auto_execute''
        \<and> called_once ce ctx n (get_capability_metadata n cy) as (gate_view ce n as cy ts) cy ts (snd (decide_capability ce ctx n as cy ts)))"
proof -
  obtain mv ts1 where e: "evaluate_migration ce n as (skill_config (cy_skills cy) n) ts = (mv, ts1)" by force
  have ts1: "ts_registry ts1 = Some cy" "ts_ledger ts1 = ts_ledger ts"
    using tool_frames(14,15) [of ce n as "skill_config (cy_skills cy) n" ts] e assms by simp_all
  have mv: "gate_view ce n as cy ts = mv" by (simp add: gate_view_def e)
  let ?meta = "get_capability_metadata n cy"
  consider "mv_decision mv = ''observe_only''" | "mv_decision mv = ''require_approval''" | "mv_decision mv = ''auto_execute''"
    using gate_view_word [of ce n as cy ts] by (auto simp: mv)
  then show ?thesis
  proof cases
    case 1
    then show ?thesis using ts1 by (simp add: decide_capability_def Let_def e handler_calls_def)
  next
    case 2
    then show ?thesis using ts1 by (simp add: decide_capability_def Let_def e handler_calls_def case_prod_beta)
  next
    case 3
    have "ts_registry (count_call ts1) = Some cy" "ts_ledger ts = ts_ledger (count_call ts1)" using ts1 by simp_all
    then show ?thesis
      using 3 invoke_capability_calls [of "count_call ts1" cy ce ctx n ?meta as mv] called_once_cong [of ts "count_call ts1"]
      by (auto simp: decide_capability_def Let_def e mv)
  qed
qed

text \<open>The arguments a capability is called with: unwrapped, or the session, and sanitised.\<close>

definition clean_arguments :: "call_env \<Rightarrow> string \<Rightarrow> agent_run \<Rightarrow> (pyval \<times> pyval) list \<Rightarrow> (pyval \<times> pyval) list" where
  "clean_arguments ce n ctx as =
     dict_entries (fst (sanitize_tool_payload (ce_tool ce) (''tool_args:'' @ n) (PDict (normalize_capability_arguments as ctx))))"

lemma sanitized_arguments_split:
  "sanitized_arguments ce n ctx (normalize_capability_arguments as ctx) ts =
     (clean_arguments ce n ctx as, snd (sanitized_arguments ce n ctx (normalize_capability_arguments as ctx) ts))"
  by (simp add: sanitized_arguments_def clean_arguments_def case_prod_beta)

lemma audit_keeps [simp]:
  "builtin_schemas (snd (sanitized_arguments ce n ctx as ts)) = builtin_schemas ts"
  "run_capabilities cy (snd (sanitized_arguments ce n ctx as ts)) = run_capabilities cy ts"
  "gate_view ce n as' cy (snd (sanitized_arguments ce n ctx as ts)) = gate_view ce n as' cy ts"
  by (simp_all add: sanitized_arguments_def audit_modified_def audit_def case_prod_beta builtin_schemas_def run_capabilities_def
      gate_view_def evaluate_migration_def split: option.splits sum.splits prod.splits)

lemma call_capability_calls:
  assumes "ts_registry ts = Some cy"
  shows "handler_calls (snd (call_capability ce ctx n as cy ts)) = cy_calls cy
    \<or> (validate_tool_arguments (ce_tool ce) (builtin_schemas ts) (capability_schemas (cy_skills cy) (run_capabilities cy ts)) n (clean_arguments ce n ctx as) = Inr None
        \<and> mv_decision (gate_view ce n (clean_arguments ce n ctx as) cy ts) = ''auto_execute''
        \<and> called_once ce ctx n (get_capability_metadata n cy) (clean_arguments ce n ctx as) (gate_view ce n (clean_arguments ce n ctx as) cy ts) cy ts
            (snd (call_capability ce ctx n as cy ts)))"
proof -
  let ?clean = "clean_arguments ce n ctx as" and ?ts1 = "snd (sanitized_arguments ce n ctx (normalize_capability_arguments as ctx) ts)"
  let ?v = "validate_tool_arguments (ce_tool ce) (builtin_schemas ts) (capability_schemas (cy_skills cy) (run_capabilities cy ts)) n ?clean"
  have reg: "ts_registry ?ts1 = Some cy" using assms by simp
  have step: "call_capability ce ctx n as cy ts = (case ?v of Inl e \<Rightarrow> (Inl e, ?ts1)
      | Inr (Some reason) \<Rightarrow> refused ''tool_arguments_validation_failed'' n ctx reason ?ts1
      | Inr None \<Rightarrow> (case decide_capability ce ctx n ?clean cy ?ts1 of (out, ts2) \<Rightarrow> (Inr out, ts2)))"
    unfolding call_capability_def by (subst sanitized_arguments_split) simp
  consider e where "?v = Inl e" | r where "?v = Inr (Some r)" | "?v = Inr None"
    by (metis not_Some_eq sum.exhaust)
  then show ?thesis
  proof cases
    case 1
    then show ?thesis using reg by (simp add: step handler_calls_def)
  next
    case 2
    then show ?thesis using reg by (simp add: step handler_calls_def)
  next
    case 3
    then have "snd (call_capability ce ctx n as cy ts) = snd (decide_capability ce ctx n ?clean cy ?ts1)" by (simp add: step case_prod_beta)
    then show ?thesis
      using 3 decide_capability_calls [OF reg, of ce ctx n ?clean] called_once_cong [of ts ?ts1] by auto
  qed
qed

lemma call_builtin_registry [simp]: "ts_registry (snd (call_builtin ce ctx n as b ts)) = ts_registry ts"
  by (simp add: call_builtin_def run_builtin_def case_prod_beta split: sum.splits)

text \<open>A call that gets past the guards is handed to the registry.\<close>

lemma execute_tool_cases:
  "handler_calls (snd (execute_tool ce ctx tc ts)) = handler_calls ts
   \<or> (\<exists>n as cy stamps. call_name tc = Some n \<and> ts_registry ts = Some cy \<and> parse_arguments (ce_tool ce) n (tl_arguments tc) = Inr as
      \<and> enforce_tool_permissions (ce_tool ce) (ts_config ts) n = None
      \<and> fst (enforce_rate_limit (ts_config ts) (ce_mono ce) n (ts_stamps ts)) = None
      \<and> (if ts_builtin ts = None then True else is_builtin n = False)
      \<and> execute_tool ce ctx tc ts = call_capability ce ctx n as cy (ts\<lparr>ts_stamps := stamps\<rparr>))"
proof (cases "\<exists>n as. call_name tc = Some n \<and> parse_arguments (ce_tool ce) n (tl_arguments tc) = Inr as
    \<and> enforce_tool_permissions (ce_tool ce) (ts_config ts) n = None")
  case False
  then show ?thesis by (auto simp: execute_tool_def handler_calls_def split: option.splits sum.splits)
next
  case True
  then obtain n as where n: "call_name tc = Some n" "parse_arguments (ce_tool ce) n (tl_arguments tc) = Inr as"
    "enforce_tool_permissions (ce_tool ce) (ts_config ts) n = None" by blast
  obtain lim stamps where rate: "enforce_rate_limit (ts_config ts) (ce_mono ce) n (ts_stamps ts) = (lim, stamps)" by force
  show ?thesis
  proof (cases lim)
    case (Some r)
    then show ?thesis using n rate by (simp add: execute_tool_def handler_calls_def)
  next
    case None
    note lim = this
    show ?thesis
    proof (cases "ts_builtin ts \<noteq> None \<and> is_builtin n")
      case True
      then show ?thesis using n rate lim by (auto simp: execute_tool_def handler_calls_def Let_def)
    next
      case False
      then show ?thesis using n rate lim
        by (cases "ts_builtin ts"; cases "ts_registry ts") (auto simp: execute_tool_def handler_calls_def Let_def)
    qed
  qed
qed

lemma stamps_keep [simp]:
  "builtin_schemas (ts\<lparr>ts_stamps := s\<rparr>) = builtin_schemas ts" "run_capabilities cy (ts\<lparr>ts_stamps := s\<rparr>) = run_capabilities cy ts"
  "gate_view ce n as cy (ts\<lparr>ts_stamps := s\<rparr>) = gate_view ce n as cy ts"
  by (simp_all add: builtin_schemas_def run_capabilities_def gate_view_def evaluate_migration_def split: option.splits sum.splits prod.splits)

text \<open>No call changes the configuration.\<close>

lemma config_frames [simp]:
  "ts_config (audit t d ts) = ts_config ts" "ts_config (audit_modified t n ctx ms ts) = ts_config ts"
  "ts_config (notify_error c a s k m ts) = ts_config ts" "ts_config (try_ledger ce x ts) = ts_config ts" "ts_config (count_call ts) = ts_config ts"
  "ts_config (snd (sanitized_arguments ce n ctx as ts)) = ts_config ts" "ts_config (snd (sanitized_result ce n ctx v ts)) = ts_config ts"
  "ts_config (snd (evaluate_migration ce n as sk ts)) = ts_config ts" "ts_config (snd (create_approval_request ce ctx n as mv ts)) = ts_config ts"
  "ts_config (snd (refused t n ctx r ts)) = ts_config ts" "ts_config (record_migration_non_execute ce ctx n meta as out mode mv ts) = ts_config ts"
  "ts_config (snd (run_builtin ce n v tctx b ts)) = ts_config ts"
  by (simp_all add: audit_def audit_modified_def notify_error_def try_ledger_def count_call_def sanitized_arguments_def sanitized_result_def
      evaluate_migration_def create_approval_request_def refused_def record_migration_non_execute_def run_builtin_def case_prod_beta
      split: option.splits sum.splits)

lemma tool_failed_config [simp]: "ts_config (snd (tool_failed ce ctx n meta as mv e ts)) = ts_config ts"
  by (simp add: tool_failed_def split: py_error.splits)

lemma record_success_config [simp]: "ts_config (snd (record_success ce ctx n meta as mv r ts)) = ts_config ts"
  by (simp add: record_success_def split: option.splits sum.splits)

lemma invoke_capability_config [simp]: "ts_config (snd (invoke_capability ce ctx n meta as mv cy ts)) = ts_config ts"
  by (simp add: invoke_capability_def Let_def case_prod_beta split: sum.splits)

lemma decide_capability_config [simp]: "ts_config (snd (decide_capability ce ctx n as cy ts)) = ts_config ts"
  by (simp add: decide_capability_def Let_def case_prod_beta)

lemma call_capability_config [simp]: "ts_config (snd (call_capability ce ctx n as cy ts)) = ts_config ts"
  by (simp add: call_capability_def case_prod_beta split: sum.splits option.splits)

lemma call_builtin_config [simp]: "ts_config (snd (call_builtin ce ctx n as b ts)) = ts_config ts"
  by (simp add: call_builtin_def case_prod_beta split: sum.splits)

lemma execute_tool_config [simp]: "ts_config (snd (execute_tool ce ctx tc ts)) = ts_config ts"
  by (simp add: execute_tool_def Let_def split: option.splits sum.splits prod.splits bool.splits)

subsection \<open>Properties\<close>


end
