(* ===== verification/Knowledge.thy ===== *)
theory Knowledge
  imports RuntimeGuards
begin

section \<open>What a run knows: identity and skills\<close>

text \<open>
  \<open>owlclaw/agent/runtime/identity.py\<close> and \<open>owlclaw/capabilities/knowledge.py\<close>: the two identity
  files and the section of capabilities taken from the second, and the choice of the skills whose
  text goes into a prompt under a budget of tokens. What a file holds, and the full text of a
  skill, are arguments. The Chinese heading of the capabilities section and a byte order mark lie
  outside the code points of the model.
\<close>

subsection \<open>Identity\<close>

datatype load_error = MissingFile string | EmptyFile string | NotLoaded

record identity_files =
  id_soul :: string
  id_identity :: string

definition identity_load :: "string option \<Rightarrow> string option \<Rightarrow> load_error + identity_files" where
  "identity_load soul_file identity_file =
     (case soul_file of
        None \<Rightarrow> Inl (MissingFile ''SOUL.md'')
      | Some soul \<Rightarrow>
          (case identity_file of
             None \<Rightarrow> Inl (MissingFile ''IDENTITY.md'')
           | Some text \<Rightarrow>
               if py_strip soul = [] then Inl (EmptyFile ''SOUL.md'')
               else if py_strip text = [] then Inl (EmptyFile ''IDENTITY.md'')
               else Inr \<lparr>id_soul = soul, id_identity = text\<rparr>))"

definition line_end :: "char \<Rightarrow> bool" where
  "line_end c = (let n = of_char c :: nat in n \<in> {10, 11, 12, 13, 28, 29, 30, 133})"

fun split_lines :: "string \<Rightarrow> string \<Rightarrow> string list" where
  "split_lines line [] = (if line = [] then [] else [line])"
| "split_lines line (c # s) =
     (if c = CHR 0x0D then line # (case s of CHR 0x0A # s' \<Rightarrow> split_lines [] s' | _ \<Rightarrow> split_lines [] s)
      else if line_end c then line # split_lines [] s
      else split_lines (line @ [c]) s)"

definition py_rstrip :: "string \<Rightarrow> string" where
  "py_rstrip s = rev (dropWhile py_space (rev s))"

definition summary_line :: "string \<Rightarrow> string" where
  "summary_line stripped =
     (case py_strip stripped of
        [] \<Rightarrow> stripped
      | c # item \<Rightarrow> if c = CHR ''-'' then (if py_strip item = [] then ''-'' else ''- '' @ py_strip item) else stripped)"

fun summary_lines :: "bool \<Rightarrow> string list \<Rightarrow> string list" where
  "summary_lines in_section [] = []"
| "summary_lines in_section (line # lines) =
     (let stripped = py_rstrip line in
      if strip_lower stripped = ''## my capabilities'' then summary_lines True lines
      else if \<not> in_section then summary_lines False lines
      else if take 2 stripped = ''##'' then []
      else summary_line stripped # summary_lines True lines)"

definition extract_capabilities_summary :: "string \<Rightarrow> string" where
  "extract_capabilities_summary identity =
     (if identity = [] then [] else py_strip (py_join ''\<newline>'' (summary_lines False (split_lines [] identity))))"

definition get_identity :: "identity_files option \<Rightarrow> load_error + string \<times> string" where
  "get_identity loaded =
     (case loaded of None \<Rightarrow> Inl NotLoaded | Some f \<Rightarrow> Inr (id_soul f, extract_capabilities_summary (id_identity f)))"

subsection \<open>Skills in the prompt\<close>

text \<open>The number of words of a text.\<close>

fun words_from :: "bool \<Rightarrow> string \<Rightarrow> nat" where
  "words_from inside [] = 0"
| "words_from inside (c # s) =
     (if py_space c then words_from False s else (if inside then 0 else 1) + words_from True s)"

definition estimate_tokens :: "string \<Rightarrow> nat" where
  "estimate_tokens t = (if py_strip t = [] then 0 else words_from False t)"

text \<open>The tags of a skill, normalised.\<close>

definition skill_tags :: "tool_env \<Rightarrow> pyval \<Rightarrow> string list" where
  "skill_tags te raw =
     (let items = (case raw of PStr s \<Rightarrow> [PStr s] | PList xs \<Rightarrow> xs | _ \<Rightarrow> [])
      in filter (\<lambda>t. t \<noteq> []) (map (\<lambda>v. strip_lower (text_form te v)) items))"

definition matches_focus :: "tool_env \<Rightarrow> skill \<Rightarrow> string option \<Rightarrow> bool" where
  "matches_focus te k focus =
     (case focus of
        None \<Rightarrow> True
      | Some f \<Rightarrow>
          if strip_lower f = [] then True
          else (let declared = map strip_lower (filter (\<lambda>s. py_strip s \<noteq> []) (skill_focus k)) in
            if declared \<noteq> [] then strip_lower f \<in> set declared
            else strip_lower f \<in> set (skill_tags te (dict_get_or (sk_metadata k) ''tags'' (PList [])))))"

text \<open>
  The loop over the names, with what was selected, the names seen and the tokens used. The names
  are lowered before the skill is looked up. A first skill that does not fit is selected alone.
\<close>

record knowledge_base =
  kb_skills :: skills
  kb_content :: "skill \<Rightarrow> string"
  kb_limit :: nat

fun select_loop ::
  "knowledge_base \<Rightarrow> (skill \<Rightarrow> bool) \<Rightarrow> nat \<Rightarrow> string list \<Rightarrow> string list \<Rightarrow> nat \<Rightarrow> string list \<Rightarrow> string list" where
  "select_loop kb wanted budget selected seen used [] = selected"
| "select_loop kb wanted budget selected seen used (raw # names) =
     (let name = strip_lower raw in
      if name = [] \<or> name \<in> set seen then select_loop kb wanted budget selected seen used names
      else (case get_skill (kb_skills kb) name of
          None \<Rightarrow> select_loop kb wanted budget selected (name # seen) used names
        | Some k \<Rightarrow>
            if \<not> wanted k then select_loop kb wanted budget selected (name # seen) used names
            else (let n = estimate_tokens (kb_content kb k) in
              if selected \<noteq> [] \<and> budget < used + n then select_loop kb wanted budget selected (name # seen) used names
              else if selected = [] \<and> budget < n then [sk_name k]
              else select_loop kb wanted budget (selected @ [sk_name k]) (name # seen) (used + n) names)))"

definition token_budget :: "knowledge_base \<Rightarrow> int option \<Rightarrow> int option \<Rightarrow> nat" where
  "token_budget kb max_tokens token_limit =
     (case token_limit of
        Some t \<Rightarrow> if 0 < t then nat t else (case max_tokens of Some m \<Rightarrow> if 0 < m then nat m else kb_limit kb | None \<Rightarrow> kb_limit kb)
      | None \<Rightarrow> (case max_tokens of Some m \<Rightarrow> if 0 < m then nat m else kb_limit kb | None \<Rightarrow> kb_limit kb))"

definition select_skills ::
  "tool_env \<Rightarrow> knowledge_base \<Rightarrow> (skill \<Rightarrow> bool) option \<Rightarrow> int option \<Rightarrow> int option \<Rightarrow> string option \<Rightarrow> string list \<Rightarrow> string list" where
  "select_skills te kb context_filter max_tokens token_limit focus names =
     select_loop kb (\<lambda>k. (case context_filter of None \<Rightarrow> True | Some f \<Rightarrow> f k) \<and> matches_focus te k focus)
       (token_budget kb max_tokens token_limit) [] [] 0 names"

fun dropped_loop :: "knowledge_base \<Rightarrow> string list \<Rightarrow> string list \<Rightarrow> string list \<Rightarrow> string list" where
  "dropped_loop kb selected seen [] = []"
| "dropped_loop kb selected seen (raw # names) =
     (let name = strip_lower raw in
      if name = [] \<or> name \<in> set seen then dropped_loop kb selected seen names
      else (case get_skill (kb_skills kb) name of
          None \<Rightarrow> dropped_loop kb selected (name # seen) names
        | Some k \<Rightarrow>
            (if sk_name k \<notin> set selected then [sk_name k] else []) @ dropped_loop kb selected (name # seen) names))"

record knowledge_report =
  kr_content :: string
  kr_selected :: "string list"
  kr_dropped :: "string list"
  kr_tokens :: "(string \<times> nat) list"
  kr_total :: nat

definition skill_part :: "skill \<Rightarrow> string \<Rightarrow> string" where
  "skill_part k clean =
     ''## Skill: '' @ sk_name k @ ''\<newline>\<newline>**Description:** '' @ sk_description k @ ''\<newline>\<newline>'' @ clean @ ''\<newline>''"

definition get_skills_knowledge_report ::
  "tool_env \<Rightarrow> knowledge_base \<Rightarrow> (skill \<Rightarrow> bool) option \<Rightarrow> int option \<Rightarrow> string option \<Rightarrow> string list \<Rightarrow> knowledge_report" where
  "get_skills_knowledge_report te kb context_filter max_tokens focus names =
     (let selected = select_skills te kb context_filter max_tokens None focus names;
          dropped = dropped_loop kb selected [] names;
          parts = List.map_filter (\<lambda>name. map_option (\<lambda>k. (k, fst (te_sanitize te (kb_content kb k) (''skill:'' @ sk_name k)))) (get_skill (kb_skills kb) name)) selected
      in if parts = [] then \<lparr>kr_content = [], kr_selected = [], kr_dropped = dropped, kr_tokens = [], kr_total = 0\<rparr>
         else (let content = ''# Available Skills\<newline>\<newline>The following Skills describe your capabilities and when to use them:\<newline>\<newline>''
                     @ py_join ''\<newline>---\<newline>\<newline>'' (map (\<lambda>(k, clean). skill_part k clean) parts)
               in \<lparr>kr_content = content, kr_selected = selected, kr_dropped = dropped,
                   kr_tokens = fold (\<lambda>(k, clean) d. AList.update (sk_name k) (estimate_tokens clean) d) parts [],
                   kr_total = estimate_tokens content\<rparr>))"

definition get_all_skills_summary :: "skills \<Rightarrow> string" where
  "get_all_skills_summary ks =
     (if ks = [] then ''No Skills available.''
      else py_join ''\<newline>'' ((''# Available Skills Summary\<newline>\<newline>You have access to the following capabilities:\<newline>'')
        # map (\<lambda>k. ''- **'' @ sk_name k @ ''**: '' @ sk_description k) (sort_asc sk_name (map snd ks))))"

subsection \<open>Facts about the selection\<close>

definition tokens_of :: "knowledge_base \<Rightarrow> string \<Rightarrow> nat" where
  "tokens_of kb name = (case map_of (kb_skills kb) name of None \<Rightarrow> 0 | Some k \<Rightarrow> estimate_tokens (kb_content kb k))"

definition kb_ok :: "knowledge_base \<Rightarrow> bool" where
  "kb_ok kb \<longleftrightarrow> (\<forall>n k. map_of (kb_skills kb) n = Some k \<longrightarrow> sk_name k = n)"

definition fits :: "knowledge_base \<Rightarrow> nat \<Rightarrow> string list \<Rightarrow> bool" where
  "fits kb budget sel \<longleftrightarrow> sum_list (map (tokens_of kb) sel) \<le> budget \<or> length sel = 1"

definition chosen_skill :: "knowledge_base \<Rightarrow> (skill \<Rightarrow> bool) \<Rightarrow> string \<Rightarrow> bool" where
  "chosen_skill kb wanted n = (case map_of (kb_skills kb) n of None \<Rightarrow> False | Some k \<Rightarrow> wanted k)"

lemma select_loop_facts:
  assumes ok: "kb_ok kb"
  shows "sum_list (map (tokens_of kb) sel) = used \<Longrightarrow> used \<le> budget \<Longrightarrow> distinct sel \<Longrightarrow> set sel \<subseteq> set seen \<Longrightarrow> list_all (chosen_skill kb wanted) sel
    \<Longrightarrow> (let r = select_loop kb wanted budget sel seen used names in fits kb budget r \<and> distinct r \<and> list_all (chosen_skill kb wanted) r)"
proof (induction names arbitrary: sel seen used)
  case Nil
  then show ?case by (simp add: fits_def)
next
  case (Cons raw names)
  let ?name = "strip_lower raw"
  show ?case
  proof (cases "?name = [] \<or> ?name \<in> set seen")
    case True
    then show ?thesis using Cons by simp
  next
    case False
    note new = this
    have get: "get_skill (kb_skills kb) ?name = map_of (kb_skills kb) ?name"
      using False by (simp add: get_skill_def py_strip_strip_lower)
    have skip: ?thesis if "select_loop kb wanted budget sel seen used (raw # names) = select_loop kb wanted budget sel (?name # seen) used names"
      unfolding that by (rule Cons.IH) (use Cons.prems in auto)
    show ?thesis
    proof (cases "map_of (kb_skills kb) ?name")
      case None
      then show ?thesis using new get by (intro skip) simp
    next
      case (Some k)
      have name: "sk_name k = ?name" using ok Some by (simp add: kb_ok_def)
      have tokens: "tokens_of kb ?name = estimate_tokens (kb_content kb k)" by (simp add: tokens_of_def Some)
      show ?thesis
      proof (cases "wanted k")
        case False
        then show ?thesis using new get Some by (intro skip) simp
      next
        case True
        note wanted = this
        let ?n = "estimate_tokens (kb_content kb k)"
        consider "sel \<noteq> [] \<and> budget < used + ?n" | "sel = [] \<and> budget < ?n" | "used + ?n \<le> budget"
          using Cons.prems(1) by fastforce
        then show ?thesis
        proof cases
          case 1
          then show ?thesis using new get Some wanted by (intro skip) (simp add: Let_def)
        next
          case 2
          then have "select_loop kb wanted budget sel seen used (raw # names) = [?name]"
            using new get Some wanted name by (simp add: Let_def)
          then show ?thesis using Some wanted by (simp add: fits_def chosen_skill_def)
        next
          case 3
          then have go: "select_loop kb wanted budget sel seen used (raw # names)
              = select_loop kb wanted budget (sel @ [?name]) (?name # seen) (used + ?n) names"
            using new get Some wanted name by (auto simp: Let_def)
          show ?thesis
            unfolding go by (rule Cons.IH) (use Cons.prems 3 new tokens Some wanted in \<open>auto simp: chosen_skill_def\<close>)
        qed
      qed
    qed
  qed
qed

lemma scanned_kb_ok: "kb_ok \<lparr>kb_skills = scan ov d files, kb_content = f, kb_limit = l\<rparr>"
  using scan_name by (simp add: kb_ok_def)

subsection \<open>Properties\<close>

text \<open>
  C27. The skills chosen for a prompt, from skills that were loaded: each is chosen once, is loaded,
  passes the filter and matches the focus, and their texts stay within the token budget, unless a
  single skill is chosen that alone is too long.
\<close>

theorem skills_fit_budget:
  "let kb = \<lparr>kb_skills = scan ov d files, kb_content = f, kb_limit = l\<rparr>; sel = select_skills te kb context_filter max_tokens token_limit focus names in
    distinct sel \<and> (sum_list (map (tokens_of kb) sel) \<le> token_budget kb max_tokens token_limit \<or> length sel = 1)
    \<and> list_all (chosen_skill kb (\<lambda>k. (case context_filter of None \<Rightarrow> True | Some p \<Rightarrow> p k) \<and> matches_focus te k focus)) sel"
  using select_loop_facts [OF scanned_kb_ok [of ov d files f l], of "[]" 0 _ "[]"]
  by (simp add: select_skills_def fits_def Let_def)

end
