(* ===== verification/RuntimeRun.thy ===== *)
theory RuntimeRun
  imports RuntimeTools Knowledge ModelRouter SignalState Heartbeat
begin

section \<open>The agent runtime: a run\<close>

text \<open>
  \<open>AgentRuntime\<close> of \<open>owlclaw/agent/runtime/runtime.py\<close> from \<open>trigger_event\<close> down: the tools a model
  may see and their cache, the prompt and its budget of tokens, the calls of a model with retries
  and fallback models, the loop of decisions, the environment variables of the skills, and the
  run. The signal store is the one in memory that \<open>OwlClaw.create_agent_runtime\<close> gives a runtime.
  Tracing is left out, and so is the cache of the skills' text, which the end of every run empties.
\<close>

subsection \<open>Data\<close>

text \<open>
  A message of a model is a dictionary, whose tool calls the runtime does not see, or an object
  with a content, the calls, the calls as they are put back into the conversation, and what
  \<open>model_dump\<close> gives, if it gives a dictionary.
\<close>

datatype llm_message =
    DictMessage "(pyval \<times> pyval) list"
  | ObjectMessage (om_content: pyval) (om_calls: "tool_call list") (om_shown: pyval) (om_dump: "(pyval \<times> pyval) list option")

text \<open>The choices of an answer, if they are a list, and what it used and cost.\<close>

record llm_response =
  lp_choices :: "llm_message option list option"
  lp_prompt :: int
  lp_completion :: int
  lp_cost :: rat

datatype llm_answer = Answered llm_response | LlmTimeout | LlmFails py_error

type_synonym tools_key = "string \<times> string \<times> string list"

record 'w runtime =
  rt_tools :: tool_state
  rt_filter :: "'w visibility_filter option"
  rt_world :: 'w
  rt_cache :: "(tools_key \<times> pyval list) list"
  rt_router :: "model_router option"
  rt_signals :: "mem_control option"
  rt_heartbeat :: "heartbeat option"
  rt_knowledge :: "knowledge_base option"
  rt_identity :: "string \<times> string"
  rt_model :: string
  rt_ready :: bool
  rt_environ :: "(string \<times> string) list"
  rt_restore :: "(string \<times> string option) list"
  rt_models_called :: "string list"
  rt_ticks :: nat

text \<open>
  What a run meets: the printing and sanitising of texts, the answers of the model, the
  environment of each tool call, identifiers and clock readings (one per tick), the draws of the
  risk gate, what a heartbeat check meets, and after how many rounds the run is cut off.
\<close>

record agent_env =
  ne_tool :: tool_env
  ne_dumps :: "pyval \<Rightarrow> py_error + string"
  ne_answer :: "nat \<Rightarrow> llm_answer"
  ne_call :: "nat \<Rightarrow> call_env"
  ne_tick :: "nat \<Rightarrow> uuid \<times> micros"
  ne_ms :: "nat \<Rightarrow> int"
  ne_draws :: "nat \<Rightarrow> uuid \<times> micros"
  ne_heartbeat :: heartbeat_env
  ne_cut :: "nat option"
  ne_date :: "micros \<Rightarrow> string"

subsection \<open>Visible tools\<close>

definition confirmed_key :: "tool_env \<Rightarrow> pyval \<Rightarrow> string list" where
  "confirmed_key te payload = sort (remdups (extract_confirmed_capabilities te payload))"

definition apply_tool_resource_limits :: "pyval \<Rightarrow> pyval list \<Rightarrow> pyval list" where
  "apply_tool_resource_limits c tools =
     (case dict_get c ''performance'' of
        Some (PDict kvs) \<Rightarrow>
          (case dict_get (PDict kvs) ''max_visible_tools'' of
             Some (PInt n) \<Rightarrow> if 1 \<le> n then take (nat n) tools else tools
           | _ \<Rightarrow> tools)
      | _ \<Rightarrow> tools)"

definition cache_put :: "tools_key \<Rightarrow> pyval list \<Rightarrow> (tools_key \<times> pyval list) list \<Rightarrow> (tools_key \<times> pyval list) list" where
  "cache_put key out cache = (let c = AList.delete key cache @ [(key, out)] in drop (length c - 64) c)"

text \<open>The view of a capability that the filter is given, from its schema and its metadata.\<close>

definition schema_view :: "capability_meta list \<Rightarrow> pyval \<Rightarrow> capability" where
  "schema_view metas schema =
     (let f = dict_get_or schema ''function'' PNone;
          name = (case dict_get_or f ''name'' PNone of PStr s \<Rightarrow> s | _ \<Rightarrow> []);
          description = (case dict_get_or f ''description'' (PStr []) of PStr s \<Rightarrow> s | _ \<Rightarrow> [])
      in case map_of (rev (map (\<lambda>m. (cm_name m, m)) metas)) name of
           None \<Rightarrow> capability_new name description None (PDict []) PNone PNone PNone
         | Some m \<Rightarrow> capability_new name description (cm_task_type m) (cm_constraints m) (PList (map PStr (cm_focus m)))
             (PStr (cm_risk_level m)) (PBool (cm_requires_confirmation m)))"

definition is_builtin_schema :: "tool_state \<Rightarrow> pyval \<Rightarrow> bool" where
  "is_builtin_schema ts schema =
     (case (ts_builtin ts, schema_name schema) of (Some b, PStr s) \<Rightarrow> is_builtin s | _ \<Rightarrow> False)"

definition all_schemas :: "tool_state \<Rightarrow> pyval list" where
  "all_schemas ts = builtin_schemas ts
     @ (case ts_registry ts of None \<Rightarrow> [] | Some cy \<Rightarrow> capability_schemas (cy_skills cy) (run_capabilities cy ts))"

definition store_tools :: "tools_key \<Rightarrow> pyval list \<Rightarrow> 'w runtime \<Rightarrow> pyval list \<times> 'w runtime" where
  "store_tools key out rt = (out, rt\<lparr>rt_cache := cache_put key out (rt_cache rt)\<rparr>)"

definition tools_key_of :: "agent_env \<Rightarrow> agent_run \<Rightarrow> tools_key" where
  "tools_key_of ne ctx = (rx_agent_id ctx, rx_tenant_id ctx, confirmed_key (ne_tool ne) (rx_payload ctx))"

text \<open>The pass of the filter over the schemas that are not those of built-in tools.\<close>

definition governed_tools ::
  "agent_env \<Rightarrow> agent_run \<Rightarrow> 'w visibility_filter \<Rightarrow> 'w runtime \<Rightarrow> py_error + pyval list \<times> 'w runtime" where
  "governed_tools ne ctx vf rt =
     (let ts = rt_tools rt; every = all_schemas ts; caps = filter (\<lambda>s. \<not> is_builtin_schema ts s) every;
          metas = (case ts_registry ts of None \<Rightarrow> [] | Some cy \<Rightarrow> run_capabilities cy ts);
          confirmed = confirmed_key (ne_tool ne) (rx_payload ctx)
      in and_then (run_context_new (PStr (rx_tenant_id ctx)) (if confirmed = [] then None else Some (set confirmed))) (\<lambda>rc.
           case filter_capabilities (ne_draws ne) (map (\<lambda>s. Some (schema_view metas s)) caps) (rx_agent_id ctx) rc vf (rt_world rt) of
             (shown, vf', w) \<Rightarrow>
               Inr (store_tools (tools_key_of ne ctx)
                 (apply_tool_resource_limits (ts_config ts)
                    (take (length every - length caps) every
                     @ filter (\<lambda>s. schema_name s \<in> PStr ` set (map cap_name shown)) caps))
                 (rt\<lparr>rt_filter := Some vf', rt_world := w\<rparr>))))"

definition get_visible_tools :: "agent_env \<Rightarrow> agent_run \<Rightarrow> 'w runtime \<Rightarrow> py_error + pyval list \<times> 'w runtime" where
  "get_visible_tools ne ctx rt =
     (let key = tools_key_of ne ctx; ts = rt_tools rt in
      case map_of (rt_cache rt) key of
        Some tools \<Rightarrow> Inr (tools, rt\<lparr>rt_cache := AList.delete key (rt_cache rt) @ [(key, tools)]\<rparr>)
      | None \<Rightarrow>
          (case rt_filter rt of
             None \<Rightarrow> Inr (store_tools key (apply_tool_resource_limits (ts_config ts) (all_schemas ts)) rt)
           | Some vf \<Rightarrow>
               if filter (\<lambda>s. \<not> is_builtin_schema ts s) (all_schemas ts) = [] \<or> ts_registry ts = None then Inr (all_schemas ts, rt)
               else governed_tools ne ctx vf rt))"

subsection \<open>The prompt\<close>

text \<open>A positive number, as an integer or as digits.\<close>

definition positive_setting :: "pyval \<Rightarrow> int option" where
  "positive_setting raw =
     (case raw of
        PInt i \<Rightarrow> if 0 < i then Some i else None
      | PStr s \<Rightarrow>
          (let t = py_strip s in
           if t \<noteq> [] \<and> list_all is_digit t \<and> 0 < digits_value 0 t then Some (digits_value 0 t) else None)
      | _ \<Rightarrow> None)"

fun first_positive :: "pyval list \<Rightarrow> int option" where
  "first_positive [] = None"
| "first_positive (raw # rest) = (case positive_setting raw of Some i \<Rightarrow> Some i | None \<Rightarrow> first_positive rest)"

definition resolve_skill_token_budget :: "pyval \<Rightarrow> int option" where
  "resolve_skill_token_budget c =
     (let own = [dict_get_or c ''skills_token_limit'' PNone, dict_get_or c ''skills_prompt_token_budget'' PNone];
          governance = dict_get_or c ''governance'' PNone
      in first_positive (own @ (if is_dict governance
           then [dict_get_or governance ''skills_token_limit'' PNone, dict_get_or governance ''skills_prompt_token_budget'' PNone] else [])))"

definition resolve_context_window_limit :: "pyval \<Rightarrow> string \<Rightarrow> int option" where
  "resolve_context_window_limit c model =
     (case first_positive [dict_get_or c ''context_window_tokens'' PNone, dict_get_or c ''max_prompt_tokens'' PNone,
         dict_get_or c ''prompt_context_window'' PNone] of
        Some i \<Rightarrow> Some i
      | None \<Rightarrow> if model = ''gpt-4o'' \<or> model = ''gpt-4o-mini'' then Some 128000 else None)"

definition estimate_text_tokens :: "string \<Rightarrow> int" where
  "estimate_text_tokens t = (if t = [] then 0 else max 1 ((int (length t) + 3) div 4))"

definition truncate_text_to_tokens :: "string \<Rightarrow> int \<Rightarrow> string" where
  "truncate_text_to_tokens t max_tokens =
     (if max_tokens \<le> 0 \<or> t = [] then []
      else if estimate_text_tokens t \<le> max_tokens then t
      else take (nat (max_tokens * 4)) t)"

definition build_system_prompt :: "string \<times> string \<Rightarrow> string \<Rightarrow> nat \<Rightarrow> string" where
  "build_system_prompt identity skills_context tool_count =
     ''# Your Identity\<newline>'' @ fst identity
     @ (if snd identity = [] then [] else ''\<newline># Your Capabilities\<newline>'' @ snd identity)
     @ (if skills_context = [] then [] else ''\<newline># Business Knowledge\<newline>'' @ skills_context)
     @ (if tool_count = 0 then [] else ''\<newline># Available Tools\<newline>You have access to '' @ show_nat tool_count
          @ '' tools. Use function calling to choose actions.\<newline>'')"

definition chat :: "string \<Rightarrow> string \<Rightarrow> pyval" where
  "chat role content = PDict [(PStr ''role'', PStr role), (PStr ''content'', PStr content)]"

definition user_text :: "agent_env \<Rightarrow> agent_run \<Rightarrow> py_error + string" where
  "user_text ne ctx =
     (let parts = [''Trigger: '' @ rx_trigger ctx] @ (case rx_focus_tag ctx of None \<Rightarrow> [] | Some f \<Rightarrow> if f = [] then [] else [''Focus: '' @ f])
      in if dict_entries (rx_payload ctx) = [] then Inr (py_join ''\<newline>'' parts)
         else and_then (ne_dumps ne (rx_payload ctx)) (\<lambda>s. Inr (py_join ''\<newline>'' (parts @ [''Context: '' @ s]))))"

definition clean_message :: "agent_env \<Rightarrow> agent_run \<Rightarrow> string \<Rightarrow> tool_state \<Rightarrow> string \<times> tool_state" where
  "clean_message ne ctx raw_message ts =
     (case te_sanitize (ne_tool ne) raw_message (rx_trigger ctx) of
        (clean, mods) \<Rightarrow>
          (clean, if clean = raw_message then ts
            else ts\<lparr>ts_audit := audit_record ''sanitization'' (rx_trigger ctx)
              [(''agent_id'', PStr (rx_agent_id ctx)), (''run_id'', PStr (rx_run_id ctx)), (''modifications'', PList (map PStr mods))] (ts_audit ts)\<rparr>))"

definition build_user_message :: "agent_env \<Rightarrow> agent_run \<Rightarrow> tool_state \<Rightarrow> py_error + string \<times> tool_state" where
  "build_user_message ne ctx ts = and_then (user_text ne ctx) (\<lambda>raw_message. Inr (clean_message ne ctx raw_message ts))"

text \<open>The system prompt and the user message under the context window of the model.\<close>

definition fit_prompt :: "string \<times> string \<Rightarrow> nat \<Rightarrow> int option \<Rightarrow> string \<Rightarrow> string \<Rightarrow> string \<times> string" where
  "fit_prompt identity n window skills_context user_message =
     (case window of
        None \<Rightarrow> (build_system_prompt identity skills_context n, user_message)
      | Some limit \<Rightarrow>
          (let fixed_prompt = build_system_prompt identity [] n;
               fixed_tokens = estimate_text_tokens fixed_prompt + estimate_text_tokens user_message
           in if limit \<le> fixed_tokens then
                (let system = truncate_text_to_tokens fixed_prompt (max 1 (limit - 1))
                 in (system, truncate_text_to_tokens user_message (max 0 (limit - estimate_text_tokens system))))
              else
                (let skills_budget = limit - fixed_tokens;
                     system = build_system_prompt identity (truncate_text_to_tokens skills_context skills_budget) n;
                     overflow = estimate_text_tokens system + estimate_text_tokens user_message - limit
                 in if 0 < overflow then
                      (build_system_prompt identity (truncate_text_to_tokens skills_context (max 0 (skills_budget - overflow))) n, user_message)
                    else (system, user_message))))"

definition build_messages :: "agent_env \<Rightarrow> agent_run \<Rightarrow> string \<Rightarrow> pyval list \<Rightarrow> 'w runtime \<Rightarrow> py_error + pyval list \<times> 'w runtime" where
  "build_messages ne ctx skills_context tools rt =
     and_then (build_user_message ne ctx (rt_tools rt)) (\<lambda>(user_message, ts).
       case fit_prompt (rt_identity rt) (length tools) (resolve_context_window_limit (ts_config ts) (rt_model rt)) skills_context user_message of
         (system, user) \<Rightarrow> Inr ([chat ''system'' system, chat ''user'' user], rt\<lparr>rt_tools := ts\<rparr>))"

definition skill_has_focus :: "tool_env \<Rightarrow> skills \<Rightarrow> string \<Rightarrow> string \<Rightarrow> bool" where
  "skill_has_focus te ks name focus =
     (case get_skill ks name of
        None \<Rightarrow> False
      | Some k \<Rightarrow>
          if strip_lower focus = [] then False
          else (let declared = skill_tags te (dict_get_or (sk_config k) ''focus'' (PList [])) in
            if declared \<noteq> [] then strip_lower focus \<in> set declared
            else strip_lower focus \<in> set (skill_tags te (let v = dict_get_or (sk_metadata k) ''tags'' PNone in if truthy v then v else PList []))))"

definition handler_names :: "registry \<Rightarrow> string list" where
  "handler_names cy = sort (map fst (cy_handlers cy))"

definition build_skills_context :: "agent_env \<Rightarrow> agent_run \<Rightarrow> 'w runtime \<Rightarrow> string" where
  "build_skills_context ne ctx rt =
     (case (rt_knowledge rt, ts_registry (rt_tools rt)) of
        (Some kb, Some cy) \<Rightarrow>
          (let names = handler_names cy;
               focus = (case rx_focus_tag ctx of None \<Rightarrow> [] | Some f \<Rightarrow> f);
               wanted = (if focus = [] then names else filter (\<lambda>n. skill_has_focus (ne_tool ne) (cy_skills cy) n focus) names)
           in if wanted = [] then []
              else kr_content (get_skills_knowledge_report (ne_tool ne) kb None
                (resolve_skill_token_budget (ts_config (rt_tools rt))) (rx_focus_tag ctx) wanted))
      | _ \<Rightarrow> [])"

subsection \<open>Calls of the model\<close>

text \<open>The models in the order in which they are tried, each as often as the configuration says.\<close>

definition fallback_models :: "pyval \<Rightarrow> string list" where
  "fallback_models c = (case dict_get_or c ''llm_fallback_models'' (PList []) of PList items \<Rightarrow> non_blank_strings items | _ \<Rightarrow> [])"

definition model_attempts :: "pyval \<Rightarrow> string \<Rightarrow> string list" where
  "model_attempts c primary =
     concat (map (replicate (nat (count_setting c ''llm_retry_attempts'' 1))) (primary # filter (\<lambda>m. m \<noteq> primary) (fallback_models c)))"

datatype completion_outcome = Completed llm_response string | OutOfTime | AllFailed py_error

fun try_models :: "(nat \<Rightarrow> llm_answer) \<Rightarrow> string list \<Rightarrow> string list \<Rightarrow> py_error \<Rightarrow> completion_outcome \<times> string list" where
  "try_models answer [] called last_error = (AllFailed last_error, called)"
| "try_models answer (m # ms) called last_error =
     (case answer (length called) of
        Answered r \<Rightarrow> (Completed r m, called @ [m])
      | LlmTimeout \<Rightarrow> (OutOfTime, called @ [m])
      | LlmFails e \<Rightarrow> try_models answer ms (called @ [m]) e)"

definition call_llm_completion :: "agent_env \<Rightarrow> string \<Rightarrow> 'w runtime \<Rightarrow> completion_outcome \<times> 'w runtime" where
  "call_llm_completion ne model rt =
     (case try_models (ne_answer ne) (model_attempts (ts_config (rt_tools rt)) model) (rt_models_called rt)
         (RuntimeError ''LLM call failed without an explicit error'') of
        (out, called) \<Rightarrow> (out, rt\<lparr>rt_models_called := called\<rparr>))"

text \<open>A record of the runtime itself; an exception of the ledger is swallowed.\<close>

definition tick :: "agent_env \<Rightarrow> 'w runtime \<Rightarrow> (uuid \<times> micros) \<times> 'w runtime" where
  "tick ne rt = (ne_tick ne (rt_ticks rt), rt\<lparr>rt_ticks := Suc (rt_ticks rt)\<rparr>)"

definition put_record :: "agent_env \<Rightarrow> exec_call \<Rightarrow> 'w runtime \<Rightarrow> 'w runtime" where
  "put_record ne call rt =
     (case ts_ledger (rt_tools rt) of
        None \<Rightarrow> rt
      | Some l \<Rightarrow>
          (case tick ne rt of ((i, now), rt1) \<Rightarrow>
             (case mem_record_execution i now call l of
                Inl e \<Rightarrow> rt1
              | Inr l' \<Rightarrow> rt1\<lparr>rt_tools := (rt_tools rt1)\<lparr>ts_ledger := Some l'\<rparr>\<rparr>)))"

definition own_record :: "agent_run \<Rightarrow> string \<Rightarrow> string \<Rightarrow> pyval \<Rightarrow> pyval \<Rightarrow> string \<Rightarrow> string \<Rightarrow> exec_call" where
  "own_record ctx capability_name task_type input_params output reasoning status =
     \<lparr>xc_tenant = PStr (rx_tenant_id ctx), xc_agent = PStr (rx_agent_id ctx), xc_run = PStr (rx_run_id ctx), xc_capability = PStr capability_name,
      xc_task = PStr task_type, xc_input = input_params, xc_output = output, xc_reasoning = Some reasoning, xc_time_ms = 0, xc_model = [],
      xc_tokens_in = 0, xc_tokens_out = 0, xc_cost = 0, xc_status = status, xc_error = None, xc_weight = None, xc_mode = None,
      xc_risk = None, xc_approver = None, xc_approved_at = None\<rparr>"

definition task_type_of :: "agent_run \<Rightarrow> pyval \<Rightarrow> pyval" where
  "task_type_of ctx c =
     (let a = dict_get_or (rx_payload ctx) ''task_type'' PNone; b = dict_get_or c ''default_task_type'' PNone
      in if truthy a then a else if truthy b then b else PStr ''default'')"

definition record_llm_usage ::
  "agent_env \<Rightarrow> agent_run \<Rightarrow> string \<Rightarrow> int \<Rightarrow> int \<Rightarrow> rat \<Rightarrow> int \<Rightarrow> string \<Rightarrow> string option \<Rightarrow> 'w runtime \<Rightarrow> 'w runtime" where
  "record_llm_usage ne ctx model tokens_in tokens_out cost ms status err rt =
     put_record ne ((own_record ctx ''llm_completion'' (text_form (ne_tool ne) (task_type_of ctx (ts_config (rt_tools rt))))
         (PDict [(PStr ''trigger'', PStr (rx_trigger ctx)), (PStr ''focus'', case rx_focus_tag ctx of None \<Rightarrow> PNone | Some f \<Rightarrow> PStr f)])
         (PDict [(PStr ''status'', PStr status)]) ''runtime_llm_call'' status)
       \<lparr>xc_time_ms := max 0 ms, xc_model := model, xc_tokens_in := max 0 tokens_in, xc_tokens_out := max 0 tokens_out, xc_cost := max 0 cost,
        xc_error := err\<rparr>) rt"

definition record_success_usage :: "agent_env \<Rightarrow> agent_run \<Rightarrow> string \<Rightarrow> llm_response \<Rightarrow> 'w runtime \<Rightarrow> 'w runtime" where
  "record_success_usage ne ctx model r rt =
     record_llm_usage ne ctx model (lp_prompt r) (lp_completion r) (lp_cost r) (ne_ms ne (length (rt_models_called rt))) ''success'' None rt"

definition extract_assistant_message :: "llm_response \<Rightarrow> llm_message option" where
  "extract_assistant_message r = (case lp_choices r of Some (m # rest) \<Rightarrow> m | _ \<Rightarrow> None)"

text \<open>The role is filled in where it is missing.\<close>

definition with_role :: "(pyval \<times> pyval) list \<Rightarrow> pyval" where
  "with_role kvs = PDict (if map_of kvs (PStr ''role'') = None then kvs @ [(PStr ''role'', PStr ''assistant'')] else kvs)"

definition assistant_message_to_dict :: "llm_message \<Rightarrow> pyval" where
  "assistant_message_to_dict m =
     (case m of
        DictMessage kvs \<Rightarrow> with_role kvs
      | ObjectMessage content calls back dump \<Rightarrow>
          (case dump of
             Some kvs \<Rightarrow> with_role kvs
           | None \<Rightarrow> PDict ([(PStr ''role'', PStr ''assistant''), (PStr ''content'', content)]
               @ (if calls = [] then [] else [(PStr ''tool_calls'', back)]))))"

definition message_calls :: "llm_message \<Rightarrow> tool_call list" where
  "message_calls m = (case m of DictMessage kvs \<Rightarrow> [] | ObjectMessage content calls back dump \<Rightarrow> calls)"

subsection \<open>The loop of decisions\<close>

definition sanitize_tool_result :: "agent_env \<Rightarrow> agent_run \<Rightarrow> pyval \<Rightarrow> string \<Rightarrow> tool_state \<Rightarrow> py_error + string \<times> tool_state" where
  "sanitize_tool_result ne ctx result tool_name ts =
     and_then (ne_dumps ne result) (\<lambda>serialized.
       case te_sanitize (ne_tool ne) serialized (''tool_result_message:'' @ tool_name) of
         (clean, mods) \<Rightarrow> Inr (clean, if clean = serialized then ts
           else audit ''tool_result_sanitized'' [(''tool_name'', PStr tool_name), (''run_id'', PStr (rx_run_id ctx)),
             (''modifications'', PList (map PStr mods)), (''stage'', PStr ''decision_loop_message'')] ts))"

definition tool_message :: "string \<Rightarrow> string \<Rightarrow> pyval" where
  "tool_message call_id content =
     PDict [(PStr ''role'', PStr ''tool''), (PStr ''tool_call_id'', PStr call_id), (PStr ''content'', PStr content)]"

text \<open>
  The calls of one message, the \<open>i\<close>-th one first; an exception ends the loop. The environment of
  a call is that of the next tick.
\<close>

fun execute_calls ::
  "agent_env \<Rightarrow> agent_run \<Rightarrow> nat \<Rightarrow> nat \<Rightarrow> tool_call list \<Rightarrow> pyval list \<Rightarrow> 'w runtime \<Rightarrow> (py_error + pyval list) \<times> 'w runtime" where
  "execute_calls ne ctx iteration i [] messages rt = (Inr messages, rt)"
| "execute_calls ne ctx iteration i (tc # tcs) messages rt =
     (case execute_tool (ne_call ne (rt_ticks rt)) ctx tc (rt_tools rt) of
        (r, ts) \<Rightarrow>
          (let rt1 = rt\<lparr>rt_tools := ts, rt_ticks := Suc (rt_ticks rt)\<rparr>;
               call_id = (case tl_id tc of Some s \<Rightarrow> if s = [] then None else Some s | None \<Rightarrow> None);
               call_id = (case call_id of Some s \<Rightarrow> s | None \<Rightarrow> ''tool_call_'' @ show_nat iteration @ ''_'' @ show_nat i);
               tool_name = (case tl_name tc of Some n \<Rightarrow> if n = [] then ''unknown_tool'' else n | None \<Rightarrow> ''unknown_tool'')
           in case and_then r (\<lambda>v. sanitize_tool_result ne ctx v tool_name ts) of
                Inl e \<Rightarrow> (Inl e, rt1)
              | Inr (content, ts2) \<Rightarrow>
                  execute_calls ne ctx iteration (Suc i) tcs (messages @ [tool_message call_id content]) (rt1\<lparr>rt_tools := ts2\<rparr>)))"

definition routed_model :: "agent_run \<Rightarrow> 'w runtime \<Rightarrow> string \<Rightarrow> string" where
  "routed_model ctx rt model =
     (case rt_router rt of
        None \<Rightarrow> model
      | Some mr \<Rightarrow>
          (case select_model (task_type_of ctx (ts_config (rt_tools rt))) mr of
             Some sel \<Rightarrow> if ms_model sel = [] then model else ms_model sel
           | None \<Rightarrow> model))"

definition llm_timeout_of :: "pyval \<Rightarrow> rat" where
  "llm_timeout_of c = time_setting c ''llm_timeout_seconds'' 60"

text \<open>A round ends the loop, continues it, or fails with an exception.\<close>

datatype round_end = Stops | Continues | Raises py_error

definition decision_round ::
  "agent_env \<Rightarrow> agent_run \<Rightarrow> nat \<Rightarrow> string \<Rightarrow> pyval list \<Rightarrow> 'w runtime \<Rightarrow> round_end \<times> string \<times> pyval list \<times> 'w runtime" where
  "decision_round ne ctx iteration model messages rt =
     (let chosen = routed_model ctx rt model; fixed = te_fixed (ne_tool ne) 1 (llm_timeout_of (ts_config (rt_tools rt))) in
      case call_llm_completion ne chosen rt of
        (OutOfTime, rt1) \<Rightarrow>
          (let text = ''LLM call timed out after '' @ fixed @ ''s''
           in (Stops, chosen, messages @ [chat ''assistant'' (text @ ''.'')],
               record_llm_usage ne ctx chosen 0 0 0 (trunc_rat (llm_timeout_of (ts_config (rt_tools rt)) * 1000)) ''timeout'' (Some text) rt1))
      | (AllFailed e, rt1) \<Rightarrow>
          (let rt2 = record_llm_usage ne ctx chosen 0 0 0 0 ''error'' (Some (exception_name e)) rt1
           in (Stops, chosen, messages @ [chat ''assistant'' ''LLM call failed due to an internal error.''],
               rt2\<lparr>rt_tools := notify_error (Some ctx) (ts_agent_id (rt_tools rt2)) ''llm_call'' (classify_error e) (exception_name e) (rt_tools rt2)\<rparr>))
      | (Completed r model', rt1) \<Rightarrow>
          (let rt2 = record_success_usage ne ctx model' r rt1 in
           case extract_assistant_message r of
             None \<Rightarrow> (Stops, model', messages @ [chat ''assistant'' ''LLM response missing assistant message.''], rt2)
           | Some m \<Rightarrow>
               (let messages1 = messages @ [assistant_message_to_dict m] in
                if message_calls m = [] then (Stops, model', messages1, rt2)
                else (case execute_calls ne ctx iteration 0 (message_calls m) messages1 rt2 of
                    (Inl e, rt3) \<Rightarrow> (Raises e, model', messages1, rt3)
                  | (Inr messages2, rt3) \<Rightarrow> (Continues, model', messages2, rt3)))))"

datatype loop_end = Finished | Exhausted | CutOff | Escaped py_error

text \<open>At most \<open>n\<close> rounds; \<open>stop\<close> is the number of rounds after which the run is cancelled.\<close>

fun decision_rounds ::
  "agent_env \<Rightarrow> agent_run \<Rightarrow> nat option \<Rightarrow> nat \<Rightarrow> nat \<Rightarrow> string \<Rightarrow> pyval list \<Rightarrow> 'w runtime
     \<Rightarrow> loop_end \<times> nat \<times> string \<times> pyval list \<times> 'w runtime" where
  "decision_rounds ne ctx stop iteration 0 model messages rt =
     (if stop = Some iteration then (CutOff, iteration, model, messages, rt) else (Exhausted, iteration, model, messages, rt))"
| "decision_rounds ne ctx stop iteration (Suc n) model messages rt =
     (if stop = Some iteration then (CutOff, iteration, model, messages, rt)
      else (case decision_round ne ctx (Suc iteration) model messages rt of
          (Stops, model', messages', rt') \<Rightarrow> (Finished, Suc iteration, model', messages', rt')
        | (Raises e, model', messages', rt') \<Rightarrow> (Escaped e, Suc iteration, model', messages', rt')
        | (Continues, model', messages', rt') \<Rightarrow> decision_rounds ne ctx stop (Suc iteration) n model' messages' rt'))"

definition role_of :: "pyval \<Rightarrow> pyval" where
  "role_of m = dict_get_or m ''role'' PNone"

definition ends_with_tool :: "pyval list \<Rightarrow> bool" where
  "ends_with_tool messages = (messages \<noteq> [] \<and> role_of (List.last messages) = PStr ''tool'')"

text \<open>The last call, without tools, when the rounds are used up.\<close>

definition final_summary ::
  "agent_env \<Rightarrow> agent_run \<Rightarrow> nat \<Rightarrow> string \<Rightarrow> pyval list \<Rightarrow> 'w runtime \<Rightarrow> pyval list \<times> 'w runtime" where
  "final_summary ne ctx max_iterations model messages rt =
     (case call_llm_completion ne model rt of
        (OutOfTime, rt1) \<Rightarrow>
          (messages @ [chat ''assistant'' (''Reached max iterations ('' @ show_nat max_iterations @ '') and final summarization timed out.'')], rt1)
      | (AllFailed e, rt1) \<Rightarrow>
          (messages @ [chat ''assistant'' ''Reached max iterations and final summarization failed due to an internal error.''], rt1)
      | (Completed r model', rt1) \<Rightarrow>
          (let rt2 = record_success_usage ne ctx model' r rt1 in
           case extract_assistant_message r of
             Some m \<Rightarrow> (messages @ [assistant_message_to_dict m], rt2)
           | None \<Rightarrow> (messages @ [chat ''assistant'' ''Reached max iterations; final summarization response was invalid.''], rt2)))"

definition final_content :: "pyval list \<Rightarrow> pyval" where
  "final_content messages =
     (if messages \<noteq> [] \<and> role_of (List.last messages) = PStr ''assistant''
      then (let c = dict_get_or (List.last messages) ''content'' PNone in if truthy c then c else PStr []) else PStr [])"

definition loop_result :: "nat \<Rightarrow> pyval list \<Rightarrow> (pyval \<times> pyval) list" where
  "loop_result iterations messages =
     [(PStr ''iterations'', PInt (int iterations)), (PStr ''final_response'', final_content messages),
      (PStr ''tool_calls_total'', PInt (int (length (filter (\<lambda>m. role_of m = PStr ''tool'') messages))))]"

definition max_iterations_of :: "pyval \<Rightarrow> nat" where
  "max_iterations_of c = nat (count_setting c ''max_function_calls'' 50)"

text \<open>The result of the loop: its dictionary, the cut, or an exception.\<close>

datatype loop_outcome = LoopDone "(pyval \<times> pyval) list" | LoopCut | LoopRaises py_error

definition decision_loop :: "agent_env \<Rightarrow> agent_run \<Rightarrow> 'w runtime \<Rightarrow> loop_outcome \<times> 'w runtime" where
  "decision_loop ne ctx rt =
     (case get_visible_tools ne ctx rt of
        Inl e \<Rightarrow> (LoopRaises e, rt)
      | Inr (tools, rt1) \<Rightarrow>
          (case build_messages ne ctx (build_skills_context ne ctx rt) tools rt1 of
             Inl e \<Rightarrow> (LoopRaises e, rt1)
           | Inr (messages, rt2) \<Rightarrow>
               (let n = max_iterations_of (ts_config (rt_tools rt2)) in
                case decision_rounds ne ctx (ne_cut ne) 0 n (rt_model rt2) messages rt2 of
                  (Escaped e, k, model, messages1, rt3) \<Rightarrow> (LoopRaises e, rt3)
                | (CutOff, k, model, messages1, rt3) \<Rightarrow> (LoopCut, rt3)
                | (Finished, k, model, messages1, rt3) \<Rightarrow> (LoopDone (loop_result k messages1), rt3)
                | (Exhausted, k, model, messages1, rt3) \<Rightarrow>
                    (if ends_with_tool messages1
                     then (case final_summary ne ctx n model messages1 rt3 of (messages2, rt4) \<Rightarrow> (LoopDone (loop_result k messages2), rt4))
                     else (LoopDone (loop_result k messages1), rt3)))))"

subsection \<open>The environment of the skills\<close>

text \<open>The process environment takes every name and value here; it rejects a NUL character and an equals sign in a name.\<close>

definition env_allowed :: "pyval \<Rightarrow> string \<Rightarrow> bool" where
  "env_allowed c key =
     (take (length ''OWLCLAW_SKILL_'') key = ''OWLCLAW_SKILL_''
      \<or> PStr key \<in> set (case dict_get_or c ''skill_env_allowlist'' PNone of PList items \<Rightarrow> items | _ \<Rightarrow> []))"

fun inject_entries :: "tool_env \<Rightarrow> pyval \<Rightarrow> (pyval \<times> pyval) list \<Rightarrow> 'w runtime \<Rightarrow> 'w runtime" where
  "inject_entries te c [] rt = rt"
| "inject_entries te c ((PStr raw_key, raw_value) # rest) rt =
     (let key = py_strip raw_key in
      if key = [] \<or> \<not> env_allowed c key then inject_entries te c rest rt
      else inject_entries te c rest
        (rt\<lparr>rt_restore := (if map_of (rt_restore rt) key = None then rt_restore rt @ [(key, map_of (rt_environ rt) key)] else rt_restore rt),
            rt_environ := AList.update key (text_form te raw_value) (rt_environ rt)\<rparr>))"
| "inject_entries te c (entry # rest) rt = inject_entries te c rest rt"

definition declared_env :: "skills \<Rightarrow> string \<Rightarrow> (pyval \<times> pyval) list" where
  "declared_env ks name = (case get_skill ks name of None \<Rightarrow> [] | Some k \<Rightarrow> dict_entries (dict_get_or (sk_config k) ''env'' PNone))"

definition inject_skill_env_for_run :: "tool_env \<Rightarrow> 'w runtime \<Rightarrow> 'w runtime" where
  "inject_skill_env_for_run te rt =
     (case ts_registry (rt_tools rt) of
        None \<Rightarrow> rt
      | Some cy \<Rightarrow> inject_entries te (ts_config (rt_tools rt)) (concat (map (declared_env (cy_skills cy)) (handler_names cy))) rt)"

fun restore_entries :: "(string \<times> string option) list \<Rightarrow> (string \<times> string) list \<Rightarrow> (string \<times> string) list" where
  "restore_entries [] environ = environ"
| "restore_entries ((key, previous) # rest) environ =
     restore_entries rest (case previous of None \<Rightarrow> AList.delete key environ | Some v \<Rightarrow> AList.update key v environ)"

definition restore_skill_env_after_run :: "'w runtime \<Rightarrow> 'w runtime" where
  "restore_skill_env_after_run rt = rt\<lparr>rt_environ := restore_entries (rt_restore rt) (rt_environ rt), rt_restore := []\<rparr>"

subsection \<open>The run\<close>

definition heartbeat_payload_has_events :: "pyval \<Rightarrow> bool" where
  "heartbeat_payload_has_events payload =
     (dict_get payload ''has_events'' = Some (PBool True)
      \<or> (case dict_get payload ''pending_events'' of Some (PList xs) \<Rightarrow> xs \<noteq> [] | Some (PTuple xs) \<Rightarrow> xs \<noteq> [] | Some (PSet xs) \<Rightarrow> xs \<noteq> [] | _ \<Rightarrow> False)
      \<or> (case dict_get payload ''event_count'' of Some (PInt i) \<Rightarrow> 0 < i | Some (PFloat r) \<Rightarrow> 0 < r | _ \<Rightarrow> False))"

definition capture_run_snapshot :: "'w runtime \<Rightarrow> 'w runtime" where
  "capture_run_snapshot rt =
     rt\<lparr>rt_tools := (rt_tools rt)\<lparr>ts_capabilities := Some (case ts_registry (rt_tools rt) of None \<Rightarrow> [] | Some cy \<Rightarrow> list_capabilities cy)\<rparr>\<rparr>"

text \<open>What every run does at its end.\<close>

definition close_run :: "agent_run \<Rightarrow> 'w runtime \<Rightarrow> 'w runtime" where
  "close_run ctx rt =
     (let ts = rt_tools rt;
          boxed = (case ts_builtin ts of None \<Rightarrow> None
            | Some b \<Rightarrow> Some (case reset_run_call_budget (rx_run_id ctx) b of Inl e \<Rightarrow> b | Inr b' \<Rightarrow> b'))
      in restore_skill_env_after_run (rt\<lparr>rt_tools := ts\<lparr>ts_builtin := boxed, ts_capabilities := None\<rparr>\<rparr>))"

definition run_dict :: "string \<Rightarrow> agent_run \<Rightarrow> (pyval \<times> pyval) list \<Rightarrow> pyval" where
  "run_dict status ctx rest = PDict ([(PStr ''status'', PStr status), (PStr ''run_id'', PStr (rx_run_id ctx))] @ rest)"

definition run_loop :: "agent_env \<Rightarrow> agent_run \<Rightarrow> 'w runtime \<Rightarrow> (py_error + pyval) \<times> 'w runtime" where
  "run_loop ne ctx rt =
     (case decision_loop ne ctx rt of
        (LoopRaises e, rt1) \<Rightarrow> (Inl e, close_run ctx rt1)
      | (LoopCut, rt1) \<Rightarrow>
          (let text = ''run timed out after ''
                 @ te_fixed (ne_tool ne) 1 (time_setting (ts_config (rt_tools rt)) ''run_timeout_seconds'' 300) @ ''s''
           in (Inr (run_dict ''failed'' ctx [(PStr ''error'', PStr text)]),
               close_run ctx (rt1\<lparr>rt_tools := notify_error (Some ctx) (ts_agent_id (rt_tools rt1)) ''run'' ''timeout_error'' text (rt_tools rt1)\<rparr>)))
      | (LoopDone result, rt1) \<Rightarrow> (Inr (run_dict ''completed'' ctx result), close_run ctx rt1))"

definition run_agent :: "agent_env \<Rightarrow> agent_run \<Rightarrow> 'w runtime \<Rightarrow> (py_error + pyval) \<times> 'w runtime" where
  "run_agent ne ctx rt =
     (if \<not> rt_ready rt then (Inl (RuntimeError ''AgentRuntime.setup() must be called before run()''), rt)
      else (let rt1 = inject_skill_env_for_run (ne_tool ne) (capture_run_snapshot rt) in
        case (rx_trigger ctx = ''heartbeat'', rt_heartbeat rt1) of
          (True, Some hb) \<Rightarrow>
            if heartbeat_payload_has_events (rx_payload ctx) then run_loop ne ctx rt1
            else (case check_events (ne_heartbeat ne) (rx_tenant_id ctx) hb of
                (has_events, hb') \<Rightarrow>
                  (let rt2 = rt1\<lparr>rt_heartbeat := Some hb'\<rparr> in
                   if has_events then run_loop ne ctx rt2
                   else (Inr (run_dict ''skipped'' ctx [(PStr ''reason'', PStr ''heartbeat_no_events'')]), close_run ctx rt2)))
        | _ \<Rightarrow> run_loop ne ctx rt1))"

subsection \<open>Triggers\<close>

definition source_word :: "signal_source \<Rightarrow> string" where
  "source_word s = (case s of SrcCli \<Rightarrow> ''cli'' | SrcApi \<Rightarrow> ''api'' | SrcMcp \<Rightarrow> ''mcp'')"

definition instruction_dict :: "(micros \<Rightarrow> string) \<Rightarrow> pending_instruction \<Rightarrow> pyval" where
  "instruction_dict date i =
     PDict [(PStr ''content'', PStr (pi_content i)), (PStr ''operator'', PStr (pi_operator i)), (PStr ''source'', PStr (source_word (pi_source i))),
       (PStr ''created_at'', PStr (date (pi_created i))), (PStr ''expires_at'', PStr (date (pi_expires i)))]"

definition inject_pending_signal_instructions :: "agent_env \<Rightarrow> micros \<Rightarrow> agent_run \<Rightarrow> 'w runtime \<Rightarrow> agent_run \<times> 'w runtime" where
  "inject_pending_signal_instructions ne now ctx rt =
     (case rt_signals rt of
        None \<Rightarrow> (ctx, rt)
      | Some s \<Rightarrow>
          (case consume_in_memory now (ts_agent_id (rt_tools rt)) (rx_tenant_id ctx) s of
             (consumed, s') \<Rightarrow>
               (let rt1 = rt\<lparr>rt_signals := Some s'\<rparr> in
                if consumed = [] then (ctx, rt1)
                else (ctx\<lparr>rx_payload := put_entry (rx_payload ctx) ''signal_instructions'' (PList (map (instruction_dict (ne_date ne)) consumed))\<rparr>,
                  put_record ne (own_record ctx ''signal.consume_instructions'' ''signal'' (PDict [(PStr ''trigger'', PStr (rx_trigger ctx))])
                    (PDict [(PStr ''consumed_count'', PInt (int (length consumed)))]) ''runtime instruction injection'' ''success'') rt1))))"

definition is_agent_paused :: "string \<Rightarrow> 'w runtime \<Rightarrow> bool \<times> 'w runtime" where
  "is_agent_paused tenant_id rt =
     (case rt_signals rt of
        None \<Rightarrow> (False, rt)
      | Some s \<Rightarrow> (case get_in_memory (ts_agent_id (rt_tools rt)) tenant_id s of (st, s') \<Rightarrow> (as_paused st, rt\<lparr>rt_signals := Some s'\<rparr>)))"

definition record_paused_skip :: "agent_env \<Rightarrow> agent_run \<Rightarrow> 'w runtime \<Rightarrow> 'w runtime" where
  "record_paused_skip ne ctx rt =
     put_record ne (own_record ctx ''signal.pause_guard'' ''signal'' (PDict [(PStr ''trigger'', PStr (rx_trigger ctx))])
       (PDict [(PStr ''status'', PStr ''skipped''), (PStr ''reason'', PStr ''agent_paused'')]) ''paused guard in runtime'' ''skipped'') rt"

definition trigger_event ::
  "agent_env \<Rightarrow> micros \<Rightarrow> uuid \<Rightarrow> pyval \<Rightarrow> pyval \<Rightarrow> pyval \<Rightarrow> pyval \<Rightarrow> 'w runtime \<Rightarrow> (py_error + pyval) \<times> 'w runtime" where
  "trigger_event ne now run_id event_name focus payload tenant_id rt =
     (case and_then (required_word ''event_name'' event_name) (\<lambda>name. and_then (required_word ''tenant_id'' tenant_id) (\<lambda>tenant.
         and_then (payload_dict payload) (\<lambda>p.
           agent_run_new (PStr (ts_agent_id (rt_tools rt))) (PStr name) p focus (PStr tenant) (PStr run_id)))) of
        Inl e \<Rightarrow> (Inl e, rt)
      | Inr ctx \<Rightarrow>
          (case inject_pending_signal_instructions ne now ctx rt of
             (ctx1, rt1) \<Rightarrow>
               if rx_trigger ctx1 = ''signal_manual'' then run_agent ne ctx1 rt1
               else (case is_agent_paused (rx_tenant_id ctx1) rt1 of
                   (paused, rt2) \<Rightarrow>
                     if paused then (Inr (run_dict ''skipped'' ctx1 [(PStr ''reason'', PStr ''agent_paused'')]), record_paused_skip ne ctx1 rt2)
                     else run_agent ne ctx1 rt2)))"

subsection \<open>Facts about the loop\<close>

text \<open>What the loop leaves alone, and what a part of it that calls no model leaves alone.\<close>

definition keeps :: "'w runtime \<Rightarrow> 'w runtime \<Rightarrow> bool" where
  "keeps rt rt' \<longleftrightarrow> rt_environ rt' = rt_environ rt \<and> rt_restore rt' = rt_restore rt \<and> ts_config (rt_tools rt') = ts_config (rt_tools rt)"

definition quiet :: "'w runtime \<Rightarrow> 'w runtime \<Rightarrow> bool" where
  "quiet rt rt' \<longleftrightarrow> keeps rt rt' \<and> rt_models_called rt' = rt_models_called rt"

lemma keeps_refl [simp]: "keeps rt rt" by (simp add: keeps_def)

lemma keeps_trans: "keeps a b \<Longrightarrow> keeps b c \<Longrightarrow> keeps a c" by (simp add: keeps_def)

lemma quiet_refl [simp]: "quiet rt rt" by (simp add: quiet_def)

lemma quiet_trans: "quiet a b \<Longrightarrow> quiet b c \<Longrightarrow> quiet a c" by (auto simp: quiet_def intro: keeps_trans)

lemma put_record_quiet [simp]: "quiet rt (put_record ne c rt)"
  by (simp add: put_record_def tick_def quiet_def keeps_def case_prod_beta split: option.split sum.split)

lemma record_llm_usage_quiet [simp]: "quiet rt (record_llm_usage ne ctx m i out cost ms st e rt)"
  by (simp add: record_llm_usage_def)

lemma record_success_usage_quiet [simp]: "quiet rt (record_success_usage ne ctx m r rt)"
  by (simp add: record_success_usage_def)

text \<open>The most calls of a model that one completion makes.\<close>

definition completion_bound :: "pyval \<Rightarrow> nat" where
  "completion_bound c = nat (count_setting c ''llm_retry_attempts'' 1) * Suc (length (fallback_models c))"

lemma length_model_attempts: "length (model_attempts c m) \<le> completion_bound c"
proof -
  have "length (concat (map (replicate k) xs)) = k * length xs" for k and xs :: "string list"
    by (induction xs) auto
  then show ?thesis by (simp add: model_attempts_def completion_bound_def)
qed

lemma try_models_length: "length (snd (try_models answer ms called e)) \<le> length called + length ms"
proof (induction ms arbitrary: called e)
  case (Cons m ms)
  show ?case
  proof (cases "answer (length called)")
    case (LlmFails e')
    then show ?thesis using Cons [of "called @ [m]" e'] by simp
  qed simp_all
qed simp

definition calls_most :: "nat \<Rightarrow> 'w runtime \<Rightarrow> 'w runtime \<Rightarrow> bool" where
  "calls_most n rt rt' \<longleftrightarrow> keeps rt rt' \<and> length (rt_models_called rt') \<le> length (rt_models_called rt) + n"

lemma calls_most_trans: "calls_most m a b \<Longrightarrow> calls_most n b c \<Longrightarrow> calls_most (m + n) a c"
  by (auto simp: calls_most_def intro: keeps_trans)

lemma quiet_calls_most: "quiet a b \<Longrightarrow> calls_most n a b"
  by (simp add: quiet_def calls_most_def)

lemma calls_most_quiet: "calls_most n a b \<Longrightarrow> quiet b c \<Longrightarrow> calls_most n a c"
  using calls_most_trans [of n a b 0 c] by (simp add: quiet_calls_most)

lemma calls_most_config: "calls_most n a b \<Longrightarrow> ts_config (rt_tools b) = ts_config (rt_tools a)"
  by (simp add: calls_most_def keeps_def)

lemma call_llm_completion_most: "calls_most (completion_bound (ts_config (rt_tools rt))) rt (snd (call_llm_completion ne m rt))"
  using try_models_length [of "ne_answer ne" "model_attempts (ts_config (rt_tools rt)) m" "rt_models_called rt" "RuntimeError ''LLM call failed without an explicit error''"]
    length_model_attempts [of "ts_config (rt_tools rt)" m]
  by (simp add: call_llm_completion_def calls_most_def keeps_def case_prod_beta)

lemma sanitize_tool_result_config: "sanitize_tool_result ne ctx v n ts = Inr (s, ts') \<Longrightarrow> ts_config ts' = ts_config ts"
  by (auto simp: sanitize_tool_result_def and_then_Inr_iff case_prod_beta split: if_splits)

lemma execute_calls_quiet: "quiet rt (snd (execute_calls ne ctx k i tcs messages rt))"
proof (induction tcs arbitrary: i messages rt)
  case (Cons tc tcs)
  obtain r ts where e: "execute_tool (ne_call ne (rt_ticks rt)) ctx tc (rt_tools rt) = (r, ts)" by force
  then have ts: "ts_config ts = ts_config (rt_tools rt)" using execute_tool_config [of "ne_call ne (rt_ticks rt)" ctx tc "rt_tools rt"] by simp
  let ?rt1 = "rt\<lparr>rt_tools := ts, rt_ticks := Suc (rt_ticks rt)\<rparr>"
  let ?name = "case tl_name tc of Some n \<Rightarrow> if n = [] then ''unknown_tool'' else n | None \<Rightarrow> ''unknown_tool''"
  show ?case
  proof (cases "and_then r (\<lambda>v. sanitize_tool_result ne ctx v ?name ts)")
    case (Inl err)
    then show ?thesis using ts by (simp add: e Let_def quiet_def keeps_def)
  next
    case (Inr p)
    obtain content ts2 where p: "p = (content, ts2)" by force
    have "ts_config ts2 = ts_config ts" using Inr p sanitize_tool_result_config by (fastforce simp: and_then_Inr_iff)
    then have "quiet rt (?rt1\<lparr>rt_tools := ts2\<rparr>)" using ts by (simp add: quiet_def keeps_def)
    then show ?thesis using Inr p by (simp add: e Let_def quiet_trans [OF _ Cons.IH])
  qed
qed simp

lemma notify_quiet [simp]: "quiet rt (rt\<lparr>rt_tools := notify_error c a s k m (rt_tools rt)\<rparr>)"
  by (simp add: quiet_def keeps_def)

lemma decision_round_most:
  "calls_most (completion_bound (ts_config (rt_tools rt))) rt (snd (snd (snd (decision_round ne ctx k m messages rt))))"
proof -
  obtain out rt1 where c: "call_llm_completion ne (routed_model ctx rt m) rt = (out, rt1)" by force
  then have most: "calls_most (completion_bound (ts_config (rt_tools rt))) rt rt1"
    using call_llm_completion_most [of rt ne "routed_model ctx rt m"] by simp
  show ?thesis
  proof (cases out)
    case OutOfTime
    then show ?thesis using c calls_most_quiet [OF most] by (simp add: decision_round_def Let_def)
  next
    case (AllFailed e)
    then show ?thesis using c calls_most_quiet [OF most quiet_trans [OF record_llm_usage_quiet notify_quiet]]
      by (simp add: decision_round_def Let_def)
  next
    case (Completed r m')
    let ?rt2 = "record_success_usage ne ctx m' r rt1"
    note rt2 = calls_most_quiet [OF most record_success_usage_quiet, of ne ctx m' r]
    show ?thesis
    proof (cases "extract_assistant_message r")
      case None
      then show ?thesis using c Completed rt2 by (simp add: decision_round_def Let_def)
    next
      case (Some msg)
      have after: "calls_most (completion_bound (ts_config (rt_tools rt))) rt (snd (execute_calls ne ctx k 0 (message_calls msg) ms ?rt2))" for ms
        by (rule calls_most_quiet [OF rt2 execute_calls_quiet])
      show ?thesis
        using c Completed rt2 Some after [of "messages @ [assistant_message_to_dict msg]"]
        by (auto simp: decision_round_def Let_def split: sum.splits prod.splits)
    qed
  qed
qed

lemma decision_rounds_most:
  "calls_most (n * completion_bound (ts_config (rt_tools rt))) rt (snd (snd (snd (snd (decision_rounds ne ctx stop k n m messages rt)))))"
proof (induction n arbitrary: k m messages rt)
  case 0
  then show ?case by (simp add: quiet_calls_most)
next
  case (Suc n)
  let ?b = "completion_bound (ts_config (rt_tools rt))"
  obtain re m' ms' rt' where r: "decision_round ne ctx (Suc k) m messages rt = (re, m', ms', rt')" by (metis prod_cases4)
  have most: "calls_most ?b rt rt'" using decision_round_most [of rt ne ctx "Suc k" m messages] r by simp
  have more: "calls_most ?b rt rt' \<Longrightarrow> calls_most (Suc n * ?b) rt rt'" by (simp add: calls_most_def)
  show ?case
  proof (cases "stop = Some k")
    case True
    then show ?thesis by (simp add: quiet_calls_most)
  next
    case False
    show ?thesis
    proof (cases re)
      case Continues
      have "calls_most (?b + n * ?b) rt (snd (snd (snd (snd (decision_rounds ne ctx stop (Suc k) n m' ms' rt')))))"
        using calls_most_trans [OF most Suc.IH [of rt' "Suc k" m' ms']] by (simp add: calls_most_config [OF most])
      then show ?thesis using False r Continues by simp
    qed (use False r more [OF most] in simp_all)
  qed
qed

lemma final_summary_most: "calls_most (completion_bound (ts_config (rt_tools rt))) rt (snd (final_summary ne ctx n m messages rt))"
proof -
  obtain out rt1 where c: "call_llm_completion ne m rt = (out, rt1)" by force
  then have most: "calls_most (completion_bound (ts_config (rt_tools rt))) rt rt1"
    using call_llm_completion_most [of rt ne m] by simp
  show ?thesis
    using c most calls_most_quiet [OF most record_success_usage_quiet]
    by (cases out) (auto simp: final_summary_def Let_def split: option.splits)
qed

lemma get_visible_tools_quiet:
  assumes "get_visible_tools ne ctx rt = Inr (tools, rt')"
  shows "quiet rt rt'"
proof -
  have cached: "quiet rt (rt\<lparr>rt_cache := c\<rparr>)" for c by (simp add: quiet_def keeps_def)
  have governed: "governed_tools ne ctx vf rt = Inr (tools, rt') \<Longrightarrow> quiet rt rt'" for vf
    by (auto simp: governed_tools_def Let_def and_then_Inr_iff store_tools_def case_prod_beta quiet_def keeps_def)
  show ?thesis
    using assms governed cached by (auto simp: get_visible_tools_def Let_def store_tools_def split: option.splits if_splits)
qed

lemma build_user_message_config: "build_user_message ne ctx ts = Inr (u, ts') \<Longrightarrow> ts_config ts' = ts_config ts"
  by (auto simp: build_user_message_def and_then_Inr_iff clean_message_def case_prod_beta)

lemma build_messages_quiet:
  assumes "build_messages ne ctx sc tools rt = Inr (messages, rt')"
  shows "quiet rt rt'"
proof -
  obtain u ts where u: "build_user_message ne ctx (rt_tools rt) = Inr (u, ts)"
    using assms by (cases "build_user_message ne ctx (rt_tools rt)") (auto simp: build_messages_def)
  then have "rt' = rt\<lparr>rt_tools := ts\<rparr>" using assms by (simp add: build_messages_def case_prod_beta)
  then show ?thesis using build_user_message_config [OF u] by (simp add: quiet_def keeps_def)
qed

text \<open>The most calls of a model in one run: one completion for each round and one for the summary.\<close>

definition run_bound :: "pyval \<Rightarrow> nat" where
  "run_bound c = Suc (max_iterations_of c) * completion_bound c"

lemma decision_loop_most: "calls_most (run_bound (ts_config (rt_tools rt))) rt (snd (decision_loop ne ctx rt))"
proof -
  let ?c = "ts_config (rt_tools rt)" and ?b = "completion_bound (ts_config (rt_tools rt))" and ?n = "max_iterations_of (ts_config (rt_tools rt))"
  show ?thesis
  proof (cases "get_visible_tools ne ctx rt")
    case (Inl e)
    then show ?thesis by (simp add: decision_loop_def quiet_calls_most)
  next
    case (Inr p)
    obtain tools rt1 where v: "get_visible_tools ne ctx rt = Inr (tools, rt1)" using Inr by (cases p) simp
    note q1 = get_visible_tools_quiet [OF v]
    show ?thesis
    proof (cases "build_messages ne ctx (build_skills_context ne ctx rt) tools rt1")
      case (Inl e)
      then show ?thesis using v q1 by (simp add: decision_loop_def quiet_calls_most)
    next
      case (Inr p2)
      obtain messages rt2 where b: "build_messages ne ctx (build_skills_context ne ctx rt) tools rt1 = Inr (messages, rt2)"
        using Inr by (cases p2) simp
      note q2 = quiet_trans [OF q1 build_messages_quiet [OF b]]
      have c2: "ts_config (rt_tools rt2) = ?c" using q2 by (simp add: quiet_def keeps_def)
      obtain le k m ms rt3 where d: "decision_rounds ne ctx (ne_cut ne) 0 ?n (rt_model rt2) messages rt2 = (le, k, m, ms, rt3)"
        by (metis prod_cases5)
      have rounds: "calls_most (?n * ?b) rt2 rt3"
        using decision_rounds_most [of ?n rt2 ne ctx "ne_cut ne" 0 "rt_model rt2" messages] d c2 by simp
      then have m3: "calls_most (?n * ?b) rt rt3" using calls_most_trans [OF quiet_calls_most [OF q2, of 0] rounds] by simp
      then have loop: "calls_most (run_bound ?c) rt rt3" by (simp add: calls_most_def run_bound_def)
      obtain ms4 rt4 where f: "final_summary ne ctx ?n m ms rt3 = (ms4, rt4)" by force
      have "calls_most ?b rt3 rt4"
        using final_summary_most [of rt3 ne ctx ?n m ms] f calls_most_config [OF m3] by simp
      from calls_most_trans [OF m3 this] have "calls_most (run_bound ?c) rt rt4" by (simp add: run_bound_def add.commute)
      with loop show ?thesis using v b d f c2 by (cases le) (simp_all add: decision_loop_def Let_def)
    qed
  qed
qed

lemma close_run_called [simp]: "rt_models_called (close_run ctx rt) = rt_models_called rt"
  by (simp add: close_run_def Let_def restore_skill_env_after_run_def)

lemma run_loop_called: "length (rt_models_called (snd (run_loop ne ctx rt))) \<le> length (rt_models_called rt) + run_bound (ts_config (rt_tools rt))"
  using decision_loop_most [of rt ne ctx]
  by (auto simp: run_loop_def calls_most_def Let_def split: loop_outcome.splits prod.splits)

lemma inject_entries_frame [simp]:
  "rt_models_called (inject_entries te c es rt) = rt_models_called rt" "rt_tools (inject_entries te c es rt) = rt_tools rt"
  "rt_heartbeat (inject_entries te c es rt) = rt_heartbeat rt"
  by (induction te c es rt rule: inject_entries.induct) (simp_all add: Let_def)

lemma inject_frame [simp]:
  "rt_models_called (inject_skill_env_for_run te rt) = rt_models_called rt" "rt_tools (inject_skill_env_for_run te rt) = rt_tools rt"
  "rt_heartbeat (inject_skill_env_for_run te rt) = rt_heartbeat rt"
  by (simp_all add: inject_skill_env_for_run_def split: option.split)

lemma capture_frame [simp]:
  "rt_models_called (capture_run_snapshot rt) = rt_models_called rt" "ts_config (rt_tools (capture_run_snapshot rt)) = ts_config (rt_tools rt)"
  "rt_environ (capture_run_snapshot rt) = rt_environ rt" "rt_restore (capture_run_snapshot rt) = rt_restore rt"
  "rt_heartbeat (capture_run_snapshot rt) = rt_heartbeat rt"
  by (simp_all add: capture_run_snapshot_def)

text \<open>A run either is refused, is skipped by the heartbeat, or goes through the loop on a state that differs in the snapshot, the environment and the heartbeat.\<close>

lemma run_agent_cases:
  fixes ne :: agent_env and rt :: "'w runtime"
  defines "rt1 \<equiv> inject_skill_env_for_run (ne_tool ne) (capture_run_snapshot rt)"
  shows "snd (run_agent ne ctx rt) = rt
    \<or> (\<exists>hb. snd (run_agent ne ctx rt) = close_run ctx (rt1\<lparr>rt_heartbeat := hb\<rparr>))
    \<or> (\<exists>hb. run_agent ne ctx rt = run_loop ne ctx (rt1\<lparr>rt_heartbeat := hb\<rparr>))"
proof (cases "rt_ready rt")
  case False
  then show ?thesis by (simp add: run_agent_def)
next
  case True
  note unfold = run_agent_def rt1_def [symmetric] Let_def
  have plain: ?thesis if "run_agent ne ctx rt = run_loop ne ctx rt1"
    by (intro disjI2 exI [of _ "rt_heartbeat rt1"]) (simp add: that)
  show ?thesis
  proof (cases "rx_trigger ctx = ''heartbeat'' \<and> rt_heartbeat rt1 \<noteq> None \<and> \<not> heartbeat_payload_has_events (rx_payload ctx)")
    case False
    then have "run_agent ne ctx rt = run_loop ne ctx rt1"
      using True by (cases "rt_heartbeat rt1"; cases "rx_trigger ctx = ''heartbeat''") (simp_all add: unfold)
    then show ?thesis by (rule plain)
  next
    case hb: True
    then obtain h where h: "rt_heartbeat rt1 = Some h" by auto
    obtain b h' where c: "check_events (ne_heartbeat ne) (rx_tenant_id ctx) h = (b, h')" by force
    show ?thesis
    proof (cases b)
      case True
      then have "run_agent ne ctx rt = run_loop ne ctx (rt1\<lparr>rt_heartbeat := Some h'\<rparr>)" using \<open>rt_ready rt\<close> hb h c by (simp add: unfold)
      then show ?thesis by blast
    next
      case False
      then have "snd (run_agent ne ctx rt) = close_run ctx (rt1\<lparr>rt_heartbeat := Some h'\<rparr>)" using \<open>rt_ready rt\<close> hb h c by (simp add: unfold)
      then show ?thesis by blast
    qed
  qed
qed

subsection \<open>Facts about the environment\<close>

text \<open>The environment that restoring gives back, and that this is \<open>e\<close>.\<close>

definition overlay :: "(string \<times> string option) list \<Rightarrow> (string \<times> string) list \<Rightarrow> string \<Rightarrow> string option" where
  "overlay restore environ k = (case map_of restore k of None \<Rightarrow> map_of environ k | Some previous \<Rightarrow> previous)"

definition undoes :: "'w runtime \<Rightarrow> (string \<rightharpoonup> string) \<Rightarrow> bool" where
  "undoes rt e \<longleftrightarrow> distinct (map fst (rt_restore rt)) \<and> overlay (rt_restore rt) (rt_environ rt) = e"

lemma overlay_new: "map_of rs key = None \<Longrightarrow> overlay (rs @ [(key, map_of environ key)]) (AList.update key v environ) = overlay rs environ"
  by (rule ext) (simp add: overlay_def map_add_def update_conv' split: option.split)

lemma overlay_old: "map_of rs key = Some p \<Longrightarrow> overlay rs (AList.update key v environ) = overlay rs environ"
  by (rule ext) (auto simp: overlay_def update_conv' split: option.split)

lemma inject_one_undoes:
  assumes "undoes rt e"
  shows "undoes (rt\<lparr>rt_restore := (if map_of (rt_restore rt) key = None then rt_restore rt @ [(key, map_of (rt_environ rt) key)] else rt_restore rt),
      rt_environ := AList.update key v (rt_environ rt)\<rparr>) e"
proof (cases "map_of (rt_restore rt) key")
  case None
  then have "key \<notin> fst ` set (rt_restore rt)" by (simp add: map_of_eq_None_iff)
  then show ?thesis using assms None by (simp add: undoes_def overlay_new)
next
  case (Some p)
  then show ?thesis using assms by (simp add: undoes_def overlay_old)
qed

lemma inject_entries_undoes: "undoes rt e \<Longrightarrow> undoes (inject_entries te c es rt) e"
proof (induction te c es rt rule: inject_entries.induct)
  case (2 te c raw_key raw_value rest rt)
  show ?case
  proof (cases "py_strip raw_key = [] \<or> \<not> env_allowed c (py_strip raw_key)")
    case True
    then show ?thesis using 2 by simp
  next
    case False
    then show ?thesis using 2(2) [OF refl False inject_one_undoes [OF 2(3)]] by (simp add: Let_def)
  qed
qed simp_all

lemma inject_entries_allowed:
  "list_all (\<lambda>(k, p). env_allowed c k) (rt_restore rt) \<Longrightarrow> list_all (\<lambda>(k, p). env_allowed c k) (rt_restore (inject_entries te c es rt))"
  by (induction te c es rt rule: inject_entries.induct) (simp_all add: Let_def)

lemma restore_overlay: "distinct (map fst rs) \<Longrightarrow> map_of (restore_entries rs environ) = overlay rs environ"
proof (induction rs arbitrary: environ)
  case Nil
  then show ?case by (simp add: overlay_def [abs_def])
next
  case (Cons r rs)
  obtain key p where r: "r = (key, p)" by (cases r)
  have "key \<notin> fst ` set rs" using Cons.prems by (simp add: r)
  then have "map_of rs key = None" by (simp add: map_of_eq_None_iff)
  then have "overlay rs (case p of None \<Rightarrow> AList.delete key environ | Some v \<Rightarrow> AList.update key v environ) = overlay (r # rs) environ"
    by (intro ext) (auto simp: r overlay_def update_conv' delete_conv' split: option.split)
  then show ?case using Cons by (simp add: r)
qed

lemma undoes_restore: "undoes rt e \<Longrightarrow> map_of (rt_environ (restore_skill_env_after_run rt)) = e"
  by (simp add: restore_skill_env_after_run_def restore_overlay undoes_def)

lemma undoes_keeps: "undoes rt e \<Longrightarrow> keeps rt rt' \<Longrightarrow> undoes rt' e"
  by (simp add: undoes_def keeps_def)

lemma close_run_undoes: "undoes rt e \<Longrightarrow> map_of (rt_environ (close_run ctx rt)) = e \<and> rt_restore (close_run ctx rt) = []"
proof -
  assume u: "undoes rt e"
  have "undoes (rt\<lparr>rt_tools := ts\<rparr>) e" for ts using u by (simp add: undoes_def)
  then show ?thesis unfolding close_run_def Let_def by (simp add: undoes_restore) (simp add: restore_skill_env_after_run_def)
qed

lemma run_loop_undoes: "undoes rt e \<Longrightarrow> map_of (rt_environ (snd (run_loop ne ctx rt))) = e \<and> rt_restore (snd (run_loop ne ctx rt)) = []"
proof -
  assume u: "undoes rt e"
  obtain out rt1 where d: "decision_loop ne ctx rt = (out, rt1)" by force
  have u1: "undoes rt1 e" using undoes_keeps [OF u] decision_loop_most [of rt ne ctx] d by (simp add: calls_most_def)
  have "undoes (rt1\<lparr>rt_tools := ts\<rparr>) e" for ts using u1 by (simp add: undoes_def)
  note fin = close_run_undoes [OF this, of ctx] close_run_undoes [OF u1, of ctx]
  show ?thesis using d by (cases out) (simp_all add: run_loop_def Let_def fin)
qed

lemma inject_undoes: "rt_restore rt = [] \<Longrightarrow> undoes (inject_skill_env_for_run te (capture_run_snapshot rt)) (map_of (rt_environ rt))"
proof -
  assume "rt_restore rt = []"
  then have "undoes (capture_run_snapshot rt) (map_of (rt_environ rt))" by (simp add: undoes_def overlay_def [abs_def])
  then show ?thesis unfolding inject_skill_env_for_run_def by (auto intro: inject_entries_undoes split: option.split)
qed

subsection \<open>Properties\<close>

text \<open>
  C7. Whatever the model answers, a run of the agent calls models at most
  \<open>(max_function_calls + 1) * llm_retry_attempts * (1 + fallback models)\<close> times, for any
  configuration, and returns.
\<close>

theorem llm_calls_bounded:
  "length (rt_models_called (snd (run_agent ne ctx rt))) \<le> length (rt_models_called rt)
     + Suc (max_iterations_of (ts_config (rt_tools rt)))
       * (nat (count_setting (ts_config (rt_tools rt)) ''llm_retry_attempts'' 1) * Suc (length (fallback_models (ts_config (rt_tools rt)))))"
proof -
  let ?rt1 = "inject_skill_env_for_run (ne_tool ne) (capture_run_snapshot rt)"
  have "length (rt_models_called (snd (run_loop ne ctx (?rt1\<lparr>rt_heartbeat := hb\<rparr>)))) \<le> length (rt_models_called rt) + run_bound (ts_config (rt_tools rt))" for hb
    using run_loop_called [of ne ctx "?rt1\<lparr>rt_heartbeat := hb\<rparr>"] by simp
  with run_agent_cases [of ne ctx rt] show ?thesis
    by (auto simp: run_bound_def completion_bound_def)
qed


lemma estimate_div: "estimate_text_tokens t = (int (length t) + 3) div 4"
  by (cases t) (simp_all add: estimate_text_tokens_def max_def)

text \<open>The estimate \<open>q\<close> of a text of length \<open>n\<close>, as two inequations.\<close>

lemma estimate_bounds: "4 * estimate_text_tokens t \<le> int (length t) + 3" "int (length t) \<le> 4 * estimate_text_tokens t"
  by (simp_all add: estimate_div)

lemma truncate_length:
  "0 < m \<Longrightarrow> m < estimate_text_tokens t \<Longrightarrow> int (length (truncate_text_to_tokens t m)) = 4 * m"
  using estimate_bounds(1) [of t] by (auto simp: truncate_text_to_tokens_def estimate_text_tokens_def)

lemma truncate_keep: "0 < m \<Longrightarrow> estimate_text_tokens t \<le> m \<Longrightarrow> truncate_text_to_tokens t m = t"
  by (auto simp: truncate_text_to_tokens_def)

lemma truncate_none: "m \<le> 0 \<Longrightarrow> truncate_text_to_tokens t m = []"
  by (simp add: truncate_text_to_tokens_def)

lemma estimate_nonneg: "0 \<le> estimate_text_tokens t"
  by (simp add: estimate_div)

lemma estimate_truncate: "estimate_text_tokens (truncate_text_to_tokens t m) \<le> max 0 m"
proof (cases "m \<le> 0")
  case True
  then show ?thesis by (simp add: truncate_none estimate_text_tokens_def)
next
  case False
  then show ?thesis
    using truncate_length [of m t] truncate_keep [of m t] estimate_bounds(1) [of "truncate_text_to_tokens t m"] by (cases "estimate_text_tokens t \<le> m") auto
qed

lemma prompt_length:
  "length (build_system_prompt identity sc n) = length (build_system_prompt identity [] n) + (if sc = [] then 0 else 22 + length sc)"
  by (simp add: build_system_prompt_def)

text \<open>The prompt of skills cut to a budget \<open>b\<close>, and cut again to what the first cut went over.\<close>

lemma second_cut:
  assumes b: "0 < b" and u: "fixed = estimate_text_tokens (build_system_prompt identity [] n)"
    and over: "0 < estimate_text_tokens (build_system_prompt identity (truncate_text_to_tokens sc b) n) - (fixed + b)"
  shows "estimate_text_tokens (build_system_prompt identity
      (truncate_text_to_tokens sc (max 0 (b - (estimate_text_tokens (build_system_prompt identity (truncate_text_to_tokens sc b) n) - (fixed + b))))) n)
    \<le> fixed + b + 3"
proof -
  let ?P = "\<lambda>s. build_system_prompt identity s n"
  let ?t1 = "truncate_text_to_tokens sc b"
  define ov where "ov = estimate_text_tokens (?P ?t1) - (fixed + b)"
  define r where "r = b - ov"
  let ?t2 = "truncate_text_to_tokens sc (max 0 r)"
  have len: "int (length (?P s)) = int (length (?P [])) + (if s = [] then 0 else 22 + int (length s))" for s
    using prompt_length [of identity s n] by simp
  have eP: "4 * estimate_text_tokens (?P s) \<le> int (length (?P s)) + 3" "int (length (?P s)) \<le> 4 * estimate_text_tokens (?P s)" for s
    by (rule estimate_bounds)+
  have f: "4 * fixed \<le> int (length (?P [])) + 3" "int (length (?P [])) \<le> 4 * fixed" using eP [of "[]"] u by simp_all
  have ov: "0 < ov" using over by (simp add: ov_def)
  have e1: "estimate_text_tokens (?P ?t1) = fixed + b + ov" by (simp add: ov_def)
  have t1: "?t1 \<noteq> []" using e1 ov b u by (intro notI) simp
  have "estimate_text_tokens (?P ?t2) \<le> fixed + b + 3"
  proof (cases "0 < r")
    case False
    then show ?thesis using b u by (simp add: truncate_none)
  next
    case True
    note r = this
    have l1: "4 * (fixed + b + ov) \<le> int (length (?P [])) + 22 + int (length ?t1) + 3" using eP(1) [of ?t1] len [of ?t1] t1 e1 by simp
    have l1': "int (length ?t1) \<le> 4 * b"
      using estimate_bounds(2) [of ?t1] estimate_truncate [of sc b] b by linarith
    show ?thesis
    proof (cases "estimate_text_tokens sc \<le> r")
      case True
      have "r \<le> b" using ov by (simp add: r_def)
      then have same: "?t2 = sc" "?t1 = sc" using True r b by (simp_all add: truncate_keep)
      have "4 * estimate_text_tokens sc \<le> int (length sc) + 3" "int (length sc) \<le> 4 * estimate_text_tokens sc" by (rule estimate_bounds)+
      then have "int (length sc) \<le> 4 * r" using True by linarith
      then have "ov \<le> 3" using l1 same f r_def by simp
      then show ?thesis using e1 same by simp
    next
      case False
      then have l2: "int (length ?t2) = 4 * r" using r truncate_length [of r sc] by simp
      have "int (length (?P ?t2)) \<le> int (length (?P [])) + 22 + 4 * r" using len [of ?t2] l2 by (simp split: if_splits)
      then have e2: "4 * estimate_text_tokens (?P ?t2) \<le> int (length (?P [])) + 22 + 4 * r + 3" using eP(1) [of ?t2] by linarith
      show ?thesis
      proof (cases "3 \<le> ov")
        case True
        then show ?thesis using e2 f r_def by linarith
      next
        case False
        have "4 * r \<le> int (length ?t1)"
        proof (cases "estimate_text_tokens sc \<le> b")
          case True
          then show ?thesis using \<open>\<not> estimate_text_tokens sc \<le> r\<close> estimate_bounds(1) [of sc] b by (simp add: truncate_keep)
        next
          case False
          then show ?thesis using truncate_length [of b sc] b ov by (simp add: r_def)
        qed
        moreover have "int (length (?P [])) + 22 + int (length ?t1) \<le> 4 * (fixed + b + ov)" using eP(2) [of ?t1] len [of ?t1] t1 e1 by simp
        ultimately have "4 * estimate_text_tokens (?P ?t2) \<le> 4 * (fixed + b + ov) + 3" using e2 by linarith
        then have "estimate_text_tokens (?P ?t2) \<le> fixed + b + ov" by arith
        then show ?thesis using False by linarith
      qed
    qed
  qed
  then show ?thesis by (simp add: ov_def r_def)
qed

text \<open>
  C18. The system prompt and the user message of a run stay within the context window up to three
  tokens: identity, capabilities and the user message are cut to the window, and the text of the
  skills is cut to what they leave.
\<close>

theorem prompt_within_window:
  assumes limit: "0 < limit" and fit: "fit_prompt identity n (Some limit) skills_context user_message = (system, user)"
  shows "estimate_text_tokens system + estimate_text_tokens user \<le> limit + 3"
proof -
  let ?fixed = "estimate_text_tokens (build_system_prompt identity [] n)" and ?u = "estimate_text_tokens user_message"
  show ?thesis
  proof (cases "limit \<le> ?fixed + ?u")
    case cut: True
    let ?s = "truncate_text_to_tokens (build_system_prompt identity [] n) (max 1 (limit - 1))"
    have "estimate_text_tokens ?s \<le> max 0 (max 1 (limit - 1))" by (rule estimate_truncate)
    then have "estimate_text_tokens ?s \<le> limit" using limit by linarith
    moreover have "estimate_text_tokens (truncate_text_to_tokens user_message (max 0 (limit - estimate_text_tokens ?s))) \<le> max 0 (limit - estimate_text_tokens ?s)"
      using estimate_truncate [of user_message "max 0 (limit - estimate_text_tokens ?s)"] by simp
    ultimately show ?thesis using cut fit by (auto simp: fit_prompt_def Let_def)
  next
    case False
    define b where "b = limit - (?fixed + ?u)"
    have b: "0 < b" using False by (simp add: b_def)
    show ?thesis
      using False fit second_cut [OF b refl, where identity = identity and n = n and sc = skills_context]
      by (auto simp: fit_prompt_def Let_def b_def algebra_simps split: if_splits)
  qed
qed

text \<open>Over the window a prompt does go: here a window of 30 tokens takes a prompt of 32.\<close>

lemma prompt_exceeds_window:
  "case fit_prompt (replicate 40 CHR ''s'', []) 0 (Some 30) (replicate 24 CHR ''k'') (replicate 20 CHR ''u'') of (system, user) \<Rightarrow>
     30 < estimate_text_tokens system + estimate_text_tokens user"
  by code_simp

lemma prompt_within_window_witness:
  "case fit_prompt (replicate 40 CHR ''s'', []) 0 (Some 30) (replicate 24 CHR ''k'') (replicate 20 CHR ''u'') of (system, user) \<Rightarrow>
     estimate_text_tokens system + estimate_text_tokens user \<in> {31, 32, 33}"
  using prompt_exceeds_window
    prompt_within_window [of 30 "(replicate 40 CHR ''s'', [])" 0 "replicate 24 CHR ''k''" "replicate 20 CHR ''u''", OF _ prod.collapse [symmetric]]
  by (simp add: case_prod_beta) linarith

subsection \<open>Facts about triggers and visible tools\<close>

lemma put_record_frame [simp]:
  "handler_calls (rt_tools (put_record ne c rt)) = handler_calls (rt_tools rt)" "rt_models_called (put_record ne c rt) = rt_models_called rt"
  "rt_signals (put_record ne c rt) = rt_signals rt" "ts_agent_id (rt_tools (put_record ne c rt)) = ts_agent_id (rt_tools rt)"
  by (simp_all add: put_record_def tick_def handler_calls_def case_prod_beta split: option.split sum.split)

lemma inject_instructions_frame:
  assumes "inject_pending_signal_instructions ne now ctx rt = (ctx', rt')" and "rt_signals rt = Some s"
  shows "rx_trigger ctx' = rx_trigger ctx" "rx_tenant_id ctx' = rx_tenant_id ctx" "rx_run_id ctx' = rx_run_id ctx"
    and "rt_signals rt' = Some (snd (consume_in_memory now (ts_agent_id (rt_tools rt)) (rx_tenant_id ctx) s))"
    and "rt_models_called rt' = rt_models_called rt" "handler_calls (rt_tools rt') = handler_calls (rt_tools rt)"
    and "ts_agent_id (rt_tools rt') = ts_agent_id (rt_tools rt)"
  using assms by (auto simp: inject_pending_signal_instructions_def Let_def case_prod_beta split: if_splits)

lemma paused_stays:
  "as_paused (fst (get_in_memory a t (snd (consume_in_memory now a t s)))) = as_paused (state_at s (state_key a t))"
  by (simp add: get_in_memory_def Let_def consume_in_memory_eq)

lemma is_agent_paused_frame:
  "rt_models_called (snd (is_agent_paused t rt)) = rt_models_called rt" "rt_tools (snd (is_agent_paused t rt)) = rt_tools rt"
  by (simp_all add: is_agent_paused_def case_prod_beta split: option.split)

text \<open>The context that a trigger makes.\<close>

definition trigger_context :: "uuid \<Rightarrow> pyval \<Rightarrow> pyval \<Rightarrow> pyval \<Rightarrow> pyval \<Rightarrow> string \<Rightarrow> py_error + agent_run" where
  "trigger_context run_id event_name focus payload tenant_id agent =
     and_then (required_word ''event_name'' event_name) (\<lambda>name. and_then (required_word ''tenant_id'' tenant_id) (\<lambda>tenant.
       and_then (payload_dict payload) (\<lambda>p. agent_run_new (PStr agent) (PStr name) p focus (PStr tenant) (PStr run_id))))"

lemma trigger_paused:
  assumes ctx: "trigger_context run_id event_name focus payload tenant_id (ts_agent_id (rt_tools rt)) = Inr ctx"
    and s: "rt_signals rt = Some s" and paused: "as_paused (state_at s (state_key (ts_agent_id (rt_tools rt)) (rx_tenant_id ctx)))"
    and manual: "rx_trigger ctx \<noteq> ''signal_manual''"
  shows "\<exists>rt2. trigger_event ne now run_id event_name focus payload tenant_id rt
      = (Inr (run_dict ''skipped'' ctx [(PStr ''reason'', PStr ''agent_paused'')]), rt2)
    \<and> rt_models_called rt2 = rt_models_called rt \<and> handler_calls (rt_tools rt2) = handler_calls (rt_tools rt)"
proof -
  obtain ctx1 rt1 where i: "inject_pending_signal_instructions ne now ctx rt = (ctx1, rt1)" by force
  note f = inject_instructions_frame [OF i s]
  obtain p rt2 where a: "is_agent_paused (rx_tenant_id ctx1) rt1 = (p, rt2)" by force
  have p: "p"
    using a paused f paused_stays [of "ts_agent_id (rt_tools rt)" "rx_tenant_id ctx" now s] by (auto simp: is_agent_paused_def case_prod_beta)
  have same: "run_dict ''skipped'' ctx1 x = run_dict ''skipped'' ctx x" for x using f by (simp add: run_dict_def)
  have "trigger_event ne now run_id event_name focus payload tenant_id rt
      = (Inr (run_dict ''skipped'' ctx [(PStr ''reason'', PStr ''agent_paused'')]), record_paused_skip ne ctx1 rt2)"
    using ctx i a p manual f by (simp add: trigger_event_def trigger_context_def same)
  moreover have "rt_models_called (record_paused_skip ne ctx1 rt2) = rt_models_called rt"
      "handler_calls (rt_tools (record_paused_skip ne ctx1 rt2)) = handler_calls (rt_tools rt)"
    using is_agent_paused_frame [of "rx_tenant_id ctx1" rt1] a f by (simp_all add: record_paused_skip_def)
  ultimately show ?thesis by blast
qed

lemma filter_loop_origin:
  "c \<in> set (fst (filter_loop vf ag rc draws n cs g w)) \<Longrightarrow> \<exists>c0 \<in> set cs. cap_name c0 = cap_name c \<and> gate_passes rc c0 = gate_passes rc c"
proof (induction cs arbitrary: n g w)
  case (Cons c1 cs)
  have "gate_passes rc (inject_quality_hint (vf_cache vf) c1) = gate_passes rc c1" by (simp add: gate_passes_def)
  with Cons show ?case by (auto simp: filter_loop_Cons Let_def split: if_splits)
qed simp

lemma gate_passes_view:
  "schema_name s = schema_name s' \<Longrightarrow> gate_passes rc (schema_view metas s) = gate_passes rc (schema_view metas s')"
  by (simp add: schema_view_def schema_name_def gate_passes_def capability_new_def Let_def split: option.split)

lemma schema_view_name: "schema_name s = PStr n \<Longrightarrow> cap_name (schema_view metas s) = n"
  by (simp add: schema_view_def schema_name_def capability_new_def Let_def split: option.split)

lemma limits_subset: "set (apply_tool_resource_limits c tools) \<subseteq> set tools"
  by (auto simp: apply_tool_resource_limits_def split: option.splits pyval.splits dest: in_set_takeD)

lemma builtin_schema_names: "list_all (\<lambda>s. case schema_name s of PStr n \<Rightarrow> is_builtin n | _ \<Rightarrow> False) get_tool_schemas"
  by code_simp

lemma builtin_schemas_builtin: "s \<in> set (builtin_schemas ts) \<Longrightarrow> is_builtin_schema ts s"
  using builtin_schema_names by (cases "ts_builtin ts") (auto simp: builtin_schemas_def is_builtin_schema_def list_all_iff split: pyval.splits)

lemma capability_schema_named: "s \<in> set (capability_schemas ks ms) \<Longrightarrow> \<exists>n. schema_name s = PStr n"
  by (auto simp: capability_schemas_def schema_name_def function_schema_def dict_get_or_def dict_get_def)

text \<open>The schemas of the capabilities of a run.\<close>

definition capability_part :: "tool_state \<Rightarrow> pyval list" where
  "capability_part ts = (case ts_registry ts of None \<Rightarrow> [] | Some cy \<Rightarrow> capability_schemas (cy_skills cy) (run_capabilities cy ts))"

definition metas_of :: "tool_state \<Rightarrow> capability_meta list" where
  "metas_of ts = (case ts_registry ts of None \<Rightarrow> [] | Some cy \<Rightarrow> run_capabilities cy ts)"

lemma governed_split:
  assumes "list_all (\<lambda>s. \<not> is_builtin_schema ts s) (capability_part ts)"
  shows "filter (\<lambda>s. \<not> is_builtin_schema ts s) (all_schemas ts) = capability_part ts"
    and "take (length (all_schemas ts) - length (capability_part ts)) (all_schemas ts) = builtin_schemas ts"
proof -
  have "filter (\<lambda>s. \<not> is_builtin_schema ts s) (builtin_schemas ts) = []" using builtin_schemas_builtin by (simp add: filter_empty_conv)
  moreover have "filter (\<lambda>s. \<not> is_builtin_schema ts s) (capability_part ts) = capability_part ts" using assms by (simp add: list_all_iff)
  moreover have "all_schemas ts = builtin_schemas ts @ capability_part ts" by (simp add: all_schemas_def capability_part_def)
  ultimately show "filter (\<lambda>s. \<not> is_builtin_schema ts s) (all_schemas ts) = capability_part ts"
      "take (length (all_schemas ts) - length (capability_part ts)) (all_schemas ts) = builtin_schemas ts" by simp_all
qed

lemma map_filter_Some: "List.map_filter (\<lambda>c. c) (map (\<lambda>s. Some (f s)) xs) = map f xs"
  by (induction xs) (simp_all add: List.map_filter_simps)

text \<open>A schema whose name the filter gave back stands for a capability that passes the risk gate.\<close>

lemma shown_schema_passes:
  assumes c: "c \<in> set (fst (filter_loop vf ag rc draws n (map (schema_view metas) caps) g w))" and name: "schema_name s = PStr (cap_name c)"
    and named: "\<forall>s \<in> set caps. \<exists>n. schema_name s = PStr n"
  shows "gate_passes rc (schema_view metas s)"
proof -
  have passes: "gate_passes rc c" by (rule filter_loop_subset [OF c])
  obtain s' where s': "s' \<in> set caps" "cap_name (schema_view metas s') = cap_name c" "gate_passes rc (schema_view metas s') = gate_passes rc c"
    using filter_loop_origin [OF c] by (elim bexE) (simp only: set_map, elim conjE imageE, simp)
  obtain m where m: "schema_name s' = PStr m" using named s'(1) by blast
  have "schema_name s = schema_name s'" using schema_view_name [OF m, of metas] s'(2) m name by simp
  then have "gate_passes rc (schema_view metas s) = gate_passes rc (schema_view metas s')" by (rule gate_passes_view)
  then show ?thesis using s'(3) passes by blast
qed

lemma capability_part_named: "\<forall>s \<in> set (capability_part ts). \<exists>n. schema_name s = PStr n"
  unfolding capability_part_def by (cases "ts_registry ts") (simp_all add: capability_schema_named)

lemma governed_tools_eq:
  assumes distinct: "list_all (\<lambda>s. \<not> is_builtin_schema (rt_tools rt) s) (capability_part (rt_tools rt))"
    and g: "governed_tools ne ctx vf rt = Inr (tools, rt')"
    and rc: "run_context_new (PStr (rx_tenant_id ctx)) (if confirmed_key (ne_tool ne) (rx_payload ctx) = [] then None
        else Some (set (confirmed_key (ne_tool ne) (rx_payload ctx)))) = Inr rc"
  shows "tools = apply_tool_resource_limits (ts_config (rt_tools rt)) (builtin_schemas (rt_tools rt)
    @ filter (\<lambda>s. schema_name s \<in> PStr ` set (map cap_name (fst (filter_capabilities (ne_draws ne)
        (map (\<lambda>s. Some (schema_view (metas_of (rt_tools rt)) s)) (capability_part (rt_tools rt))) (rx_agent_id ctx) rc vf (rt_world rt)))))
        (capability_part (rt_tools rt)))"
  using g rc unfolding governed_tools_def Let_def governed_split [OF distinct] metas_of_def [symmetric] store_tools_def case_prod_beta by simp

lemma governed_tools_offer:
  assumes distinct: "list_all (\<lambda>s. \<not> is_builtin_schema (rt_tools rt) s) (capability_part (rt_tools rt))"
    and g: "governed_tools ne ctx vf rt = Inr (tools, rt')"
    and rc: "run_context_new (PStr (rx_tenant_id ctx)) (if confirmed_key (ne_tool ne) (rx_payload ctx) = [] then None
        else Some (set (confirmed_key (ne_tool ne) (rx_payload ctx)))) = Inr rc"
    and s: "s \<in> set tools"
  shows "s \<in> set (builtin_schemas (rt_tools rt)) \<or>
    gate_passes rc (schema_view (metas_of (rt_tools rt)) s) \<and> schema_name s \<in> PStr ` set (map cap_name (fst (filter_capabilities (ne_draws ne)
      (map (\<lambda>s. Some (schema_view (metas_of (rt_tools rt)) s)) (capability_part (rt_tools rt))) (rx_agent_id ctx) rc vf (rt_world rt))))"
proof -
  let ?ts = "rt_tools rt"
  let ?caps = "capability_part ?ts" and ?v = "schema_view (metas_of ?ts)"
  let ?shown = "fst (filter_capabilities (ne_draws ne) (map (\<lambda>s. Some (?v s)) ?caps) (rx_agent_id ctx) rc vf (rt_world rt))"
  have "s \<in> set (builtin_schemas ?ts @ filter (\<lambda>s. schema_name s \<in> PStr ` set (map cap_name ?shown)) ?caps)"
    using s unfolding governed_tools_eq [OF distinct g rc] using limits_subset by (rule rev_subsetD)
  then consider "s \<in> set (builtin_schemas ?ts)" | "schema_name s \<in> PStr ` set (map cap_name ?shown)"
    unfolding set_append set_filter by blast
  then show ?thesis
  proof cases
    case 1
    then show ?thesis by (rule disjI1)
  next
    case 2
    then obtain c where c: "c \<in> set ?shown" "schema_name s = PStr (cap_name c)" unfolding set_map by (elim imageE) simp
    have "?shown = fst (filter_loop vf (rx_agent_id ctx) rc (ne_draws ne) 0 (map ?v ?caps) (vf_gate vf) (rt_world rt))"
      unfolding filter_capabilities_simps map_filter_Some by simp
    with c(1) have "c \<in> set (fst (filter_loop vf (rx_agent_id ctx) rc (ne_draws ne) 0 (map ?v ?caps) (vf_gate vf) (rt_world rt)))" by (simp only:)
    from shown_schema_passes [OF this c(2) capability_part_named] 2 show ?thesis by (intro disjI2 conjI)
  qed
qed

subsection \<open>Properties of triggers and tools\<close>

text \<open>
  C13. A trigger for a paused agent, other than the manual one, calls no model and no handler: its
  answer says that the agent is paused.
\<close>

theorem paused_agent_rests:
  assumes "trigger_context run_id event_name focus payload tenant_id (ts_agent_id (rt_tools rt)) = Inr ctx" and "rt_signals rt = Some s"
    and "as_paused (state_at s (state_key (ts_agent_id (rt_tools rt)) (rx_tenant_id ctx)))" and "rx_trigger ctx \<noteq> ''signal_manual''"
    and "trigger_event ne now run_id event_name focus payload tenant_id rt = (r, rt')"
  shows "r = Inr (PDict [(PStr ''status'', PStr ''skipped''), (PStr ''run_id'', PStr (rx_run_id ctx)), (PStr ''reason'', PStr ''agent_paused'')])
    \<and> rt_models_called rt' = rt_models_called rt \<and> handler_calls (rt_tools rt') = handler_calls (rt_tools rt)"
  using trigger_paused [OF assms(1-4), of ne now] assms(5) by (auto simp: run_dict_def)

text \<open>
  C5. Where no capability has the name of a built-in tool, every tool that a governed pass offers
  the model is a built-in one, or a capability that the visibility filter shows now for this agent
  and run and that the risk gate lets pass: confirmed, or neither critical nor in need of a
  confirmation.
\<close>

theorem offered_tools_governed:
  assumes vf: "rt_filter rt = Some vf" and fresh: "map_of (rt_cache rt) (tools_key_of ne ctx) = None"
    and tools: "get_visible_tools ne ctx rt = Inr (tools, rt')"
    and rc: "run_context_new (PStr (rx_tenant_id ctx)) (if confirmed_key (ne_tool ne) (rx_payload ctx) = [] then None
        else Some (set (confirmed_key (ne_tool ne) (rx_payload ctx)))) = Inr rc"
    and d: "list_all (\<lambda>s. \<not> is_builtin_schema (rt_tools rt) s) (capability_part (rt_tools rt))"
    and s: "s \<in> set tools"
  shows "s \<in> set (builtin_schemas (rt_tools rt)) \<or>
    gate_passes rc (schema_view (metas_of (rt_tools rt)) s) \<and> schema_name s \<in> PStr ` set (map cap_name (fst (filter_capabilities (ne_draws ne)
      (map (\<lambda>s. Some (schema_view (metas_of (rt_tools rt)) s)) (capability_part (rt_tools rt))) (rx_agent_id ctx) rc vf (rt_world rt))))"
proof (cases "capability_part (rt_tools rt) = [] \<or> ts_registry (rt_tools rt) = None")
  case True
  then have "capability_part (rt_tools rt) = []" by (auto simp: capability_part_def)
  then have "all_schemas (rt_tools rt) = builtin_schemas (rt_tools rt)" by (simp add: all_schemas_def capability_part_def)
  moreover have "get_visible_tools ne ctx rt = Inr (all_schemas (rt_tools rt), rt)"
    using vf fresh True governed_split(1) [OF d] by (auto simp: get_visible_tools_def Let_def capability_part_def)
  ultimately show ?thesis using tools s by simp
next
  case False
  then have "governed_tools ne ctx vf rt = Inr (tools, rt')"
    using vf fresh tools governed_split(1) [OF d] by (auto simp: get_visible_tools_def Let_def)
  from governed_tools_offer [OF d this rc s] show ?thesis .
qed

text \<open>
  Governance speaks once: what a pass offered is offered again to every later run with the same
  agent, tenant and confirmations, whatever the filter, the ledger and the clock say by then.
\<close>

lemma cache_put_lookup: "map_of (cache_put key out cache) key = Some out"
proof -
  let ?c = "AList.delete key cache"
  have "map_of ?c key = None" by (simp add: delete_conv')
  then have "key \<notin> fst ` set ?c" by (simp only: map_of_eq_None_iff not_False_eq_True)
  then have "key \<notin> fst ` set (drop n ?c)" for n
    using image_mono [OF set_drop_subset [of n ?c], of fst] by blast
  then have "map_of (drop n ?c) key = None" for n by (simp add: map_of_eq_None_iff)
  then show ?thesis by (simp add: cache_put_def Let_def map_add_def)
qed

lemma visible_tools_frozen:
  assumes "governed_tools ne ctx vf rt = Inr (tools, rt')" and "tools_key_of ne2 ctx2 = tools_key_of ne ctx"
    and "rt_cache rt2 = rt_cache rt'"
  shows "\<exists>rt3. get_visible_tools ne2 ctx2 rt2 = Inr (tools, rt3) \<and> rt_filter rt3 = rt_filter rt2 \<and> rt_world rt3 = rt_world rt2"
proof -
  have "map_of (rt_cache rt') (tools_key_of ne ctx) = Some tools"
    using assms(1) by (auto simp: governed_tools_def Let_def and_then_Inr_iff store_tools_def cache_put_lookup case_prod_beta)
  then show ?thesis using assms(2,3) by (simp add: get_visible_tools_def Let_def)
qed

subsection \<open>An example\<close>

definition sample_call_env :: call_env where
  "sample_call_env = \<lparr>ce_tool = plain_env, ce_box = sample_box_env, ce_repr = (\<lambda>s. s), ce_mono = 0, ce_now = 0, ce_record_id = ''r1'', ce_request_id = ''q1'',
     ce_file = \<lparr>fv_current = None, fv_config = PDict [], fv_after = None\<rparr>, ce_random = 0, ce_ms = 0, ce_timeout = ''30.00''\<rparr>"

definition sample_agent_env :: agent_env where
  "sample_agent_env = \<lparr>ne_tool = plain_env, ne_dumps = (\<lambda>v. Inr []), ne_answer = (\<lambda>i. LlmTimeout), ne_call = (\<lambda>i. sample_call_env),
     ne_tick = (\<lambda>i. (''t1'', 0)), ne_ms = (\<lambda>i. 0), ne_draws = (\<lambda>i. (''d1'', 0)),
     ne_heartbeat = \<lparr>he_factory_configured = False, he_ledger_factory = NoFactory, he_db = DbFails, he_mono = 0, he_mono_after = 0, he_now = 0,
       he_schedule = None, he_iso = (\<lambda>s. None)\<rparr>, ne_cut = None, ne_date = (\<lambda>t. [])\<rparr>"

text \<open>Two handlers, one of them critical, a filter without evaluators, and a pause.\<close>

definition sample_handler :: "string \<Rightarrow> string \<Rightarrow> handler" where
  "sample_handler name risk = \<lparr>hd_name = name, hd_signature = AnyKeyword, hd_task_type = PNone, hd_constraints = PNone, hd_focus = PNone,
     hd_risk_level = PStr risk, hd_requires_confirmation = PNone, hd_description = [], hd_call = (\<lambda>kw. Returned PNone)\<rparr>"

definition sample_tool_state :: tool_state where
  "sample_tool_state = \<lparr>ts_agent_id = ''ann'', ts_config = PDict [], ts_builtin = None,
     ts_registry = Some \<lparr>cy_skills = [], cy_handlers = [(''pay'', sample_handler ''pay'' ''critical''), (''look'', sample_handler ''look'' ''low'')],
       cy_states = [], cy_timeout = 30, cy_calls = []\<rparr>,
     ts_capabilities = None, ts_gate = None, ts_queue = None, ts_ledger = None, ts_hatchet = None, ts_memory = None, ts_stamps = [],
     ts_audit = audit_log_new None, ts_notifier = False, ts_notified = [], ts_tool_calls = 0\<rparr>"

definition sample_tool_filter :: "unit visibility_filter" where
  "sample_tool_filter = \<lparr>vf_fail_policy = ''close'', vf_timeout = None, vf_evaluators = [], vf_gate = risk_gate_new 300 None ''risk_gate'',
     vf_inject = False, vf_cache = Map.empty\<rparr>"

definition sample_runtime :: "unit runtime" where
  "sample_runtime = \<lparr>rt_tools = sample_tool_state, rt_filter = Some sample_tool_filter, rt_world = (), rt_cache = [], rt_router = None,
     rt_signals = Some \<lparr>mc_max = 10, mc_states = Map.empty((''acme'', ''ann'') \<mapsto> \<lparr>as_paused = True, as_pending = []\<rparr>)\<rparr>, rt_heartbeat = None,
     rt_knowledge = None, rt_identity = (''soul'', []), rt_model = ''m'', rt_ready = True, rt_environ = [], rt_restore = [],
     rt_models_called = [], rt_ticks = 0\<rparr>"

definition sample_agent_run :: agent_run where
  "sample_agent_run = \<lparr>rx_agent_id = ''ann'', rx_trigger = ''cron'', rx_payload = PDict [], rx_focus_tag = None, rx_tenant_id = ''acme'', rx_run_id = ''r''\<rparr>"

lemma sample_context:
  "trigger_context ''r'' (PStr ''cron'') PNone PNone (PStr '' acme'') ''ann'' = Inr sample_agent_run"
  by code_simp

lemma paused_agent_rests_witness:
  "fst (trigger_event sample_agent_env 0 ''r'' (PStr ''cron'') PNone PNone (PStr '' acme'') sample_runtime)
     = Inr (PDict [(PStr ''status'', PStr ''skipped''), (PStr ''run_id'', PStr ''r''), (PStr ''reason'', PStr ''agent_paused'')])"
proof -
  have paused: "as_paused (state_at \<lparr>mc_max = 10, mc_states = Map.empty((''acme'', ''ann'') \<mapsto> \<lparr>as_paused = True, as_pending = []\<rparr>)\<rparr>
      (state_key ''ann'' ''acme''))" by code_simp
  show ?thesis
    using paused_agent_rests [OF _ _ _ _ prod.collapse [symmetric], of "''r''" "PStr ''cron''" PNone PNone "PStr '' acme''" sample_runtime sample_agent_run]
      sample_context paused
    by (simp add: sample_runtime_def sample_tool_state_def sample_agent_run_def)
qed

lemma sample_tools:
  "case get_visible_tools sample_agent_env sample_agent_run sample_runtime of
     Inr (tools, rt') \<Rightarrow> map schema_name tools = [PStr ''look''] | Inl e \<Rightarrow> False"
  by code_simp

lemma sample_named:
  "list_all (\<lambda>s. \<not> is_builtin_schema sample_tool_state s) (capability_part sample_tool_state)" "builtin_schemas sample_tool_state = []"
  by code_simp+

lemma sample_key: "map_of (rt_cache sample_runtime) (tools_key_of sample_agent_env sample_agent_run) = None"
    "confirmed_key (ne_tool sample_agent_env) (rx_payload sample_agent_run) = []" "rt_tools sample_runtime = sample_tool_state"
    "rt_filter sample_runtime = Some sample_tool_filter"
  by (simp_all add: sample_runtime_def) code_simp

lemma offered_tools_governed_witness:
  "case get_visible_tools sample_agent_env sample_agent_run sample_runtime of
     Inr (tools, rt') \<Rightarrow> map schema_name tools = [PStr ''look''] \<and> (case run_context_new (PStr ''acme'') None of
         Inr rc \<Rightarrow> gate_passes rc (schema_view (metas_of sample_tool_state) (hd tools)) | Inl e \<Rightarrow> False)
   | Inl e \<Rightarrow> False"
proof -
  obtain tools rt' where t: "get_visible_tools sample_agent_env sample_agent_run sample_runtime = Inr (tools, rt')"
      and names: "map schema_name tools = [PStr ''look'']" using sample_tools by (auto split: sum.splits)
  have "py_strip ''acme'' \<noteq> []" by code_simp
  then obtain rc where rc: "run_context_new (PStr ''acme'') None = Inr rc" by (simp add: run_context_new_def)
  have "hd tools \<in> set tools" using names by (cases tools) auto
  from offered_tools_governed [OF sample_key(4,1) t _ _ this, of rc] rc sample_key sample_named
  have "gate_passes rc (schema_view (metas_of sample_tool_state) (hd tools))" by (simp add: sample_agent_run_def)
  then show ?thesis using t names rc by simp
qed

end
