(* ===== verification/Spec2Isabelle.thy ===== *)
theory Spec2Isabelle
  imports Governance LedgerWriter Approval Migration ModelRouter Proxy Quality Signals QueueTrigger MemoryService Heartbeat CronProperties WebhookGateway RuntimeRun
begin

text \<open>
  A model of OwlClaw, a runtime that lets a language model call business capabilities under
  governance. All paths below are under \<open>src/owlclaw/\<close>.

  \<^bold>\<open>The program and how its parts interact.\<close> A trigger (cron, webhook, queue, signal, heartbeat)
  hands an event to \<open>AgentRuntime.trigger_event\<close>. A run puts together identity, skills and
  tools, and then calls a language model in rounds; each tool call of an answer goes through
  permissions, a rate, a schema and the migration gate before a handler of the registry or a
  built-in tool gets it. What the model is offered comes from the visibility filter, which asks
  the risk gate, then the evaluators it was assembled with: time, confirmation, budget, rate,
  circuit breaker. The last three read the execution ledger, which records every call, through
  its queries and its cost summary. A router picks the language model for a task and a proxy
  governs calls to it. The migration gate decides whether a capability that replaces existing
  code may act alone, and the approval queue keeps what a human must decide. Signals pause,
  resume, trigger and instruct an agent from outside. Memory keeps what an agent remembers.

  \<^bold>\<open>Theories.\<close>
  \<^item> \<open>Prelude\<close>: Python values, errors, strings, numbers, dates, slices, sorting, dictionaries,
    and the lemmas on them that every other theory uses.
  \<^item> \<open>Security\<close> (\<open>security/audit.py\<close>, \<open>security/risk_gate.py\<close>): the audit log and the gate
    that parks risky operations (\<open>rg_evaluate\<close>, \<open>rg_confirm\<close>, \<open>rg_reject\<close>, \<open>rg_expire\<close>). The
    lemmas follow a parked operation through any sequence of operations.
  \<^item> \<open>Visibility\<close> (\<open>governance/visibility.py\<close>): \<open>filter_capabilities\<close> and its parts. An evaluator
    is a function of a state shared with the ledger; the lemmas describe the result as a filter
    and give the invariant and the demand on pending operations of a whole pass.
  \<^item> \<open>Ledger\<close> (\<open>governance/ledger_inmemory.py\<close>, queries of \<open>governance/ledger.py\<close>): records,
    filters, the in-memory ledger, and the select statement of the database ledger. The locale
    \<open>ledger_view\<close> states what the evaluators rely on and is interpreted on the in-memory ledger.
  \<^item> \<open>LedgerWriter\<close> (\<open>governance/ledger.py\<close>): queue, background writer, flush with retries,
    fallback log; histories are lists of \<open>ledger_event\<close>.
  \<^item> \<open>Budget\<close>, \<open>Breaker\<close>, \<open>Restrictions\<close> (\<open>governance/constraints/\<close>): the five evaluators.
    \<open>budget_reach\<close> and \<open>breaker_reach\<close> are their reachable states; \<open>circuit_step\<close> is the abstract
    circuit automaton that the breaker refines.
  \<^item> \<open>Governance\<close> (\<open>OwlClaw._ensure_governance\<close> in \<open>app.py\<close>): the filter with the evaluators it is
    assembled with, over one in-memory ledger.
  \<^item> \<open>Approval\<close> (\<open>governance/approval_queue.py\<close>): \<open>aq_step\<close> is the step relation of the queue,
    \<open>request_moves\<close> the life of one request.
  \<^item> \<open>Migration\<close> (\<open>governance/risk_assessor.py\<close>, \<open>governance/migration_gate.py\<close>): risk score,
    weights, decision.
  \<^item> \<open>ModelRouter\<close> (\<open>governance/router.py\<close>) and \<open>Proxy\<close> (\<open>governance/proxy.py\<close>): model selection
    and the governed call, with its rate window and its circuit.
  \<^item> \<open>Quality\<close> (\<open>governance/quality_aggregator.py\<close>, \<open>quality_store.py\<close>, \<open>quality_detector.py\<close>).
  \<^item> \<open>SignalState\<close> and \<open>Signals\<close> (\<open>triggers/signal/\<close>): both stores of an agent's control state,
    under the locale \<open>control_store\<close>, then handlers, router, HTTP endpoint and MCP tools.
  \<^item> \<open>QueueConfig\<close> and \<open>QueueTrigger\<close> (\<open>triggers/queue/\<close>): redaction, configuration, the
    idempotency store under the locale \<open>idempotency_store\<close>, envelopes; then one message from
    the broker to its settlement, and the worker that runs it.

  \<^item> \<open>Regex\<close>: the patterns the code uses, as trees with a matcher, a search and a replacement.
    \<open>Masking\<close> (\<open>security/sanitizer.py\<close>, \<open>data_masker.py\<close>, \<open>rules.py\<close>): masker and sanitiser over
    them.
  \<^item> \<open>MemoryStore\<close>, \<open>MemoryLifecycle\<close>, \<open>ShortTermMemory\<close>, \<open>MemoryService\<close> (\<open>agent/memory/\<close>): the
    in-memory store with its search and cache, maintenance, the window of recent rounds and the
    snapshot, and the service over any store under the locales \<open>memory_backend\<close> and
    \<open>scoped_store\<close>.
  \<^item> \<open>Heartbeat\<close> (\<open>agent/runtime/heartbeat.py\<close>): whether there is anything to do.
  \<^item> \<open>Cron\<close>, \<open>CronRegistry\<close>, \<open>CronRun\<close>, \<open>CronProperties\<close> (\<open>triggers/cron.py\<close>): settings,
    registration and management, the run with its checks, slot, fallback and record, and what
    holds of it. The queue of waiting runs is under the locale \<open>min_queue\<close>.
  \<^item> \<open>WebhookEndpoints\<close>, \<open>WebhookExecution\<close>, \<open>WebhookMonitor\<close>, \<open>WebhookTransform\<close>, \<open>WebhookGateway\<close>
    (\<open>triggers/webhook/\<close>): endpoints and their validation, execution with idempotency and
    retries, events and alerts, parsing and the expression language over \<open>PyValues\<close> (Python's
    equality of values), and the routes that put them together.
  \<^item> \<open>Registry\<close> (\<open>capabilities/registry.py\<close>, \<open>capabilities/skills.py\<close>): the declared properties of a
    skill, loading by priority, prerequisites, handlers and state providers.
  \<^item> \<open>RuntimeGuards\<close>, \<open>RuntimeTools\<close>, \<open>RuntimeRun\<close> (\<open>agent/runtime/runtime.py\<close>, \<open>config.py\<close>,
    \<open>context.py\<close>): configuration, context and the guards of a call; one tool call; the visible
    tools, the prompt, the loop of decisions, the environment of the skills, runs and triggers.
    The lemmas say what each step keeps, so that a property of a run is one induction over rounds.
  \<^item> \<open>BuiltinTools\<close> (\<open>agent/tools.py\<close>): the seven tools every agent has and their budgets.
  \<^item> \<open>Knowledge\<close> (\<open>agent/runtime/identity.py\<close>, \<open>capabilities/knowledge.py\<close>): the identity of an
    agent and the text of its skills under a token budget.

  \<^bold>\<open>Correspondence.\<close> A definition has the name of the method it models, without its leading
  underscore, or that name with a prefix of its class where two classes share it. A record has
  one field per attribute that the modelled operations read or write. Clock readings, drawn
  identifiers, random draws and the answers of services are arguments, one per call. An
  exception is the left value of a sum, together with the state it leaves behind.

  \<^bold>\<open>Numbers, bounds and fuel.\<close> Python integers are \<open>int\<close>, so there is no wrap-around.
  \<open>Decimal\<close> and \<open>float\<close> are exact rationals (the standard deviation of \<open>Quality\<close> is a real):
  rounding, NaN and infinities are outside the model. No definition takes fuel that could run
  out: every loop of the modelled code runs over a list or a range that is there when it starts,
  so the definitions are total. The retry loops of \<open>LedgerWriter\<close> and \<open>QueueTrigger\<close> run over
  the explicit lists of their attempts, and \<open>decision_rounds\<close> counts down from
  \<open>max_function_calls\<close> as the code does. The timeout of a run cuts it between two rounds. Strings
  have code points below 256, and the digits of a text are the ten of ASCII.

  \<^bold>\<open>What is taken from outside.\<close> The evaluators of a filter, the query of a ledger where a lemma
  holds for any, UTF-8 and JSON decoding, the keyed hash of a signature, the text of a float or
  container, the search of a pattern that a schema or a rule brings, embeddings, the answers of
  language models, of governance hooks, of the scheduler and of handlers. For the triggers the
  agent runtime is such a service as well.

  \<^bold>\<open>Concurrency.\<close> The code is asynchronous on one thread. An operation that does not suspend, or
  holds its lock while it does, is one step. Where operations of several tasks interleave, the
  model has the steps apart: the ledger writer and its producers, and the lookup of an
  idempotency key and the run that follows it.

  \<^bold>\<open>Not modelled.\<close> Log lines, tracing and metrics exporters, which change nothing the program
  reads; the SQL stores behind the quality reports, the webhook repositories and the cost summary
  of the database ledger, which leave the work to a database; the Redis store of idempotency
  keys, which only forwards to its client; reading, parsing and watching configuration, identity
  and skill files (a parsed value or a text is an argument), with \<open>GovernanceProxy.from_config\<close>;
  the logging filter of the queue trigger. The triggers for database changes and for the HTTP
  API, capability bindings, the command line, OwlHub, the web console, the MCP server, the
  vector stores and the adapters to other services are listed in the manifest with the reason.
\<close>

end
